(* ===== verification/Prelude.thy ===== *)
theory Prelude
  imports Main "HOL-Library.Word" "HOL-Library.Sublist"
begin

text \<open>
  Shared vocabulary of the development: the byte-string and result types, the theorem
  collections the component theories extend, list and option facts used by several
  components, and the locale of inductive invariants that every step relation of the
  development interprets.
\<close>

section \<open>Types\<close>

text \<open>
  A Go \<^theory_text>\<open>string\<close> or \<^theory_text>\<open>[]byte\<close> is a sequence of bytes; an Isabelle
  \<open>char\<close> is exactly one byte, so both are modelled as \<open>string\<close>. An error value is
  its text, and a Go result pair \<open>(T, error)\<close> is a sum with the error on the left.
\<close>

type_synonym bytes = string
type_synonym err = string
type_synonym 'a result = "err + 'a"

text \<open>The panic of following a nil pointer.\<close>

definition nil_deref :: err where
  "nil_deref = ''invalid memory address or nil pointer dereference''"

named_theorems go_simps "evaluation rules for the Go library functions"
named_theorems step_simps "field equations of the step functions"

section \<open>Lists, options, sums\<close>

lemma take_append_take_drop [simp]:
  "take n xs @ take m (drop n xs) = take (n + m) xs"
  by (simp add: take_add)

lemma take_min_length: "take (min n (length xs)) xs = take n xs"
  by (simp add: min_def)

lemma list_update_same_or: "i < length xs \<Longrightarrow> xs[i := x] ! j = (if i = j then x else xs ! j)"
  by simp

lemma filter_remove_absent: "x \<notin> set xs \<Longrightarrow> filter (\<lambda>y. y \<noteq> x) xs = xs"
  by (induction xs) auto

lemma distinct_remove1_filter: "distinct xs \<Longrightarrow> remove1 x xs = filter (\<lambda>y. y \<noteq> x) xs"
  by (simp add: distinct_remove1_removeAll removeAll_filter_not_eq) (metis)

lemma map_nth_upt [simp]: "map ((!) xs) [0..<length xs] = xs"
  by (rule map_nth)

lemma hd_drop_nth: "n < length xs \<Longrightarrow> drop n xs = xs ! n # drop (Suc n) xs"
  by (rule Cons_nth_drop_Suc [symmetric])

lemma upt_split: "a \<le> b \<Longrightarrow> b \<le> c \<Longrightarrow> [a..<c] = [a..<b] @ [b..<c]"
  by (metis le_add_diff_inverse upt_add_eq_append)

lemma takeWhile_stop [simp]: "x \<notin> set xs \<Longrightarrow> takeWhile (\<lambda>c. c \<noteq> x) (xs @ x # ys) = xs"
  by (induction xs) auto

lemma dropWhile_stop [simp]: "x \<notin> set xs \<Longrightarrow> dropWhile (\<lambda>c. c \<noteq> x) (xs @ x # ys) = x # ys"
  by (induction xs) auto

lemma case_sum_Inr_conv: "(case r of Inl e \<Rightarrow> False | Inr x \<Rightarrow> P x) \<longleftrightarrow> (\<exists>x. r = Inr x \<and> P x)"
  by (cases r) auto

section \<open>Inductive invariants\<close>

text \<open>
  A step relation and a predicate it preserves. The components that run concurrently with
  a goroutine (the hash pipeline, the transfer streams) interpret this locale, so that an
  invariant of one step is one of every run.
\<close>

locale step_invariant =
  fixes step :: "'s \<Rightarrow> 's \<Rightarrow> bool" and inv :: "'s \<Rightarrow> bool"
  assumes preserved: "inv s \<Longrightarrow> step s t \<Longrightarrow> inv t"
begin

lemma run_preserves: "step\<^sup>*\<^sup>* s t \<Longrightarrow> inv s \<Longrightarrow> inv t"
  by (induction rule: rtranclp_induct) (auto intro: preserved)

end

text \<open>
  A step relation whose steps lower a measure: every run is finite, of length at most the
  measure of its first state.
\<close>

locale step_measure =
  fixes step :: "'s \<Rightarrow> 's \<Rightarrow> bool" and m :: "'s \<Rightarrow> nat"
  assumes decreases: "step s t \<Longrightarrow> m t < m s"
begin

lemma run_bound: "(step ^^ n) s t \<Longrightarrow> n + m t \<le> m s"
proof (induction n arbitrary: t)
  case 0
  then show ?case by simp
next
  case (Suc n)
  then obtain u where "(step ^^ n) s u" and "step u t" by auto
  with Suc.IH [of u] decreases [of u t] show ?case by simp
qed

lemma no_infinite_run: "\<not> (\<forall>i. step (f i) (f (Suc i)))"
proof
  assume "\<forall>i. step (f i) (f (Suc i))"
  then have "m (f (Suc i)) < m (f i)" for i by (simp add: decreases)
  then have dec: "Suc (m (f (Suc i))) \<le> m (f i)" for i by (simp add: Suc_le_eq)
  have "i + m (f i) \<le> m (f 0)" for i
  proof (induction i)
    case (Suc i)
    with dec [of i] show ?case by simp
  qed simp
  from this [of "Suc (m (f 0))"] show False by simp
qed

end

end
