(* ===== verification/Gostr.thy ===== *)
theory Gostr
  imports Prelude
begin

text \<open>
  The functions of the Go packages \<^verbatim>\<open>strconv\<close>, \<^verbatim>\<open>strings\<close>, \<^verbatim>\<open>path/filepath\<close> and
  the \<^verbatim>\<open>fmt\<close> verbs that the program uses, on byte strings. White space and letter case
  are those of ASCII. The lemmas are the round trips the components rest on: decimal
  printing and parsing, splitting and joining, cleaning a path.
\<close>

section \<open>Decimal numbers\<close>

definition digit_char :: "nat \<Rightarrow> char" where
  "digit_char d = char_of (48 + d)"

definition is_digit :: "char \<Rightarrow> bool" where
  "is_digit c \<longleftrightarrow> 48 \<le> (of_char c :: nat) \<and> (of_char c :: nat) \<le> 57"

definition digit_val :: "char \<Rightarrow> nat" where
  "digit_val c = of_char c - 48"

fun dec :: "nat \<Rightarrow> string" where
  "dec n = (if n < 10 then [digit_char n] else dec (n div 10) @ [digit_char (n mod 10)])"

declare dec.simps [simp del]

text \<open>\<^verbatim>\<open>strconv.Itoa\<close> and the verb \<^verbatim>\<open>%d\<close>.\<close>

definition itoa :: "int \<Rightarrow> string" where
  "itoa i = (if i < 0 then CHR ''-'' # dec (nat (- i)) else dec (nat i))"

text \<open>The verbs \<^verbatim>\<open>%03d\<close>, \<^verbatim>\<open>%05d\<close>, \<^verbatim>\<open>%09d\<close> on a number that is not negative.\<close>

definition dec_pad :: "nat \<Rightarrow> nat \<Rightarrow> string" where
  "dec_pad w n = replicate (w - length (dec n)) CHR ''0'' @ dec n"

fun dec_val :: "nat \<Rightarrow> string \<Rightarrow> nat option" where
  "dec_val acc [] = Some acc"
| "dec_val acc (c # cs) = (if is_digit c then dec_val (acc * 10 + digit_val c) cs else None)"

text \<open>
  \<^verbatim>\<open>strconv.Atoi\<close> and \<^verbatim>\<open>strconv.ParseInt(s, 10, 64)\<close>: an optional sign, at least one
  digit, and a value of the 64-bit range; any other string is an error (\<open>None\<close>).
\<close>

definition in_int64 :: "int \<Rightarrow> bool" where
  "in_int64 i \<longleftrightarrow> - (2 ^ 63) \<le> i \<and> i < 2 ^ 63"

definition atoi_unsigned :: "string \<Rightarrow> nat option" where
  "atoi_unsigned s = (if s = [] then None else dec_val 0 s)"

definition in_range64 :: "int option \<Rightarrow> int option" where
  "in_range64 r = (case r of None \<Rightarrow> None | Some i \<Rightarrow> if in_int64 i then Some i else None)"

definition parse_decimal :: "string \<Rightarrow> int option" where
  "parse_decimal s = (case s of
      [] \<Rightarrow> None
    | c # cs \<Rightarrow>
        if c = CHR ''-'' then map_option (\<lambda>n. - int n) (atoi_unsigned cs)
        else if c = CHR ''+'' then map_option int (atoi_unsigned cs)
        else map_option int (atoi_unsigned s))"

definition atoi :: "string \<Rightarrow> int option" where
  "atoi s = in_range64 (parse_decimal s)"

lemma of_char_digit_char [simp]: "d < 10 \<Longrightarrow> (of_char (digit_char d) :: nat) = 48 + d"
  by (simp add: digit_char_def)

lemma is_digit_digit_char [simp]: "d < 10 \<Longrightarrow> is_digit (digit_char d)"
  by (simp add: is_digit_def)

lemma digit_val_digit_char [simp]: "d < 10 \<Longrightarrow> digit_val (digit_char d) = d"
  by (simp add: digit_val_def)

lemma dec_nonempty [simp]: "dec n \<noteq> []"
  by (subst dec.simps) simp

lemma dec_digits: "c \<in> set (dec n) \<Longrightarrow> is_digit c"
proof (induction n rule: dec.induct)
  case (1 n)
  show ?case
  proof (cases "n < 10")
    case True
    with "1.prems" show ?thesis by (simp add: dec.simps [of n])
  next
    case False
    with "1.prems" have "c \<in> set (dec (n div 10)) \<or> c = digit_char (n mod 10)"
      by (auto simp: dec.simps [of n])
    with "1.IH" [OF False] show ?thesis by auto
  qed
qed

lemma dec_val_append:
  "dec_val a (xs @ ys) = (case dec_val a xs of None \<Rightarrow> None | Some b \<Rightarrow> dec_val b ys)"
  by (induction xs arbitrary: a) auto

lemma dec_val_dec_gen: "\<exists>k. \<forall>a. dec_val a (dec n) = Some (a * 10 ^ k + n)"
proof (induction n rule: dec.induct)
  case (1 n)
  show ?case
  proof (cases "n < 10")
    case True
    then have "\<forall>a. dec_val a (dec n) = Some (a * 10 ^ 1 + n)" by (simp add: dec.simps [of n])
    then show ?thesis by blast
  next
    case False
    with "1.IH" obtain k where k: "\<forall>a. dec_val a (dec (n div 10)) = Some (a * 10 ^ k + n div 10)"
      by blast
    have "dec_val a (dec n) = Some (a * 10 ^ Suc k + n)" for a
      using False k by (simp add: dec.simps [of n] dec_val_append algebra_simps)
    then show ?thesis by blast
  qed
qed

lemma dec_val_dec [simp]: "dec_val 0 (dec n) = Some n"
  using dec_val_dec_gen [of n] by auto

lemma dec_inj [simp]: "dec m = dec n \<longleftrightarrow> m = n"
  by (metis dec_val_dec option.inject)

lemma minus_not_digit [simp]: "\<not> is_digit CHR ''-''" and plus_not_digit [simp]: "\<not> is_digit CHR ''+''"
  by (simp_all add: is_digit_def)

lemma digit_not_special:
  assumes "is_digit c"
  shows "c \<noteq> CHR ''/''" "c \<noteq> CHR 0x0A" "c \<noteq> CHR '' ''" "c \<noteq> CHR ''-''" "c \<noteq> CHR ''+''" "c \<noteq> CHR ''.''"
    "c \<noteq> CHR ''_''" "c \<noteq> CHR 0x00" "c \<noteq> CHR '':''"
  using assms by (auto simp: is_digit_def)

lemma atoi_dec:
  assumes "int n < 2 ^ 63"
  shows "atoi (dec n) = Some (int n)"
proof (cases "dec n")
  case Nil
  then show ?thesis by simp
next
  case (Cons c cs)
  then have "is_digit c" by (metis dec_digits list.set_intros(1))
  then have "c \<noteq> CHR ''-''" and "c \<noteq> CHR ''+''" by (auto dest: digit_not_special)
  moreover have "atoi_unsigned (c # cs) = Some n"
    using dec_val_dec [of n] Cons by (simp add: atoi_unsigned_def)
  ultimately show ?thesis
    using assms Cons by (simp add: atoi_def parse_decimal_def in_range64_def in_int64_def)
qed

text \<open>Printing then parsing a 64-bit integer gives it back.\<close>

lemma atoi_itoa: "in_int64 i \<Longrightarrow> atoi (itoa i) = Some i"
proof (cases "i < 0")
  case True
  moreover assume "in_int64 i"
  ultimately show ?thesis
    by (simp add: itoa_def atoi_def parse_decimal_def atoi_unsigned_def in_range64_def)
next
  case False
  moreover assume "in_int64 i"
  ultimately show ?thesis
    using atoi_dec [of "nat i"] by (simp add: itoa_def in_int64_def)
qed

lemma atoi_range: "atoi s = Some i \<Longrightarrow> in_int64 i"
  by (auto simp: atoi_def in_range64_def split: option.splits if_splits list.splits)

lemma itoa_nat [simp]: "itoa (int n) = dec n"
  by (simp add: itoa_def)

lemma dec_pad_wide: "w \<le> length (dec n) \<Longrightarrow> dec_pad w n = dec n"
  by (simp add: dec_pad_def)

lemma dec_val_replicate_zero [simp]: "dec_val 0 (replicate k CHR ''0'' @ s) = dec_val 0 s"
  by (induction k) (simp_all add: is_digit_def digit_val_def)

lemma dec_val_dec_pad [simp]: "dec_val 0 (dec_pad w n) = Some n"
  by (simp add: dec_pad_def)

lemma dec_pad_inj [simp]: "dec_pad w m = dec_pad w n \<longleftrightarrow> m = n"
  by (metis dec_val_dec_pad option.inject)

section \<open>Prefixes, suffixes, substrings\<close>

definition has_prefix :: "string \<Rightarrow> string \<Rightarrow> bool" where
  "has_prefix s p \<longleftrightarrow> take (length p) s = p"

definition has_suffix :: "string \<Rightarrow> string \<Rightarrow> bool" where
  "has_suffix s p \<longleftrightarrow> length p \<le> length s \<and> drop (length s - length p) s = p"

definition trim_prefix :: "string \<Rightarrow> string \<Rightarrow> string" where
  "trim_prefix s p = (if has_prefix s p then drop (length p) s else s)"

definition trim_suffix :: "string \<Rightarrow> string \<Rightarrow> string" where
  "trim_suffix s p = (if has_suffix s p then take (length s - length p) s else s)"

text \<open>\<^verbatim>\<open>strings.Contains(s, sub)\<close>.\<close>

fun str_contains :: "string \<Rightarrow> string \<Rightarrow> bool" where
  "str_contains [] sub = (sub = [])"
| "str_contains (c # cs) sub = (has_prefix (c # cs) sub \<or> str_contains cs sub)"

lemma has_prefix_conv: "has_prefix s p \<longleftrightarrow> (\<exists>r. s = p @ r)"
  by (auto simp: has_prefix_def) (metis append_take_drop_id)

lemma has_suffix_conv: "has_suffix s p \<longleftrightarrow> (\<exists>r. s = r @ p)"
proof
  assume "has_suffix s p"
  then have "s = take (length s - length p) s @ p"
    by (metis append_take_drop_id has_suffix_def)
  then show "\<exists>r. s = r @ p" ..
qed (auto simp: has_suffix_def)

lemma has_prefix_append [simp]: "has_prefix (p @ r) p"
  by (simp add: has_prefix_def)

lemma has_prefix_Nil [simp]: "has_prefix s []"
  by (simp add: has_prefix_def)

lemma has_suffix_append [simp]: "has_suffix (r @ p) p"
  by (simp add: has_suffix_def)

lemma trim_prefix_append [simp]: "trim_prefix (p @ r) p = r"
  by (simp add: trim_prefix_def)

lemma trim_suffix_append [simp]: "trim_suffix (r @ p) p = r"
  by (simp add: trim_suffix_def)

lemma str_contains_conv: "str_contains s sub \<longleftrightarrow> (\<exists>l r. s = l @ sub @ r)"
proof (induction s)
  case Nil
  then show ?case by simp
next
  case (Cons c cs)
  have "(\<exists>l r. c # cs = l @ sub @ r) \<longleftrightarrow> has_prefix (c # cs) sub \<or> (\<exists>l r. cs = l @ sub @ r)"
    (is "?L = ?R")
  proof
    assume ?L
    then obtain l r where lr: "c # cs = l @ sub @ r" by blast
    show ?R
    proof (cases l)
      case Nil
      with lr show ?thesis by (auto simp: has_prefix_conv)
    next
      case (Cons d l')
      with lr show ?thesis by auto
    qed
  next
    assume ?R
    then show ?L
      by (auto simp: has_prefix_conv) (metis append_Nil, metis append_Cons)
  qed
  with Cons show ?case by simp
qed

lemma str_contains_refl [simp]: "str_contains s s"
  by (auto simp: str_contains_conv intro: exI [of _ "[]"])

lemma str_contains_single: "str_contains s [c] \<longleftrightarrow> c \<in> set s"
  by (auto simp: str_contains_conv in_set_conv_decomp)

lemma str_contains_append_left: "str_contains s sub \<Longrightarrow> str_contains (l @ s) sub"
  by (auto simp: str_contains_conv) (metis append.assoc)

lemma str_contains_append_right: "str_contains s sub \<Longrightarrow> str_contains (s @ r) sub"
  by (auto simp: str_contains_conv) blast

section \<open>Splitting, joining, trimming\<close>

text \<open>\<^verbatim>\<open>strings.Split(s, string(c))\<close>: always at least one field.\<close>

fun split_on :: "char \<Rightarrow> string \<Rightarrow> string list" where
  "split_on c [] = [[]]"
| "split_on c (x # xs) =
     (if x = c then [] # split_on c xs
      else (case split_on c xs of [] \<Rightarrow> [[x]] | f # fs \<Rightarrow> (x # f) # fs))"

text \<open>\<^verbatim>\<open>strings.Join(fields, sep)\<close>.\<close>

fun join :: "string \<Rightarrow> string list \<Rightarrow> string" where
  "join sep [] = []"
| "join sep [s] = s"
| "join sep (s # t # ts) = s @ sep @ join sep (t # ts)"

definition is_space :: "char \<Rightarrow> bool" where
  "is_space c \<longleftrightarrow> c \<in> {CHR '' '', CHR 0x09, CHR 0x0A, CHR 0x0B, CHR 0x0C, CHR 0x0D}"

text \<open>\<^verbatim>\<open>strings.TrimRight\<close>, \<^verbatim>\<open>strings.TrimSpace\<close> and \<^verbatim>\<open>strings.Fields\<close>.\<close>

definition trim_left_by :: "(char \<Rightarrow> bool) \<Rightarrow> string \<Rightarrow> string" where
  "trim_left_by p s = dropWhile p s"

definition trim_right_by :: "(char \<Rightarrow> bool) \<Rightarrow> string \<Rightarrow> string" where
  "trim_right_by p s = rev (dropWhile p (rev s))"

definition trim_space :: "string \<Rightarrow> string" where
  "trim_space s = trim_right_by is_space (trim_left_by is_space s)"

fun fields_acc :: "string \<Rightarrow> string \<Rightarrow> string list" where
  "fields_acc w [] = (if w = [] then [] else [rev w])"
| "fields_acc w (c # cs) =
     (if is_space c then (if w = [] then fields_acc [] cs else rev w # fields_acc [] cs)
      else fields_acc (c # w) cs)"

definition str_fields :: "string \<Rightarrow> string list" where
  "str_fields s = fields_acc [] s"

lemma split_on_nonempty [simp]: "split_on c s \<noteq> []"
  by (induction s) (auto split: list.splits)

lemma split_on_no_sep: "c \<notin> set s \<Longrightarrow> split_on c s = [s]"
  by (induction s) auto

lemma split_on_append: "c \<notin> set s \<Longrightarrow> split_on c (s @ c # t) = s # split_on c t"
  by (induction s) auto

lemma split_on_append_sep: "split_on c (s @ c # t) = split_on c s @ split_on c t"
  by (induction s) (auto split: list.splits)

lemma split_on_fields: "f \<in> set (split_on c s) \<Longrightarrow> c \<notin> set f"
proof (induction s arbitrary: f)
  case (Cons x xs)
  then show ?case
    by (cases "split_on c xs") (auto split: if_splits)
qed simp

lemma join_Cons: "ts \<noteq> [] \<Longrightarrow> join sep (s # ts) = s @ sep @ join sep ts"
  by (cases ts) auto

lemma join_Cons_if: "join sep (s # ts) = (if ts = [] then s else s @ sep @ join sep ts)"
  by (cases ts) auto

text \<open>Splitting what was joined, and joining what was split.\<close>

lemma split_join: "\<lbrakk>fs \<noteq> []; \<forall>f \<in> set fs. c \<notin> set f\<rbrakk> \<Longrightarrow> split_on c (join [c] fs) = fs"
proof (induction fs)
  case (Cons f fs)
  show ?case
  proof (cases "fs = []")
    case True
    with Cons.prems show ?thesis by (simp add: split_on_no_sep)
  next
    case False
    with Cons show ?thesis by (simp add: join_Cons split_on_append)
  qed
qed simp

lemma join_split: "join [c] (split_on c s) = s"
proof (induction s)
  case (Cons x xs)
  show ?case
  proof (cases "split_on c xs")
    case Nil
    then show ?thesis by simp
  next
    case (Cons f fs)
    with Cons.IH have "join [c] (f # fs) = xs" by simp
    with Cons show ?thesis by (cases fs) auto
  qed
qed simp

lemma trim_right_by_none: "s \<noteq> [] \<Longrightarrow> \<not> p (last s) \<Longrightarrow> trim_right_by p s = s"
  by (cases s rule: rev_cases) (auto simp: trim_right_by_def)

lemma trim_right_by_snoc: "p c \<Longrightarrow> trim_right_by p (s @ [c]) = trim_right_by p s"
  by (simp add: trim_right_by_def)

lemma trim_right_by_Nil [simp]: "trim_right_by p [] = []"
  by (simp add: trim_right_by_def)

lemma set_trim_space: "set (trim_space s) \<subseteq> set s"
  by (auto simp: trim_space_def trim_right_by_def trim_left_by_def dest!: set_dropWhileD)

lemma trim_space_plain:
  assumes "s \<noteq> []" and "\<forall>c \<in> set s. \<not> is_space c"
  shows "trim_space s = s"
proof -
  have "\<not> is_space (hd s)" and "\<not> is_space (last s)" using assms by auto
  with assms(1) show ?thesis
    by (cases s) (auto simp: trim_space_def trim_left_by_def intro: trim_right_by_none)
qed

lemma digit_not_space: "is_digit c \<Longrightarrow> \<not> is_space c"
  by (auto simp: is_digit_def is_space_def)

lemma trim_space_dec_newline: "trim_space (dec n @ [CHR 0x0A]) = dec n"
proof -
  obtain c cs where c: "dec n = c # cs" by (cases "dec n") auto
  then have "is_digit c" by (metis dec_digits list.set_intros(1))
  then have "trim_left_by is_space (dec n @ [CHR 0x0A]) = dec n @ [CHR 0x0A]"
    using c digit_not_space by (simp add: trim_left_by_def)
  moreover have "\<not> is_space (last (dec n))"
    by (metis dec_digits dec_nonempty digit_not_space last_in_set)
  ultimately show ?thesis
    by (simp add: trim_space_def trim_right_by_snoc is_space_def trim_right_by_none)
qed

lemma fields_acc_word: "\<forall>c \<in> set s. \<not> is_space c \<Longrightarrow> fields_acc w (s @ t) = fields_acc (rev s @ w) t"
  by (induction s arbitrary: w) auto

section \<open>Slash-separated paths\<close>

text \<open>
  \<^verbatim>\<open>filepath.Clean\<close>: empty and \<open>.\<close> elements vanish and a \<open>..\<close> removes the
  element before it; at the root it vanishes, and in a relative path that has nothing left to
  remove it stays. The output is built in reverse.
\<close>

fun clean_elems :: "bool \<Rightarrow> string list \<Rightarrow> string list \<Rightarrow> string list" where
  "clean_elems rooted out [] = rev out"
| "clean_elems rooted out (e # es) =
     (if e = [] \<or> e = ''.'' then clean_elems rooted out es
      else if e = ''..'' then
        (case out of
           [] \<Rightarrow> if rooted then clean_elems rooted [] es else clean_elems rooted [''..''] es
         | o1 # os \<Rightarrow> if o1 = ''..'' then clean_elems rooted (''..'' # out) es
                      else clean_elems rooted os es)
      else clean_elems rooted (e # out) es)"

definition path_clean :: "string \<Rightarrow> string" where
  "path_clean p =
     (if p = [] then ''.''
      else let rooted = has_prefix p ''/'';
               es = clean_elems rooted [] (split_on CHR ''/'' p)
           in if rooted then CHR ''/'' # join ''/'' es
              else if es = [] then ''.'' else join ''/'' es)"

text \<open>\<^verbatim>\<open>filepath.Join\<close> and \<^verbatim>\<open>filepath.Base\<close>.\<close>

definition path_join :: "string list \<Rightarrow> string" where
  "path_join es =
     (case dropWhile (\<lambda>e. e = []) es of [] \<Rightarrow> [] | fs \<Rightarrow> path_clean (join ''/'' fs))"

definition path_base :: "string \<Rightarrow> string" where
  "path_base p =
     (if p = [] then ''.''
      else let q = trim_right_by (\<lambda>c. c = CHR ''/'') p
           in if q = [] then ''/'' else last (split_on CHR ''/'' q))"

text \<open>
  A path is plain when it is absolute and made of ordinary elements only: then cleaning
  does nothing and joining an ordinary name appends it.
\<close>

definition plain_elem :: "string \<Rightarrow> bool" where
  "plain_elem e \<longleftrightarrow> e \<noteq> [] \<and> e \<noteq> ''.'' \<and> e \<noteq> ''..'' \<and> CHR ''/'' \<notin> set e"

definition abs_path :: "string list \<Rightarrow> string" where
  "abs_path es = CHR ''/'' # join ''/'' es"

lemma clean_elems_plain:
  "\<forall>e \<in> set es. plain_elem e \<Longrightarrow> clean_elems rooted out es = rev out @ es"
  by (induction es arbitrary: out) (auto simp: plain_elem_def)

lemma clean_elems_append_plain:
  "\<forall>e \<in> set es. plain_elem e \<Longrightarrow> clean_elems r out (es @ fs) = clean_elems r (rev es @ out) fs"
  by (induction es arbitrary: out) (auto simp: plain_elem_def)

lemma split_abs_path:
  "\<lbrakk>es \<noteq> []; \<forall>e \<in> set es. plain_elem e\<rbrakk> \<Longrightarrow> split_on CHR ''/'' (abs_path es) = [] # es"
  by (simp add: abs_path_def) (simp add: split_join plain_elem_def)

lemma path_clean_abs:
  assumes "es \<noteq> []" and "\<forall>e \<in> set es. plain_elem e"
  shows "path_clean (abs_path es) = abs_path es"
  using assms
  by (simp add: path_clean_def Let_def split_abs_path clean_elems_plain has_prefix_def)
     (simp add: abs_path_def)

lemma join_append: "es \<noteq> [] \<Longrightarrow> fs \<noteq> [] \<Longrightarrow> join sep (es @ fs) = join sep es @ sep @ join sep fs"
proof (induction es)
  case (Cons e es)
  then show ?case by (cases "es = []") (auto simp: join_Cons)
qed simp

lemma path_join_abs:
  assumes "es \<noteq> []" and "\<forall>e \<in> set es. plain_elem e" and "plain_elem n"
  shows "path_join [abs_path es, n] = abs_path (es @ [n])"
proof -
  have "join ''/'' [abs_path es, n] = abs_path (es @ [n])"
    using assms(1) by (simp add: abs_path_def join_append)
  moreover have "path_clean (abs_path (es @ [n])) = abs_path (es @ [n])"
    using assms by (intro path_clean_abs) auto
  ultimately show ?thesis by (simp add: path_join_def abs_path_def)
qed

end
