(* ===== verification/Testbin_World.thy ===== *)
theory Testbin_World
  imports Gostr
begin

text \<open>
  What the multicall binary of \<^verbatim>\<open>testbin/testbin.go\<close> runs on: the state of the process
  (standard input, the bytes written to standard output and standard error), the ways it can
  end, and the kernel and library calls it makes. The machine state \<open>'w\<close> and the calls on
  it are parameters: a command is a function of the record of calls, so every theorem holds
  for every behaviour of the machine it names no law for.
\<close>

section \<open>Errors and calls\<close>

text \<open>An error of package \<^verbatim>\<open>os\<close>, as \<^verbatim>\<open>os.IsNotExist\<close> classifies it, with its text.\<close>

datatype oserr = NotExist err | OtherErr err

fun os_text :: "oserr \<Rightarrow> err" where
  "os_text (NotExist e) = e"
| "os_text (OtherErr e) = e"

fun is_not_exist :: "oserr \<Rightarrow> bool" where
  "is_not_exist (NotExist e) = True"
| "is_not_exist (OtherErr e) = False"

text \<open>
  The files and clock calls: \<open>k_open\<close> gives the bytes a reader of the file delivers and
  the error reading ended in, if any; \<open>k_now\<close> gives seconds and nanoseconds. The shared
  memory calls: \<open>k_load\<close> reads the 4096 bytes mapped at an address and \<open>k_store\<close>
  writes one byte at an offset of it. The network calls carry addresses as text;
  \<open>k_stream\<close> is a connection's whole life under the pair of copies of ncStream: given the
  bytes of standard input it delivers the bytes the peer sent until it closed.
\<close>

record 'w kernel =
  k_open :: "'w \<Rightarrow> string \<Rightarrow> oserr + bytes \<times> err option"
  k_readfile :: "'w \<Rightarrow> string \<Rightarrow> oserr + bytes"
  k_lstat :: "'w \<Rightarrow> string \<Rightarrow> oserr option"
  k_readdir :: "'w \<Rightarrow> string \<Rightarrow> oserr + string list"
  k_now :: "'w \<Rightarrow> int \<times> nat"
  k_hostname :: "'w \<Rightarrow> string result"
  k_sethostname :: "'w \<Rightarrow> string \<Rightarrow> err option \<times> 'w"
  k_shmget :: "'w \<Rightarrow> int \<Rightarrow> nat \<Rightarrow> bool \<Rightarrow> nat result \<times> 'w"
  k_shmat :: "'w \<Rightarrow> nat \<Rightarrow> nat result \<times> 'w"
  k_shmdt :: "'w \<Rightarrow> nat \<Rightarrow> 'w"
  k_load :: "'w \<Rightarrow> nat \<Rightarrow> bytes"
  k_store :: "'w \<Rightarrow> nat \<Rightarrow> nat \<Rightarrow> char \<Rightarrow> 'w"
  k_openrw :: "'w \<Rightarrow> string \<Rightarrow> nat result \<times> 'w"
  k_openro :: "'w \<Rightarrow> string \<Rightarrow> nat result"
  k_truncate :: "'w \<Rightarrow> nat \<Rightarrow> nat \<Rightarrow> err option \<times> 'w"
  k_mmap :: "'w \<Rightarrow> nat \<Rightarrow> nat \<Rightarrow> bool \<Rightarrow> nat result \<times> 'w"
  k_munmap :: "'w \<Rightarrow> nat \<Rightarrow> err option \<times> 'w"
  k_lookup_host :: "'w \<Rightarrow> string \<Rightarrow> string list result"
  k_dial :: "'w \<Rightarrow> string \<Rightarrow> string \<Rightarrow> nat result \<times> 'w"
  k_listen :: "'w \<Rightarrow> string \<Rightarrow> string \<Rightarrow> (nat \<times> string) result \<times> 'w"
  k_accept :: "'w \<Rightarrow> nat \<Rightarrow> nat result \<times> 'w"
  k_read :: "'w \<Rightarrow> nat \<Rightarrow> nat \<Rightarrow> (bytes \<times> err option) \<times> 'w"
  k_write :: "'w \<Rightarrow> nat \<Rightarrow> bytes \<Rightarrow> err option \<times> 'w"
  k_close :: "'w \<Rightarrow> nat \<Rightarrow> 'w"
  k_stream :: "'w \<Rightarrow> nat \<Rightarrow> bytes \<Rightarrow> bytes \<times> 'w"
  k_resolve_udp :: "'w \<Rightarrow> string \<Rightarrow> string result"
  k_sendto :: "'w \<Rightarrow> nat \<Rightarrow> bytes \<Rightarrow> string \<Rightarrow> err option \<times> 'w"
  k_recvfrom :: "'w \<Rightarrow> nat \<Rightarrow> nat \<Rightarrow> bytes result \<times> 'w"
  k_readstdin :: "'w \<Rightarrow> bytes \<Rightarrow> bytes result"

section \<open>The process\<close>

text \<open>
  Standard output accepts \<open>room\<close> more bytes before its writes fail (\<open>None\<close>: no
  limit), as a pipe whose reader goes away does.
\<close>

record proc =
  stdin :: bytes
  stdout :: bytes
  stderr :: bytes
  room :: "nat option"

text \<open>A command ends with a status, panics, or runs until it is killed.\<close>

datatype ending = Exit int | Panic err | Running

definition new_proc :: "bytes \<Rightarrow> proc" where
  "new_proc inp = \<lparr>stdin = inp, stdout = [], stderr = [], room = None\<rparr>"

text \<open>A write to standard output: whether it succeeded, and the process after it.\<close>

definition put :: "bytes \<Rightarrow> proc \<Rightarrow> bool \<times> proc" where
  "put s p =
     (case room p of
        None \<Rightarrow> (True, p\<lparr>stdout := stdout p @ s\<rparr>)
      | Some r \<Rightarrow> (length s \<le> r, p\<lparr>stdout := stdout p @ take r s, room := Some (r - length s)\<rparr>))"

definition newline :: string where
  "newline = [CHR 0x0A]"

text \<open>\<^verbatim>\<open>fmt.Println\<close>, \<^verbatim>\<open>fmt.Printf\<close> and \<^verbatim>\<open>fmt.Fprintf(os.Stderr)\<close> ignore write errors.\<close>

definition print :: "bytes \<Rightarrow> proc \<Rightarrow> proc" where
  "print s p = snd (put s p)"

definition println :: "bytes \<Rightarrow> proc \<Rightarrow> proc" where
  "println s p = print (s @ newline) p"

definition eprint :: "bytes \<Rightarrow> proc \<Rightarrow> proc" where
  "eprint s p = p\<lparr>stderr := stderr p @ s\<rparr>"

definition eprintln :: "bytes \<Rightarrow> proc \<Rightarrow> proc" where
  "eprintln s p = eprint (s @ newline) p"

type_synonym 'w outcome = "'w \<times> proc \<times> ending"

definition fail :: "bytes \<Rightarrow> int \<Rightarrow> 'w \<Rightarrow> proc \<Rightarrow> 'w outcome" where
  "fail msg n w p = (w, eprintln msg p, Exit n)"

definition ending_of :: "'w outcome \<Rightarrow> ending" where
  "ending_of r = snd (snd r)"

definition proc_of :: "'w outcome \<Rightarrow> proc" where
  "proc_of r = fst (snd r)"

definition world_of :: "'w outcome \<Rightarrow> 'w" where
  "world_of r = fst r"

lemma outcome_sel [simp]:
  "ending_of (w, p, e) = e" "proc_of (w, p, e) = p" "world_of (w, p, e) = w"
  by (simp_all add: ending_of_def proc_of_def world_of_def)

lemma fail_sel [simp]:
  "ending_of (fail m n w p) = Exit n" "world_of (fail m n w p) = w"
  "proc_of (fail m n w p) = eprintln m p"
  by (simp_all add: fail_def)

lemma put_unlimited [simp]: "room p = None \<Longrightarrow> put s p = (True, p\<lparr>stdout := stdout p @ s\<rparr>)"
  by (simp add: put_def)

lemma print_unlimited [simp]: "room p = None \<Longrightarrow> print s p = p\<lparr>stdout := stdout p @ s\<rparr>"
  by (simp add: print_def)

lemma println_unlimited [simp]:
  "room p = None \<Longrightarrow> println s p = p\<lparr>stdout := stdout p @ s @ newline\<rparr>"
  by (simp add: println_def)

lemma print_keeps [simp]: "stderr (print s p) = stderr p" "stdin (print s p) = stdin p"
  by (simp_all add: print_def put_def split: option.split)

lemma eprint_keeps [simp]:
  "stdout (eprint s p) = stdout p" "room (eprint s p) = room p" "stdin (eprint s p) = stdin p"
  by (simp_all add: eprint_def)

lemma eprintln_keeps [simp]:
  "stdout (eprintln s p) = stdout p" "room (eprintln s p) = room p" "stdin (eprintln s p) = stdin p"
  by (simp_all add: eprintln_def)

lemma print_room_None [simp]: "room (print s p) = None \<longleftrightarrow> room p = None"
  by (simp add: print_def put_def split: option.split)

section \<open>Quoting\<close>

text \<open>The verb \<^verbatim>\<open>%q\<close> on ASCII text.\<close>

definition hexit :: "nat \<Rightarrow> char" where
  "hexit d = (if d < 10 then char_of (48 + d) else char_of (87 + d))"

definition quote_char :: "char \<Rightarrow> string" where
  "quote_char c =
     (let n = of_char c :: nat in
      if n = 34 then [char_of (92::nat), char_of (34::nat)]
      else if n = 92 then [char_of (92::nat), char_of (92::nat)]
      else if 32 \<le> n \<and> n < 127 then [c]
      else if n = 7 then CHR 0x5C # ''a'' else if n = 8 then CHR 0x5C # ''b''
      else if n = 9 then CHR 0x5C # ''t'' else if n = 10 then CHR 0x5C # ''n''
      else if n = 11 then CHR 0x5C # ''v'' else if n = 12 then CHR 0x5C # ''f''
      else if n = 13 then CHR 0x5C # ''r''
      else [CHR 0x5C, CHR ''x'', hexit (n div 16), hexit (n mod 16)])"

definition quote :: "string \<Rightarrow> string" where
  "quote s = char_of (34::nat) # concat (map quote_char s) @ [char_of (34::nat)]"

text \<open>The text of a \<^verbatim>\<open>strconv\<close> error: of the syntax, or of the 64-bit range.\<close>

definition num_error :: "string \<Rightarrow> string \<Rightarrow> err" where
  "num_error fn s = ''strconv.'' @ fn @ '': parsing '' @ quote s @ '': ''
     @ (if parse_decimal s = None then ''invalid syntax'' else ''value out of range'')"

text \<open>The verb \<^verbatim>\<open>%v\<close> on a slice of strings.\<close>

definition show_list :: "string list \<Rightarrow> string" where
  "show_list ss = CHR ''['' # join '' '' ss @ '']''"

end
