(* ===== verification/Crc32c.thy ===== *)
theory Crc32c
  imports Prelude
begin

text \<open>
  The Castagnoli CRC-32 of \<^verbatim>\<open>hash/crc32\<close>, which every data check of the suites and of
  the \<^verbatim>\<open>hashverify\<close> command uses: the table-driven update, the streaming digest, and the
  two facts the checks rest on. Feeding a digest in chunks gives the checksum of the whole,
  and a change of one byte changes the checksum.
\<close>

unbundle bit_operations_syntax

type_synonym u32 = "32 word"

section \<open>The digest\<close>

definition castagnoli :: u32 where
  "castagnoli = 0x82F63B78"

definition crc_bit :: "u32 \<Rightarrow> u32" where
  "crc_bit c = (if bit c 0 then drop_bit 1 c XOR castagnoli else drop_bit 1 c)"

text \<open>Entry \<open>i\<close> of \<^verbatim>\<open>crc32.MakeTable(crc32.Castagnoli)\<close>: eight shift steps from \<open>i\<close>.\<close>

definition crc_table :: "u32 \<Rightarrow> u32" where
  "crc_table i = (crc_bit ^^ 8) i"

definition crc_byte :: "u32 \<Rightarrow> char \<Rightarrow> u32" where
  "crc_byte crc c = crc_table ((crc XOR of_char c) AND 0xFF) XOR drop_bit 8 crc"

definition crc_update :: "u32 \<Rightarrow> bytes \<Rightarrow> u32" where
  "crc_update crc p = NOT (fold (\<lambda>c s. crc_byte s c) p (NOT crc))"

text \<open>\<^verbatim>\<open>crc32.New\<close>, \<^verbatim>\<open>Write\<close> and \<^verbatim>\<open>Sum32\<close>: the digest's state is the running checksum.\<close>

definition digest_new :: u32 where "digest_new = 0"

definition digest_write :: "u32 \<Rightarrow> bytes \<Rightarrow> u32" where "digest_write h p = crc_update h p"

definition digest_sum32 :: "u32 \<Rightarrow> u32" where "digest_sum32 h = h"

definition crc32c :: "bytes \<Rightarrow> u32" where
  "crc32c p = digest_sum32 (digest_write digest_new p)"

section \<open>Streaming\<close>

text \<open>The contract of \<^verbatim>\<open>hash.Hash32\<close> the readers and checks use.\<close>

locale stream_hash =
  fixes feed :: "'h \<Rightarrow> bytes \<Rightarrow> 'h"
  assumes feed_append: "feed (feed h xs) ys = feed h (xs @ ys)"
    and feed_Nil: "feed h [] = h"
begin

lemma feed_chunks: "fold (\<lambda>p h. feed h p) ps h = feed h (concat ps)"
  by (induction ps arbitrary: h) (simp_all add: feed_Nil feed_append)

end

lemma crc_update_append: "crc_update (crc_update c xs) ys = crc_update c (xs @ ys)"
  by (simp add: crc_update_def)

interpretation digest: stream_hash digest_write
  by unfold_locales (simp_all add: digest_write_def crc_update_append crc_update_def)

section \<open>The table step is eight bit steps\<close>

lemma crc_bit_xor: "crc_bit (x XOR y) = crc_bit x XOR crc_bit y"
  by (auto simp: crc_bit_def bit_xor_iff drop_bit_xor ac_simps)

lemma crc_bits_xor: "(crc_bit ^^ n) (x XOR y) = (crc_bit ^^ n) x XOR (crc_bit ^^ n) y"
  by (induction n) (simp_all add: crc_bit_xor)

lemma crc_bit_0 [simp]: "crc_bit 0 = 0"
  by (simp add: crc_bit_def)

lemma xor_cancel: "(x XOR y) XOR y = (x :: u32)"
  by (simp add: xor.assoc)

lemma xor_cancel_left: "x XOR (x XOR y) = (y :: u32)"
  by (simp flip: xor.assoc)

lemma xor_zero_eq: "x XOR y = 0 \<Longrightarrow> x = (y :: u32)"
  using xor_cancel [of x y] by simp

lemma crc_bit_eq_0: "crc_bit z = 0 \<Longrightarrow> z = 0"
proof (cases "bit z 0")
  case True
  moreover assume "crc_bit z = 0"
  ultimately have "drop_bit 1 z = castagnoli"
    by (intro xor_zero_eq [of _ castagnoli]) (simp add: crc_bit_def)
  then have "bit (drop_bit 1 z) 31 = bit castagnoli 31" by simp
  moreover have "bit castagnoli 31" by (simp add: castagnoli_def)
  moreover have "\<not> bit (drop_bit 1 z) 31"
    using bit_imp_le_length [of z 32] by (auto simp: bit_drop_bit_eq)
  ultimately show ?thesis by simp
next
  case False
  moreover assume "crc_bit z = 0"
  ultimately have d: "drop_bit 1 z = 0" by (simp add: crc_bit_def)
  have "\<not> bit z n" for n
  proof (cases n)
    case 0
    with False show ?thesis by simp
  next
    case (Suc m)
    have "bit (drop_bit 1 z) m = bit z (Suc m)" by (simp add: bit_drop_bit_eq)
    with d Suc show ?thesis by simp
  qed
  then show ?thesis by (simp add: bit_eq_iff)
qed

lemma crc_bits_inj: "(crc_bit ^^ n) x = (crc_bit ^^ n) y \<Longrightarrow> x = y"
proof (induction n)
  case (Suc n)
  then have "crc_bit ((crc_bit ^^ n) x XOR (crc_bit ^^ n) y) = 0" by (simp add: crc_bit_xor)
  then have "(crc_bit ^^ n) x XOR (crc_bit ^^ n) y = 0" by (rule crc_bit_eq_0)
  then have "(crc_bit ^^ n) x = (crc_bit ^^ n) y" by (rule xor_zero_eq)
  then show ?case by (rule Suc.IH)
qed simp

lemma crc_bits_shift: "take_bit n x = 0 \<Longrightarrow> (crc_bit ^^ n) x = drop_bit n x"
proof (induction n arbitrary: x)
  case (Suc n)
  have low: "\<not> bit x i" if "i < Suc n" for i
  proof -
    have "bit (take_bit (Suc n) x) i = bit x i" using that by (simp add: bit_take_bit_iff)
    with Suc.prems show ?thesis by simp
  qed
  have step: "crc_bit x = drop_bit 1 x" using low [of 0] by (simp add: crc_bit_def)
  have "take_bit n (drop_bit 1 x) = 0"
    by (rule bit_eqI) (use low in \<open>auto simp: bit_take_bit_iff bit_drop_bit_eq\<close>)
  from Suc.IH [OF this] have "(crc_bit ^^ n) (crc_bit x) = drop_bit n (drop_bit 1 x)"
    by (simp add: step)
  moreover have "(crc_bit ^^ Suc n) x = (crc_bit ^^ n) (crc_bit x)"
    by (simp add: funpow_swap1)
  ultimately show ?case by simp
qed simp

lemma ff_mask: "(0xFF :: u32) = mask 8"
  by (simp add: mask_eq_exp_minus_1)

lemma of_char_less: "(of_char c :: nat) < 256"
  by (metis mod_less_divisor of_char_mod_256 zero_less_numeral)

lemma unat_of_char: "unat (of_char c :: u32) = of_char c"
proof -
  have "unat (of_char c :: u32) = unat (of_nat (of_char c) :: u32)" by (simp only: of_nat_of_char)
  also have "\<dots> = of_char c mod 2 ^ 32" by (simp only: unat_of_nat) simp
  also have "\<dots> = of_char c" using less_trans [OF of_char_less [of c], of "2 ^ 32"] by (intro mod_less) simp
  finally show ?thesis .
qed

lemma byte_low: "take_bit 8 (of_char c :: u32) = of_char c"
proof (rule bit_eqI)
  fix n
  have "bit (of_char c :: u32) n \<Longrightarrow> n < 8"
    unfolding of_char_def bit_horner_sum_bit_iff by simp
  then show "bit (take_bit 8 (of_char c :: u32)) n = bit (of_char c :: u32) n"
    by (auto simp: bit_take_bit_iff)
qed

lemma drop_byte: "drop_bit 8 (of_char c :: u32) = 0"
proof -
  have "drop_bit 8 (of_char c :: u32) = drop_bit 8 (take_bit 8 (of_char c))" by (simp add: byte_low)
  then show ?thesis by (simp add: drop_bit_take_bit)
qed

lemma drop_high: "drop_bit 8 (y AND NOT (mask 8)) = drop_bit 8 (y :: u32)"
proof (rule bit_eqI)
  fix n
  have "bit y (8 + n) \<Longrightarrow> 8 + n < 32" using bit_imp_le_length [of y "8 + n"] by simp
  then show "bit (drop_bit 8 (y AND NOT (mask 8))) n = bit (drop_bit 8 y) n"
    by (auto simp: bit_drop_bit_eq bit_and_iff bit_not_iff bit_mask_iff)
qed

text \<open>The table-driven byte step is eight plain bit steps on the state with the byte mixed in.\<close>

lemma crc_byte_bits: "crc_byte s c = (crc_bit ^^ 8) (s XOR of_char c)"
proof -
  let ?x = "s XOR of_char c :: u32"
  let ?hi = "?x AND NOT (mask 8)"
  have split: "?x = (?x AND mask 8) XOR ?hi"
    by (rule bit_eqI) (auto simp: bit_and_iff bit_xor_iff bit_not_iff)
  have "take_bit 8 ?hi = 0"
    by (rule bit_eqI) (auto simp: bit_take_bit_iff bit_and_iff bit_not_iff bit_mask_iff)
  then have "(crc_bit ^^ 8) ?hi = drop_bit 8 ?hi" by (rule crc_bits_shift)
  also have "\<dots> = drop_bit 8 ?x"
    by (rule drop_high)
  also have "\<dots> = drop_bit 8 s" by (simp add: drop_bit_xor drop_byte)
  finally have "(crc_bit ^^ 8) ?x = crc_table (?x AND mask 8) XOR drop_bit 8 s"
    by (subst split) (simp add: crc_bits_xor crc_table_def)
  then show ?thesis by (simp add: crc_byte_def ff_mask)
qed

section \<open>One changed byte changes the checksum\<close>

lemma xor_inj_left:
  assumes "x XOR y = x XOR z"
  shows "y = (z :: u32)"
proof -
  have "y = x XOR (x XOR y)" by (simp only: xor_cancel_left)
  also have "\<dots> = x XOR (x XOR z)" by (simp only: assms)
  also have "\<dots> = z" by (simp only: xor_cancel_left)
  finally show ?thesis .
qed

lemma xor_inj_right: "x XOR z = y XOR z \<Longrightarrow> x = (y :: u32)"
  by (rule xor_inj_left [of z]) (simp only: xor.commute)

lemma of_char_u32_inj:
  assumes "(of_char c :: u32) = of_char d"
  shows "c = d"
proof -
  have "(of_char c :: nat) = of_char d"
    using arg_cong [OF assms, of unat] by (simp only: unat_of_char)
  then show ?thesis by (simp only: of_char_eq_iff)
qed

lemma crc_byte_inj_state: "crc_byte s c = crc_byte t c \<Longrightarrow> s = t"
  unfolding crc_byte_bits by (drule crc_bits_inj) (rule xor_inj_right)

lemma crc_byte_inj_byte: "crc_byte s c = crc_byte s d \<Longrightarrow> c = d"
  unfolding crc_byte_bits by (drule crc_bits_inj, rule of_char_u32_inj) (rule xor_inj_left)

lemma crc_fold_inj: "fold (\<lambda>c s. crc_byte s c) p s = fold (\<lambda>c s. crc_byte s c) p t \<Longrightarrow> s = t"
  by (induction p arbitrary: s t) (auto dest: crc_byte_inj_state)

lemma crc_update_inj: "crc_update s p = crc_update t p \<Longrightarrow> s = t"
  by (auto simp: crc_update_def dest: crc_fold_inj)

lemma crc32c_one_byte:
  assumes "c \<noteq> d"
  shows "crc32c (xs @ c # ys) \<noteq> crc32c (xs @ d # ys)"
proof
  assume "crc32c (xs @ c # ys) = crc32c (xs @ d # ys)"
  then have "crc_byte (fold (\<lambda>c s. crc_byte s c) xs (NOT 0)) c
      = crc_byte (fold (\<lambda>c s. crc_byte s c) xs (NOT 0)) d"
    by (auto simp: crc32c_def digest_sum32_def digest_write_def digest_new_def crc_update_def
        dest: crc_fold_inj)
  with assms show False by (auto dest: crc_byte_inj_byte)
qed

section \<open>The verb \<^verbatim>\<open>%08x\<close>\<close>

definition hex_digit :: "nat \<Rightarrow> char" where
  "hex_digit d = (if d < 10 then char_of (48 + d) else char_of (87 + d))"

definition hex32 :: "u32 \<Rightarrow> string" where
  "hex32 w = map (\<lambda>i. hex_digit (unat (take_bit 4 (drop_bit (4 * i) w)))) (rev [0..<8])"

lemma length_hex32 [simp]: "length (hex32 w) = 8"
  by (simp add: hex32_def)

lemma hex_digit_inj: "\<lbrakk>hex_digit a = hex_digit b; a < 16; b < 16\<rbrakk> \<Longrightarrow> a = b"
  by (auto simp: hex_digit_def split: if_splits)

lemma unat_nibble: "unat (take_bit 4 (v :: u32)) < 16"
  using take_bit_nat_less_exp [of 4 "unat v"] by (simp add: unsigned_take_bit_eq)

lemma hex32_inj: "hex32 v = hex32 w \<Longrightarrow> v = w"
proof (rule bit_eqI)
  fix n assume eq: "hex32 v = hex32 w" and "possible_bit TYPE(u32) n"
  then have n: "n < 32" by (simp add: possible_bit_def)
  let ?i = "n div 4"
  have "?i \<in> set (rev [0..<8])" using n by auto
  with eq have "hex_digit (unat (take_bit 4 (drop_bit (4 * ?i) v)))
      = hex_digit (unat (take_bit 4 (drop_bit (4 * ?i) w)))"
    unfolding hex32_def map_eq_conv by blast
  then have "unat (take_bit 4 (drop_bit (4 * ?i) v)) = unat (take_bit 4 (drop_bit (4 * ?i) w))"
    by (rule hex_digit_inj) (rule unat_nibble)+
  then have "take_bit 4 (drop_bit (4 * ?i) v) = take_bit 4 (drop_bit (4 * ?i) w)"
    by (simp only: word_unat_eq_iff)
  then have "bit (take_bit 4 (drop_bit (4 * ?i) v)) (n mod 4) = bit (take_bit 4 (drop_bit (4 * ?i) w)) (n mod 4)"
    by simp
  then show "bit v n = bit w n" by (simp add: bit_take_bit_iff bit_drop_bit_eq)
qed

end
