(* ===== verification/Payload.thy ===== *)
theory Payload
  imports Crc32c
begin

text \<open>
  The deterministic payloads of the data-integrity tests: the tile stream that
  \<^verbatim>\<open>burstexit\<close> writes and the suites expect (\<^verbatim>\<open>testbin/testbin.go\<close>,
  \<^verbatim>\<open>exec_suite.go\<close>), its checksum computed without building it, and the seeded
  \<^verbatim>\<open>bigFileReader\<close> of \<^verbatim>\<open>rootfs.go\<close>. The contract of an endless \<^verbatim>\<open>io.Reader\<close> is
  a locale; copying from one through \<^verbatim>\<open>io.LimitReader\<close> yields the same bytes for every
  buffer size.
\<close>

section \<open>Copying a limited prefix of an endless reader\<close>

text \<open>
  \<^verbatim>\<open>io.Copy(dst, io.LimitReader(r, n))\<close>: reads of at most one buffer until \<open>n\<close> bytes
  have been delivered. A limit that is not positive delivers nothing. The buffer holds
  \<open>Suc b\<close> bytes; \<^verbatim>\<open>io.Copy\<close> never uses an empty one.
\<close>

function copy_limited ::
    "('r \<Rightarrow> nat \<Rightarrow> bytes \<times> 'r) \<Rightarrow> nat \<Rightarrow> 'r \<Rightarrow> int \<Rightarrow> bytes \<times> 'r" where
  "copy_limited rd b r n =
     (if n \<le> 0 then ([], r)
      else let k = min (Suc b) (nat n);
               (p, r') = rd r k;
               (q, r'') = copy_limited rd b r' (n - int k)
           in (p @ q, r''))"
  by pat_completeness auto
termination
  by (relation "measure (\<lambda>(rd, b, r, n). nat n)") auto

declare copy_limited.simps [simp del]

locale endless_reader =
  fixes rd :: "'r \<Rightarrow> nat \<Rightarrow> bytes \<times> 'r" and at :: "'r \<Rightarrow> nat \<Rightarrow> char"
  assumes rd_bytes: "fst (rd r k) = map (at r) [0..<k]"
    and rd_advance: "at (snd (rd r k)) i = at r (k + i)"
begin

lemma map_at_split: "map (at r) [0..<k] @ map (\<lambda>i. at r (k + i)) [0..<m] = map (at r) [0..<k + m]"
  by (rule nth_equalityI) (auto simp: nth_append)

lemma copy_limited_bytes: "fst (copy_limited rd b r (int n)) = map (at r) [0..<n]"
proof (induction n arbitrary: r rule: less_induct)
  case (less n)
  show ?case
  proof (cases "n = 0")
    case True
    then show ?thesis by (simp add: copy_limited.simps)
  next
    case False
    define k where "k = min (Suc b) n"
    have k: "0 < k" "k \<le> n" using False by (auto simp: k_def)
    have unf: "fst (copy_limited rd b r (int n))
        = fst (rd r k) @ fst (copy_limited rd b (snd (rd r k)) (int n - int k))"
      using False by (simp add: copy_limited.simps [of rd b r] k_def Let_def split: prod.split)
    have "int n - int k = int (n - k)" using k by simp
    moreover have "fst (copy_limited rd b (snd (rd r k)) (int (n - k)))
        = map (\<lambda>i. at r (k + i)) [0..<n - k]"
      using less.IH [of "n - k" "snd (rd r k)"] k by (simp add: rd_advance)
    ultimately show ?thesis using k by (simp add: unf rd_bytes map_at_split)
  qed
qed

lemma copy_limited_any_buffer:
  "fst (copy_limited rd b r n) = fst (copy_limited rd c r n)"
proof (cases "0 \<le> n")
  case True
  then obtain m where "n = int m" by (rule nonneg_int_cases)
  then show ?thesis by (simp add: copy_limited_bytes)
qed (simp add: copy_limited.simps)

end

section \<open>The tile stream\<close>

text \<open>
  \<^verbatim>\<open>infiniteTileReader\<close>: its one field is an \<^verbatim>\<open>int64\<close> offset. Go's \<^verbatim>\<open>%\<close>
  truncates, so past the overflow of the offset the remainder is negative; the
  conversion to \<^verbatim>\<open>byte\<close> keeps the low eight bits of it.
\<close>

record tile_reader =
  off :: "64 word"

definition go_rem :: "int \<Rightarrow> int \<Rightarrow> int" where
  "go_rem a b = (if a < 0 then - ((- a) mod \<bar>b\<bar>) else a mod \<bar>b\<bar>)"

definition tile_byte :: "64 word \<Rightarrow> char" where
  "tile_byte x = char_of (nat (go_rem (sint x) 256 mod 256))"

definition tile_read :: "tile_reader \<Rightarrow> nat \<Rightarrow> bytes \<times> tile_reader" where
  "tile_read r k =
     (map (\<lambda>i. tile_byte (off r + of_nat i)) [0..<k], r\<lparr>off := off r + of_nat k\<rparr>)"

text \<open>The same reader as the \<^verbatim>\<open>testbin\<close> package declares it for \<^verbatim>\<open>burstexit\<close>.\<close>

definition testbin_tile_read :: "tile_reader \<Rightarrow> nat \<Rightarrow> bytes \<times> tile_reader" where
  "testbin_tile_read r k =
     (map (\<lambda>i. tile_byte (off r + of_nat i)) [0..<k], r\<lparr>off := off r + of_nat k\<rparr>)"

definition new_tile_reader :: tile_reader where
  "new_tile_reader = \<lparr>off = 0\<rparr>"

text \<open>\<^verbatim>\<open>tiledPayload\<close>.\<close>

definition tiledPayload :: "nat \<Rightarrow> bytes" where
  "tiledPayload sz = map (\<lambda>i. char_of (i mod 256)) [0..<sz]"

lemma go_rem_byte: "go_rem a 256 mod 256 = a mod 256"
  by (simp add: go_rem_def mod_minus_eq)

lemma sint_mod_256: "sint (x :: 64 word) mod 256 = uint x mod 256"
proof -
  have "sint x mod 2 ^ 64 = uint x" by (simp add: uint_sint take_bit_eq_mod)
  then have "sint x mod 2 ^ 64 mod 256 = uint x mod 256" by simp
  then show ?thesis by (simp add: mod_mod_cancel)
qed

lemma char_of_cong: "a mod 256 = b mod 256 \<Longrightarrow> char_of a = char_of (b :: nat)"
  by (rule of_char_eqI [where 'a = nat]) simp

lemma tile_byte_unat: "tile_byte x = char_of (unat x)"
proof -
  have "nat (uint x mod 256) = unat x mod 256"
    unfolding unat_eq_nat_uint by (subst nat_mod_distrib) simp_all
  then show ?thesis
    unfolding tile_byte_def go_rem_byte sint_mod_256 by (metis char_of_cong mod_mod_trivial)
qed

text \<open>The overflow of the offset does not disturb the pattern: the tile length divides it.\<close>

lemma tile_byte_add: "tile_byte (x + of_nat i) = char_of (unat x + i)"
proof -
  have "unat (x + of_nat i) mod 256 = (unat x + i) mod 256"
    by (simp add: unat_word_ariths unat_of_nat mod_mod_cancel mod_simps)
  then show ?thesis by (simp add: tile_byte_unat flip: of_char_eq_iff)
qed

interpretation tile: endless_reader tile_read "\<lambda>r i. char_of (unat (off r) + i)"
proof unfold_locales
  fix r k i
  show "fst (tile_read r k) = map (\<lambda>i. char_of (unat (off r) + i)) [0..<k]"
    by (simp add: tile_read_def tile_byte_add)
  have "char_of (unat (off r + of_nat k) + i) = tile_byte (off r + of_nat k + of_nat i)"
    by (simp add: tile_byte_add)
  also have "\<dots> = tile_byte (off r + of_nat (k + i))" by (simp add: ac_simps)
  also have "\<dots> = char_of (unat (off r) + (k + i))" by (simp only: tile_byte_add)
  finally show "char_of (unat (off (snd (tile_read r k))) + i) = char_of (unat (off r) + (k + i))"
    by (simp add: tile_read_def)
qed

lemma testbin_tile_read_eq: "testbin_tile_read = tile_read"
  by (intro ext) (simp add: testbin_tile_read_def tile_read_def)

lemma length_tiledPayload [simp]: "length (tiledPayload n) = n"
  by (simp add: tiledPayload_def)

lemma tile_copy_payload: "fst (copy_limited tile_read b new_tile_reader (int n)) = tiledPayload n"
  unfolding tile.copy_limited_bytes tiledPayload_def new_tile_reader_def
  by (rule map_cong) (simp_all flip: of_char_eq_iff)

section \<open>The checksum of a tiled payload\<close>

definition tile :: bytes where
  "tile = map (\<lambda>i. char_of i) [0..<256]"

lemma length_tile [simp]: "length tile = 256"
  by (simp only: tile_def length_map length_upt)

lemma tile_nth: "i < 256 \<Longrightarrow> tile ! i = char_of i"
  by (simp only: tile_def nth_map length_upt nth_upt) simp

text \<open>The loop of \<^verbatim>\<open>tiledPayloadCRC32\<close>: \<open>remaining\<close> is an \<^verbatim>\<open>int\<close>.\<close>

function crc_tiles :: "int \<Rightarrow> u32 \<Rightarrow> u32" where
  "crc_tiles remaining h =
     (if 0 < remaining
      then let n = (if int (length tile) < remaining then int (length tile) else remaining)
           in crc_tiles (remaining - n) (digest_write h (take (nat n) tile))
      else h)"
  by pat_completeness auto
termination
  by (relation "measure (\<lambda>(remaining, h). nat remaining)") auto

declare crc_tiles.simps [simp del]

definition tiledPayloadCRC32 :: "int \<Rightarrow> u32" where
  "tiledPayloadCRC32 sz = digest_sum32 (crc_tiles sz digest_new)"

definition burstPayloadSize :: int where
  "burstPayloadSize = 8 * 1024 * 1024"

definition largeStdioPayloadSize :: int where
  "largeStdioPayloadSize = 20 * 1024 * 1024"

definition burstExpectedCRC32 :: u32 where
  "burstExpectedCRC32 = tiledPayloadCRC32 burstPayloadSize"

lemma take_tile: "n \<le> 256 \<Longrightarrow> take n tile = tiledPayload n"
  by (rule nth_equalityI) (simp_all add: tile_nth tiledPayload_def)

lemma tiledPayload_tile: "tiledPayload (256 + n) = tiledPayload 256 @ tiledPayload n"
  by (rule nth_equalityI) (auto simp: tiledPayload_def nth_append le_mod_geq)

lemma crc_tiles_payload: "crc_tiles (int n) h = digest_write h (tiledPayload n)"
proof (induction n arbitrary: h rule: less_induct)
  case (less n)
  consider (zero) "n = 0" | (part) "0 < n" "n \<le> 256" | (full) "256 < n" by linarith
  then show ?case
  proof cases
    case zero
    then show ?thesis by (simp add: crc_tiles.simps tiledPayload_def digest.feed_Nil)
  next
    case part
    then show ?thesis
      by (simp add: crc_tiles.simps [of "int n"] crc_tiles.simps [of 0] take_tile)
  next
    case full
    then have "crc_tiles (int n) h = crc_tiles (int (n - 256)) (digest_write h (tiledPayload 256))"
      by (simp add: crc_tiles.simps [of "int n"] take_tile of_nat_diff flip: take_tile [of 256, simplified])
    also have "\<dots> = digest_write h (tiledPayload 256 @ tiledPayload (n - 256))"
      using full less.IH [of "n - 256"] by (simp add: digest.feed_append)
    also have "\<dots> = digest_write h (tiledPayload n)"
      using full by (simp flip: tiledPayload_tile)
    finally show ?thesis .
  qed
qed

lemma tiledPayloadCRC32_eq: "tiledPayloadCRC32 (int n) = crc32c (tiledPayload n)"
  by (simp add: tiledPayloadCRC32_def crc_tiles_payload crc32c_def)

section \<open>The seeded big file\<close>

text \<open>
  \<^verbatim>\<open>bigFileReader\<close> draws its bytes from a \<^verbatim>\<open>rand.ChaCha8\<close> generator: the generator is
  a parameter \<open>gen\<close>, with its state in the field \<open>src\<close>. A read at the end reports
  end of file (the flag of the result).
\<close>

record 'g big_reader =
  src :: 'g
  crc :: u32
  remain :: nat

definition bigFileSize :: nat where
  "bigFileSize = 64 * 2 ^ 20"

definition newBigFileReader :: "'g \<Rightarrow> 'g big_reader" where
  "newBigFileReader seeded = \<lparr>src = seeded, crc = digest_new, remain = bigFileSize\<rparr>"

definition big_read ::
    "('g \<Rightarrow> nat \<Rightarrow> bytes \<times> 'g) \<Rightarrow> 'g big_reader \<Rightarrow> nat \<Rightarrow> (bytes \<times> bool) \<times> 'g big_reader" where
  "big_read gen r k =
     (if remain r = 0 then (([], True), r)
      else let n = (if remain r < k then remain r else k);
               (p, g) = gen (src r) n
           in ((p, False), \<lparr>src = g, crc = digest_write (crc r) p, remain = remain r - length p\<rparr>))"

definition hashHex :: "'g big_reader \<Rightarrow> string" where
  "hashHex r = hex32 (digest_sum32 (crc r))"

text \<open>\<^verbatim>\<open>io.Copy\<close> from a reader that may never report its end: \<open>None\<close> if it does not.\<close>

partial_function (option) copy_all ::
    "('r \<Rightarrow> nat \<Rightarrow> (bytes \<times> bool) \<times> 'r) \<Rightarrow> nat \<Rightarrow> 'r \<Rightarrow> (bytes \<times> 'r) option" where
  "copy_all rd b r =
     (if snd (fst (rd r (Suc b))) then Some (fst (fst (rd r (Suc b))), snd (rd r (Suc b)))
      else Option.bind (copy_all rd b (snd (rd r (Suc b))))
             (\<lambda>(q, r'). Some (fst (fst (rd r (Suc b))) @ q, r')))"

definition bigFileHashHex :: "('g \<Rightarrow> nat \<Rightarrow> bytes \<times> 'g) \<Rightarrow> nat \<Rightarrow> 'g \<Rightarrow> string option" where
  "bigFileHashHex gen b seeded =
     map_option (\<lambda>(p, r). hashHex r) (copy_all (big_read gen) b (newBigFileReader seeded))"

context endless_reader
begin

lemma big_copy_bytes:
  "\<exists>g. copy_all (big_read rd) b r = Some (map (at (src r)) [0..<remain r],
     \<lparr>src = g, crc = digest_write (crc r) (map (at (src r)) [0..<remain r]), remain = 0\<rparr>)"
proof (induction "remain r" arbitrary: r rule: less_induct)
  case less
  show ?case
  proof (cases "remain r = 0")
    case True
    then have "copy_all (big_read rd) b r = Some ([], r)"
      by (subst copy_all.simps) (simp add: big_read_def)
    with True show ?thesis by (cases r) (auto simp: digest.feed_Nil)
  next
    case False
    define k where "k = (if remain r < Suc b then remain r else Suc b)"
    have k: "0 < k" "k \<le> remain r" using False by (auto simp: k_def)
    let ?p = "map (at (src r)) [0..<k]"
    let ?r = "\<lparr>src = snd (rd (src r) k), crc = digest_write (crc r) ?p, remain = remain r - k\<rparr>"
    have "rd (src r) k = (?p, snd (rd (src r) k))"
      by (metis prod.collapse rd_bytes)
    then have rd: "big_read rd r (Suc b) = ((?p, False), ?r)"
      unfolding big_read_def Let_def k_def [symmetric] using False by (auto split: prod.split)
    have "remain ?r < remain r" using k by simp
    from less [OF this] obtain g where
      g: "copy_all (big_read rd) b ?r = Some (map (at (src ?r)) [0..<remain ?r],
        \<lparr>src = g, crc = digest_write (crc ?r) (map (at (src ?r)) [0..<remain ?r]), remain = 0\<rparr>)"
      by blast
    have "at (snd (rd (src r) k)) = (\<lambda>i. at (src r) (k + i))"
      by (rule ext) (rule rd_advance)
    then have join: "?p @ map (at (src ?r)) [0..<remain ?r] = map (at (src r)) [0..<remain r]"
      using k map_at_split [of "src r" k "remain r - k"] by simp
    show ?thesis
      by (subst copy_all.simps, simp only: rd fst_conv snd_conv g)
         (simp add: digest.feed_append join [simplified])
  qed
qed

lemma big_hash: "bigFileHashHex rd b g = Some (hex32 (crc32c (map (at g) [0..<bigFileSize])))"
  using big_copy_bytes [of b "newBigFileReader g"]
  by (auto simp: bigFileHashHex_def newBigFileReader_def hashHex_def crc32c_def)

end

end
