(* ===== verification/Testbin_Basic.thy ===== *)
theory Testbin_Basic
  imports Testbin_World Payload
begin

text \<open>
  The file, text and exit commands of \<^verbatim>\<open>testbin/testbin.go\<close>, one definition per
  command. \<open>args\<close> is the slice the dispatcher passes, with the command's own name first.
  The lemmas give what each prints and the status it ends with, on every branch.
\<close>

section \<open>Printing\<close>

definition cmdForever :: "string list \<Rightarrow> 'w \<Rightarrow> proc \<Rightarrow> 'w outcome" where
  "cmdForever args w p =
     (w, if 1 < length args then println (join '' '' (tl args)) p else p, Running)"

definition cmdEcho :: "string list \<Rightarrow> 'w \<Rightarrow> proc \<Rightarrow> 'w outcome" where
  "cmdEcho args w p = (w, println (join '' '' (tl args)) p, Exit 0)"

fun cat_files :: "'w kernel \<Rightarrow> string list \<Rightarrow> 'w \<Rightarrow> proc \<Rightarrow> 'w outcome" where
  "cat_files k [] w p = (w, p, Exit 0)"
| "cat_files k (name # names) w p =
     (if name = ''-'' then
        (case put (stdin p) (p\<lparr>stdin := []\<rparr>) of
           (True, p') \<Rightarrow> cat_files k names w p'
         | (False, p') \<Rightarrow> (w, p', Exit 1))
      else
        (case k_open k w name of
           Inl e \<Rightarrow> fail (''cat: '' @ name @ '': '' @ os_text e) 1 w p
         | Inr (data, bad) \<Rightarrow>
             (case put data p of
                (True, p') \<Rightarrow> if bad \<noteq> None then (w, p', Exit 1) else cat_files k names w p'
              | (False, p') \<Rightarrow> (w, p', Exit 1))))"

definition cmdCat :: "'w kernel \<Rightarrow> string list \<Rightarrow> 'w \<Rightarrow> proc \<Rightarrow> 'w outcome" where
  "cmdCat k args w p = cat_files k (if tl args = [] then [''-''] else tl args) w p"

definition cmdDate :: "'w kernel \<Rightarrow> string list \<Rightarrow> 'w \<Rightarrow> proc \<Rightarrow> 'w outcome" where
  "cmdDate k args w p =
     (let format = (if 1 < length args then args ! 1 else ''+%s'');
          (sec, nsec) = k_now k w
      in if format = ''+%s'' then (w, println (itoa sec) p, Exit 0)
         else if format = ''+%s%N'' then (w, println (itoa sec @ dec_pad 9 nsec) p, Exit 0)
         else fail (''date: unsupported format: '' @ format) 1 w p)"

fun ls_dirs :: "'w kernel \<Rightarrow> string list \<Rightarrow> int \<Rightarrow> 'w \<Rightarrow> proc \<Rightarrow> 'w outcome" where
  "ls_dirs k [] exitCode w p = (w, p, Exit exitCode)"
| "ls_dirs k (dir # dirs) exitCode w p =
     (case k_readdir k w dir of
        Inl e \<Rightarrow> ls_dirs k dirs 1 w (eprintln (''ls: '' @ dir @ '': '' @ os_text e) p)
      | Inr entries \<Rightarrow> ls_dirs k dirs exitCode w (fold println entries p))"

definition cmdLs :: "'w kernel \<Rightarrow> string list \<Rightarrow> 'w \<Rightarrow> proc \<Rightarrow> 'w outcome" where
  "cmdLs k args w p = ls_dirs k (if tl args = [] then [''.''] else tl args) 0 w p"

definition cmdExit :: "string list \<Rightarrow> 'w \<Rightarrow> proc \<Rightarrow> 'w outcome" where
  "cmdExit args w p =
     (if length args < 2 then (w, p, Exit 0)
      else case atoi (args ! 1) of
        None \<Rightarrow> fail (''exit: invalid status '' @ quote (args ! 1) @ '': '' @ num_error ''Atoi'' (args ! 1)) 2 w p
      | Some code \<Rightarrow> (w, p, Exit code))"

definition tick_line :: "nat \<Rightarrow> string" where
  "tick_line i = ''tick '' @ dec i"

definition cmdTickexit :: "string list \<Rightarrow> 'w \<Rightarrow> proc \<Rightarrow> 'w outcome" where
  "cmdTickexit args w p = (w, fold (\<lambda>i. println (tick_line i)) [1..<51] p, Exit 7)"

definition copyBuf :: nat where
  "copyBuf = 32 * 1024 - 1"

definition cmdBurstexit :: "string list \<Rightarrow> 'w \<Rightarrow> proc \<Rightarrow> 'w outcome" where
  "cmdBurstexit args w p =
     (if length args < 2 then fail ''usage: burstexit <size_bytes> [exit_code]'' 1 w p
      else case atoi (args ! 1) of
        None \<Rightarrow> fail (''burstexit: invalid size '' @ quote (args ! 1)) 1 w p
      | Some sz \<Rightarrow>
          if sz < 0 then fail (''burstexit: invalid size '' @ quote (args ! 1)) 1 w p
          else case (if 3 \<le> length args then atoi (args ! 2) else Some 0) of
            None \<Rightarrow> fail (''burstexit: invalid exit code '' @ quote (args ! 2)) 1 w p
          | Some exitCode \<Rightarrow>
              (case put (fst (copy_limited testbin_tile_read copyBuf new_tile_reader sz)) p of
                 (True, p') \<Rightarrow> (w, p', Exit exitCode)
               | (False, p') \<Rightarrow> (w, p', Exit 1)))"

text \<open>
  \<^verbatim>\<open>memhog\<close> never returns by itself. One round allocates a chunk and writes to it at
  every page; \<open>memhog_touched\<close> is the number of pages written after \<open>n\<close> rounds, for a
  page of \<open>Suc q\<close> bytes.
\<close>

definition memhog_chunk :: nat where
  "memhog_chunk = 2 ^ 20"

function touch_pages :: "nat \<Rightarrow> nat \<Rightarrow> nat" where
  "touch_pages q i = (if i < memhog_chunk then Suc (touch_pages q (i + Suc q)) else 0)"
  by pat_completeness auto
termination
  by (relation "measure (\<lambda>(q, i). memhog_chunk - i)") auto

declare touch_pages.simps [simp del]

fun memhog_touched :: "nat \<Rightarrow> nat \<Rightarrow> nat" where
  "memhog_touched q 0 = 0"
| "memhog_touched q (Suc n) = memhog_touched q n + touch_pages q 0"

definition cmdMemhog :: "string list \<Rightarrow> 'w \<Rightarrow> proc \<Rightarrow> 'w outcome" where
  "cmdMemhog args w p = (w, p, Running)"

section \<open>layercheck\<close>

text \<open>The three loops accumulate the diagnostics and the failure count.\<close>

type_synonym check_state = "proc \<times> nat"

definition complain :: "string \<Rightarrow> check_state \<Rightarrow> check_state" where
  "complain msg = (\<lambda>(p, n). (eprintln msg p, Suc n))"

definition added_path :: "string \<Rightarrow> nat \<Rightarrow> string" where
  "added_path addedDir i = path_join [addedDir, ''file_'' @ dec i]"

definition added_want :: "nat \<Rightarrow> string" where
  "added_want i = ''layer '' @ dec i @ newline"

definition base_path :: "string \<Rightarrow> nat \<Rightarrow> string" where
  "base_path baseDir j = path_join [baseDir, ''base_'' @ dec j]"

definition check_added :: "'w kernel \<Rightarrow> 'w \<Rightarrow> string \<Rightarrow> nat \<Rightarrow> check_state \<Rightarrow> check_state" where
  "check_added k w addedDir i st =
     (let path = added_path addedDir i in
      case k_readfile k w path of
        Inl e \<Rightarrow> complain (''missing added: '' @ path @ '': '' @ os_text e) st
      | Inr data \<Rightarrow>
          if data \<noteq> added_want i
          then complain (''content mismatch '' @ path @ '': got '' @ quote data @ '', want ''
                 @ quote (added_want i)) st
          else st)"

definition check_base :: "'w kernel \<Rightarrow> 'w \<Rightarrow> string \<Rightarrow> nat \<Rightarrow> check_state \<Rightarrow> check_state" where
  "check_base k w baseDir j st =
     (let path = base_path baseDir j in
      case k_lstat k w path of
        None \<Rightarrow> complain (''base file still present: '' @ path) st
      | Some e \<Rightarrow> if is_not_exist e then st
                 else complain (''stat '' @ path @ '': '' @ os_text e) st)"

definition check_empty :: "'w kernel \<Rightarrow> 'w \<Rightarrow> string \<Rightarrow> check_state \<Rightarrow> check_state" where
  "check_empty k w baseDir st =
     (case k_readdir k w baseDir of
        Inl e \<Rightarrow> complain (''readdir '' @ baseDir @ '': '' @ os_text e) st
      | Inr entries \<Rightarrow>
          if entries \<noteq> []
          then complain (''base dir '' @ baseDir @ '' not empty: '' @ show_list entries) st
          else st)"

definition parse_count :: "string \<Rightarrow> nat option" where
  "parse_count s = (case atoi s of None \<Rightarrow> None | Some n \<Rightarrow> if n < 0 then None else Some (nat n))"

definition check_layers ::
    "'w kernel \<Rightarrow> 'w \<Rightarrow> string \<Rightarrow> nat \<Rightarrow> string \<Rightarrow> nat \<Rightarrow> proc \<Rightarrow> check_state" where
  "check_layers k w addedDir addedCount baseDir baseCount p =
     check_empty k w baseDir
       (fold (check_base k w baseDir) [0..<baseCount]
         (fold (check_added k w addedDir) [1..<Suc addedCount] (p, 0)))"

definition cmdLayercheck :: "'w kernel \<Rightarrow> string list \<Rightarrow> 'w \<Rightarrow> proc \<Rightarrow> 'w outcome" where
  "cmdLayercheck k args w p =
     (if length args < 5
      then fail ''usage: layercheck <addedDir> <addedCount> <baseDir> <baseCount>'' 2 w p
      else let addedDir = args ! 1; baseDir = args ! 3 in
        case parse_count (args ! 2) of
          None \<Rightarrow> fail (''layercheck: invalid addedCount '' @ quote (args ! 2)) 2 w p
        | Some addedCount \<Rightarrow>
        (case parse_count (args ! 4) of
          None \<Rightarrow> fail (''layercheck: invalid baseCount '' @ quote (args ! 4)) 2 w p
        | Some baseCount \<Rightarrow>
            let (p', failures) = check_layers k w addedDir addedCount baseDir baseCount p
            in if 0 < failures
               then fail (''layercheck: '' @ dec failures @ '' failure(s)'') 1 w p'
               else (w, println (''ok added='' @ dec addedCount @ '' base_missing='' @ dec baseCount) p',
                     Exit 0)))"

section \<open>What the commands print and end with\<close>

lemma fold_println:
  "room p = None \<Longrightarrow> fold println ls p = p\<lparr>stdout := stdout p @ concat (map (\<lambda>l. l @ newline) ls)\<rparr>"
  by (induction ls arbitrary: p) simp_all

lemma fold_println_map: "fold (\<lambda>x. println (f x)) xs p = fold println (map f xs) p"
  by (induction xs arbitrary: p) simp_all

lemma cmdTickexit_output:
  "room p = None \<Longrightarrow> cmdTickexit args w p =
     (w, p\<lparr>stdout := stdout p @ concat (map (\<lambda>i. tick_line i @ newline) [1..<51])\<rparr>, Exit 7)"
  unfolding cmdTickexit_def fold_println_map [of tick_line]
  by (simp add: fold_println comp_def del: upt_rec_numeral)

lemma burst_stream: "fst (copy_limited testbin_tile_read b new_tile_reader (int n)) = tiledPayload n"
  by (simp add: testbin_tile_read_eq tile_copy_payload)

text \<open>
  \<^verbatim>\<open>burstexit N C\<close> on a standard output with room writes exactly the tiled payload of
  \<open>N\<close> bytes and ends with \<open>C\<close>; when the output takes fewer bytes it ends with 1.
\<close>

lemma cmdBurstexit_run:
  assumes "3 \<le> length args" and "atoi (args ! 1) = Some (int n)" and "atoi (args ! 2) = Some c"
  shows "cmdBurstexit args w p =
     (w, snd (put (tiledPayload n) p), if fst (put (tiledPayload n) p) then Exit c else Exit 1)"
  using assms by (simp add: cmdBurstexit_def burst_stream split: prod.split bool.split)

lemma touch_pages_pos: "0 < touch_pages q 0"
  by (simp add: touch_pages.simps [of q 0] memhog_chunk_def)

lemma memhog_unbounded: "n \<le> memhog_touched q n"
  by (induction n) (auto simp: touch_pages_pos Suc_le_eq intro: le_less_trans)

section \<open>layercheck accepts exactly the merged view\<close>

definition added_ok :: "'w kernel \<Rightarrow> 'w \<Rightarrow> string \<Rightarrow> nat \<Rightarrow> bool" where
  "added_ok k w d i \<longleftrightarrow> k_readfile k w (added_path d i) = Inr (added_want i)"

definition base_ok :: "'w kernel \<Rightarrow> 'w \<Rightarrow> string \<Rightarrow> nat \<Rightarrow> bool" where
  "base_ok k w d j \<longleftrightarrow> (case k_lstat k w (base_path d j) of None \<Rightarrow> False | Some e \<Rightarrow> is_not_exist e)"

definition layers_ok :: "'w kernel \<Rightarrow> 'w \<Rightarrow> string \<Rightarrow> nat \<Rightarrow> string \<Rightarrow> nat \<Rightarrow> bool" where
  "layers_ok k w ad a bd b \<longleftrightarrow>
     (\<forall>i \<in> {1..a}. added_ok k w ad i) \<and> (\<forall>j < b. base_ok k w bd j) \<and> k_readdir k w bd = Inr []"

lemma check_added_count:
  "snd (check_added k w d i st) = snd st + (if added_ok k w d i then 0 else 1)"
  by (auto simp: check_added_def added_ok_def complain_def Let_def split: sum.split prod.split)

lemma check_base_count:
  "snd (check_base k w d j st) = snd st + (if base_ok k w d j then 0 else 1)"
  by (auto simp: check_base_def base_ok_def complain_def Let_def split: option.split prod.split)

lemma check_empty_count:
  "snd (check_empty k w d st) = snd st + (if k_readdir k w d = Inr [] then 0 else 1)"
  by (auto simp: check_empty_def complain_def split: sum.split prod.split)

lemma fold_count_zero:
  assumes "\<And>x st. snd (f x st) = snd st + (if good x then 0 else (1::nat))"
  shows "snd (fold f xs st) = 0 \<longleftrightarrow> snd st = 0 \<and> (\<forall>x \<in> set xs. good x)"
  by (induction xs arbitrary: st) (auto simp: assms)

lemma check_layers_count:
  "snd (check_layers k w ad a bd b p) = 0 \<longleftrightarrow> layers_ok k w ad a bd b"
proof -
  define st1 where "st1 = fold (check_added k w ad) [1..<Suc a] (p, 0)"
  define st2 where "st2 = fold (check_base k w bd) [0..<b] st1"
  have "snd st1 = 0 \<longleftrightarrow> (\<forall>i \<in> {1..a}. added_ok k w ad i)"
    unfolding st1_def by (subst fold_count_zero [OF check_added_count]) auto
  moreover have "snd st2 = 0 \<longleftrightarrow> snd st1 = 0 \<and> (\<forall>j < b. base_ok k w bd j)"
    unfolding st2_def by (subst fold_count_zero [OF check_base_count]) auto
  moreover have "snd (check_empty k w bd st2) = 0 \<longleftrightarrow> snd st2 = 0 \<and> k_readdir k w bd = Inr []"
    by (simp add: check_empty_count)
  ultimately show ?thesis
    unfolding check_layers_def st1_def [symmetric] st2_def [symmetric] layers_ok_def by simp
qed

lemma cmdLayercheck_ending:
  assumes "5 \<le> length args" and "parse_count (args ! 2) = Some a" and "parse_count (args ! 4) = Some b"
  shows "ending_of (cmdLayercheck k args w p) =
     (if layers_ok k w (args ! 1) a (args ! 3) b then Exit 0 else Exit 1)"
  using assms check_layers_count [of k w "args ! 1" a "args ! 3" b p]
  by (auto simp: cmdLayercheck_def Let_def split: prod.split)

end
