(* ===== verification/Testbin_Net.thy ===== *)
theory Testbin_Net
  imports Testbin_World
begin

text \<open>
  The network commands of \<^verbatim>\<open>testbin/testbin.go\<close> (nc, host, looptest, echosrv) and pidscan,
  with Go's host:port syntax. The concurrent pair of copies of \<^verbatim>\<open>ncStream\<close> is a step
  relation of its own, whose runs show when it returns and that it loses nothing.
\<close>

section \<open>host:port\<close>

definition colon :: char where "colon = CHR '':''"
definition lbracket :: char where "lbracket = CHR ''[''"
definition rbracket :: char where "rbracket = CHR '']''"

text \<open>\<^verbatim>\<open>net.JoinHostPort\<close>: a host with a colon is bracketed.\<close>

definition join_host_port :: "string \<Rightarrow> string \<Rightarrow> string" where
  "join_host_port host port =
     (if colon \<in> set host then lbracket # host @ rbracket # colon # port else host @ colon # port)"

text \<open>The part before the last colon and the part after it.\<close>

definition cut_last_colon :: "string \<Rightarrow> (string \<times> string) option" where
  "cut_last_colon s =
     (if colon \<in> set s
      then Some (rev (tl (dropWhile (\<lambda>c. c \<noteq> colon) (rev s))), rev (takeWhile (\<lambda>c. c \<noteq> colon) (rev s)))
      else None)"

text \<open>
  \<^verbatim>\<open>net.SplitHostPort\<close>. In the bracketed form the closing bracket must be right before the
  last colon; outside the brackets no other bracket or colon is allowed.
\<close>

definition split_host_port :: "string \<Rightarrow> (string \<times> string) result" where
  "split_host_port s =
     (case cut_last_colon s of
        None \<Rightarrow> Inl ''missing port in address''
      | Some (before, port) \<Rightarrow>
          if has_prefix s [lbracket] then
            (if rbracket \<notin> set s then Inl ''missing ']' in address''
             else let inner = takeWhile (\<lambda>c. c \<noteq> rbracket) (tl s);
                      after = tl (dropWhile (\<lambda>c. c \<noteq> rbracket) s)
               in if after = [] then Inl ''missing port in address''
                  else if after \<noteq> colon # port then
                    Inl (if hd after = colon then ''too many colons in address'' else ''missing port in address'')
                  else if lbracket \<in> set (tl s) then Inl ''unexpected '[' in address''
                  else if rbracket \<in> set after then Inl ''unexpected ']' in address''
                  else Inr (inner, port))
          else if colon \<in> set before then Inl ''too many colons in address''
          else if lbracket \<in> set s then Inl ''unexpected '[' in address''
          else if rbracket \<in> set s then Inl ''unexpected ']' in address''
          else Inr (before, port))"

lemma cut_last_colon_append [simp]:
  "colon \<notin> set p \<Longrightarrow> cut_last_colon (h @ colon # p) = Some (h, p)"
  by (simp add: cut_last_colon_def)

lemma brackets_distinct [simp]:
  "colon \<noteq> lbracket" "colon \<noteq> rbracket" "lbracket \<noteq> rbracket" "lbracket \<noteq> colon" "rbracket \<noteq> colon"
  "rbracket \<noteq> lbracket"
  by (simp_all add: colon_def lbracket_def rbracket_def)

text \<open>Splitting what was joined, for hosts and ports without brackets.\<close>

lemma split_join_host_port:
  assumes "set port \<inter> {colon, lbracket, rbracket} = {}" and "set host \<inter> {lbracket, rbracket} = {}"
  shows "split_host_port (join_host_port host port) = Inr (host, port)"
proof (cases "colon \<in> set host")
  case True
  have c: "colon \<notin> set port" "lbracket \<notin> set port" "rbracket \<notin> set port"
    and h: "lbracket \<notin> set host" "rbracket \<notin> set host" using assms by auto
  have "cut_last_colon ((lbracket # host @ [rbracket]) @ colon # port) = Some (lbracket # host @ [rbracket], port)"
    by (rule cut_last_colon_append [OF c(1)])
  then have cut: "cut_last_colon (lbracket # host @ rbracket # colon # port)
      = Some (lbracket # host @ [rbracket], port)" by simp
  show ?thesis
    using True c h cut by (simp add: join_host_port_def split_host_port_def has_prefix_def Let_def)
next
  case False
  have c: "colon \<notin> set port" "lbracket \<notin> set port" "rbracket \<notin> set port"
    and h: "lbracket \<notin> set host" "rbracket \<notin> set host" using assms by auto
  have "\<not> has_prefix (host @ colon # port) [lbracket]"
    using h by (cases host) (auto simp: has_prefix_def)
  then show ?thesis
    using False c h by (simp add: join_host_port_def split_host_port_def)
qed

section \<open>ncStream\<close>

text \<open>
  One goroutine copies the connection to standard output, the other standard input to the
  connection. \<open>nc_peer\<close> and \<open>nc_user\<close> are the histories of what the peer and the
  caller have supplied; \<open>nc_in\<close> and \<open>nc_stdin\<close> what of it is not yet read.
\<close>

record nc =
  nc_peer :: bytes
  nc_in :: bytes
  nc_peer_closed :: bool
  nc_out :: bytes
  nc_rdone :: bool
  nc_user :: bytes
  nc_stdin :: bytes
  nc_eof :: bool
  nc_sent :: bytes
  nc_wdone :: bool

definition nc_init :: nc where
  "nc_init = \<lparr>nc_peer = [], nc_in = [], nc_peer_closed = False, nc_out = [], nc_rdone = False,
     nc_user = [], nc_stdin = [], nc_eof = False, nc_sent = [], nc_wdone = False\<rparr>"

inductive ncStream_step :: "nc \<Rightarrow> nc \<Rightarrow> bool" where
  peer_sends: "\<not> nc_peer_closed s \<Longrightarrow>
     ncStream_step s (s\<lparr>nc_peer := nc_peer s @ b, nc_in := nc_in s @ b\<rparr>)"
| peer_closes: "ncStream_step s (s\<lparr>nc_peer_closed := True\<rparr>)"
| user_types: "\<not> nc_eof s \<Longrightarrow>
     ncStream_step s (s\<lparr>nc_user := nc_user s @ b, nc_stdin := nc_stdin s @ b\<rparr>)"
| user_eof: "ncStream_step s (s\<lparr>nc_eof := True\<rparr>)"
| copy_out: "\<not> nc_rdone s \<Longrightarrow> nc_in s \<noteq> [] \<Longrightarrow>
     ncStream_step s (s\<lparr>nc_out := nc_out s @ take n (nc_in s), nc_in := drop n (nc_in s)\<rparr>)"
| copy_in: "\<not> nc_wdone s \<Longrightarrow> nc_stdin s \<noteq> [] \<Longrightarrow>
     ncStream_step s (s\<lparr>nc_sent := nc_sent s @ take n (nc_stdin s), nc_stdin := drop n (nc_stdin s)\<rparr>)"
| out_done: "nc_in s = [] \<Longrightarrow> nc_peer_closed s \<Longrightarrow> ncStream_step s (s\<lparr>nc_rdone := True\<rparr>)"
| in_done: "nc_stdin s = [] \<Longrightarrow> nc_eof s \<Longrightarrow> ncStream_step s (s\<lparr>nc_wdone := True\<rparr>)"

text \<open>\<^verbatim>\<open>wg.Wait()\<close> returns when both copies are done.\<close>

definition ncStream_returned :: "nc \<Rightarrow> bool" where
  "ncStream_returned s \<longleftrightarrow> nc_rdone s \<and> nc_wdone s"

definition nc_inv :: "nc \<Rightarrow> bool" where
  "nc_inv s \<longleftrightarrow> nc_peer s = nc_out s @ nc_in s \<and> nc_user s = nc_sent s @ nc_stdin s
     \<and> (nc_rdone s \<longrightarrow> nc_in s = [] \<and> nc_peer_closed s) \<and> (nc_wdone s \<longrightarrow> nc_stdin s = [] \<and> nc_eof s)"

interpretation nc: step_invariant ncStream_step nc_inv
proof
  fix s t
  assume "nc_inv s" and "ncStream_step s t"
  from this(2,1) show "nc_inv t"
    by (cases rule: ncStream_step.cases) (auto simp: nc_inv_def)
qed

lemma ncStream_reached:
  assumes "ncStream_step\<^sup>*\<^sup>* nc_init s"
  shows "nc_inv s"
  by (rule nc.run_preserves [OF assms]) (simp add: nc_inv_def nc_init_def)


text \<open>As a call: the bytes the peer sent go to standard output, and standard input is used up.\<close>

definition ncStream :: "'w kernel \<Rightarrow> nat \<Rightarrow> 'w \<Rightarrow> proc \<Rightarrow> 'w outcome" where
  "ncStream k conn w p =
     (case k_stream k w conn (stdin p) of (received, w1) \<Rightarrow>
        (k_close k w1 conn, print received (p\<lparr>stdin := []\<rparr>), Exit 0))"

section \<open>nc\<close>

definition nc_tcp :: "'w kernel \<Rightarrow> string list \<Rightarrow> 'w \<Rightarrow> proc \<Rightarrow> 'w outcome" where
  "nc_tcp k args w p =
     (if length args < 3 then fail ''usage: nc <host> <port>'' 1 w p
      else case k_dial k w ''tcp'' (join_host_port (args ! 1) (args ! 2)) of
        (Inl e, w1) \<Rightarrow> fail (''nc: '' @ args ! 1 @ '':'' @ args ! 2 @ '': '' @ e) 1 w1 p
      | (Inr conn, w1) \<Rightarrow> ncStream k conn w1 p)"

definition nc_unix :: "'w kernel \<Rightarrow> string list \<Rightarrow> 'w \<Rightarrow> proc \<Rightarrow> 'w outcome" where
  "nc_unix k args w p =
     (if length args < 3 then fail ''usage: nc -U <socket-path>'' 1 w p
      else case k_dial k w ''unix'' (args ! 2) of
        (Inl e, w1) \<Rightarrow> fail (''nc: '' @ args ! 2 @ '': '' @ e) 1 w1 p
      | (Inr conn, w1) \<Rightarrow> ncStream k conn w1 p)"

text \<open>The notice of \<^verbatim>\<open>-v\<close>, on standard error: the socket actually bound.\<close>

definition nc_announce :: "bool \<Rightarrow> string \<Rightarrow> proc \<Rightarrow> proc result" where
  "nc_announce verbose addr p =
     (if \<not> verbose then Inr p
      else case split_host_port addr of
        Inl e \<Rightarrow> Inl e
      | Inr (host, port) \<Rightarrow> Inr (eprintln (''Listening on '' @ host @ '' '' @ port) p))"

definition nc_listen :: "'w kernel \<Rightarrow> bool \<Rightarrow> string list \<Rightarrow> 'w \<Rightarrow> proc \<Rightarrow> 'w outcome" where
  "nc_listen k verbose args w p =
     (if length args < 3 then fail ''usage: nc [-v] -l <port>'' 1 w p
      else case k_listen k w ''tcp4'' (''0.0.0.0:'' @ args ! 2) of
        (Inl e, w1) \<Rightarrow> fail (''nc: listen 0.0.0.0:'' @ args ! 2 @ '': '' @ e) 1 w1 p
      | (Inr (ln, addr), w1) \<Rightarrow>
         (case nc_announce verbose addr p of
            Inl e \<Rightarrow> fail (''nc: splithost: '' @ e) 1 w1 p
          | Inr p1 \<Rightarrow>
             (case k_accept k w1 ln of
                (Inl e, w2) \<Rightarrow> fail (''nc: accept: '' @ e) 1 (k_close k w2 ln) p1
              | (Inr conn, w2) \<Rightarrow> ncStream k conn (k_close k w2 ln) p1)))"

definition nc_udp :: "'w kernel \<Rightarrow> string list \<Rightarrow> 'w \<Rightarrow> proc \<Rightarrow> 'w outcome" where
  "nc_udp k args w p =
     (if length args < 4 then fail ''usage: nc -u <host> <port>'' 1 w p
      else case k_resolve_udp k w (join_host_port (args ! 2) (args ! 3)) of
        Inl e \<Rightarrow> fail (''nc: resolve '' @ args ! 2 @ '':'' @ args ! 3 @ '': '' @ e) 1 w p
      | Inr raddr \<Rightarrow>
         (case k_listen k w ''udp'' '':0'' of
            (Inl e, w1) \<Rightarrow> fail (''nc: udp listen: '' @ e) 1 w1 p
          | (Inr (pc, addr), w1) \<Rightarrow>
             (case k_readstdin k w1 (stdin p) of
                Inl e \<Rightarrow> fail (''nc: read stdin: '' @ e) 1 w1 p
              | Inr payload \<Rightarrow>
                 (case k_sendto k w1 pc payload raddr of
                    (Some e, w2) \<Rightarrow> fail (''nc: udp send: '' @ e) 1 w2 (p\<lparr>stdin := []\<rparr>)
                  | (None, w2) \<Rightarrow>
                     (case k_recvfrom k w2 pc 65536 of
                        (Inl e, w3) \<Rightarrow> fail (''nc: udp recv: '' @ e) 1 w3 (p\<lparr>stdin := []\<rparr>)
                      | (Inr reply, w3) \<Rightarrow>
                         (k_close k w3 pc, print reply (p\<lparr>stdin := []\<rparr>), Exit 0))))))"

definition nc_mode :: "'w kernel \<Rightarrow> bool \<Rightarrow> string list \<Rightarrow> 'w \<Rightarrow> proc \<Rightarrow> 'w outcome" where
  "nc_mode k verbose args w p =
     (if args ! 1 = ''-U'' then nc_unix k args w p
      else if args ! 1 = ''-l'' then nc_listen k verbose args w p
      else if args ! 1 = ''-u'' then nc_udp k args w p
      else nc_tcp k args w p)"

definition cmdNC :: "'w kernel \<Rightarrow> string list \<Rightarrow> 'w \<Rightarrow> proc \<Rightarrow> 'w outcome" where
  "cmdNC k args w p =
     (if length args < 2 then
        fail ''usage: nc [-u] <host> <port> | nc [-v] -l <port> | nc -U <socket-path>'' 1 w p
      else if args ! 1 = ''-v'' then
        (let args = hd args # drop 2 args in
         if length args < 2 then fail ''usage: nc [-v] -l <port>'' 1 w p
         else nc_mode k True args w p)
      else nc_mode k False args w p)"

text \<open>
  Standard output carries the connection's payload and nothing else: on success it grows by
  what was received, on failure it is unchanged.
\<close>

lemma ncStream_stdout:
  "room p = None \<Longrightarrow> stdout (proc_of (ncStream k c w p)) = stdout p @ fst (k_stream k w c (stdin p))"
  by (simp add: ncStream_def split: prod.split)

lemma ncStream_ending [simp]: "ending_of (ncStream k c w p) = Exit 0"
  by (simp add: ncStream_def split: prod.split)

lemma nc_announce_stdout: "nc_announce v addr p = Inr p1 \<Longrightarrow> stdout p1 = stdout p"
  by (auto simp: nc_announce_def split: if_splits sum.splits prod.splits)

lemma nc_tcp_silent: "ending_of (nc_tcp k args w p) \<noteq> Exit 0 \<Longrightarrow> stdout (proc_of (nc_tcp k args w p)) = stdout p"
  by (auto simp: nc_tcp_def split: if_splits prod.splits sum.splits)

lemma nc_unix_silent: "ending_of (nc_unix k args w p) \<noteq> Exit 0 \<Longrightarrow> stdout (proc_of (nc_unix k args w p)) = stdout p"
  by (auto simp: nc_unix_def split: if_splits prod.splits sum.splits)

lemma nc_udp_silent: "ending_of (nc_udp k args w p) \<noteq> Exit 0 \<Longrightarrow> stdout (proc_of (nc_udp k args w p)) = stdout p"
  by (auto simp: nc_udp_def split: if_splits prod.splits sum.splits option.splits)

lemma nc_listen_silent:
  "ending_of (nc_listen k v args w p) \<noteq> Exit 0 \<Longrightarrow> stdout (proc_of (nc_listen k v args w p)) = stdout p"
  by (auto simp: nc_listen_def nc_announce_stdout split: if_splits prod.splits sum.splits)

lemmas nc_modes_silent = nc_tcp_silent nc_unix_silent nc_udp_silent nc_listen_silent

lemma nc_failure_silent:
  "ending_of (cmdNC k args w p) \<noteq> Exit 0 \<Longrightarrow> stdout (proc_of (cmdNC k args w p)) = stdout p"
  by (simp add: cmdNC_def nc_mode_def Let_def nc_modes_silent split: if_splits)

lemma nc_listen_quiet:
  "ending_of (nc_listen k False args w p) = Exit 0 \<Longrightarrow> stderr (proc_of (nc_listen k False args w p)) = stderr p"
  by (auto simp: nc_listen_def nc_announce_def ncStream_def split: prod.splits sum.splits if_splits)

end
