(* ===== verification/Testbin_Shm.thy ===== *)
theory Testbin_Shm
  imports Testbin_World
begin

text \<open>
  The namespace probes of \<^verbatim>\<open>testbin/testbin.go\<close>: SysV shared memory, shared file
  mappings, and the host name. The kernel's side is described by laws over a view of the
  machine state (which segment a key names, what a segment holds, which segment an address
  is attached to); under them a marker written by one process is the marker the other reads,
  and a read without a segment is reported, never papered over by creating one.
\<close>

section \<open>The commands\<close>

definition shmSize :: nat where "shmSize = 4096"

definition nul :: char where "nul = CHR 0x00"

text \<open>\<^verbatim>\<open>n := copy(buf[:], marker); buf[n] = 0\<close>.\<close>

fun store_from :: "'w kernel \<Rightarrow> nat \<Rightarrow> nat \<Rightarrow> bytes \<Rightarrow> 'w \<Rightarrow> 'w" where
  "store_from k a i [] w = w"
| "store_from k a i (c # cs) w = store_from k a (Suc i) cs (k_store k w a i c)"

definition store_marker :: "'w kernel \<Rightarrow> nat \<Rightarrow> bytes \<Rightarrow> 'w \<Rightarrow> 'w" where
  "store_marker k a marker w = k_store k (store_from k a 0 marker w) a (length marker) nul"

text \<open>\<^verbatim>\<open>buf[:bytes.IndexByte(buf, 0)]\<close>, or all of it when it has no zero byte.\<close>

definition until_nul :: "bytes \<Rightarrow> bytes" where
  "until_nul b = takeWhile (\<lambda>c. c \<noteq> nul) b"

definition cmdShmWrite :: "'w kernel \<Rightarrow> string list \<Rightarrow> 'w \<Rightarrow> proc \<Rightarrow> 'w outcome" where
  "cmdShmWrite k args w p =
     (if length args < 3 then fail ''usage: shmwrite <key> <marker>'' 1 w p
      else case atoi (args ! 1) of
        None \<Rightarrow> fail (''shmwrite: invalid key '' @ quote (args ! 1) @ '': ''
               @ num_error ''ParseInt'' (args ! 1)) 1 w p
      | Some key \<Rightarrow>
          let marker = args ! 2 in
          if shmSize \<le> length marker then fail ''shmwrite: marker too large'' 1 w p
          else case k_shmget k w key shmSize True of
            (Inl e, w1) \<Rightarrow> fail (''shmwrite: shmget: '' @ e) 1 w1 p
          | (Inr shmid, w1) \<Rightarrow>
              (case k_shmat k w1 shmid of
                 (Inl e, w2) \<Rightarrow> fail (''shmwrite: shmat: '' @ e) 1 w2 p
               | (Inr addr, w2) \<Rightarrow>
                   (k_shmdt k (store_marker k addr marker w2) addr, println ''shmwrite: ok'' p, Exit 0)))"

definition cmdShmRead :: "'w kernel \<Rightarrow> string list \<Rightarrow> 'w \<Rightarrow> proc \<Rightarrow> 'w outcome" where
  "cmdShmRead k args w p =
     (if length args < 2 then fail ''usage: shmread <key>'' 1 w p
      else case atoi (args ! 1) of
        None \<Rightarrow> fail (''shmread: invalid key '' @ quote (args ! 1) @ '': ''
               @ num_error ''ParseInt'' (args ! 1)) 1 w p
      | Some key \<Rightarrow>
          (case k_shmget k w key shmSize False of
             (Inl e, w1) \<Rightarrow> (w1, println ''shmread: NOTFOUND'' p, Exit 1)
           | (Inr shmid, w1) \<Rightarrow>
              (case k_shmat k w1 shmid of
                 (Inl e, w2) \<Rightarrow> fail (''shmread: shmat: '' @ e) 1 w2 p
               | (Inr addr, w2) \<Rightarrow>
                   (k_shmdt k w2 addr, println (until_nul (k_load k w2 addr)) p, Exit 0))))"

definition shmMapSize :: nat where "shmMapSize = 4096"

definition cmdShmMapWrite :: "'w kernel \<Rightarrow> string list \<Rightarrow> 'w \<Rightarrow> proc \<Rightarrow> 'w outcome" where
  "cmdShmMapWrite k args w p =
     (if length args < 3 then fail ''usage: shmmapwrite <path> <marker>'' 1 w p
      else let path = args ! 1; marker = args ! 2 in
        if shmMapSize \<le> length marker then (w, println ''shmmapwrite: marker too large'' p, Exit 1)
        else case k_openrw k w path of
          (Inl e, w1) \<Rightarrow> (w1, println (''shmmapwrite: open: '' @ e) p, Exit 1)
        | (Inr fd, w1) \<Rightarrow>
          (case k_truncate k w1 fd shmMapSize of
             (Some e, w2) \<Rightarrow> (w2, println (''shmmapwrite: truncate: '' @ e) p, Exit 1)
           | (None, w2) \<Rightarrow>
             (case k_mmap k w2 fd shmMapSize True of
                (Inl e, w3) \<Rightarrow> (w3, println (''shmmapwrite: mmap: '' @ e) p, Exit 1)
              | (Inr addr, w3) \<Rightarrow>
                (case k_munmap k (store_marker k addr marker w3) addr of
                   (Some e, w4) \<Rightarrow> (w4, println (''shmmapwrite: munmap: '' @ e) p, Exit 1)
                 | (None, w4) \<Rightarrow> (w4, println ''shmmapwrite: ok'' p, Exit 0)))))"

definition cmdShmMapRead :: "'w kernel \<Rightarrow> string list \<Rightarrow> 'w \<Rightarrow> proc \<Rightarrow> 'w outcome" where
  "cmdShmMapRead k args w p =
     (if length args < 2 then fail ''usage: shmmapread <path>'' 1 w p
      else case k_openro k w (args ! 1) of
        Inl e \<Rightarrow> (w, println ''shmmapread: NOTFOUND'' p, Exit 1)
      | Inr fd \<Rightarrow>
          (case k_mmap k w fd shmMapSize False of
             (Inl e, w1) \<Rightarrow> fail (''shmmapread: mmap: '' @ e) 1 w1 p
           | (Inr addr, w1) \<Rightarrow>
               (snd (k_munmap k w1 addr), println (until_nul (k_load k w1 addr)) p, Exit 0)))"

definition cmdHostname :: "'w kernel \<Rightarrow> string list \<Rightarrow> 'w \<Rightarrow> proc \<Rightarrow> 'w outcome" where
  "cmdHostname k args w p =
     (if length args < 2 then
        (case k_hostname k w of
           Inl e \<Rightarrow> fail (''hostname: '' @ e) 1 w p
         | Inr name \<Rightarrow> (w, println name p, Exit 0))
      else case k_sethostname k w (args ! 1) of
        (Some e, w1) \<Rightarrow> fail (''hostname: '' @ e) 1 w1 p
      | (None, w1) \<Rightarrow> (w1, p, Exit 0))"

section \<open>Laws of shared memory objects\<close>

text \<open>
  \<open>obj\<close> is the content of each memory object (a segment or a mapped file) and \<open>att\<close> the
  object an address is attached to. When the object fills the 4096 bytes mapped, a load reads
  its first 4096 bytes and a store writes one of them; addresses stay attached.
\<close>

definition memory_laws ::
    "'w kernel \<Rightarrow> ('w \<Rightarrow> 'o \<Rightarrow> bytes) \<Rightarrow> ('w \<Rightarrow> nat \<Rightarrow> 'o option) \<Rightarrow> bool" where
  "memory_laws k obj att \<longleftrightarrow>
     (\<forall>w a x. att w a = Some x \<longrightarrow> 4096 \<le> length (obj w x) \<longrightarrow> k_load k w a = take 4096 (obj w x))
   \<and> (\<forall>w a x i c. att w a = Some x \<longrightarrow> 4096 \<le> length (obj w x) \<longrightarrow> i < 4096 \<longrightarrow>
        obj (k_store k w a i c) = (obj w)(x := (obj w x)[i := c]) \<and> att (k_store k w a i c) = att w)"

lemma mem_load:
  assumes "memory_laws k obj att" and "att w a = Some x" and "4096 \<le> length (obj w x)"
  shows "k_load k w a = take 4096 (obj w x)"
  using assms unfolding memory_laws_def by blast

lemma mem_store:
  assumes "memory_laws k obj att" and "att w a = Some x" and "4096 \<le> length (obj w x)" and "i < 4096"
  shows "obj (k_store k w a i c) = (obj w)(x := (obj w x)[i := c]) \<and> att (k_store k w a i c) = att w"
  using assms unfolding memory_laws_def by blast

lemma store_from_obj:
  assumes "memory_laws k obj att" and "att w a = Some x" and "4096 \<le> length (obj w x)"
    and "i + length s \<le> 4096"
  shows "obj (store_from k a i s w) x = take i (obj w x) @ s @ drop (i + length s) (obj w x)
    \<and> att (store_from k a i s w) = att w"
  using assms(2-)
proof (induction s arbitrary: i w)
  case Nil
  then show ?case by simp
next
  case (Cons c cs)
  let ?w = "k_store k w a i c"
  have i: "i < 4096" using Cons.prems(3) by simp
  note st = mem_store [OF assms(1) Cons.prems(1,2) i, of c]
  have o: "obj ?w x = (obj w x)[i := c]" using st by simp
  have at: "att ?w a = Some x" using st Cons.prems(1) by simp
  have tk: "take (Suc i) ((obj w x)[i := c]) = take i (obj w x) @ [c]"
    using Cons.prems(2) i by (simp add: take_Suc_conv_app_nth)
  have "4096 \<le> length (obj ?w x)" "Suc i + length cs \<le> 4096" using Cons.prems(2,3) o by simp_all
  from Cons.IH [OF at this] show ?case using o tk st by simp
qed

text \<open>After the marker and its terminator are stored, the object reads back as the marker.\<close>

lemma store_marker_reads:
  assumes "memory_laws k obj att" and "att w a = Some x" and "4096 \<le> length (obj w x)"
    and "length m < 4096" and "nul \<notin> set m"
  shows "until_nul (take 4096 (obj (store_marker k a m w) x)) = m"
    and "length (obj (store_marker k a m w) x) = length (obj w x)"
proof -
  let ?w = "store_from k a 0 m w"
  have f: "obj ?w x = m @ drop (length m) (obj w x)" "att ?w a = Some x"
    using store_from_obj [OF assms(1-3), of 0 m] assms(2,4) by simp_all
  have l: "4096 \<le> length (obj ?w x)" using f(1) assms(3,4) by simp
  have "obj (store_marker k a m w) x = (obj ?w x)[length m := nul]"
    using mem_store [OF assms(1) f(2) l assms(4), of nul] by (simp add: store_marker_def)
  then have e: "obj (store_marker k a m w) x = m @ nul # drop (Suc (length m)) (obj w x)"
    using f(1) assms(3,4)
    by (simp add: list_update_append hd_drop_nth [of "length m" "obj w x"] del: Cons_nth_drop_Suc)
  show "length (obj (store_marker k a m w) x) = length (obj w x)" using e assms(3,4) by simp
  obtain r where "take 4096 (obj (store_marker k a m w) x) = m @ nul # r"
    using e assms(4) by (simp add: take_Cons' split: if_splits)
  moreover have "takeWhile (\<lambda>c. c \<noteq> nul) (m @ nul # r) = m" for r
    using assms(5) by (subst takeWhile_append2) auto
  ultimately show "until_nul (take 4096 (obj (store_marker k a m w) x)) = m" by (simp add: until_nul_def)
qed

section \<open>SysV segments\<close>

record 'w shm_view =
  seg_of :: "'w \<Rightarrow> int \<Rightarrow> nat option"
  seg_bytes :: "'w \<Rightarrow> nat \<Rightarrow> bytes"
  attached :: "'w \<Rightarrow> nat \<Rightarrow> nat option"

text \<open>The kernel reads a key as 32 bits; zero is \<^verbatim>\<open>IPC_PRIVATE\<close>, which names no segment.\<close>

definition shared_key :: "int \<Rightarrow> bool" where
  "shared_key key \<longleftrightarrow> key mod 2 ^ 32 \<noteq> 0"

text \<open>
  shmget(2), shmat(2), shmdt(2) in one IPC namespace: a successful get of an existing key
  gives its segment and changes nothing; getting a missing key without \<^verbatim>\<open>IPC_CREAT\<close> is an
  error; the segment got is the key's from then on and is at least as long as asked for;
  attaching and detaching change no segment, and no store changes which segment a key names.
\<close>

definition sysv_laws :: "'w kernel \<Rightarrow> 'w shm_view \<Rightarrow> bool" where
  "sysv_laws k v \<longleftrightarrow>
     memory_laws k (seg_bytes v) (attached v)
   \<and> (\<forall>w key n cr x y w'. shared_key key \<longrightarrow> seg_of v w key = Some x \<longrightarrow>
        k_shmget k w key n cr = (Inr y, w') \<longrightarrow> y = x \<and> w' = w)
   \<and> (\<forall>w key n. shared_key key \<longrightarrow> seg_of v w key = None \<longrightarrow> (\<exists>e. k_shmget k w key n False = (Inl e, w)))
   \<and> (\<forall>w key n cr x w'. shared_key key \<longrightarrow> k_shmget k w key n cr = (Inr x, w') \<longrightarrow>
        seg_of v w' key = Some x \<and> n \<le> length (seg_bytes v w' x))
   \<and> (\<forall>w x a w'. k_shmat k w x = (Inr a, w') \<longrightarrow>
        attached v w' a = Some x \<and> seg_of v w' = seg_of v w \<and> seg_bytes v w' = seg_bytes v w)
   \<and> (\<forall>w a. seg_of v (k_shmdt k w a) = seg_of v w \<and> seg_bytes v (k_shmdt k w a) = seg_bytes v w)
   \<and> (\<forall>w a i c. seg_of v (k_store k w a i c) = seg_of v w)"

lemmas sysv_memory = sysv_laws_def [THEN iffD1, THEN conjunct1]
lemmas sysv_existing = sysv_laws_def [THEN iffD1, THEN conjunct2, THEN conjunct1, rule_format]
lemmas sysv_missing = sysv_laws_def [THEN iffD1, THEN conjunct2, THEN conjunct2, THEN conjunct1, rule_format]
lemmas sysv_got = sysv_laws_def [THEN iffD1, THEN conjunct2, THEN conjunct2, THEN conjunct2, THEN conjunct1, rule_format]
lemmas sysv_attach = sysv_laws_def [THEN iffD1, THEN conjunct2, THEN conjunct2, THEN conjunct2, THEN conjunct2, THEN conjunct1, rule_format]
lemmas sysv_detach = sysv_laws_def [THEN iffD1, THEN conjunct2, THEN conjunct2, THEN conjunct2, THEN conjunct2, THEN conjunct2, THEN conjunct1, rule_format]
lemmas sysv_store = sysv_laws_def [THEN iffD1, THEN conjunct2, THEN conjunct2, THEN conjunct2, THEN conjunct2, THEN conjunct2, THEN conjunct2, rule_format]

lemma store_from_seg_of: "sysv_laws k v \<Longrightarrow> seg_of v (store_from k a i s w) = seg_of v w"
  by (induction s arbitrary: i w) (simp_all add: sysv_store)

text \<open>The text a key's segment reads back as: what shmread prints.\<close>

definition seg_text :: "'w shm_view \<Rightarrow> 'w \<Rightarrow> int \<Rightarrow> bytes option" where
  "seg_text v w key = map_option (\<lambda>x. until_nul (take shmSize (seg_bytes v w x))) (seg_of v w key)"

lemma cmdShmWrite_stores:
  assumes laws: "sysv_laws k v" and nn: "nul \<notin> set (args ! 2)"
    and key: "atoi (args ! 1) = Some key" "shared_key key"
    and ok: "cmdShmWrite k args w p = (w', p', Exit 0)"
  shows "seg_text v w' key = Some (args ! 2)"
proof -
  let ?m = "args ! 2"
  note mem = sysv_memory [OF laws]
  from ok key(1) obtain x w1 a w2 where
    h: "length ?m < shmSize" "k_shmget k w key shmSize True = (Inr x, w1)"
      "k_shmat k w1 x = (Inr a, w2)" "w' = k_shmdt k (store_marker k a ?m w2) a"
    by (auto simp: cmdShmWrite_def fail_def Let_def split: if_splits option.splits sum.splits prod.splits)
  have at: "attached v w2 a = Some x" "seg_of v w2 key = Some x" "4096 \<le> length (seg_bytes v w2 x)"
    using sysv_got [OF laws key(2) h(2)] sysv_attach [OF laws h(3)] by (simp_all add: shmSize_def)
  have "seg_of v w' key = Some x"
    using at(2) h(4) store_from_seg_of [OF laws, of a 0 ?m w2]
    by (simp add: sysv_detach [OF laws] sysv_store [OF laws] store_marker_def)
  moreover have "until_nul (take 4096 (seg_bytes v w' x)) = ?m"
    using store_marker_reads(1) [OF mem at(1,3) _ nn] h(1,4) by (simp add: sysv_detach [OF laws] shmSize_def)
  ultimately show ?thesis by (simp add: seg_text_def shmSize_def)
qed

text \<open>A read that exits 0 found the segment and printed its text, changing no segment.\<close>

lemma cmdShmRead_ok:
  assumes laws: "sysv_laws k v" and key: "atoi (args ! 1) = Some key" "shared_key key"
    and ok: "cmdShmRead k args w p = (w', p', Exit 0)"
  shows "\<exists>t. seg_text v w key = Some t \<and> p' = println t p \<and> seg_text v w' = seg_text v w"
proof -
  from ok key(1) obtain x w1 a w2 where
    h: "k_shmget k w key shmSize False = (Inr x, w1)" "k_shmat k w1 x = (Inr a, w2)"
      "w' = k_shmdt k w2 a" "p' = println (until_nul (k_load k w2 a)) p"
    by (auto simp: cmdShmRead_def fail_def split: if_splits option.splits sum.splits prod.splits)
  have "seg_of v w key \<noteq> None" using sysv_missing [OF laws key(2), of w shmSize] h(1) by fastforce
  then have w1: "w1 = w" "seg_of v w key = Some x" using sysv_existing [OF laws key(2) _ h(1)] by auto
  have at: "attached v w2 a = Some x" "seg_of v w2 = seg_of v w" "seg_bytes v w2 = seg_bytes v w"
    using sysv_attach [OF laws h(2)] w1 by simp_all
  have "4096 \<le> length (seg_bytes v w2 x)" using sysv_got [OF laws key(2) h(1)] w1 at by (simp add: shmSize_def)
  then have "k_load k w2 a = take 4096 (seg_bytes v w x)"
    using mem_load [OF sysv_memory [OF laws] at(1)] at(3) by simp
  moreover have "seg_text v w' = seg_text v w"
    using h(3) at by (simp add: seg_text_def fun_eq_iff sysv_detach [OF laws])
  ultimately show ?thesis using w1(2) h(4) by (simp add: seg_text_def shmSize_def)
qed

lemma cmdShmRead_missing:
  assumes "sysv_laws k v" and "2 \<le> length args" and "atoi (args ! 1) = Some key" "shared_key key"
    and "seg_text v w key = None"
  shows "cmdShmRead k args w p = (w, println ''shmread: NOTFOUND'' p, Exit 1)"
proof -
  have "seg_of v w key = None" using assms(5) by (simp add: seg_text_def)
  then obtain e where "k_shmget k w key shmSize False = (Inl e, w)"
    using sysv_missing [OF assms(1,4)] by blast
  with assms(2,3) show ?thesis by (simp add: cmdShmRead_def)
qed

text \<open>What one container writes under a key, a later read of the key prints.\<close>

text \<open>
  C22. In one IPC namespace, a shmread of a key that exits 0 right after a shmwrite of the
  key that exited 0 prints exactly the marker written.
\<close>

theorem shm_roundtrip:
  assumes "sysv_laws k v" and "nul \<notin> set m" and "atoi key = Some n" "shared_key n"
    and "cmdShmWrite k [''shmwrite'', key, m] w p = (w1, p1, Exit 0)"
    and "cmdShmRead k [''shmread'', key] w1 q = (w2, q1, Exit 0)"
  shows "q1 = println m q"
  using cmdShmWrite_stores [OF assms(1) _ _ assms(4,5)] cmdShmRead_ok [OF assms(1) _ assms(4,6)] assms(2,3)
  by simp

section \<open>Shared file mappings\<close>

text \<open>
  A view of the file system for mappings: the content of each file, whether it exists, the
  file an open descriptor refers to, and the file an address maps. Opening creates a missing
  file only with \<^verbatim>\<open>O_CREATE\<close>; truncating sets the length; mapping and unmapping change
  no file.
\<close>

record 'w map_view =
  file_bytes :: "'w \<Rightarrow> string \<Rightarrow> bytes"
  exists_at :: "'w \<Rightarrow> string \<Rightarrow> bool"
  fd_path :: "'w \<Rightarrow> nat \<Rightarrow> string option"
  mapped :: "'w \<Rightarrow> nat \<Rightarrow> string option"

definition mmap_laws :: "'w kernel \<Rightarrow> 'w map_view \<Rightarrow> bool" where
  "mmap_laws k v \<longleftrightarrow>
     memory_laws k (file_bytes v) (mapped v)
   \<and> (\<forall>w path fd w'. k_openrw k w path = (Inr fd, w') \<longrightarrow> fd_path v w' fd = Some path \<and> exists_at v w' path)
   \<and> (\<forall>w path fd. k_openro k w path = Inr fd \<longrightarrow> exists_at v w path \<and> fd_path v w fd = Some path)
   \<and> (\<forall>w fd n path w'. k_truncate k w fd n = (None, w') \<longrightarrow> fd_path v w fd = Some path \<longrightarrow>
        length (file_bytes v w' path) = n \<and> fd_path v w' = fd_path v w \<and> exists_at v w' = exists_at v w)
   \<and> (\<forall>w fd n wr path a w'. k_mmap k w fd n wr = (Inr a, w') \<longrightarrow> fd_path v w fd = Some path \<longrightarrow>
        mapped v w' a = Some path \<and> file_bytes v w' = file_bytes v w \<and> exists_at v w' = exists_at v w)
   \<and> (\<forall>w a w' r. k_munmap k w a = (r, w') \<longrightarrow> file_bytes v w' = file_bytes v w \<and> exists_at v w' = exists_at v w)
   \<and> (\<forall>w a i c. exists_at v (k_store k w a i c) = exists_at v w)"

lemmas mmap_memory = mmap_laws_def [THEN iffD1, THEN conjunct1]
lemmas mmap_openrw = mmap_laws_def [THEN iffD1, THEN conjunct2, THEN conjunct1, rule_format]
lemmas mmap_openro = mmap_laws_def [THEN iffD1, THEN conjunct2, THEN conjunct2, THEN conjunct1, rule_format]
lemmas mmap_truncate = mmap_laws_def [THEN iffD1, THEN conjunct2, THEN conjunct2, THEN conjunct2, THEN conjunct1, rule_format]
lemmas mmap_map = mmap_laws_def [THEN iffD1, THEN conjunct2, THEN conjunct2, THEN conjunct2, THEN conjunct2, THEN conjunct1, rule_format]
lemmas mmap_unmap = mmap_laws_def [THEN iffD1, THEN conjunct2, THEN conjunct2, THEN conjunct2, THEN conjunct2, THEN conjunct2, THEN conjunct1, rule_format]
lemmas mmap_store = mmap_laws_def [THEN iffD1, THEN conjunct2, THEN conjunct2, THEN conjunct2, THEN conjunct2, THEN conjunct2, THEN conjunct2, rule_format]

lemma store_from_exists: "mmap_laws k v \<Longrightarrow> exists_at v (store_from k a i s w) = exists_at v w"
  by (induction s arbitrary: i w) (simp_all add: mmap_store)

lemma cmdShmMapWrite_stores:
  assumes laws: "mmap_laws k v" and nn: "nul \<notin> set (args ! 2)"
    and ok: "cmdShmMapWrite k args w p = (w', p', Exit 0)"
  shows "exists_at v w' (args ! 1)" and "length (file_bytes v w' (args ! 1)) = shmMapSize"
    and "until_nul (take shmMapSize (file_bytes v w' (args ! 1))) = args ! 2"
proof -
  let ?f = "args ! 1" and ?m = "args ! 2"
  note mem = mmap_memory [OF laws]
  from ok obtain fd w1 w2 a w3 where
    h: "length ?m < shmMapSize" "k_openrw k w ?f = (Inr fd, w1)" "k_truncate k w1 fd shmMapSize = (None, w2)"
      "k_mmap k w2 fd shmMapSize True = (Inr a, w3)" "k_munmap k (store_marker k a ?m w3) a = (None, w')"
    by (auto simp: cmdShmMapWrite_def fail_def Let_def split: if_splits option.splits sum.splits prod.splits)
  have fd: "fd_path v w2 fd = Some ?f" "exists_at v w2 ?f" "length (file_bytes v w2 ?f) = 4096"
    using mmap_openrw [OF laws h(2)] mmap_truncate [OF laws h(3)] by (simp_all add: shmMapSize_def)
  have at: "mapped v w3 a = Some ?f" "exists_at v w3 ?f" "length (file_bytes v w3 ?f) = 4096"
    using mmap_map [OF laws h(4) fd(1)] fd(2,3) by simp_all
  note un = mmap_unmap [OF laws h(5)]
  show "exists_at v w' ?f"
    using un at(2) store_from_exists [OF laws, of a 0 ?m w3]
    by (simp add: mmap_store [OF laws] store_marker_def)
  show "until_nul (take shmMapSize (file_bytes v w' ?f)) = ?m"
    and "length (file_bytes v w' ?f) = shmMapSize"
    using store_marker_reads [OF mem at(1) _ _ nn] at(3) h(1) un by (simp_all add: shmMapSize_def)
qed

text \<open>A read that exits 0 found the file; if the file fills the mapping, it printed its text.\<close>

lemma cmdShmMapRead_ok:
  assumes laws: "mmap_laws k v" and ok: "cmdShmMapRead k args w p = (w', p', Exit 0)"
    and full: "shmMapSize \<le> length (file_bytes v w (args ! 1))"
  shows "exists_at v w (args ! 1)"
    and "p' = println (until_nul (take shmMapSize (file_bytes v w (args ! 1)))) p"
    and "file_bytes v w' = file_bytes v w"
proof -
  let ?f = "args ! 1"
  from ok obtain fd a w1 where
    h: "k_openro k w ?f = Inr fd" "k_mmap k w fd shmMapSize False = (Inr a, w1)"
      "w' = snd (k_munmap k w1 a)" "p' = println (until_nul (k_load k w1 a)) p"
    by (auto simp: cmdShmMapRead_def fail_def split: if_splits option.splits sum.splits prod.splits)
  note fd = mmap_openro [OF laws h(1)]
  have at: "mapped v w1 a = Some ?f" "file_bytes v w1 = file_bytes v w"
    using mmap_map [OF laws h(2)] fd by simp_all
  show "exists_at v w ?f" using fd by simp
  show "p' = println (until_nul (take shmMapSize (file_bytes v w ?f))) p"
    using mem_load [OF mmap_memory [OF laws] at(1)] at(2) full h(4) by (simp add: shmMapSize_def)
  show "file_bytes v w' = file_bytes v w"
    using mmap_unmap [OF laws, of w1 a] h(3) at(2) by (metis prod.collapse)
qed

text \<open>What one process writes through a mapping of a file, another prints through its own.\<close>

theorem shm_map_roundtrip:
  assumes "mmap_laws k v" and "nul \<notin> set m"
    and "cmdShmMapWrite k [''shmmapwrite'', path, m] w p = (w1, p1, Exit 0)"
    and "cmdShmMapRead k [''shmmapread'', path] w1 q = (w2, q1, Exit 0)"
  shows "q1 = println m q"
  using cmdShmMapWrite_stores [OF assms(1) _ assms(3)] cmdShmMapRead_ok [OF assms(1,4)] assms(2) by simp

end
