(* ===== verification/Testbin_Probe.thy ===== *)
theory Testbin_Probe
  imports Testbin_Net Testbin_Shm
begin

text \<open>
  The one-shot probes of \<^verbatim>\<open>testbin/testbin.go\<close>: host, looptest, echosrv and pidscan. The
  random ports of looptest are a parameter, one number per draw below the bound asked for.
  In looptest the echo server runs on a goroutine; every step of it waits for one of the
  client's, so the two are written in the only order the data allows.
\<close>

section \<open>host\<close>

definition host_line :: "string \<Rightarrow> string \<Rightarrow> string" where
  "host_line name a = name @ '' has address '' @ a"

definition cmdHost :: "'w kernel \<Rightarrow> string list \<Rightarrow> 'w \<Rightarrow> proc \<Rightarrow> 'w outcome" where
  "cmdHost k args w p =
     (if length args < 2 then fail ''usage: host <hostname>'' 1 w p
      else case k_lookup_host k w (args ! 1) of
        Inl e \<Rightarrow> fail (''host: '' @ args ! 1 @ '': '' @ e) 1 w p
      | Inr addrs \<Rightarrow> (w, fold (\<lambda>a. println (host_line (args ! 1) a)) addrs p, Exit 0))"

lemma fold_println_of:
  "room p = None \<Longrightarrow>
     fold (\<lambda>a. println (f a)) xs p = p\<lparr>stdout := stdout p @ concat (map (\<lambda>a. f a @ newline) xs)\<rparr>"
  by (induction xs arbitrary: p) simp_all

lemma cmdHost_output:
  assumes "room p = None" and "2 \<le> length args" and "k_lookup_host k w (args ! 1) = Inr addrs"
  shows "cmdHost k args w p =
    (w, p\<lparr>stdout := stdout p @ concat (map (\<lambda>a. host_line (args ! 1) a @ newline) addrs)\<rparr>, Exit 0)"
  using assms by (simp add: cmdHost_def fold_println_of)

section \<open>One echo\<close>

text \<open>Accept one connection and close the listener; then read one chunk and write it back.\<close>

definition accept_one :: "'w kernel \<Rightarrow> nat \<Rightarrow> 'w \<Rightarrow> nat result \<times> 'w" where
  "accept_one k ln w =
     (case k_accept k w ln of
        (Inl e, w1) \<Rightarrow> (Inl (''accept: '' @ e), k_close k w1 ln)
      | (Inr conn, w1) \<Rightarrow> (Inr conn, k_close k w1 ln))"

definition echo_chunk :: "'w kernel \<Rightarrow> nat \<Rightarrow> 'w \<Rightarrow> err option \<times> 'w" where
  "echo_chunk k conn w =
     (case k_read k w conn 4096 of
        ((b, re), w1) \<Rightarrow>
          if b = [] \<and> re \<noteq> None then (Some (''read: '' @ the re), w1)
          else case k_write k w1 conn b of
            (Some e, w2) \<Rightarrow> (Some (''write: '' @ e), w2)
          | (None, w2) \<Rightarrow> (None, w2))"

lemma echo_chunk_verbatim:
  assumes "echo_chunk k conn w = (None, w')"
  obtains b re w1 where "k_read k w conn 4096 = ((b, re), w1)" "k_write k w1 conn b = (None, w')"
  using assms by (auto simp: echo_chunk_def split: prod.splits if_splits option.splits)

section \<open>looptest\<close>

definition looptestPortRangeStart :: nat where "looptestPortRangeStart = 20000"
definition looptestPortRangeEnd :: nat where "looptestPortRangeEnd = 29999"
definition looptestBindAttempts :: nat where "looptestBindAttempts = 20"

definition loop_port :: "(nat \<Rightarrow> nat \<Rightarrow> nat) \<Rightarrow> nat \<Rightarrow> nat" where
  "loop_port intN i =
     looptestPortRangeStart + intN i (looptestPortRangeEnd - looptestPortRangeStart + 1)"

text \<open>\<open>loop_bind\<close> makes at most \<open>n\<close> attempts, from draw \<open>i\<close> on.\<close>

fun loop_bind ::
    "'w kernel \<Rightarrow> (nat \<Rightarrow> nat \<Rightarrow> nat) \<Rightarrow> nat \<Rightarrow> nat \<Rightarrow> 'w \<Rightarrow> err \<Rightarrow> (nat \<times> string) result \<times> 'w" where
  "loop_bind k intN i 0 w lastErr = (Inl lastErr, w)"
| "loop_bind k intN i (Suc n) w lastErr =
     (case k_listen k w ''tcp4'' (join_host_port ''127.0.0.1'' (itoa (int (loop_port intN i)))) of
        (Inl e, w1) \<Rightarrow> loop_bind k intN (Suc i) n w1 e
      | (Inr l, w1) \<Rightarrow> (Inr l, w1))"

text \<open>The client's last part: read the echo, compare, print, and wait for the server's result.\<close>

definition loop_finish :: "'w kernel \<Rightarrow> string \<Rightarrow> nat \<Rightarrow> err option \<Rightarrow> 'w \<Rightarrow> proc \<Rightarrow> 'w outcome" where
  "loop_finish k token conn srv w p =
     (case k_read k w conn 4096 of
        ((b, re), w1) \<Rightarrow>
          let w2 = k_close k w1 conn in
          if b = [] \<and> re \<noteq> None then fail (''looptest: read echo: '' @ the re) 1 w2 p
          else if b \<noteq> token then
            fail (''looptest: echo mismatch: got '' @ quote b @ '', want '' @ quote token) 1 w2 p
          else case srv of
            Some e \<Rightarrow> fail (''looptest: server: '' @ e) 1 w2 (println b p)
          | None \<Rightarrow> (w2, println b p, Exit 0))"

definition loop_exchange :: "'w kernel \<Rightarrow> string \<Rightarrow> nat \<Rightarrow> string \<Rightarrow> 'w \<Rightarrow> proc \<Rightarrow> 'w outcome" where
  "loop_exchange k token ln boundPort w p =
     (case k_dial k w ''tcp'' (join_host_port ''127.0.0.1'' boundPort) of
        (Inl e, w1) \<Rightarrow> fail (''looptest: dial 127.0.0.1:'' @ boundPort @ '': '' @ e) 1 w1 p
      | (Inr conn, w1) \<Rightarrow>
         (case accept_one k ln w1 of
            (acc, w2) \<Rightarrow>
             (case k_write k w2 conn token of
                (Some e, w3) \<Rightarrow> fail (''looptest: write: '' @ e) 1 w3 p
              | (None, w3) \<Rightarrow>
                 (case acc of
                    Inl e \<Rightarrow> loop_finish k token conn (Some e) w3 p
                  | Inr sconn \<Rightarrow>
                     (case echo_chunk k sconn w3 of
                        (srv, w4) \<Rightarrow> loop_finish k token conn srv (k_close k w4 sconn) p)))))"

definition cmdLooptest :: "'w kernel \<Rightarrow> (nat \<Rightarrow> nat \<Rightarrow> nat) \<Rightarrow> string list \<Rightarrow> 'w \<Rightarrow> proc \<Rightarrow> 'w outcome" where
  "cmdLooptest k intN args w p =
     (if length args < 2 then fail ''usage: looptest <token>'' 1 w p
      else case loop_bind k intN 0 looptestBindAttempts w [] of
        (Inl lastErr, w1) \<Rightarrow> fail (''looptest: listen: '' @ lastErr) 1 w1 p
      | (Inr (ln, addr), w1) \<Rightarrow>
         (case split_host_port addr of
            Inl e \<Rightarrow> fail (''looptest: splithost: '' @ e) 1 w1 p
          | Inr (host, boundPort) \<Rightarrow> loop_exchange k (args ! 1) ln boundPort w1 p))"

lemma loop_finish_ok:
  assumes "ending_of (loop_finish k token conn srv w p) = Exit 0"
  shows "proc_of (loop_finish k token conn srv w p) = println token p" and "srv = None"
  using assms by (auto simp: loop_finish_def Let_def split: prod.splits if_splits option.splits)

lemma loop_finish_ends: "\<exists>c. ending_of (loop_finish k token conn srv w p) = Exit c \<and> (c = 0 \<or> c = 1)"
  by (auto simp: loop_finish_def Let_def split: prod.splits option.splits)

lemma loop_exchange_ok:
  assumes "ending_of (loop_exchange k token ln port w p) = Exit 0"
  shows "proc_of (loop_exchange k token ln port w p) = println token p"
  using assms loop_finish_ok(1)
  by (auto simp: loop_exchange_def split: prod.splits sum.splits option.splits)

lemma cmdLooptest_ok:
  assumes "ending_of (cmdLooptest k intN args w p) = Exit 0"
  shows "proc_of (cmdLooptest k intN args w p) = println (args ! 1) p"
  using assms
  by (auto simp: cmdLooptest_def loop_exchange_ok split: prod.splits sum.splits if_splits)

text \<open>A bind that succeeds is one of at most \<open>n\<close> attempts, on a port of the range.\<close>

theorem loop_bind_port:
  assumes "\<And>i n. 0 < n \<Longrightarrow> intN i n < n" and "loop_bind k intN i n w e = (Inr l, w')"
  shows "\<exists>j w0. i \<le> j \<and> j < i + n \<and> k_listen k w0 ''tcp4''
      (join_host_port ''127.0.0.1'' (itoa (int (loop_port intN j)))) = (Inr l, w')
    \<and> 20000 \<le> loop_port intN j \<and> loop_port intN j \<le> 29999"
  using assms(2)
proof (induction n arbitrary: i w e)
  case 0
  then show ?case by simp
next
  case (Suc n)
  have b: "20000 \<le> loop_port intN j \<and> loop_port intN j \<le> 29999" for j
    using assms(1) [of 10000 j] by (simp add: loop_port_def looptestPortRangeStart_def looptestPortRangeEnd_def)
  from Suc.prems consider
      (bound) "k_listen k w ''tcp4'' (join_host_port ''127.0.0.1'' (itoa (int (loop_port intN i)))) = (Inr l, w')"
    | (again) e1 w1 where "loop_bind k intN (Suc i) n w1 e1 = (Inr l, w')"
    by (auto split: prod.splits sum.splits)
  then show ?case
  proof cases
    case bound
    with b [of i] show ?thesis by (intro exI [of _ i] exI [of _ w]) simp
  next
    case again
    then obtain j w0 where "Suc i \<le> j" "j < Suc i + n"
      "k_listen k w0 ''tcp4'' (join_host_port ''127.0.0.1'' (itoa (int (loop_port intN j)))) = (Inr l, w')"
      using Suc.IH by blast
    with b [of j] show ?thesis by (intro exI [of _ j] exI [of _ w0]) simp
  qed
qed

section \<open>echosrv\<close>

definition cmdEchoServer :: "'w kernel \<Rightarrow> string list \<Rightarrow> 'w \<Rightarrow> proc \<Rightarrow> 'w outcome" where
  "cmdEchoServer k args w p =
     (if length args < 2 then fail ''usage: echosrv <port>'' 1 w p
      else case k_listen k w ''tcp4'' (''0.0.0.0:'' @ args ! 1) of
        (Inl e, w1) \<Rightarrow> fail (''echosrv: listen 0.0.0.0:'' @ args ! 1 @ '': '' @ e) 1 w1 p
      | (Inr (ln, addr), w1) \<Rightarrow>
         (case split_host_port addr of
            Inl e \<Rightarrow> fail (''echosrv: splithost: '' @ e) 1 w1 p
          | Inr (host, boundPort) \<Rightarrow>
             (let p1 = println boundPort p in
              case accept_one k ln w1 of
                (Inl e, w2) \<Rightarrow> fail (''echosrv: '' @ e) 1 w2 p1
              | (Inr conn, w2) \<Rightarrow>
                 (case echo_chunk k conn w2 of
                    (Some e, w3) \<Rightarrow> fail (''echosrv: '' @ e) 1 w3 p1
                  | (None, w3) \<Rightarrow> (k_close k w3 conn, p1, Exit 0)))))"

text \<open>It exits 0 only after printing its port and writing back exactly the chunk it read.\<close>

lemma cmdEchoServer_ok:
  assumes "ending_of (cmdEchoServer k args w p) = Exit 0"
  shows "\<exists>port conn w2 b re w3 w4. proc_of (cmdEchoServer k args w p) = println port p
    \<and> k_read k w2 conn 4096 = ((b, re), w3) \<and> k_write k w3 conn b = (None, w4)"
proof -
  from assms obtain port conn w2 w4 where
    h: "proc_of (cmdEchoServer k args w p) = println port p" "echo_chunk k conn w2 = (None, w4)"
    by (auto simp: cmdEchoServer_def Let_def split: prod.splits sum.splits if_splits option.splits)
  from h(2) obtain b re w3 where "k_read k w2 conn 4096 = ((b, re), w3)" "k_write k w3 conn b = (None, w4)"
    by (rule echo_chunk_verbatim)
  with h(1) show ?thesis by blast
qed

section \<open>pidscan\<close>

definition nul_to_space :: "bytes \<Rightarrow> bytes" where
  "nul_to_space s = map (\<lambda>c. if c = nul then CHR '' '' else c) s"

definition pidscan_line :: "string \<Rightarrow> bytes \<Rightarrow> string" where
  "pidscan_line name data = name @ '' '' @ nul_to_space (trim_right_by (\<lambda>c. c = nul) data)"

definition pidscan_entry :: "'w kernel \<Rightarrow> 'w \<Rightarrow> string \<Rightarrow> proc \<Rightarrow> proc" where
  "pidscan_entry k w name p =
     (if atoi name = None then p
      else case k_readfile k w (path_join [''/proc'', name, ''cmdline'']) of
        Inl e \<Rightarrow> p
      | Inr data \<Rightarrow> println (pidscan_line name data) p)"

definition cmdPidscan :: "'w kernel \<Rightarrow> string list \<Rightarrow> 'w \<Rightarrow> proc \<Rightarrow> 'w outcome" where
  "cmdPidscan k args w p =
     (case k_readdir k w ''/proc'' of
        Inl e \<Rightarrow> fail (''pidscan: readdir /proc: '' @ os_text e) 1 w p
      | Inr entries \<Rightarrow> (w, fold (pidscan_entry k w) entries p, Exit 0))"

text \<open>The kernel's form of an argument vector, and its line.\<close>

definition proc_cmdline :: "string list \<Rightarrow> bytes" where
  "proc_cmdline argv = concat (map (\<lambda>a. a @ [nul]) argv)"

lemma nul_to_space_plain: "nul \<notin> set a \<Longrightarrow> nul_to_space a = a"
  by (induction a) (auto simp: nul_to_space_def)

lemma nul_to_space_append [simp]: "nul_to_space (a @ b) = nul_to_space a @ nul_to_space b"
  by (simp add: nul_to_space_def)

lemma proc_cmdline_join: "argv \<noteq> [] \<Longrightarrow> proc_cmdline argv = join [nul] argv @ [nul]"
  unfolding proc_cmdline_def by (induction argv) (auto simp: join_Cons_if simp del: join.simps(2,3))

lemma nul_to_space_join: "\<forall>a \<in> set argv. nul \<notin> set a \<Longrightarrow> nul_to_space (join [nul] argv) = join '' '' argv"
  by (induction argv) (auto simp: join_Cons_if nul_to_space_plain simp del: join.simps(2,3), simp add: nul_to_space_def)

lemma last_join: "\<lbrakk>argv \<noteq> []; last argv \<noteq> []\<rbrakk> \<Longrightarrow> join s argv \<noteq> [] \<and> last (join s argv) = last (last argv)"
  by (induction argv) (auto simp: join_Cons_if simp del: join.simps(2,3))

lemma pidscan_line_argv:
  assumes "argv \<noteq> []" and "last argv \<noteq> []" and "\<forall>a \<in> set argv. nul \<notin> set a"
  shows "pidscan_line name (proc_cmdline argv) = name @ '' '' @ join '' '' argv"
proof -
  have "last (join [nul] argv) = last (last argv)" "join [nul] argv \<noteq> []" using last_join assms by blast+
  moreover have "last (last argv) \<noteq> nul" using assms by (metis last_in_set)
  ultimately have "trim_right_by (\<lambda>c. c = nul) (proc_cmdline argv) = join [nul] argv"
    using assms(1) by (simp add: proc_cmdline_join trim_right_by_snoc trim_right_by_none)
  then show ?thesis using nul_to_space_join [OF assms(3)] by (simp add: pidscan_line_def)
qed

lemma pidscan_entry_grows:
  "room p = None \<Longrightarrow> \<exists>r. stdout (pidscan_entry k w n p) = stdout p @ r \<and> room (pidscan_entry k w n p) = None"
  by (auto simp: pidscan_entry_def split: sum.split)

lemma pidscan_fold_grows:
  "room p = None \<Longrightarrow> \<exists>r. stdout (fold (pidscan_entry k w) ns p) = stdout p @ r
     \<and> room (fold (pidscan_entry k w) ns p) = None"
proof (induction ns arbitrary: p)
  case (Cons n ns)
  from pidscan_entry_grows [OF Cons.prems, of k w n] obtain r where
    r: "stdout (pidscan_entry k w n p) = stdout p @ r" "room (pidscan_entry k w n p) = None" by blast
  from Cons.IH [OF r(2)] obtain r2 where
    "stdout (fold (pidscan_entry k w) ns (pidscan_entry k w n p)) = stdout (pidscan_entry k w n p) @ r2"
    "room (fold (pidscan_entry k w) ns (pidscan_entry k w n p)) = None" by blast
  with r(1) show ?case by simp
qed simp

theorem cmdPidscan_sees:
  assumes "room p = None" and "k_readdir k w ''/proc'' = Inr entries" and "pid \<in> set entries"
    and "atoi pid \<noteq> None" and "k_readfile k w (path_join [''/proc'', pid, ''cmdline'']) = Inr (proc_cmdline argv)"
    and "argv \<noteq> []" and "last argv \<noteq> []" and "\<forall>a \<in> set argv. nul \<notin> set a"
  shows "str_contains (stdout (proc_of (cmdPidscan k args w p))) (pid @ '' '' @ join '' '' argv @ newline)
    \<and> ending_of (cmdPidscan k args w p) = Exit 0"
proof (intro conjI)
  let ?line = "pid @ '' '' @ join '' '' argv @ newline"
  obtain as bs where e: "entries = as @ pid # bs" using assms(3) by (meson split_list)
  obtain r where q: "room (fold (pidscan_entry k w) as p) = None"
    "stdout (fold (pidscan_entry k w) as p) = stdout p @ r" using pidscan_fold_grows [OF assms(1), of k w as] by blast
  define q1 where "q1 = pidscan_entry k w pid (fold (pidscan_entry k w) as p)"
  have "pidscan_entry k w pid p1 = println (pid @ '' '' @ join '' '' argv) p1" for p1
    unfolding pidscan_entry_def using assms(4,5) pidscan_line_argv [OF assms(6-8), of pid] by auto
  then have q1: "room q1 = None" "stdout q1 = (stdout p @ r) @ ?line"
    using q by (simp_all add: q1_def)
  obtain r2 where "stdout (fold (pidscan_entry k w) bs q1) = stdout q1 @ r2"
    using pidscan_fold_grows [OF q1(1), of k w bs] by blast
  then have "stdout (proc_of (cmdPidscan k args w p)) = (stdout p @ r) @ ?line @ r2"
    using assms(2) e q1 by (simp add: cmdPidscan_def q1_def)
  then show "str_contains (stdout (proc_of (cmdPidscan k args w p))) ?line"
    unfolding str_contains_conv by blast
  show "ending_of (cmdPidscan k args w p) = Exit 0" using assms(2) by (simp add: cmdPidscan_def)
qed

end
