(* ===== verification/Hashverify.thy ===== *)
theory Hashverify
  imports Testbin_Basic
begin

text \<open>
  The \<^verbatim>\<open>hashverify\<close> command of \<^verbatim>\<open>testbin/testbin.go\<close>: a reader that fills pooled
  buffers and a hashing goroutine, connected by a channel of capacity 8. Buffers are shared
  and reused, so the model keeps a store from buffer addresses to contents. The invariant
  says that a buffer in flight is in no pool and holds the bytes that were read into it;
  hence every complete run hashes exactly the file, whatever the interleaving and whatever
  buffer \<^verbatim>\<open>sync.Pool\<close> hands out.
\<close>

section \<open>State and steps\<close>

text \<open>How a read ended: more may follow, end of file, or another error.\<close>

datatype rd_end = More | Eof | Bad err

text \<open>
  The reader's position: about to read, holding a filled buffer (address, length) at the
  non-blocking send, blocked on the second send, past \<^verbatim>\<open>close(ch)\<close> after the end of the
  file, or on the way to \<^verbatim>\<open>os.Exit(1)\<close> after a read error.
\<close>

datatype hv_pc = Reading | Sending nat nat rd_end | Blocked nat nat rd_end | Closed | Failed err

record hv =
  rest :: bytes
  fin :: rd_end
  heap :: "nat \<Rightarrow> bytes"
  pool :: "nat set"
  fresh :: nat
  chan :: "(nat \<times> nat) list"
  hold :: "(nat \<times> nat) option"
  hash :: u32
  total :: nat
  cpuBound :: nat
  pc :: hv_pc

definition bufSize :: nat where "bufSize = 2 ^ 20"

definition chanCap :: nat where "chanCap = 8"

definition after :: "rd_end \<Rightarrow> hv_pc" where
  "after e = (case e of More \<Rightarrow> Reading | Eof \<Rightarrow> Closed | Bad m \<Rightarrow> Failed m)"

text \<open>A file that delivers \<open>data\<close> and then ends as \<open>e\<close> says.\<close>

definition hv_init :: "bytes \<Rightarrow> rd_end \<Rightarrow> hv" where
  "hv_init data e = \<lparr>rest = data, fin = e, heap = (\<lambda>_. []), pool = {}, fresh = 0, chan = [],
     hold = None, hash = digest_new, total = 0, cpuBound = 0, pc = Reading\<rparr>"

text \<open>
  \<^verbatim>\<open>pool.Get\<close> returns a pooled buffer or a new one. A read returns at least one byte, with
  the end of the file possibly reported along with the last ones, or no byte and the end.
\<close>

inductive hv_step :: "hv \<Rightarrow> hv \<Rightarrow> bool" where
  read_data: "\<lbrakk>pc s = Reading; b \<in> insert (fresh s) (pool s); rest s = data @ r; data \<noteq> [];
      length data \<le> bufSize; e = More \<or> r = [] \<and> e = fin s\<rbrakk> \<Longrightarrow>
    hv_step s (s\<lparr>pool := pool s - {b}, fresh := max (fresh s) (Suc b),
      heap := (heap s)(b := data @ drop (length data) (heap s b)), rest := r,
      pc := Sending b (length data) e\<rparr>)"
| read_end: "\<lbrakk>pc s = Reading; b \<in> insert (fresh s) (pool s); rest s = []; fin s \<noteq> More\<rbrakk> \<Longrightarrow>
    hv_step s (s\<lparr>pool := insert b (pool s), fresh := max (fresh s) (Suc b), pc := after (fin s)\<rparr>)"
| send: "\<lbrakk>pc s = Sending b n e; length (chan s) < chanCap\<rbrakk> \<Longrightarrow>
    hv_step s (s\<lparr>chan := chan s @ [(b, n)], total := total s + n, pc := after e\<rparr>)"
| send_full: "\<lbrakk>pc s = Sending b n e; chanCap \<le> length (chan s)\<rbrakk> \<Longrightarrow>
    hv_step s (s\<lparr>cpuBound := Suc (cpuBound s), pc := Blocked b n e\<rparr>)"
| unblock: "\<lbrakk>pc s = Blocked b n e; length (chan s) < chanCap\<rbrakk> \<Longrightarrow>
    hv_step s (s\<lparr>chan := chan s @ [(b, n)], total := total s + n, pc := after e\<rparr>)"
| recv: "\<lbrakk>chan s = (b, n) # c; hold s = None\<rbrakk> \<Longrightarrow>
    hv_step s (s\<lparr>chan := c, hold := Some (b, n)\<rparr>)"
| consume: "\<lbrakk>hold s = Some (b, n)\<rbrakk> \<Longrightarrow>
    hv_step s (s\<lparr>hash := digest_write (hash s) (take n (heap s b)), pool := insert b (pool s),
      hold := None\<rparr>)"

text \<open>\<^verbatim>\<open>consumerWG.Wait\<close> returns: the channel is closed and drained, and the last chunk hashed.\<close>

definition hv_done :: "hv \<Rightarrow> bool" where
  "hv_done s \<longleftrightarrow> pc s = Closed \<and> chan s = [] \<and> hold s = None"

definition hv_failed :: "hv \<Rightarrow> bool" where
  "hv_failed s \<longleftrightarrow> (\<exists>e. pc s = Failed e)"

section \<open>The invariant\<close>

definition pending :: "hv \<Rightarrow> (nat \<times> nat) list" where
  "pending s = (case pc s of Sending b n e \<Rightarrow> [(b, n)] | Blocked b n e \<Rightarrow> [(b, n)] | _ \<Rightarrow> [])"

definition queued :: "hv \<Rightarrow> (nat \<times> nat) list" where
  "queued s = (case hold s of None \<Rightarrow> [] | Some x \<Rightarrow> [x]) @ chan s"

definition chunk :: "(nat \<Rightarrow> bytes) \<Rightarrow> nat \<times> nat \<Rightarrow> bytes" where
  "chunk h x = take (snd x) (h (fst x))"

definition flight :: "hv \<Rightarrow> (nat \<times> nat) list" where
  "flight s = queued s @ pending s"

definition owned :: "hv \<Rightarrow> bool" where
  "owned s \<longleftrightarrow> distinct (map fst (flight s)) \<and> fst ` set (flight s) \<inter> pool s = {}
     \<and> (\<forall>b \<in> fst ` set (flight s) \<union> pool s. b < fresh s)
     \<and> (\<forall>x \<in> set (flight s). snd x \<le> length (heap s (fst x)))"

definition accounted :: "bytes \<Rightarrow> hv \<Rightarrow> bool" where
  "accounted file s \<longleftrightarrow> (\<exists>done. file = done @ concat (map (chunk (heap s)) (flight s)) @ rest s
     \<and> hash s = digest_write digest_new done
     \<and> total s = length done + sum_list (map snd (queued s)))"

definition at_end :: "hv \<Rightarrow> bool" where
  "at_end s \<longleftrightarrow> (case pc s of Reading \<Rightarrow> True | Sending b n e \<Rightarrow> e \<noteq> More \<longrightarrow> rest s = [] \<and> e = fin s
     | Blocked b n e \<Rightarrow> e \<noteq> More \<longrightarrow> rest s = [] \<and> e = fin s
     | Closed \<Rightarrow> rest s = [] \<and> fin s = Eof | Failed e \<Rightarrow> rest s = [] \<and> fin s = Bad e)
     \<and> fin s \<noteq> More"

definition hv_inv :: "bytes \<Rightarrow> hv \<Rightarrow> bool" where
  "hv_inv file s \<longleftrightarrow> owned s \<and> accounted file s \<and> at_end s"

lemmas flight_simps = flight_def queued_def pending_def after_def

lemma chunk_upd_other: "b \<notin> fst ` set xs \<Longrightarrow> map (chunk (h(b := v))) xs = map (chunk h) xs"
  by (force simp: chunk_def)

lemma hv_init_inv: "e \<noteq> More \<Longrightarrow> hv_inv data (hv_init data e)"
  by (simp add: hv_inv_def owned_def accounted_def at_end_def hv_init_def flight_simps digest.feed_Nil)

section \<open>Every step keeps it\<close>

lemma pending_simps:
  "pc s = Reading \<Longrightarrow> pending s = []" "pc s = Closed \<Longrightarrow> pending s = []" "pc s = Failed m \<Longrightarrow> pending s = []"
  "pc s = Sending b n e \<Longrightarrow> pending s = [(b, n)]" "pc s = Blocked b n e \<Longrightarrow> pending s = [(b, n)]"
  by (simp_all add: pending_def)

lemma after_not_pending: "pc s = after e \<Longrightarrow> pending s = []"
  by (auto simp: pending_def after_def split: rd_end.split)

text \<open>Sending, receiving and blocking move a buffer along without changing what is in flight.\<close>

lemma flight_send: "pending s = [(b, n)] \<Longrightarrow> flight (s\<lparr>chan := chan s @ [(b, n)], total := t, pc := after e\<rparr>) = flight s"
  by (simp add: flight_def queued_def after_not_pending)

lemma flight_block: "pc s = Sending b n e \<Longrightarrow> flight (s\<lparr>cpuBound := x, pc := Blocked b n e\<rparr>) = flight s"
  by (simp add: flight_def queued_def pending_def)

lemma flight_recv: "\<lbrakk>chan s = (b, n) # c; hold s = None\<rbrakk> \<Longrightarrow> flight (s\<lparr>chan := c, hold := Some (b, n)\<rparr>) = flight s"
  by (simp add: flight_def queued_def pending_def)

lemma flight_consume:
  "hold s = Some x \<Longrightarrow> flight s = x # flight (s\<lparr>hash := h, pool := P, hold := None\<rparr>)"
  by (simp add: flight_def queued_def pending_def)

lemma flight_read: "pc s = Reading \<Longrightarrow>
   flight (s\<lparr>pool := P, fresh := f, heap := h, rest := r, pc := Sending b n e\<rparr>) = flight s @ [(b, n)]"
  by (simp add: flight_def queued_def pending_def)

lemma flight_end: "pc s = Reading \<Longrightarrow> flight (s\<lparr>pool := P, fresh := f, pc := after e\<rparr>) = flight s"
  by (simp add: flight_def queued_def after_not_pending) (simp add: pending_def)

lemma not_in_flight: "owned s \<Longrightarrow> b \<in> insert (fresh s) (pool s) \<Longrightarrow> b \<notin> fst ` set (flight s)"
proof
  assume o: "owned s" and b: "b \<in> insert (fresh s) (pool s)" and f: "b \<in> fst ` set (flight s)"
  have "b < fresh s" using o f unfolding owned_def by (elim conjE) (erule bspec, erule UnI1)
  moreover have "b \<notin> pool s" using o f unfolding owned_def by (elim conjE) (drule (1) disjoint_iff [THEN iffD1, rule_format])
  ultimately show False using b by simp
qed

lemma owned_step: "hv_step s t \<Longrightarrow> owned s \<Longrightarrow> owned t"
proof (induction rule: hv_step.induct)
  case (read_data s b data r e)
  let ?h = "(heap s)(b := data @ drop (length data) (heap s b))"
  note nf = not_in_flight [OF read_data.prems read_data.hyps(2)]
  note own = read_data.prems [unfolded owned_def]
  have "distinct (map fst (flight s @ [(b, length data)]))" using own nf by simp
  moreover have "fst ` set (flight s @ [(b, length data)]) \<inter> (pool s - {b}) = {}"
    using own by auto
  moreover have "c < max (fresh s) (Suc b)"
    if "c \<in> fst ` set (flight s @ [(b, length data)]) \<union> (pool s - {b})" for c
    using own that by (auto simp: less_max_iff_disj)
  moreover have "snd x \<le> length (?h (fst x))" if "x \<in> set (flight s @ [(b, length data)])" for x
  proof (cases "x \<in> set (flight s)")
    case True
    with nf have "fst x \<noteq> b" by force
    with own True show ?thesis by simp
  next
    case False
    with that show ?thesis by simp
  qed
  ultimately show ?case
    by (simp add: owned_def flight_read [OF read_data.hyps(1)] del: map_append set_append)
next
  case (read_end s b)
  then show ?case
    using not_in_flight [OF read_end.prems read_end.hyps(2)]
    unfolding owned_def flight_end [OF read_end.hyps(1)]
    by (auto simp: less_max_iff_disj less_Suc_eq)
next
  case (send s b n e)
  then show ?case by (simp add: owned_def flight_send pending_simps)
next
  case (send_full s b n e)
  then show ?case by (simp add: owned_def flight_block)
next
  case (unblock s b n e)
  then show ?case by (simp add: owned_def flight_send pending_simps)
next
  case (recv s b n c)
  then show ?case by (simp add: owned_def flight_recv)
next
  case (consume s b n)
  let ?t = "s\<lparr>hash := digest_write (hash s) (take n (heap s b)), pool := insert b (pool s), hold := None\<rparr>"
  have fl: "flight s = (b, n) # flight ?t" using consume.hyps by (rule flight_consume)
  from consume.prems [unfolded owned_def fl] show ?case by (force simp: owned_def)
qed

lemma accounted_step: "hv_step s t \<Longrightarrow> owned s \<Longrightarrow> accounted file s \<Longrightarrow> accounted file t"
proof (induction rule: hv_step.induct)
  case (read_data s b data r e)
  let ?h = "(heap s)(b := data @ drop (length data) (heap s b))"
  have "map (chunk ?h) (flight s) = map (chunk (heap s)) (flight s)"
    by (rule chunk_upd_other) (rule not_in_flight [OF read_data.prems(1) read_data.hyps(2)])
  moreover have "chunk ?h (b, length data) = data" by (simp add: chunk_def)
  ultimately have "concat (map (chunk ?h) (flight s @ [(b, length data)])) @ r
      = concat (map (chunk (heap s)) (flight s)) @ rest s"
    by (simp add: read_data.hyps(3) del: map_eq_conv)
  then show ?case
    using read_data.prems(2)
    by (simp add: accounted_def flight_read [OF read_data.hyps(1)] queued_def del: map_append concat_append)
next
  case (read_end s b)
  then show ?case by (auto simp: accounted_def flight_end queued_def)
next
  case (send s b n e)
  then show ?case by (auto simp: accounted_def flight_send pending_simps queued_def)
next
  case (send_full s b n e)
  then show ?case by (simp add: accounted_def flight_block queued_def)
next
  case (unblock s b n e)
  then show ?case by (auto simp: accounted_def flight_send pending_simps queued_def)
next
  case (recv s b n c)
  then show ?case by (auto simp: accounted_def flight_recv queued_def)
next
  case (consume s b n)
  let ?t = "s\<lparr>hash := digest_write (hash s) (take n (heap s b)), pool := insert b (pool s), hold := None\<rparr>"
  from consume.prems(2) obtain d where
    d: "file = d @ concat (map (chunk (heap s)) (flight s)) @ rest s"
      "hash s = digest_write digest_new d" "total s = length d + sum_list (map snd (queued s))"
    by (auto simp: accounted_def)
  have fl: "flight s = (b, n) # flight ?t" using consume.hyps by (rule flight_consume)
  have "n \<le> length (heap s b)" using consume.prems(1) fl by (fastforce simp: owned_def)
  moreover have "queued s = (b, n) # queued ?t" using consume.hyps by (simp add: queued_def)
  ultimately show ?case
    unfolding accounted_def using d fl
    by (intro exI [of _ "d @ take n (heap s b)"]) (simp add: chunk_def digest.feed_append)
qed

lemma at_end_step: "hv_step s t \<Longrightarrow> at_end s \<Longrightarrow> at_end t"
  by (induction rule: hv_step.induct)
    (auto simp: at_end_def after_def split: rd_end.splits hv_pc.splits)

lemma hv_inv_step: "hv_inv file s \<Longrightarrow> hv_step s t \<Longrightarrow> hv_inv file t"
  unfolding hv_inv_def by (blast intro: owned_step accounted_step at_end_step)

interpretation hv: step_invariant hv_step "hv_inv data" for data
  by unfold_locales (rule hv_inv_step)

section \<open>Termination and progress\<close>

fun pc_weight :: "hv_pc \<Rightarrow> nat" where
  "pc_weight Reading = 1"
| "pc_weight (Sending b n e) = 5"
| "pc_weight (Blocked b n e) = 4"
| "pc_weight Closed = 0"
| "pc_weight (Failed e) = 0"

definition hv_work :: "hv \<Rightarrow> nat" where
  "hv_work s = 5 * length (rest s) + 2 * length (chan s) + (if hold s = None then 0 else 1)
     + pc_weight (pc s)"

lemma pc_weight_after: "pc_weight (after e) \<le> 1"
  by (simp add: after_def split: rd_end.split)

lemma hv_step_work: "hv_step s t \<Longrightarrow> hv_work t < hv_work s"
proof (induction rule: hv_step.induct)
  case (read_data s b data r e)
  then show ?case by (cases data) (simp_all add: hv_work_def)
next
  case (read_end s b)
  then show ?case by (simp add: hv_work_def after_def at_end_def split: rd_end.split)
next
  case (send s b n e)
  then show ?case using pc_weight_after [of e] by (simp add: hv_work_def)
next
  case (unblock s b n e)
  then show ?case using pc_weight_after [of e] by (simp add: hv_work_def)
qed (simp_all add: hv_work_def)

interpretation hv_run: step_measure hv_step hv_work
  by unfold_locales (rule hv_step_work)

lemma hv_progress:
  assumes "hv_inv file s" and "\<not> hv_done s" and "\<not> hv_failed s"
  shows "\<exists>t. hv_step s t"
proof (cases "hold s")
  case (Some x)
  then show ?thesis by (cases x) (blast intro: hv_step.consume)
next
  case None
  show ?thesis
  proof (cases "chan s")
    case (Cons x c)
    with None show ?thesis by (cases x) (blast intro: hv_step.recv)
  next
    case Nil
    then have room: "length (chan s) < chanCap" by (simp add: chanCap_def)
    show ?thesis
    proof (cases "pc s")
      case (Sending b n e)
      then show ?thesis using hv_step.send [OF _ room] by blast
    next
      case (Blocked b n e)
      then show ?thesis using hv_step.unblock [OF _ room] by blast
    next
      case Reading
      show ?thesis
      proof (cases "rest s")
        case (Cons c r)
        then have "rest s = [c] @ r" by simp
        with hv_step.read_data [OF Reading, of "fresh s" "[c]" r More] show ?thesis
          by (force simp: bufSize_def)
      next
        case Nil
        with Reading assms(1) show ?thesis
          using hv_step.read_end [of s "fresh s"] by (auto simp: hv_inv_def at_end_def)
      qed
    qed (use None Nil assms in \<open>auto simp: hv_done_def hv_failed_def\<close>)
  qed
qed

lemma hv_final:
  assumes "hv_step\<^sup>*\<^sup>* (hv_init file e) t" and "e \<noteq> More" and "hv_done t"
  shows "hash t = crc32c file" and "total t = length file" and "e = Eof"
proof -
  have inv: "hv_inv file t" using assms(1,2) by (blast intro: hv.run_preserves hv_init_inv)
  with assms(3) obtain d where "file = d" "hash t = digest_write digest_new d" "total t = length d"
    by (auto simp: hv_inv_def accounted_def at_end_def hv_done_def flight_simps)
  then show "hash t = crc32c file" and "total t = length file"
    by (simp_all add: crc32c_def digest_sum32_def)
  have "fin t = fin (hv_init file e)"
    using assms(1) by (induction rule: rtranclp_induct) (auto elim: hv_step.cases)
  with inv assms(3) show "e = Eof" by (auto simp: hv_inv_def at_end_def hv_done_def hv_init_def)
qed

lemma hv_final_failed:
  assumes "hv_step\<^sup>*\<^sup>* (hv_init file e) t" and "e \<noteq> More" and "pc t = Failed m"
  shows "e = Bad m"
proof -
  have "hv_inv file t" using assms(1,2) by (blast intro: hv.run_preserves hv_init_inv)
  moreover have "fin t = fin (hv_init file e)"
    using assms(1) by (induction rule: rtranclp_induct) (auto elim: hv_step.cases)
  ultimately show ?thesis using assms(3) by (auto simp: hv_inv_def at_end_def hv_init_def)
qed

section \<open>The command\<close>

text \<open>
  \<open>sched\<close> is the state in which the scheduler leaves the pipeline for a file that delivers
  the given bytes and then ends as given; \<open>complete\<close> says it is a state a run can end in.
\<close>

definition complete :: "(bytes \<Rightarrow> rd_end \<Rightarrow> hv) \<Rightarrow> bool" where
  "complete sched \<longleftrightarrow> (\<forall>data e. e \<noteq> More \<longrightarrow>
     hv_step\<^sup>*\<^sup>* (hv_init data e) (sched data e) \<and> (hv_done (sched data e) \<or> hv_failed (sched data e)))"

text \<open>No run gets stuck and none goes on for ever: every run can be completed, so schedules exist.\<close>

lemma hv_completes:
  assumes "hv_inv file s"
  shows "\<exists>t. hv_step\<^sup>*\<^sup>* s t \<and> (hv_done t \<or> hv_failed t)"
  using assms
proof (induction "hv_work s" arbitrary: s rule: less_induct)
  case less
  show ?case
  proof (cases "hv_done s \<or> hv_failed s")
    case False
    then obtain t where t: "hv_step s t" using hv_progress [OF less.prems] by blast
    from less.hyps [OF hv_step_work [OF t] hv_inv_step [OF less.prems t]]
    obtain u where "hv_step\<^sup>*\<^sup>* t u" "hv_done u \<or> hv_failed u" by blast
    with t show ?thesis by (blast intro: converse_rtranclp_into_rtranclp)
  qed blast
qed

text \<open>
  C9. From every state the concurrent reader and hasher of hashverify can reach, some
  continuation finishes: no buffer exchange through the channel and the pool can deadlock.
\<close>

theorem hv_run_completes:
  assumes "hv_step\<^sup>*\<^sup>* (hv_init file e) s" and "e \<noteq> More"
  shows "\<exists>t. hv_step\<^sup>*\<^sup>* s t \<and> (hv_done t \<or> hv_failed t)"
  using hv_completes hv.run_preserves [OF assms(1) hv_init_inv [OF assms(2)]] by blast

lemma complete_exists: "\<exists>sched. complete sched"
proof -
  have "\<forall>x. \<exists>t. snd x \<noteq> More \<longrightarrow> hv_step\<^sup>*\<^sup>* (hv_init (fst x) (snd x)) t \<and> (hv_done t \<or> hv_failed t)"
    using hv_completes [OF hv_init_inv] by blast
  then obtain g where "\<forall>x. snd x \<noteq> More \<longrightarrow>
      hv_step\<^sup>*\<^sup>* (hv_init (fst x) (snd x)) (g x) \<and> (hv_done (g x) \<or> hv_failed (g x))" by metis
  then have "complete (\<lambda>data e. g (data, e))" unfolding complete_def by simp
  then show ?thesis by blast
qed

definition end_of :: "err option \<Rightarrow> rd_end" where
  "end_of bad = (case bad of None \<Rightarrow> Eof | Some e \<Rightarrow> Bad e)"

definition cmdHashverify ::
    "'w kernel \<Rightarrow> (bytes \<Rightarrow> rd_end \<Rightarrow> hv) \<Rightarrow> int \<Rightarrow> string list \<Rightarrow> 'w \<Rightarrow> proc \<Rightarrow> 'w outcome" where
  "cmdHashverify k sched elapsed args w p =
     (if length args < 3 then fail ''usage: hashverify <file> <expected-hex>'' 1 w p
      else let path = args ! 1; wantHex = args ! 2 in
        case k_open k w path of
          Inl e \<Rightarrow> fail (''hashverify: open '' @ path @ '': '' @ os_text e) 1 w p
        | Inr (data, bad) \<Rightarrow>
            let t = sched data (end_of bad) in
            case pc t of
              Failed e \<Rightarrow> fail (''hashverify: read '' @ path @ '': '' @ e) 1 w p
            | _ \<Rightarrow>
              let gotHex = hex32 (digest_sum32 (hash t)) in
              if gotHex \<noteq> wantHex
              then fail (''hashverify: hash mismatch for '' @ path @ '': got '' @ gotHex @ '', want ''
                     @ wantHex) 1 w p
              else (w, println (''ok bytes='' @ dec (total t) @ '' ns='' @ itoa elapsed
                     @ '' cpu_bound='' @ dec (cpuBound t)) p, Exit 0))"

text \<open>
  C1. For every schedule of the reader and the hashing goroutine that runs to an end,
  hashverify exits 0 exactly when the file was read without an error and the CRC-32C of
  its bytes, in eight hex digits, is the expected text, and exits 1 otherwise.
\<close>

theorem cmdHashverify_ending:
  assumes "complete sched" and "3 \<le> length args" and "k_open k w (args ! 1) = Inr (data, bad)"
  shows "ending_of (cmdHashverify k sched elapsed args w p) =
     (if bad = None \<and> args ! 2 = hex32 (crc32c data) then Exit 0 else Exit 1)"
proof -
  let ?t = "sched data (end_of bad)"
  have e: "end_of bad \<noteq> More" by (simp add: end_of_def split: option.split)
  with assms(1) have run: "hv_step\<^sup>*\<^sup>* (hv_init data (end_of bad)) ?t" "hv_done ?t \<or> hv_failed ?t"
    by (auto simp: complete_def)
  from run(2) show ?thesis
  proof
    assume d: "hv_done ?t"
    have "hash ?t = crc32c data" and "end_of bad = Eof" using hv_final [OF run(1) e d] by simp_all
    moreover from this(2) have "bad = None" by (cases bad) (simp_all add: end_of_def)
    ultimately show ?thesis
      using d assms(2,3) by (auto simp: cmdHashverify_def hv_done_def digest_sum32_def Let_def)
  next
    assume "hv_failed ?t"
    then obtain m where m: "pc ?t = Failed m" by (auto simp: hv_failed_def)
    with hv_final_failed [OF run(1) e m] assms(2,3) show ?thesis
      by (auto simp: cmdHashverify_def end_of_def split: option.splits)
  qed
qed

end
