(* ===== verification/Testbin_Main.thy ===== *)
theory Testbin_Main
  imports Testbin_Basic Testbin_Probe Hashverify
begin

text \<open>
  The entry point of the multicall binary (\<^verbatim>\<open>testbin/testbin.go\<close>, Main): the command is
  the base name of argv[0], or argv[1] when the binary runs under its own name. The list
  of names for which the root file system gets a link is the one of \<^verbatim>\<open>rootfs.go\<close>.
\<close>

section \<open>Dispatch\<close>

text \<open>What the commands run on besides the kernel: random ports, the scheduler, the clock.\<close>

record 'w machine =
  m_kernel :: "'w kernel"
  m_intN :: "nat \<Rightarrow> nat \<Rightarrow> nat"
  m_sched :: "bytes \<Rightarrow> rd_end \<Rightarrow> hv"
  m_elapsed :: int

type_synonym 'w command = "string list \<Rightarrow> 'w \<Rightarrow> proc \<Rightarrow> 'w outcome"

definition commands :: "'w machine \<Rightarrow> (string \<times> 'w command) list" where
  "commands m =
     [(''forever'', cmdForever),
      (''burstexit'', cmdBurstexit),
      (''cat'', cmdCat (m_kernel m)),
      (''date'', cmdDate (m_kernel m)),
      (''echo'', cmdEcho),
      (''exit'', cmdExit),
      (''hashverify'', cmdHashverify (m_kernel m) (m_sched m) (m_elapsed m)),
      (''layercheck'', cmdLayercheck (m_kernel m)),
      (''ls'', cmdLs (m_kernel m)),
      (''memhog'', cmdMemhog),
      (''nc'', cmdNC (m_kernel m)),
      (''host'', cmdHost (m_kernel m)),
      (''looptest'', cmdLooptest (m_kernel m) (m_intN m)),
      (''echosrv'', cmdEchoServer (m_kernel m)),
      (''tickexit'', cmdTickexit),
      (''pidscan'', cmdPidscan (m_kernel m)),
      (''shmwrite'', cmdShmWrite (m_kernel m)),
      (''shmread'', cmdShmRead (m_kernel m)),
      (''shmmapwrite'', cmdShmMapWrite (m_kernel m)),
      (''shmmapread'', cmdShmMapRead (m_kernel m)),
      (''hostname'', cmdHostname (m_kernel m))]"

definition dispatch :: "'w machine \<Rightarrow> string \<Rightarrow> 'w command" where
  "dispatch m cmd args w p =
     (case map_of (commands m) cmd of
        Some f \<Rightarrow> f args w p
      | None \<Rightarrow> fail (''testbin: unknown command: '' @ cmd) 127 w p)"

definition Main :: "'w machine \<Rightarrow> string list \<Rightarrow> 'w \<Rightarrow> proc \<Rightarrow> 'w outcome" where
  "Main m argv w p =
     (case argv of
        [] \<Rightarrow> (w, p, Panic ''index out of range [0] with length 0'')
      | arg0 # params \<Rightarrow>
          let name = path_base arg0 in
          if name = ''testbin'' \<or> name = [] then
            (case params of
               [] \<Rightarrow> fail ''usage: testbin <command> [args...]'' 1 w p
             | cmd # cmd_args \<Rightarrow> dispatch m cmd params w p)
          else dispatch m name argv w p)"

definition testbinCommands :: "string list" where
  "testbinCommands =
     [''forever'', ''burstexit'', ''cat'', ''date'', ''echo'', ''echosrv'', ''exit'', ''hashverify'',
      ''host'', ''hostname'', ''layercheck'', ''looptest'', ''ls'', ''memhog'', ''nc'', ''pidscan'',
      ''shmread'', ''shmwrite'', ''shmmapread'', ''shmmapwrite'', ''tickexit'']"

section \<open>The commands do not look at their own name\<close>

definition name_blind :: "'w command \<Rightarrow> bool" where
  "name_blind f \<longleftrightarrow> (\<forall>a b params w p. f (a # params) w p = f (b # params) w p)"

lemma params_nth:
  "(a # xs) ! 1 = xs ! 0" "(a # xs) ! 2 = xs ! 1" "(a # xs) ! 3 = xs ! 2" "(a # xs) ! 4 = xs ! 3"
  "length (a # xs) = Suc (length xs)" "tl (a # xs) = xs" "hd (a # xs) = a" "drop 2 (a # xs) = drop 1 xs"
  by (simp_all add: numeral_eq_Suc)

lemma nc_mode_name: "nc_mode k v (a # params) w p = nc_mode k v (b # params) w p"
  unfolding nc_mode_def nc_tcp_def nc_unix_def nc_udp_def nc_listen_def params_nth by (rule refl)

lemma name_blind_nc: "name_blind (cmdNC k)"
  unfolding name_blind_def cmdNC_def Let_def params_nth
  by (intro allI if_cong refl nc_mode_name)

lemma name_blind_shm:
  "name_blind (cmdShmWrite k)" "name_blind (cmdShmRead k)" "name_blind (cmdShmMapWrite k)"
  "name_blind (cmdShmMapRead k)" "name_blind (cmdHostname k)"
  unfolding name_blind_def cmdShmWrite_def cmdShmRead_def cmdShmMapWrite_def cmdShmMapRead_def
      cmdHostname_def Let_def params_nth
  by (intro allI refl)+

lemma name_blind_basic:
  "name_blind cmdForever" "name_blind cmdEcho" "name_blind (cmdCat k)" "name_blind (cmdDate k)"
  "name_blind (cmdLs k)" "name_blind cmdExit" "name_blind cmdTickexit" "name_blind cmdBurstexit"
  "name_blind cmdMemhog" "name_blind (cmdLayercheck k)"
  unfolding name_blind_def cmdForever_def cmdEcho_def cmdCat_def cmdDate_def cmdLs_def cmdExit_def
      cmdTickexit_def cmdBurstexit_def cmdMemhog_def cmdLayercheck_def Let_def params_nth
  by (intro allI refl)+

lemma name_blind_probes:
  "name_blind (cmdHost k)" "name_blind (cmdLooptest k intN)" "name_blind (cmdEchoServer k)"
  "name_blind (cmdPidscan k)" "name_blind (cmdHashverify k sched e)"
  unfolding name_blind_def cmdHost_def cmdLooptest_def cmdEchoServer_def cmdPidscan_def
      cmdHashverify_def Let_def params_nth
  by (intro allI refl)+

lemmas name_blind = name_blind_nc name_blind_shm name_blind_basic name_blind_probes

lemma commands_name_blind: "(c, f) \<in> set (commands m) \<Longrightarrow> name_blind f"
  by (auto simp: commands_def name_blind)

lemma dispatch_name_blind: "dispatch m cmd (a # params) w p = dispatch m cmd (b # params) w p"
proof (cases "map_of (commands m) cmd")
  case (Some f)
  then have "name_blind f" by (blast intro: commands_name_blind map_of_SomeD)
  then show ?thesis unfolding dispatch_def Some name_blind_def by simp
qed (simp add: dispatch_def)

section \<open>Names and links\<close>

lemma commands_names: "map fst (commands m) = 
  [''forever'', ''burstexit'', ''cat'', ''date'', ''echo'', ''exit'', ''hashverify'', ''layercheck'', ''ls'',
   ''memhog'', ''nc'', ''host'', ''looptest'', ''echosrv'', ''tickexit'', ''pidscan'', ''shmwrite'', ''shmread'',
   ''shmmapwrite'', ''shmmapread'', ''hostname'']"
  by (simp add: commands_def)

lemma dispatched_iff: "map_of (commands m) cmd \<noteq> None \<longleftrightarrow> cmd \<in> set testbinCommands"
proof -
  have same: "set [''forever'', ''burstexit'', ''cat'', ''date'', ''echo'', ''exit'', ''hashverify'', ''layercheck'',
      ''ls'', ''memhog'', ''nc'', ''host'', ''looptest'', ''echosrv'', ''tickexit'', ''pidscan'', ''shmwrite'',
      ''shmread'', ''shmmapwrite'', ''shmmapread'', ''hostname''] = set testbinCommands" by code_simp
  have "map_of (commands m) cmd \<noteq> None \<longleftrightarrow> cmd \<in> set (map fst (commands m))"
    by (simp add: map_of_eq_None_iff)
  also have "set (map fst (commands m)) = set testbinCommands"
    unfolding commands_names by (rule same)
  finally show ?thesis .
qed

lemma testbinCommands_plain: "c \<in> set testbinCommands \<Longrightarrow> plain_elem c \<and> c \<noteq> ''testbin''"
  by (auto simp: testbinCommands_def plain_elem_def)

lemma testbinCommands_distinct: "distinct testbinCommands"
  by (simp add: testbinCommands_def)

lemma path_base_in_dir:
  assumes "plain_elem c"
  shows "path_base (d @ CHR ''/'' # c) = c" "path_base c = c"
proof -
  have c: "c \<noteq> []" "CHR ''/'' \<notin> set c" using assms by (simp_all add: plain_elem_def)
  then have l: "last c \<noteq> CHR ''/''" by (metis last_in_set)
  have "last (split_on CHR ''/'' (d @ CHR ''/'' # c)) = c"
    using c by (simp add: split_on_append_sep split_on_no_sep)
  then show "path_base (d @ CHR ''/'' # c) = c"
    using c l by (simp add: path_base_def trim_right_by_none Let_def)
  show "path_base c = c"
    using c l by (simp add: path_base_def trim_right_by_none Let_def split_on_no_sep)
qed

text \<open>A link in /bin and a direct call run the same command.\<close>

theorem Main_link:
  assumes "cmd \<in> set testbinCommands"
  shows "Main m ((''/bin/'' @ cmd) # args) w p = Main m (''/bin/testbin'' # cmd # args) w p"
proof -
  from assms have c: "plain_elem cmd" "cmd \<noteq> ''testbin''" "cmd \<noteq> []"
    using testbinCommands_plain [of cmd] by (auto simp: plain_elem_def)
  have t: "path_base ''/bin/testbin'' = ''testbin''"
    using path_base_in_dir(1) [of "''testbin''" "''/bin''"] by (simp add: plain_elem_def)
  have b: "path_base (''/bin/'' @ cmd) = cmd"
    using path_base_in_dir(1) [OF c(1), of "''/bin''"] by simp
  have "Main m ((''/bin/'' @ cmd) # args) w p = dispatch m cmd ((''/bin/'' @ cmd) # args) w p"
    unfolding Main_def list.case b Let_def using c by simp
  also have "\<dots> = dispatch m cmd (cmd # args) w p" by (rule dispatch_name_blind)
  also have "\<dots> = Main m (''/bin/testbin'' # cmd # args) w p"
    unfolding Main_def list.case t Let_def by simp
  finally show ?thesis .
qed

theorem Main_unknown:
  assumes "cmd \<notin> set testbinCommands"
  shows "Main m (''testbin'' # cmd # args) w p
    = (w, eprintln (''testbin: unknown command: '' @ cmd) p, Exit 127)"
proof -
  have t: "path_base ''testbin'' = ''testbin''" by (rule path_base_in_dir(2)) (simp add: plain_elem_def)
  have "map_of (commands m) cmd = None" using assms dispatched_iff [of m cmd] by blast
  then show ?thesis unfolding Main_def list.case t Let_def by (simp add: dispatch_def fail_def)
qed

end
