(* ===== verification/Rootfs.thy ===== *)
theory Rootfs
  imports Testbin_Main
begin

text \<open>
  The rootfs fixtures of \<^verbatim>\<open>rootfs.go\<close>: where the testbin binary comes from, the calls
  that write each image, extracting an image, and the mount descriptors handed to a shim.
  The machine the harness runs on (file system, environment, HTTP, the erofs and ext4
  libraries) is the parameter \<open>host\<close>; the harness's own state is threaded explicitly and
  every \<^verbatim>\<open>tb.Fatal\<close> is the left side of a result.
\<close>

section \<open>The host\<close>

text \<open>
  One call of a library or of the operating system that returns only an error.
  \<open>WriteFile\<close> truncates; \<open>CopyToFile\<close> opens with \<^verbatim>\<open>O_CREATE|O_WRONLY\<close> and copies.
\<close>

datatype call =
    CreateFile string
  | CloseFile string
  | MkdirAll string
  | WriteFile string nat bytes
  | CopyToFile string nat bytes
  | OsSymlink string string
  | ImgMkdir string string
  | ImgCreate string string
  | ImgWrite string string bytes
  | ImgChmod string string nat
  | ImgCloseFile string string
  | ImgSymlink string string string
  | ImgMknod string string nat nat
  | ImgClose string
  | Ext4Create string nat

text \<open>An entry of an opened image, in the order \<^verbatim>\<open>fs.WalkDir\<close> visits them.\<close>

datatype dirent =
    WalkErr err
  | LinkEntry "string result"
  | DirEntry
  | FileEntry nat "bytes result"

record 'f host =
  h_do :: "call \<Rightarrow> 'f \<Rightarrow> err option \<times> 'f"
  h_tempdir :: "'f \<Rightarrow> string \<times> 'f"
  h_getenv :: "'f \<Rightarrow> string \<Rightarrow> string"
  h_readfile :: "'f \<Rightarrow> string \<Rightarrow> bytes result"
  h_http :: "'f \<Rightarrow> string \<Rightarrow> (nat \<times> string \<times> bytes result) result"
  h_walk :: "'f \<Rightarrow> string \<Rightarrow> (string \<times> dirent) list result"
  h_has_readlink :: bool
  h_uid :: nat
  h_goarch :: string
  h_testbinVersion :: string

text \<open>A sequence of calls, each with the label of its \<^verbatim>\<open>tb.Fatal\<close>; the first error ends it.\<close>

type_synonym 'f harness = "'f \<Rightarrow> err option \<times> 'f"

fun run_calls :: "'f host \<Rightarrow> (string \<times> call) list \<Rightarrow> 'f harness" where
  "run_calls h [] f = (None, f)"
| "run_calls h ((label, c) # cs) f =
     (case h_do h c f of
        (Some e, f1) \<Rightarrow> (Some (label @ '' '' @ e), f1)
      | (None, f1) \<Rightarrow> run_calls h cs f1)"

text \<open>The same calls when none is an error: what the host's state becomes.\<close>

fun do_all :: "'f host \<Rightarrow> call list \<Rightarrow> 'f \<Rightarrow> 'f option" where
  "do_all h [] f = Some f"
| "do_all h (c # cs) f = (case h_do h c f of (Some e, f1) \<Rightarrow> None | (None, f1) \<Rightarrow> do_all h cs f1)"

lemma run_calls_ok: "run_calls h cs f = (None, f') \<longleftrightarrow> do_all h (map snd cs) f = Some f'"
  by (induction h cs f rule: run_calls.induct) (simp_all split: prod.split option.split)

lemma do_all_append:
  "do_all h (as @ bs) f = (case do_all h as f of None \<Rightarrow> None | Some f1 \<Rightarrow> do_all h bs f1)"
  by (induction h as f rule: do_all.induct) (simp_all split: prod.split option.split)

section \<open>The testbin binary\<close>

definition testbinLocalPath :: string where "testbinLocalPath = ''testdata/testbin''"
definition shimtestModulePath :: string where "shimtestModulePath = ''github.com/containerd/shimtest''"
definition testbinOS :: string where "testbinOS = ''linux''"

definition testbinAssetName :: "string \<Rightarrow> string" where
  "testbinAssetName goarch = ''testbin-'' @ testbinOS @ ''-'' @ goarch"

definition testbinURL :: "string \<Rightarrow> string \<Rightarrow> string" where
  "testbinURL version goarch =
     ''https://github.com/'' @ trim_prefix shimtestModulePath ''github.com/'' @ ''/releases/download/''
       @ version @ ''/'' @ testbinAssetName goarch"

text \<open>Writing the cache is attempted and its result ignored.\<close>

definition fetchTestbin :: "'f host \<Rightarrow> string \<Rightarrow> string \<Rightarrow> 'f \<Rightarrow> bytes result \<times> 'f" where
  "fetchTestbin h version goarch f =
     (let url = testbinURL version goarch in
      case h_http h f url of
        Inl e \<Rightarrow> (Inl (''shimtest: fetching testbin from '' @ url @ '': '' @ e), f)
      | Inr (code, status, body) \<Rightarrow>
          if code \<noteq> 200 then
            (Inl (''shimtest: fetching testbin from '' @ url @ '': unexpected status '' @ status
              @ ''; ensure a release exists for version '' @ version
              @ '', run 'make testbin', or set SHIMTEST_TESTBIN''), f)
          else case body of
            Inl e \<Rightarrow> (Inl (''shimtest: reading testbin from '' @ url @ '': '' @ e), f)
          | Inr data \<Rightarrow>
              (case h_do h (MkdirAll ''testdata'') f of
                 (Some e, f1) \<Rightarrow> (Inr data, f1)
               | (None, f1) \<Rightarrow> (Inr data, snd (h_do h (WriteFile testbinLocalPath 493 data) f1))))"

definition openTestbin :: "'f host \<Rightarrow> 'f \<Rightarrow> bytes result \<times> 'f" where
  "openTestbin h f =
     (let path = h_getenv h f ''SHIMTEST_TESTBIN'' in
      if path \<noteq> [] then
        (case h_readfile h f path of
           Inl e \<Rightarrow> (Inl (''SHIMTEST_TESTBIN: '' @ e), f)
         | Inr data \<Rightarrow> (Inr data, f))
      else case h_readfile h f testbinLocalPath of
        Inl e \<Rightarrow> fetchTestbin h (h_testbinVersion h) (h_goarch h) f
      | Inr data \<Rightarrow> if data = [] then fetchTestbin h (h_testbinVersion h) (h_goarch h) f else (Inr data, f))"

section \<open>The image programs\<close>

text \<open>\<^verbatim>\<open>writeErofsFile\<close>: a small file.\<close>

definition writeErofsFile :: "string \<Rightarrow> string \<Rightarrow> bytes \<Rightarrow> (string \<times> call) list" where
  "writeErofsFile img path data =
     [(''create '' @ path @ '':'', ImgCreate img path),
      (''write '' @ path @ '':'', ImgWrite img path data),
      (''close '' @ path @ '':'', ImgCloseFile img path)]"

text \<open>The fixture with the large file and the stat probe.\<close>

definition bigfile_program :: "string \<Rightarrow> bytes \<Rightarrow> (string \<times> call) list" where
  "bigfile_program img content =
     [(''create bigfile erofs:'', CreateFile img),
      (''mkdir data:'', ImgMkdir img ''data''),
      (''create bigfile entry:'', ImgCreate img ''data/bigfile''),
      (''write bigfile:'', ImgWrite img ''data/bigfile'' content),
      (''chmod bigfile:'', ImgChmod img ''data/bigfile'' 420),
      (''close bigfile:'', ImgCloseFile img ''data/bigfile''),
      (''mkdir data/stat:'', ImgMkdir img ''data/stat''),
      (''create probe entry:'', ImgCreate img ''data/stat/probe''),
      (''write probe:'', ImgWrite img ''data/stat/probe'' (''probe'' @ newline)),
      (''chmod probe:'', ImgChmod img ''data/stat/probe'' 420),
      (''close probe:'', ImgCloseFile img ''data/stat/probe''),
      (''erofs close:'', ImgClose img)]"

definition writeBigFileErofs :: "'f host \<Rightarrow> bytes \<Rightarrow> 'f \<Rightarrow> string result \<times> 'f" where
  "writeBigFileErofs h content f =
     (case h_tempdir h f of
        (dir, f1) \<Rightarrow>
          let imgPath = path_join [dir, ''bigfile.erofs''] in
          case run_calls h (bigfile_program imgPath content) f1 of
            (Some e, f2) \<Rightarrow> (Inl e, f2)
          | (None, f2) \<Rightarrow> (Inr imgPath, f2))"

definition rootfs_dirs :: "string list" where
  "rootfs_dirs = [''bin'', ''dev'', ''etc'', ''proc'', ''run'', ''sys'', ''tmp'']"

definition rootfs_head :: "string \<Rightarrow> (string \<times> call) list" where
  "rootfs_head img =
     (''create erofs image:'', CreateFile img)
     # map (\<lambda>d. (''mkdir:'', ImgMkdir img d)) rootfs_dirs
     @ [(''create testbin:'', ImgCreate img ''bin/testbin'')]"

definition tab :: char where "tab = CHR 0x09"

definition rootfs_tail :: "string \<Rightarrow> bytes \<Rightarrow> (string \<times> call) list" where
  "rootfs_tail img bin =
     [(''write testbin:'', ImgWrite img ''bin/testbin'' bin),
      (''chmod testbin:'', ImgChmod img ''bin/testbin'' 493),
      (''close testbin:'', ImgCloseFile img ''bin/testbin'')]
     @ map (\<lambda>cmd. (''symlink:'', ImgSymlink img ''testbin'' (''bin/'' @ cmd))) testbinCommands
     @ writeErofsFile img ''etc/passwd'' (''root:x:0:0:root:/root:/bin/forever'' @ newline)
     @ writeErofsFile img ''etc/group'' (''root:x:0:'' @ newline)
     @ writeErofsFile img ''etc/resolv.conf'' []
     @ writeErofsFile img ''etc/hostname'' (''shimtest'' @ newline)
     @ writeErofsFile img ''etc/hosts'' (''127.0.0.1'' @ tab # ''localhost'' @ newline)
     @ [(''erofs close:'', ImgClose img)]"

definition writeRootfsErofs :: "'f host \<Rightarrow> 'f \<Rightarrow> string result \<times> 'f" where
  "writeRootfsErofs h f =
     (case h_tempdir h f of
        (dir, f1) \<Rightarrow>
          let imgPath = path_join [dir, ''rootfs.erofs''] in
          case run_calls h (rootfs_head imgPath) f1 of
            (Some e, f2) \<Rightarrow> (Inl e, f2)
          | (None, f2) \<Rightarrow>
             (case openTestbin h f2 of
                (Inl e, f3) \<Rightarrow> (Inl (''open testbin: '' @ e), f3)
              | (Inr bin, f3) \<Rightarrow>
                 (case run_calls h (rootfs_tail imgPath bin) f3 of
                    (Some e, f4) \<Rightarrow> (Inl e, f4)
                  | (None, f4) \<Rightarrow> (Inr imgPath, f4))))"

section \<open>The stacked layers\<close>

definition overlayWhiteoutMode :: nat where "overlayWhiteoutMode = 8192"

definition base_name :: "nat \<Rightarrow> string" where "base_name j = ''base/base_'' @ dec j"
definition added_name :: "nat \<Rightarrow> string" where "added_name k = ''added/file_'' @ dec k"

definition layer_path :: "string \<Rightarrow> nat \<Rightarrow> string" where
  "layer_path dir k = path_join [dir, ''layer-'' @ dec_pad 3 k @ ''.erofs'']"

text \<open>Layer 1 seeds \<^verbatim>\<open>/base\<close>; \<open>n\<close> is the number of layers.\<close>

definition layer_1 :: "string \<Rightarrow> nat \<Rightarrow> (string \<times> call) list" where
  "layer_1 img n =
     [(''create layer 1 erofs:'', CreateFile img), (''mkdir base:'', ImgMkdir img ''base'')]
     @ concat (map (\<lambda>k. writeErofsFile img (base_name k) (''base '' @ dec k @ newline)) [0..<n - 1])
     @ [(''mkdir added:'', ImgMkdir img ''added'')]
     @ writeErofsFile img (added_name 1) (''layer 1'' @ newline)
     @ [(''close layer 1 erofs:'', ImgClose img), (''close layer 1 file:'', CloseFile img)]"

definition layer_upper :: "string \<Rightarrow> nat \<Rightarrow> (string \<times> call) list" where
  "layer_upper img k =
     [(''create layer '' @ dec k @ '' erofs:'', CreateFile img),
      (''mkdir added (layer '' @ dec k @ ''):'', ImgMkdir img ''added'')]
     @ writeErofsFile img (added_name k) (''layer '' @ dec k @ newline)
     @ [(''mkdir base (layer '' @ dec k @ ''):'', ImgMkdir img ''base''),
        (''mknod whiteout (layer '' @ dec k @ ''):'', ImgMknod img (base_name (k - 2)) overlayWhiteoutMode 0),
        (''close layer '' @ dec k @ '' erofs:'', ImgClose img),
        (''close layer '' @ dec k @ '' file:'', CloseFile img)]"

definition layer_program :: "string \<Rightarrow> nat \<Rightarrow> nat \<Rightarrow> (string \<times> call) list" where
  "layer_program dir n k = (if k = 1 then layer_1 (layer_path dir 1) n else layer_upper (layer_path dir k) k)"

fun write_layers_from :: "'f host \<Rightarrow> string \<Rightarrow> nat \<Rightarrow> nat list \<Rightarrow> string list \<Rightarrow> 'f \<Rightarrow> string list result \<times> 'f" where
  "write_layers_from h dir n [] paths f = (Inr paths, f)"
| "write_layers_from h dir n (k # ks) paths f =
     (case run_calls h (layer_program dir n k) f of
        (Some e, f1) \<Rightarrow> (Inl e, f1)
      | (None, f1) \<Rightarrow> write_layers_from h dir n ks (paths[n - k := layer_path dir k]) f1)"

definition writeLayersErofs :: "'f host \<Rightarrow> int \<Rightarrow> 'f \<Rightarrow> string list result \<times> 'f" where
  "writeLayersErofs h n f =
     (if n < 2 then (Inl (''writeLayersErofs: n='' @ itoa n @ '' must be >= 2''), f)
      else case h_tempdir h f of
        (dir, f1) \<Rightarrow> write_layers_from h dir (nat n) [1..<Suc (nat n)] (replicate (nat n) []) f1)"

section \<open>Extracting an image\<close>

definition extract_entry :: "'f host \<Rightarrow> string \<Rightarrow> string \<times> dirent \<Rightarrow> 'f \<Rightarrow> err option \<times> 'f" where
  "extract_entry h dir pe f =
     (case pe of (path, d) \<Rightarrow>
        let target = path_join [dir, path] in
        case d of
          WalkErr e \<Rightarrow> (Some e, f)
        | LinkEntry l \<Rightarrow>
            if \<not> h_has_readlink h then (Some (''readlink '' @ path @ '': invalid argument''), f)
            else (case l of Inl e \<Rightarrow> (Some e, f) | Inr t \<Rightarrow> h_do h (OsSymlink t target) f)
        | DirEntry \<Rightarrow> h_do h (MkdirAll target) f
        | FileEntry perm content \<Rightarrow>
            (case content of
               Inl e \<Rightarrow> (Some e, f)
             | Inr data \<Rightarrow> h_do h (CopyToFile target perm data) f))"

fun extract_entries :: "'f host \<Rightarrow> string \<Rightarrow> (string \<times> dirent) list \<Rightarrow> 'f \<Rightarrow> err option \<times> 'f" where
  "extract_entries h dir [] f = (None, f)"
| "extract_entries h dir (pe # pes) f =
     (case extract_entry h dir pe f of
        (Some e, f1) \<Rightarrow> (Some e, f1)
      | (None, f1) \<Rightarrow> extract_entries h dir pes f1)"

definition extractErofsIntoDir :: "'f host \<Rightarrow> string \<Rightarrow> string \<Rightarrow> 'f \<Rightarrow> err option \<times> 'f" where
  "extractErofsIntoDir h imgPath dir f =
     (case h_walk h f imgPath of
        Inl e \<Rightarrow> (Some (''open erofs: '' @ e), f)
      | Inr entries \<Rightarrow>
         (case extract_entries h dir entries f of
            (Some e, f1) \<Rightarrow> (Some (''extract erofs: '' @ e), f1)
          | (None, f1) \<Rightarrow> (None, f1)))"

definition extractErofsToDir :: "'f host \<Rightarrow> string \<Rightarrow> 'f \<Rightarrow> string result \<times> 'f" where
  "extractErofsToDir h imgPath f =
     (case h_tempdir h f of
        (tmp, f1) \<Rightarrow>
          let dir = path_join [tmp, ''rootfs''] in
          case h_do h (MkdirAll dir) f1 of
            (Some e, f2) \<Rightarrow> (Inl (''mkdir: '' @ e), f2)
          | (None, f2) \<Rightarrow>
             (case extractErofsIntoDir h imgPath dir f2 of
                (Some e, f3) \<Rightarrow> (Inl e, f3)
              | (None, f3) \<Rightarrow> (Inr dir, f3)))"

end
