(* ===== verification/Mounts.thy ===== *)
theory Mounts
  imports Rootfs
begin

text \<open>
  The mount descriptors of \<^verbatim>\<open>rootfs.go\<close>: the format/mkdir/overlay descriptor over loop
  mounted images, the plain overlay, and the choice between them that the benchmarks make
  once per image set and the tests once per shim.
\<close>

section \<open>Descriptors\<close>

record mount =
  m_type :: string
  m_source :: string
  m_options :: "string list"

definition mount_ref :: "nat \<Rightarrow> string" where
  "mount_ref i = ''{{ mount '' @ dec i @ '' }}''"

definition erofs_mount :: "string \<Rightarrow> mount" where
  "erofs_mount img = \<lparr>m_type = ''erofs'', m_source = img, m_options = [''ro'', ''loop'']\<rparr>"

definition lowers :: "string list \<Rightarrow> string list" where
  "lowers imgs = map (\<lambda>i. mount_ref (i + 1)) [0..<length imgs]"

definition erofs_mounts :: "string \<Rightarrow> string list \<Rightarrow> mount list" where
  "erofs_mounts ext4Img imgs =
     \<lparr>m_type = ''ext4'', m_source = ext4Img, m_options = [''rw'', ''loop'']\<rparr>
     # map erofs_mount imgs
     @ [\<lparr>m_type = ''format/mkdir/overlay'', m_source = ''overlay'',
          m_options = [''X-containerd.mkdir.path={{ mount 0 }}/upper:0755'',
            ''X-containerd.mkdir.path={{ mount 0 }}/work:0755'',
            ''workdir={{ mount 0 }}/work'',
            ''upperdir={{ mount 0 }}/upper'',
            ''lowerdir='' @ join '':'' (lowers imgs)]\<rparr>]"

definition buildErofsMounts :: "'f host \<Rightarrow> string list \<Rightarrow> 'f \<Rightarrow> mount list result \<times> 'f" where
  "buildErofsMounts h imgs f =
     (case h_tempdir h f of
        (dir, f1) \<Rightarrow>
          let ext4Img = path_join [dir, ''scratch.ext4''] in
          case h_do h (Ext4Create ext4Img (64 * 1024 * 1024)) f1 of
            (Some e, f2) \<Rightarrow> (Inl (''create ext4: '' @ e), f2)
          | (None, f2) \<Rightarrow> (Inr (erofs_mounts ext4Img imgs), f2))"

definition buildOverlayMounts :: "'f host \<Rightarrow> string \<Rightarrow> 'f \<Rightarrow> mount list result \<times> 'f" where
  "buildOverlayMounts h lower f =
     (case h_tempdir h f of
        (dir, f1) \<Rightarrow>
          let upper = path_join [dir, ''upper'']; work = path_join [dir, ''work''] in
          case run_calls h [(''mkdir upper:'', MkdirAll upper), (''mkdir work:'', MkdirAll work)] f1 of
            (Some e, f2) \<Rightarrow> (Inl e, f2)
          | (None, f2) \<Rightarrow>
              (Inr [\<lparr>m_type = ''overlay'', m_source = ''overlay'',
                 m_options = [''index=off'', ''workdir='' @ work, ''upperdir='' @ upper,
                   ''lowerdir='' @ lower]\<rparr>], f2))"

section \<open>Composition\<close>

text \<open>Both images extracted into one directory.\<close>

definition extract_both :: "'f host \<Rightarrow> string \<Rightarrow> string \<Rightarrow> string \<Rightarrow> 'f \<Rightarrow> err option \<times> 'f" where
  "extract_both h erofsImg bigImg dir f =
     (case extractErofsIntoDir h erofsImg dir f of
        (Some e, f1) \<Rightarrow> (Some e, f1)
      | (None, f1) \<Rightarrow> extractErofsIntoDir h bigImg dir f1)"

record shimImages =
  erofsImg :: string
  bigImg :: string
  lowerDir :: string

text \<open>\<open>FormatMounts\<close> is the only field of the configuration these functions read.\<close>

definition buildShimImages :: "'f host \<Rightarrow> bytes \<Rightarrow> bool \<Rightarrow> 'f \<Rightarrow> shimImages result \<times> 'f" where
  "buildShimImages h content formatMounts f =
     (case writeRootfsErofs h f of
        (Inl e, f1) \<Rightarrow> (Inl e, f1)
      | (Inr rootImg, f1) \<Rightarrow>
         (case writeBigFileErofs h content f1 of
            (Inl e, f2) \<Rightarrow> (Inl e, f2)
          | (Inr big, f2) \<Rightarrow>
              if \<not> formatMounts \<and> h_uid h = 0 then
                (case extractErofsToDir h rootImg f2 of
                   (Inl e, f3) \<Rightarrow> (Inl e, f3)
                 | (Inr lower, f3) \<Rightarrow>
                    (case extractErofsIntoDir h big lower f3 of
                       (Some e, f4) \<Rightarrow> (Inl e, f4)
                     | (None, f4) \<Rightarrow> (Inr \<lparr>erofsImg = rootImg, bigImg = big, lowerDir = lower\<rparr>, f4)))
              else (Inr \<lparr>erofsImg = rootImg, bigImg = big, lowerDir = []\<rparr>, f2)))"

definition buildRootfsMountsFromImages ::
    "'f host \<Rightarrow> bool \<Rightarrow> shimImages \<Rightarrow> string \<Rightarrow> 'f \<Rightarrow> mount list result \<times> 'f" where
  "buildRootfsMountsFromImages h formatMounts imgs rootfsDir f =
     (if formatMounts then buildErofsMounts h [erofsImg imgs, bigImg imgs] f
      else if h_uid h \<noteq> 0 then
        (case extract_both h (erofsImg imgs) (bigImg imgs) rootfsDir f of
           (Some e, f1) \<Rightarrow> (Inl e, f1)
         | (None, f1) \<Rightarrow> (Inr [], f1))
      else buildOverlayMounts h (lowerDir imgs) f)"

definition buildEmbeddedRootfs ::
    "'f host \<Rightarrow> bytes \<Rightarrow> string \<Rightarrow> bool \<Rightarrow> 'f \<Rightarrow> mount list result \<times> 'f" where
  "buildEmbeddedRootfs h content bundleDir formatMounts f =
     (case writeRootfsErofs h f of
        (Inl e, f1) \<Rightarrow> (Inl e, f1)
      | (Inr rootImg, f1) \<Rightarrow>
         (case writeBigFileErofs h content f1 of
            (Inl e, f2) \<Rightarrow> (Inl e, f2)
          | (Inr big, f2) \<Rightarrow>
              if formatMounts then buildErofsMounts h [rootImg, big] f2
              else if h_uid h \<noteq> 0 then
                (case extract_both h rootImg big (path_join [bundleDir, ''rootfs'']) f2 of
                   (Some e, f3) \<Rightarrow> (Inl e, f3)
                 | (None, f3) \<Rightarrow> (Inr [], f3))
              else
                (case extractErofsToDir h rootImg f2 of
                   (Inl e, f3) \<Rightarrow> (Inl e, f3)
                 | (Inr srcDir, f3) \<Rightarrow>
                    (case extractErofsIntoDir h big srcDir f3 of
                       (Some e, f4) \<Rightarrow> (Inl e, f4)
                     | (None, f4) \<Rightarrow> buildOverlayMounts h srcDir f4))))"

text \<open>
  The benchmarks' split is the tests' function: building the images and then the mounts does
  what building the rootfs in one go does, on every branch and with the same errors.
\<close>

theorem buildEmbeddedRootfs_split:
  "buildEmbeddedRootfs h content bundleDir fm f =
     (case buildShimImages h content fm f of
        (Inl e, f1) \<Rightarrow> (Inl e, f1)
      | (Inr imgs, f1) \<Rightarrow> buildRootfsMountsFromImages h fm imgs (path_join [bundleDir, ''rootfs'']) f1)"
  by (simp add: buildEmbeddedRootfs_def buildShimImages_def buildRootfsMountsFromImages_def
      split: prod.split sum.split option.split)

section \<open>Every lower refers to its image\<close>

definition ref_index :: "string \<Rightarrow> nat option" where
  "ref_index s =
     (if has_prefix s ''{{ mount '' \<and> has_suffix s '' }}''
      then dec_val 0 (trim_suffix (trim_prefix s ''{{ mount '') '' }}'') else None)"

lemma ref_index_mount_ref: "ref_index (mount_ref i) = Some i"
proof -
  have p: "has_prefix (mount_ref i) ''{{ mount ''" and s: "has_suffix (mount_ref i) '' }}''"
    unfolding mount_ref_def by (rule has_prefix_append) (metis append.assoc has_suffix_append)
  have "trim_prefix (mount_ref i) ''{{ mount '' = dec i @ '' }}''"
    unfolding mount_ref_def by (rule trim_prefix_append)
  then have "trim_suffix (trim_prefix (mount_ref i) ''{{ mount '') '' }}'' = dec i"
    by (simp only: trim_suffix_append)
  with p s show ?thesis by (simp only: ref_index_def simp_thms if_True dec_val_dec)
qed

text \<open>What the shim's descriptor language makes of a lower: the source of the mount named.\<close>

definition resolve_ref :: "mount list \<Rightarrow> string \<Rightarrow> string option" where
  "resolve_ref ms s =
     (case ref_index s of None \<Rightarrow> None | Some i \<Rightarrow> if i < length ms then Some (m_source (ms ! i)) else None)"

lemma erofs_mounts_lowers:
  "map (resolve_ref (erofs_mounts ext4 imgs)) (lowers imgs) = map Some imgs"
proof (rule nth_equalityI)
  show "length (map (resolve_ref (erofs_mounts ext4 imgs)) (lowers imgs)) = length (map Some imgs)"
    by (simp add: lowers_def)
next
  fix i
  assume "i < length (map (resolve_ref (erofs_mounts ext4 imgs)) (lowers imgs))"
  then have i: "i < length imgs" by (simp add: lowers_def)
  then have "lowers imgs ! i = mount_ref (Suc i)" by (simp add: lowers_def)
  moreover have "erofs_mounts ext4 imgs ! Suc i = erofs_mount (imgs ! i)"
    using i by (simp add: erofs_mounts_def nth_append)
  moreover have "Suc i < length (erofs_mounts ext4 imgs)" using i by (simp add: erofs_mounts_def)
  ultimately show "map (resolve_ref (erofs_mounts ext4 imgs)) (lowers imgs) ! i = map Some imgs ! i"
    using i by (simp add: lowers_def resolve_ref_def ref_index_mount_ref erofs_mount_def)
qed

lemma mount_ref_no_colon: "CHR '':'' \<notin> set (mount_ref i)"
  using digit_not_special(9) dec_digits by (auto simp: mount_ref_def)

text \<open>So the lowerdir option, split at its colons, names the images in the order given.\<close>

theorem lowerdir_images:
  assumes "imgs \<noteq> []"
  shows "map (resolve_ref (erofs_mounts ext4 imgs)) (split_on CHR '':'' (join '':'' (lowers imgs))) = map Some imgs"
proof -
  have "split_on CHR '':'' (join '':'' (lowers imgs)) = lowers imgs"
    using assms mount_ref_no_colon by (intro split_join) (auto simp: lowers_def)
  then show ?thesis by (simp add: erofs_mounts_lowers)
qed

section \<open>The layer images\<close>

lemma layer_path_inj: 
  assumes "es \<noteq> []" and "\<forall>e \<in> set es. plain_elem e" and "layer_path (abs_path es) j = layer_path (abs_path es) k"
  shows "j = k"
proof -
  have pl: "plain_elem (''layer-'' @ dec_pad 3 i @ ''.erofs'')" for i
    using dec_digits digit_not_special(1) by (auto simp: plain_elem_def dec_pad_def)
  have "layer_path (abs_path es) i = abs_path es @ ''/layer-'' @ dec_pad 3 i @ ''.erofs''" for i
    using assms(1) path_join_abs [OF assms(1,2) pl [of i]] by (simp add: layer_path_def abs_path_def join_append)
  with assms(3) show ?thesis by simp
qed

lemma write_layers_from_ok:
  "write_layers_from h dir n ks paths f = (Inr paths', f') \<Longrightarrow>
     paths' = fold (\<lambda>k ps. ps[n - k := layer_path dir k]) ks paths
   \<and> do_all h (concat (map (\<lambda>k. map snd (layer_program dir n k)) ks)) f = Some f'"
proof (induction ks arbitrary: paths f)
  case Nil
  then show ?case by simp
next
  case (Cons k ks)
  from Cons.prems obtain f1 where
    c: "run_calls h (layer_program dir n k) f = (None, f1)"
       "write_layers_from h dir n ks (paths[n - k := layer_path dir k]) f1 = (Inr paths', f')"
    by (auto split: prod.splits option.splits)
  from Cons.IH [OF c(2)] c(1) show ?case by (simp add: do_all_append run_calls_ok)
qed

lemma fold_paths:
  assumes "m \<le> n"
  shows "fold (\<lambda>k ps. ps[n - k := g k]) [1..<Suc m] (replicate n d)
    = replicate (n - m) d @ map g (rev [1..<Suc m])"
  using assms
proof (induction m)
  case 0
  then show ?case by simp
next
  case (Suc m)
  then have "replicate (n - m) d = replicate (n - Suc m) d @ [d]"
    by (metis Suc_diff_Suc Suc_le_lessD replicate_Suc replicate_append_same)
  with Suc show ?case by (simp add: list_update_append)
qed

text \<open>When the layers are written, the slice is top first: index 0 is layer \<open>n\<close>.\<close>

theorem writeLayersErofs_top_first:
  assumes "writeLayersErofs h (int n) f = (Inr paths, f')"
  shows "2 \<le> n \<and> paths = map (layer_path (fst (h_tempdir h f))) (rev [1..<Suc n])
    \<and> do_all h (concat (map (\<lambda>k. map snd (layer_program (fst (h_tempdir h f)) n k)) [1..<Suc n]))
           (snd (h_tempdir h f)) = Some f'"
proof (intro conjI)
  show n: "2 \<le> n" using assms by (simp add: writeLayersErofs_def split: if_splits)
  let ?d = "fst (h_tempdir h f)"
  have w: "write_layers_from h ?d n [1..<Suc n] (replicate n []) (snd (h_tempdir h f)) = (Inr paths, f')"
    using assms n by (simp add: writeLayersErofs_def split_beta del: upt_Suc)
  show "paths = map (layer_path ?d) (rev [1..<Suc n])"
    using write_layers_from_ok [OF w] fold_paths [of n n "layer_path ?d" "[]"] by simp
  show "do_all h (concat (map (\<lambda>k. map snd (layer_program ?d n k)) [1..<Suc n])) (snd (h_tempdir h f)) = Some f'"
    using write_layers_from_ok [OF w] by simp
qed

end
