(* ===== verification/Layers.thy ===== *)
theory Layers
  imports Mounts
begin

text \<open>
  The stack of layers that \<^verbatim>\<open>writeLayersErofs\<close> writes, from the calls to the merged view:
  what each image holds, what an overlay of them shows, and that the layercheck command
  accepts exactly that view inside the container. The erofs writer and the kernel's overlay
  are described by laws over a view of their state.
\<close>

section \<open>What an image program writes\<close>

datatype entry = Directory | Regular bytes | Link string | Device nat nat

fun img_of :: "call \<Rightarrow> string option" where
  "img_of (ImgMkdir i d) = Some i"
| "img_of (ImgCreate i p) = Some i"
| "img_of (ImgWrite i p b) = Some i"
| "img_of (ImgChmod i p m) = Some i"
| "img_of (ImgCloseFile i p) = Some i"
| "img_of (ImgSymlink i t p) = Some i"
| "img_of (ImgMknod i p m r) = Some i"
| "img_of c = None"

text \<open>The entry a call on an image adds or extends, in the view of the image's tree.\<close>

fun img_entry :: "call \<Rightarrow> (string \<Rightarrow> entry option) \<Rightarrow> (string \<Rightarrow> entry option)" where
  "img_entry (ImgMkdir i d) t = t(d \<mapsto> Directory)"
| "img_entry (ImgCreate i p) t = t(p \<mapsto> Regular [])"
| "img_entry (ImgWrite i p b) t =
     (case t p of Some (Regular c) \<Rightarrow> t(p \<mapsto> Regular (c @ b)) | _ \<Rightarrow> t)"
| "img_entry (ImgSymlink i l p) t = t(p \<mapsto> Link l)"
| "img_entry (ImgMknod i p m r) t = t(p \<mapsto> Device m r)"
| "img_entry c t = t"

definition entries :: "call list \<Rightarrow> string \<Rightarrow> entry option" where
  "entries cs = fold img_entry cs (\<lambda>p. None)"

fun img_name :: "call \<Rightarrow> string option" where
  "img_name (ImgMkdir i d) = Some d"
| "img_name (ImgCreate i p) = Some p"
| "img_name (ImgWrite i p b) = Some p"
| "img_name (ImgSymlink i l p) = Some p"
| "img_name (ImgMknod i p m r) = Some p"
| "img_name c = None"

lemma img_entry_other: "img_name c \<noteq> Some p \<Longrightarrow> img_entry c t p = t p"
  by (cases c) (auto split: option.split entry.split)

lemma fold_img_entry_other: "\<forall>c \<in> set cs. img_name c \<noteq> Some p \<Longrightarrow> fold img_entry cs t p = t p"
  by (induction cs arbitrary: t) (auto simp: img_entry_other)

lemma entries_other: "\<forall>c \<in> set cs. img_name c \<noteq> Some p \<Longrightarrow> entries cs p = None"
  unfolding entries_def by (rule fold_img_entry_other)

lemma fold_writeErofsFile:
  "fold img_entry (map snd (writeErofsFile img p d)) t = t(p \<mapsto> Regular d)"
  by (simp add: writeErofsFile_def)

text \<open>
  The erofs writer: creating an image file, running a sequence of calls on it and closing it
  leaves the image with the entries of the sequence; calls on other paths leave it alone.
\<close>

definition erofs_laws :: "'f host \<Rightarrow> ('f \<Rightarrow> string \<Rightarrow> string \<Rightarrow> entry option) \<Rightarrow> bool" where
  "erofs_laws h view \<longleftrightarrow>
     (\<forall>img cs f f'. (\<forall>c \<in> set cs. img_of c = Some img) \<longrightarrow>
        do_all h (CreateFile img # cs @ [ImgClose img]) f = Some f' \<longrightarrow> view f' img = entries cs)
   \<and> (\<forall>c f f' img. h_do h c f = (None, f') \<longrightarrow> img_of c \<noteq> Some img \<longrightarrow> c \<noteq> CreateFile img \<longrightarrow>
        c \<noteq> ImgClose img \<longrightarrow> view f' img = view f img)"

lemmas erofs_written = erofs_laws_def [THEN iffD1, THEN conjunct1, rule_format]
lemmas erofs_kept = erofs_laws_def [THEN iffD1, THEN conjunct2, rule_format]

definition spares :: "string \<Rightarrow> call \<Rightarrow> bool" where
  "spares img c \<longleftrightarrow> img_of c \<noteq> Some img \<and> c \<noteq> CreateFile img \<and> c \<noteq> ImgClose img"

lemma erofs_kept_all:
  "\<lbrakk>erofs_laws h view; do_all h cs f = Some f'; \<forall>c \<in> set cs. spares img c\<rbrakk> \<Longrightarrow> view f' img = view f img"
proof (induction cs arbitrary: f)
  case (Cons c cs)
  from Cons.prems(2) obtain f1 where c: "h_do h c f = (None, f1)" "do_all h cs f1 = Some f'"
    by (auto split: prod.splits option.splits)
  have "view f1 img = view f img"
    using erofs_kept [OF Cons.prems(1) c(1)] Cons.prems(3) by (auto simp: spares_def)
  with Cons.IH [OF Cons.prems(1) c(2)] Cons.prems(3) show ?case by simp
qed simp

section \<open>The layers' entries\<close>

definition layer_body :: "string \<Rightarrow> nat \<Rightarrow> nat \<Rightarrow> call list" where
  "layer_body img n k = map snd (if k = 1 then
     (''mkdir base:'', ImgMkdir img ''base'')
     # concat (map (\<lambda>k. writeErofsFile img (base_name k) (''base '' @ dec k @ newline)) [0..<n - 1])
     @ [(''mkdir added:'', ImgMkdir img ''added'')]
     @ writeErofsFile img (added_name 1) (''layer 1'' @ newline)
   else (''mkdir added (layer '' @ dec k @ ''):'', ImgMkdir img ''added'')
     # writeErofsFile img (added_name k) (''layer '' @ dec k @ newline)
     @ [(''mkdir base (layer '' @ dec k @ ''):'', ImgMkdir img ''base''),
        (''mknod whiteout (layer '' @ dec k @ ''):'', ImgMknod img (base_name (k - 2)) overlayWhiteoutMode 0)])"

lemma layer_program_body:
  "map snd (layer_program dir n k) =
     (CreateFile (layer_path dir k) # layer_body (layer_path dir k) n k @ [ImgClose (layer_path dir k)])
     @ [CloseFile (layer_path dir k)]"
  by (simp add: layer_program_def layer_body_def layer_1_def layer_upper_def)

lemma layer_body_img: "c \<in> set (layer_body img n k) \<Longrightarrow> img_of c = Some img"
  by (auto simp: layer_body_def writeErofsFile_def split: if_splits)

definition layer_entries :: "nat \<Rightarrow> nat \<Rightarrow> string \<Rightarrow> entry option" where
  "layer_entries n k = entries (layer_body [] n k)"

lemma img_entry_ignores_img:
  "img_entry (ImgMkdir i d) = img_entry (ImgMkdir [] d)" "img_entry (ImgMknod i p m r) = img_entry (ImgMknod [] p m r)"
  by (simp_all add: fun_eq_iff)

lemma fold_writeErofsFiles:
  "fold img_entry (map snd (concat (map (\<lambda>k. writeErofsFile i (p k) (d k)) ks))) t
    = fold (\<lambda>k t. t(p k \<mapsto> Regular (d k))) ks t"
  by (induction ks arbitrary: t) (simp_all add: fold_writeErofsFile)

lemma entries_layer_body: "entries (layer_body img n k) = layer_entries n k"
proof (cases "k = 1")
  case True
  then show ?thesis
    by (simp add: layer_entries_def entries_def layer_body_def fold_writeErofsFile fold_writeErofsFiles
        del: map_concat)
next
  case False
  then show ?thesis by (simp add: layer_entries_def entries_def layer_body_def fold_writeErofsFile)
qed

lemma names_distinct [simp]:
  "base_name i = base_name j \<longleftrightarrow> i = j" "added_name i = added_name j \<longleftrightarrow> i = j"
  "base_name i \<noteq> added_name j" "added_name j \<noteq> base_name i"
  "base_name i \<noteq> ''base''" "base_name i \<noteq> ''added''" "added_name i \<noteq> ''base''" "added_name i \<noteq> ''added''"
  "''base'' \<noteq> base_name i" "''added'' \<noteq> base_name i" "''base'' \<noteq> added_name i" "''added'' \<noteq> added_name i"
  by (simp_all add: base_name_def added_name_def)

lemma layer_upper_entries:
  assumes "k \<noteq> 1"
  shows "layer_entries n k = [''added'' \<mapsto> Directory, added_name k \<mapsto> Regular (''layer '' @ dec k @ newline),
     ''base'' \<mapsto> Directory, base_name (k - 2) \<mapsto> Device overlayWhiteoutMode 0]"
  using assms by (simp add: layer_entries_def entries_def layer_body_def writeErofsFile_def)

lemma layer_1_tree:
  "layer_entries n 1 = (fold (\<lambda>k t. t(base_name k \<mapsto> Regular (''base '' @ dec k @ newline))) [0..<n - 1]
     [''base'' \<mapsto> Directory]) (''added'' \<mapsto> Directory, added_name 1 \<mapsto> Regular (''layer 1'' @ newline))"
  by (simp add: layer_entries_def entries_def layer_body_def fold_writeErofsFile fold_writeErofsFiles
      del: map_concat)

lemma fold_upd_other: "\<forall>k \<in> set ks. p \<noteq> g k \<Longrightarrow> fold (\<lambda>k t. t(g k \<mapsto> e k)) ks t p = t p"
  by (induction ks arbitrary: t) auto

lemma layer_1_added: "layer_entries n 1 (added_name 1) = Some (Regular (''layer 1'' @ newline))"
  unfolding layer_1_tree by simp

lemma layer_1_dirs: "layer_entries n 1 ''base'' = Some Directory" "layer_entries n 1 ''added'' = Some Directory"
  unfolding layer_1_tree by (simp_all add: fold_upd_other)

lemma layer_1_other:
  "\<lbrakk>p \<noteq> ''base''; p \<noteq> ''added''; p \<noteq> added_name 1; \<forall>j < n - 1. p \<noteq> base_name j\<rbrakk> \<Longrightarrow> layer_entries n 1 p = None"
  unfolding layer_1_tree by (simp add: fold_upd_other)

section \<open>What the images hold after the layers are written\<close>

lemma layer_program_spares:
  assumes "\<And>i j. layer_path dir i = layer_path dir j \<Longrightarrow> i = j" and "j \<noteq> k"
  shows "\<forall>c \<in> set (map snd (layer_program dir n j)). spares (layer_path dir k) c"
proof -
  have "layer_path dir j \<noteq> layer_path dir k" using assms by blast
  then show ?thesis
    unfolding layer_program_body by (auto simp: spares_def dest: layer_body_img)
qed


section \<open>The merged view\<close>

definition whiteout :: entry where "whiteout = Device overlayWhiteoutMode 0"

text \<open>The first layer with an entry at a path decides; a whiteout hides it.\<close>

definition visible :: "(string \<Rightarrow> entry option) list \<Rightarrow> string \<Rightarrow> entry option" where
  "visible ls p =
     (case find (\<lambda>l. l p \<noteq> None) ls of
        None \<Rightarrow> None
      | Some l \<Rightarrow> if l p = Some whiteout then None else l p)"

text \<open>
  Overlayfs on a stack of lowers, top first: a directory that every layer has as a directory
  or not at all is merged, and so are the names in it.
\<close>

definition overlay_laws :: "((string \<Rightarrow> entry option) list \<Rightarrow> string \<Rightarrow> entry option) \<Rightarrow> bool" where
  "overlay_laws ov \<longleftrightarrow>
     (\<forall>ls d f. plain_elem d \<longrightarrow> plain_elem f \<longrightarrow> (\<forall>l \<in> set ls. l d = None \<or> l d = Some Directory) \<longrightarrow>
        ov ls d = visible ls d \<and> ov ls (d @ CHR ''/'' # f) = visible ls (d @ CHR ''/'' # f))"

lemma visible_unique:
  assumes "\<forall>l \<in> set ls. l p = None \<or> l p = Some e" and "\<exists>l \<in> set ls. l p = Some e" and "e \<noteq> whiteout"
  shows "visible ls p = Some e"
proof (cases "find (\<lambda>l. l p \<noteq> None) ls")
  case None
  then have "\<forall>l \<in> set ls. l p = None" by (auto simp: find_None_iff)
  with assms(2) show ?thesis by force
next
  case (Some l)
  note l = this
  then have "l p \<noteq> None" "l \<in> set ls" by (auto simp: find_Some_iff)
  with assms l show ?thesis by (auto simp: visible_def)
qed

lemma visible_hidden:
  assumes "\<forall>l \<in> set as. l p = None" and "b p = Some whiteout"
  shows "visible (as @ b # cs) p = None"
proof -
  have "find (\<lambda>l. l p \<noteq> None) (as @ b # cs) = Some b"
    using assms by (induction as) auto
  with assms(2) show ?thesis by (simp add: visible_def)
qed

lemma visible_absent: "\<forall>l \<in> set ls. l p = None \<Longrightarrow> visible ls p = None"
  by (auto simp: visible_def find_Some_iff split: option.split)

definition stack :: "nat \<Rightarrow> (string \<Rightarrow> entry option) \<Rightarrow> (string \<Rightarrow> entry option) list" where
  "stack n root = map (layer_entries n) (rev [1..<Suc n]) @ [root]"

text \<open>The rootfs image has nothing under the two directories the layers use.\<close>

definition root_clear :: "(string \<Rightarrow> entry option) \<Rightarrow> bool" where
  "root_clear root \<longleftrightarrow> (\<forall>d \<in> {''added'', ''base''}. root d = None \<and> (\<forall>f. root (d @ CHR ''/'' # f) = None))"

lemma layer_dirs: "1 \<le> k \<Longrightarrow> d \<in> {''added'', ''base''} \<Longrightarrow> layer_entries n k d = Some Directory"
  by (cases "k = 1") (auto simp: layer_upper_entries layer_1_dirs simp del: One_nat_def)

lemma dec_1: "dec 1 = ''1''"
  by code_simp

lemma stack_layer: "1 \<le> k \<Longrightarrow> k \<le> n \<Longrightarrow> layer_entries n k \<in> set (stack n root)"
  unfolding stack_def set_append set_map set_rev set_upt by (intro UnI1 imageI) auto

lemma stack_cases: "l \<in> set (stack n root) \<Longrightarrow> l = root \<or> (\<exists>k. 1 \<le> k \<and> k \<le> n \<and> l = layer_entries n k)"
  unfolding stack_def set_append set_map set_rev set_upt by auto

lemma stack_dirs:
  assumes "2 \<le> n" and "root_clear root" and "d \<in> {''added'', ''base''}"
  shows "\<forall>l \<in> set (stack n root). l d = None \<or> l d = Some Directory" and "visible (stack n root) d = Some Directory"
proof -
  show a: "\<forall>l \<in> set (stack n root). l d = None \<or> l d = Some Directory"
    using assms(2,3) layer_dirs [OF _ assms(3)] by (auto dest!: stack_cases simp: root_clear_def)
  have "layer_entries n 1 \<in> set (stack n root)" using assms(1) by (intro stack_layer) simp_all
  moreover have "layer_entries n 1 d = Some Directory" using assms(3) by (simp add: layer_dirs del: One_nat_def)
  ultimately show "visible (stack n root) d = Some Directory"
    by (intro visible_unique [OF a]) (auto simp: whiteout_def)
qed

lemma layer_added:
  "1 \<le> k \<Longrightarrow> layer_entries n k (added_name i) = (if i = k then Some (Regular (added_want i)) else None)"
proof (cases "k = 1")
  case True
  then show ?thesis
    by (cases "i = 1") (simp_all add: layer_1_other layer_1_added added_want_def dec_1 del: One_nat_def)
qed (simp add: layer_upper_entries added_want_def)

lemma added_visible:
  assumes "1 \<le> i" and "i \<le> n" and "root_clear root"
  shows "visible (stack n root) (added_name i) = Some (Regular (added_want i))"
proof (rule visible_unique)
  have r: "root (added_name i) = None"
    using assms(3) by (simp add: root_clear_def added_name_def)
  show "\<forall>l \<in> set (stack n root). l (added_name i) = None \<or> l (added_name i) = Some (Regular (added_want i))"
    using r by (auto dest!: stack_cases simp: layer_added simp del: One_nat_def)
  show "\<exists>l \<in> set (stack n root). l (added_name i) = Some (Regular (added_want i))"
    using assms(1,2) by (intro bexI [of _ "layer_entries n i"] stack_layer) (simp_all add: layer_added)
qed (simp add: whiteout_def)

lemma layer_base:
  "2 \<le> k \<Longrightarrow> p \<noteq> ''base'' \<Longrightarrow> p \<noteq> ''added'' \<Longrightarrow> (\<forall>i. p \<noteq> added_name i) \<Longrightarrow>
     layer_entries n k p = (if p = base_name (k - 2) then Some whiteout else None)"
  by (simp add: layer_upper_entries whiteout_def)

text \<open>Nothing is left under \<^verbatim>\<open>/base\<close>, whatever the name asked for.\<close>

lemma base_hidden:
  assumes "2 \<le> n" and "root_clear root"
  shows "visible (stack n root) (''base/'' @ x) = None"
proof -
  let ?p = "''base/'' @ x"
  have np: "?p \<noteq> ''base''" "?p \<noteq> ''added''" "\<forall>i. ?p \<noteq> added_name i" by (simp_all add: added_name_def)
  have r: "root ?p = None" using assms(2) by (simp add: root_clear_def)
  show ?thesis
  proof (cases "\<exists>j < n - 1. ?p = base_name j")
    case False
    then have one: "layer_entries n 1 ?p = None" using np by (intro layer_1_other) auto
    have "layer_entries n k ?p = None" if "1 \<le> k" "k \<le> n" for k
    proof (cases "k = 1")
      case ne: False
      with that have "k - 2 < n - 1" "2 \<le> k" by auto
      with False layer_base [OF this(2) np] show ?thesis by auto
    qed (use one in simp)
    then show ?thesis using r by (intro visible_absent) (auto dest!: stack_cases)
  next
    case True
    then obtain j where j: "j < n - 1" "?p = base_name j" by blast
    have "[1..<Suc n] = [1..<j + 2] @ (j + 2) # [j + 3..<Suc n]"
      using j(1) upt_split [of 1 "j + 2" "Suc n"] by (simp add: upt_conv_Cons numeral_eq_Suc del: upt_Suc)
    then have s: "stack n root = map (layer_entries n) (rev [j + 3..<Suc n]) @ layer_entries n (j + 2)
        # map (layer_entries n) (rev [1..<j + 2]) @ [root]"
      by (simp add: stack_def del: upt_Suc)
    have "\<forall>l \<in> set (map (layer_entries n) (rev [j + 3..<Suc n])). l ?p = None"
      using j(2) layer_base [OF _ np] by auto
    moreover have "layer_entries n (j + 2) ?p = Some whiteout" using layer_base [OF _ np, of "j + 2" n] j(2) by simp
    ultimately show ?thesis unfolding s by (rule visible_hidden)
  qed
qed

section \<open>layercheck on the merged view\<close>

text \<open>
  What the container's kernel answers when its root shows a tree: files read as their
  content, an absent path under a directory is \<^verbatim>\<open>ENOENT\<close>, and a directory lists the names
  present in it.
\<close>

definition shows_tree :: "'w kernel \<Rightarrow> 'w \<Rightarrow> (string \<Rightarrow> entry option) \<Rightarrow> bool" where
  "shows_tree k w t \<longleftrightarrow>
     (\<forall>p d. t p = Some (Regular d) \<longrightarrow> k_readfile k w (CHR ''/'' # p) = Inr d)
   \<and> (\<forall>d f. t d = Some Directory \<longrightarrow> plain_elem f \<longrightarrow> t (d @ CHR ''/'' # f) = None \<longrightarrow>
        (\<exists>e. k_lstat k w (CHR ''/'' # d @ CHR ''/'' # f) = Some (NotExist e)))
   \<and> (\<forall>d. t d = Some Directory \<longrightarrow> (\<exists>ns. k_readdir k w (CHR ''/'' # d) = Inr ns
        \<and> (\<forall>x \<in> set ns. plain_elem x \<and> t (d @ CHR ''/'' # x) \<noteq> None)))"

lemmas shows_file = shows_tree_def [THEN iffD1, THEN conjunct1, rule_format]
lemmas shows_absent = shows_tree_def [THEN iffD1, THEN conjunct2, THEN conjunct1, rule_format]
lemmas shows_dir = shows_tree_def [THEN iffD1, THEN conjunct2, THEN conjunct2, rule_format]

lemma layer_file_paths:
  "added_path ''/added'' i = CHR ''/'' # added_name i" "base_path ''/base'' j = CHR ''/'' # base_name j"
proof -
  have pl: "plain_elem (''file_'' @ dec i)" "plain_elem (''base_'' @ dec j)"
    using dec_digits digit_not_special(1) by (auto simp: plain_elem_def)
  have ad: "plain_elem ''added''" "plain_elem ''base''" by (simp_all add: plain_elem_def)
  show "added_path ''/added'' i = CHR ''/'' # added_name i"
    using path_join_abs [of "[''added'']", OF _ _ pl(1)] ad by (simp add: abs_path_def added_path_def added_name_def)
  show "base_path ''/base'' j = CHR ''/'' # base_name j"
    using path_join_abs [of "[''base'']", OF _ _ pl(2)] ad by (simp add: abs_path_def base_path_def base_name_def)
qed

lemma layers_ok_merged:
  assumes ov: "overlay_laws ov" and n: "2 \<le> n" and root: "root_clear root"
    and view: "shows_tree k w (ov (stack n root))"
  shows "layers_ok k w ''/added'' n ''/base'' (n - 1)"
proof -
  let ?t = "ov (stack n root)"
  have dirs: "plain_elem ''added''" "plain_elem ''base''" by (simp_all add: plain_elem_def)
  have at: "?t d = visible (stack n root) d" "?t (d @ CHR ''/'' # f) = visible (stack n root) (d @ CHR ''/'' # f)"
    if "d \<in> {''added'', ''base''}" "plain_elem f" for d f
    using ov dirs that stack_dirs(1) [OF n root that(1)] unfolding overlay_laws_def by blast+
  have base: "?t ''base'' = Some Directory"
    using at(1) [of "''base''" "''base''"] dirs stack_dirs(2) [OF n root] by simp
  have gone: "?t (''base'' @ CHR ''/'' # f) = None" if "plain_elem f" for f
    using at(2) [of "''base''" f] that base_hidden [OF n root, of f] by simp
  have "added_ok k w ''/added'' i" if i: "i \<in> {1..n}" for i
  proof -
    have f: "plain_elem (''file_'' @ dec i)" using dec_digits digit_not_special(1) by (auto simp: plain_elem_def)
    have "?t (added_name i) = Some (Regular (added_want i))"
      using at(2) [of "''added''" "''file_'' @ dec i"] f added_visible [OF _ _ root, of i n] i
      by (simp add: added_name_def)
    from shows_file [OF view this] show ?thesis by (simp add: added_ok_def layer_file_paths)
  qed
  moreover have "base_ok k w ''/base'' j" for j
  proof -
    have f: "plain_elem (''base_'' @ dec j)" using dec_digits digit_not_special(1) by (auto simp: plain_elem_def)
    obtain e where "k_lstat k w (CHR ''/'' # ''base'' @ CHR ''/'' # ''base_'' @ dec j) = Some (NotExist e)"
      using shows_absent [OF view base f gone [OF f]] by blast
    then show ?thesis by (simp add: base_ok_def layer_file_paths base_name_def)
  qed
  moreover have "k_readdir k w ''/base'' = Inr []"
  proof -
    obtain ns where ns: "k_readdir k w ''/base'' = Inr ns"
      "\<forall>x \<in> set ns. plain_elem x \<and> ?t (''base'' @ CHR ''/'' # x) \<noteq> None"
      using shows_dir [OF view base] by auto
    with gone have "ns = []" by (cases ns) auto
    with ns show ?thesis by simp
  qed
  ultimately show ?thesis by (simp add: layers_ok_def)
qed

text \<open>The rootfs image leaves the two directories free.\<close>

definition rootfs_body :: "string \<Rightarrow> bytes \<Rightarrow> call list" where
  "rootfs_body img bin = butlast (tl (map snd (rootfs_head img @ rootfs_tail img bin)))"

lemma rootfs_body_names:
  assumes "c \<in> set (map snd (rootfs_head img @ rootfs_tail img bin))" and "img_name c = Some p"
  shows "p \<in> set rootfs_dirs \<or> (\<exists>x. p = ''bin/'' @ x) \<or> (\<exists>x. p = ''etc/'' @ x)"
  using assms by (auto simp: rootfs_head_def rootfs_tail_def writeErofsFile_def)

lemma inner_subset: "x \<in> set (butlast (tl xs)) \<Longrightarrow> x \<in> set xs"
  by (cases xs) (auto dest: in_set_butlastD)

lemma rootfs_clear: "root_clear (entries (rootfs_body img bin))"
proof -
  have "entries (rootfs_body img bin) p = None"
    if p: "p \<notin> set rootfs_dirs" "\<nexists>x. p = ''bin/'' @ x" "\<nexists>x. p = ''etc/'' @ x" for p
  proof (rule entries_other, rule ballI, rule notI)
    fix c
    assume b: "c \<in> set (rootfs_body img bin)" and n: "img_name c = Some p"
    from b have "c \<in> set (map snd (rootfs_head img @ rootfs_tail img bin))"
      unfolding rootfs_body_def by (rule inner_subset)
    from rootfs_body_names [OF this n] p show False by blast
  qed
  then show ?thesis by (auto simp: root_clear_def rootfs_dirs_def)
qed

text \<open>The command inside the container, on the arguments a test gives it.\<close>


end
