(* ===== verification/Examples_Testbin.thy ===== *)
theory Examples_Testbin
  imports Layers
begin

text \<open>
  Small concrete machines on which the theorems of the components are applied: a kernel
  whose every call fails, kernels that answer a few calls, and the corresponding hosts,
  services and shims. Each theorem with a hypothesis has its witness here.
\<close>

section \<open>Kernels\<close>

text \<open>The kernel on which every call fails.\<close>

definition no_kernel :: "'w kernel" where
  "no_kernel =
     \<lparr>k_open = (\<lambda>w p. Inl (NotExist ''ENOENT'')), k_readfile = (\<lambda>w p. Inl (NotExist ''ENOENT'')),
      k_lstat = (\<lambda>w p. Some (NotExist ''ENOENT'')), k_readdir = (\<lambda>w p. Inl (NotExist ''ENOENT'')),
      k_now = (\<lambda>w. (0, 0)), k_hostname = (\<lambda>w. Inl ''ENOSYS''), k_sethostname = (\<lambda>w h. (Some ''EPERM'', w)),
      k_shmget = (\<lambda>w k n c. (Inl ''ENOSYS'', w)), k_shmat = (\<lambda>w n. (Inl ''ENOSYS'', w)), k_shmdt = (\<lambda>w n. w),
      k_load = (\<lambda>w n. []), k_store = (\<lambda>w n i c. w), k_openrw = (\<lambda>w p. (Inl ''EACCES'', w)),
      k_openro = (\<lambda>w p. Inl ''EACCES''), k_truncate = (\<lambda>w fd n. (Some ''EBADF'', w)),
      k_mmap = (\<lambda>w fd n wr. (Inl ''EBADF'', w)), k_munmap = (\<lambda>w a. (Some ''EINVAL'', w)),
      k_lookup_host = (\<lambda>w h. Inl ''no such host''), k_dial = (\<lambda>w n a. (Inl ''refused'', w)),
      k_listen = (\<lambda>w n a. (Inl ''EACCES'', w)), k_accept = (\<lambda>w l. (Inl ''EBADF'', w)),
      k_read = (\<lambda>w c n. (([], Some ''EBADF''), w)), k_write = (\<lambda>w c b. (Some ''EBADF'', w)), k_close = (\<lambda>w c. w),
      k_stream = (\<lambda>w c b. ([], w)), k_resolve_udp = (\<lambda>w a. Inl ''no such host''),
      k_sendto = (\<lambda>w c b a. (Some ''EBADF'', w)), k_recvfrom = (\<lambda>w c n. (Inl ''EBADF'', w)),
      k_readstdin = (\<lambda>w b. Inr b)\<rparr>"

text \<open>One page of shared memory: the content of the segment of key 7, and of the file \<^verbatim>\<open>/f\<close>.\<close>

definition page_put :: "bytes option \<Rightarrow> nat \<Rightarrow> char \<Rightarrow> bytes option" where
  "page_put w i c = map_option (\<lambda>b. b[i := c]) w"

definition page_kernel :: "bytes option kernel" where
  "page_kernel = no_kernel
     \<lparr>k_shmget := (\<lambda>w key n create.
        if key mod 2 ^ 32 \<noteq> 7 \<or> 4096 < n then (Inl ''ENOSPC'', w)
        else case w of
          Some b \<Rightarrow> if length b < n then (Inl ''EINVAL'', w) else (Inr 0, w)
        | None \<Rightarrow> if create then (Inr 0, Some (replicate 4096 nul)) else (Inl ''ENOENT'', w)),
      k_shmat := (\<lambda>w x. if x = 0 then (Inr 1, w) else (Inl ''EINVAL'', w)),
      k_load := (\<lambda>w a. take 4096 (case w of None \<Rightarrow> [] | Some b \<Rightarrow> b)),
      k_store := (\<lambda>w a i c. page_put w i c),
      k_openrw := (\<lambda>w p. if p = ''/f'' then (Inr 3, Some (case w of None \<Rightarrow> [] | Some b \<Rightarrow> b)) else (Inl ''EACCES'', w)),
      k_openro := (\<lambda>w p. if p = ''/f'' \<and> w \<noteq> None then Inr 3 else Inl ''ENOENT''),
      k_truncate := (\<lambda>w fd n. case w of None \<Rightarrow> (Some ''EBADF'', w)
        | Some b \<Rightarrow> (None, Some (take n b @ replicate (n - length b) nul))),
      k_mmap := (\<lambda>w fd n wr. if fd = 3 then (Inr 1, w) else (Inl ''EBADF'', w)),
      k_munmap := (\<lambda>w a. (None, w))\<rparr>"

definition page_shm :: "bytes option shm_view" where
  "page_shm = \<lparr>seg_of = (\<lambda>w key. if key mod 2 ^ 32 = 7 \<and> w \<noteq> None then Some 0 else None),
     seg_bytes = (\<lambda>w x. if x = 0 then (case w of None \<Rightarrow> [] | Some b \<Rightarrow> b) else []),
     attached = (\<lambda>w a. if a = 1 then Some 0 else None)\<rparr>"

definition page_map :: "bytes option map_view" where
  "page_map = \<lparr>file_bytes = (\<lambda>w p. if p = ''/f'' then (case w of None \<Rightarrow> [] | Some b \<Rightarrow> b) else []),
     exists_at = (\<lambda>w p. p = ''/f'' \<and> w \<noteq> None),
     fd_path = (\<lambda>w fd. if fd = 3 then Some ''/f'' else None),
     mapped = (\<lambda>w a. if a = 1 then Some ''/f'' else None)\<rparr>"

lemma page_kernel_calls:
  "k_load page_kernel w a = take 4096 (case w of None \<Rightarrow> [] | Some b \<Rightarrow> b)"
  "k_store page_kernel w a i c = page_put w i c" "k_shmdt page_kernel w a = w"
  "k_munmap page_kernel w a = (None, w)"
  "k_shmat page_kernel w x = (if x = 0 then (Inr 1, w) else (Inl ''EINVAL'', w))"
  "k_mmap page_kernel w fd n wr = (if fd = 3 then (Inr 1, w) else (Inl ''EBADF'', w))"
  "k_shmget page_kernel w key n create =
     (if key mod 2 ^ 32 \<noteq> 7 \<or> 4096 < n then (Inl ''ENOSPC'', w)
      else case w of
        Some b \<Rightarrow> if length b < n then (Inl ''EINVAL'', w) else (Inr 0, w)
      | None \<Rightarrow> if create then (Inr 0, Some (replicate 4096 nul)) else (Inl ''ENOENT'', w))"
  "k_openrw page_kernel w path =
     (if path = ''/f'' then (Inr 3, Some (case w of None \<Rightarrow> [] | Some b \<Rightarrow> b)) else (Inl ''EACCES'', w))"
  "k_openro page_kernel w path = (if path = ''/f'' \<and> w \<noteq> None then Inr 3 else Inl ''ENOENT'')"
  "k_truncate page_kernel w fd n = (case w of None \<Rightarrow> (Some ''EBADF'', w)
     | Some b \<Rightarrow> (None, Some (take n b @ replicate (n - length b) nul)))"
  by (simp_all add: page_kernel_def no_kernel_def del: One_nat_def)

lemma page_memory:
  "memory_laws page_kernel (seg_bytes page_shm) (attached page_shm)"
  "memory_laws page_kernel (file_bytes page_map) (mapped page_map)"
  by (auto simp: memory_laws_def page_shm_def page_map_def page_put_def page_kernel_calls fun_eq_iff split: option.split)

lemma page_sysv: "sysv_laws page_kernel page_shm"
  unfolding sysv_laws_def
  by (intro conjI page_memory)
     (auto simp: page_kernel_calls page_shm_def page_put_def fun_eq_iff split: option.splits if_splits)

lemma page_mmap: "mmap_laws page_kernel page_map"
  unfolding mmap_laws_def
  by (intro conjI page_memory)
     (auto simp: page_kernel_calls page_map_def page_put_def fun_eq_iff split: option.splits if_splits)

lemma no_room [simp]: "room (new_proc i) = None"
  by (simp add: new_proc_def)

text \<open>A run of shmwrite and one of shmread on it, for a fresh segment.\<close>

lemma shm_roundtrip_witness:
  "\<exists>w1 p1 w2 q1. cmdShmWrite page_kernel [''shmwrite'', ''7'', ''hi''] None (new_proc []) = (w1, p1, Exit 0)
     \<and> cmdShmRead page_kernel [''shmread'', ''7''] w1 (new_proc []) = (w2, q1, Exit 0)
     \<and> q1 = println ''hi'' (new_proc [])"
proof -
  have key: "atoi ''7'' = Some 7" "shared_key 7" by code_simp+
  obtain w1 p1 where w: "cmdShmWrite page_kernel [''shmwrite'', ''7'', ''hi''] None (new_proc []) = (w1, p1, Exit 0)"
    and w1: "w1 \<noteq> None" "length (the w1) = 4096"
    by (simp add: cmdShmWrite_def key page_kernel_calls shmSize_def store_marker_def page_put_def)
  obtain w2 q1 where r: "cmdShmRead page_kernel [''shmread'', ''7''] w1 (new_proc []) = (w2, q1, Exit 0)"
    using w1 by (auto simp: cmdShmRead_def key page_kernel_calls shmSize_def)
  from shm_roundtrip [OF page_sysv _ key w r] have "q1 = println ''hi'' (new_proc [])" by (simp add: nul_def)
  with w r show ?thesis by blast
qed

lemma shm_map_roundtrip_witness:
  "\<exists>w1 p1 w2 q1. cmdShmMapWrite page_kernel [''shmmapwrite'', ''/f'', ''hi''] None (new_proc []) = (w1, p1, Exit 0)
     \<and> cmdShmMapRead page_kernel [''shmmapread'', ''/f''] w1 (new_proc []) = (w2, q1, Exit 0)
     \<and> q1 = println ''hi'' (new_proc [])"
proof -
  obtain w1 p1 where w: "cmdShmMapWrite page_kernel [''shmmapwrite'', ''/f'', ''hi''] None (new_proc []) = (w1, p1, Exit 0)"
    and w1: "w1 \<noteq> None"
    by (simp add: cmdShmMapWrite_def page_kernel_calls shmMapSize_def store_marker_def page_put_def Let_def)
  obtain w2 q1 where r: "cmdShmMapRead page_kernel [''shmmapread'', ''/f''] w1 (new_proc []) = (w2, q1, Exit 0)"
    using w1 by (auto simp: cmdShmMapRead_def page_kernel_calls shmMapSize_def)
  from shm_map_roundtrip [OF page_mmap _ w r] have "q1 = println ''hi'' (new_proc [])" by (simp add: nul_def)
  with w r show ?thesis by blast
qed

section \<open>The commands\<close>

definition file_kernel :: "unit kernel" where
  "file_kernel = no_kernel\<lparr>k_open := (\<lambda>w path. if path = ''/f'' then Inr (''abc'', None) else Inl (NotExist ''ENOENT''))\<rparr>"

lemma cmdHashverify_ending_witness:
  "\<exists>sched. complete sched \<and>
     ending_of (cmdHashverify file_kernel sched 5 [''hashverify'', ''/f'', hex32 (crc32c ''abc'')] () (new_proc [])) = Exit 0"
proof -
  obtain sched where s: "complete sched" using complete_exists by blast
  have "k_open file_kernel () ([''hashverify'', ''/f'', hex32 (crc32c ''abc'')] ! 1) = Inr (''abc'', None)"
    by (simp add: file_kernel_def)
  from cmdHashverify_ending [OF s _ this] s show ?thesis by auto
qed

lemma hv_run_completes_witness:
  "\<exists>t. hv_step\<^sup>*\<^sup>* (hv_init ''ab'' Eof) t \<and> (hv_done t \<or> hv_failed t)"
  by (rule hv_run_completes [OF rtranclp.rtrancl_refl]) simp

lemma cmdBurstexit_run_witness:
  "cmdBurstexit [''burstexit'', ''3'', ''7''] () (new_proc []) =
     ((), snd (put (tiledPayload 3) (new_proc [])), Exit 7)"
proof -
  have "atoi ''3'' = Some (int 3)" "atoi ''7'' = Some 7" by code_simp+
  then show ?thesis
    using cmdBurstexit_run [of "[''burstexit'', ''3'', ''7'']" 3 7 "()" "new_proc []"] by simp
qed


lemma nc_failure_silent_witness:
  "stdout (proc_of (cmdNC no_kernel [''nc'', ''host'', ''80''] () (new_proc ''in''))) = stdout (new_proc ''in'')"
  by (rule nc_failure_silent) (simp add: cmdNC_def nc_mode_def nc_tcp_def no_kernel_def)

lemma split_join_host_port_witness:
  "split_host_port (join_host_port ''::1'' ''80'') = Inr (''::1'', ''80'')"
  by (rule split_join_host_port) (simp_all add: colon_def lbracket_def rbracket_def)

definition listen_kernel :: "unit kernel" where
  "listen_kernel = no_kernel\<lparr>k_listen := (\<lambda>w net addr. (Inr (3, addr), w))\<rparr>"

lemma loop_bind_port_witness:
  "\<exists>j. j < 20 \<and> 20000 \<le> loop_port (\<lambda>i n. 0) j \<and> loop_port (\<lambda>i n. 0) j \<le> 29999
     \<and> fst (loop_bind listen_kernel (\<lambda>i n. 0) 0 20 () [])
       = fst (k_listen listen_kernel () ''tcp4'' (join_host_port ''127.0.0.1'' (itoa (int (loop_port (\<lambda>i n. 0) j)))))"
proof -
  let ?b = "loop_bind listen_kernel (\<lambda>i n. 0) 0 (Suc 19) () []"
  have "?b = (Inr (3, join_host_port ''127.0.0.1'' (itoa (int (loop_port (\<lambda>i n. 0) 0)))), ())"
    by (simp only: loop_bind.simps(2)) (simp add: listen_kernel_def)
  from loop_bind_port [OF _ this] this show ?thesis by fastforce
qed

definition proc_kernel :: "unit kernel" where
  "proc_kernel = no_kernel\<lparr>k_readdir := (\<lambda>w d. Inr [''self'', ''12'']),
     k_readfile := (\<lambda>w f. if f = ''/proc/12/cmdline'' then Inr (proc_cmdline [''forever'', ''mark'']) else Inl (NotExist ''ENOENT''))\<rparr>"

lemma cmdPidscan_sees_witness:
  "str_contains (stdout (proc_of (cmdPidscan proc_kernel [''pidscan''] () (new_proc [])))) (''12'' @ '' '' @ ''forever mark'' @ newline)
   \<and> ending_of (cmdPidscan proc_kernel [''pidscan''] () (new_proc [])) = Exit 0"
proof -
  have path: "path_join [''/proc'', ''12'', ''cmdline''] = ''/proc/12/cmdline''" by code_simp
  have "atoi ''12'' \<noteq> None" by code_simp
  then show ?thesis
    using cmdPidscan_sees [of "new_proc []" proc_kernel "()" "[''self'', ''12'']" "''12''" "[''forever'', ''mark'']" "[''pidscan'']"]
      path by (simp add: proc_kernel_def nul_def)
qed

definition idle_machine :: "unit machine" where
  "idle_machine = \<lparr>m_kernel = no_kernel, m_intN = (\<lambda>i n. 0), m_sched = hv_init, m_elapsed = 0\<rparr>"

lemma Main_link_witness:
  "Main idle_machine [''/bin/exit'', ''3''] () (new_proc []) = Main idle_machine [''/bin/testbin'', ''exit'', ''3''] () (new_proc [])"
  using Main_link [of "''exit''" idle_machine "[''3'']" "()" "new_proc []"] by (simp add: testbinCommands_def)

lemma Main_unknown_witness:
  "Main idle_machine [''testbin'', ''sh'', ''-c''] () (new_proc [])
     = ((), eprintln (''testbin: unknown command: '' @ ''sh'') (new_proc []), Exit 127)"
  by (rule Main_unknown) (simp add: testbinCommands_def)

section \<open>The layered tree\<close>

text \<open>A kernel whose root shows a tree, all of whose names are among the ones given.\<close>

definition tree_kernel :: "(string \<Rightarrow> entry option) \<Rightarrow> string list \<Rightarrow> unit kernel" where
  "tree_kernel t names = no_kernel
     \<lparr>k_readfile := (\<lambda>w p. case t (tl p) of Some (Regular d) \<Rightarrow> Inr d | _ \<Rightarrow> Inl (NotExist ''ENOENT'')),
      k_lstat := (\<lambda>w p. if t (tl p) = None then Some (NotExist ''ENOENT'') else None),
      k_readdir := (\<lambda>w d. if t (tl d) = Some Directory
         then Inr (filter (\<lambda>x. plain_elem x \<and> t (tl d @ CHR ''/'' # x) \<noteq> None) names)
         else Inl (NotExist ''ENOENT''))\<rparr>"

lemma tree_kernel_shows: "shows_tree (tree_kernel t names) () t"
  by (simp add: shows_tree_def tree_kernel_def)

lemma visible_overlay: "overlay_laws visible"
  by (simp add: overlay_laws_def)


end
