(* ===== verification/Bootstrap.thy ===== *)
theory Bootstrap
  imports Mounts
begin

text \<open>
  Starting a shim (\<^verbatim>\<open>helpers.go\<close>): decoding what \<^verbatim>\<open>shim start\<close> prints, the arguments and
  environment of the start and delete commands, the defaulted and checked API version, and
  the search for the shim's pid. The wire format's field decoder (protowire) and the JSON
  decoder are parameters.
\<close>

section \<open>The start response\<close>

record params =
  bp_version :: int
  bp_address :: string
  bp_protocol :: string

definition no_params :: params where
  "no_params = \<lparr>bp_version = 0, bp_address = [], bp_protocol = []\<rparr>"

text \<open>
  The three functions of protowire the decoder calls: each gives what it read and how many
  bytes that took, or nothing on a malformed prefix.
\<close>

record wire =
  consume_tag :: "bytes \<Rightarrow> (nat \<times> nat \<times> nat) option"
  consume_varint :: "bytes \<Rightarrow> (nat \<times> nat) option"
  consume_bytes :: "bytes \<Rightarrow> (bytes \<times> nat) option"

definition VarintType :: nat where "VarintType = 0"
definition BytesType :: nat where "BytesType = 2"

text \<open>Go's conversion of a 64-bit unsigned value to \<^verbatim>\<open>int\<close>.\<close>

definition to_int64 :: "nat \<Rightarrow> int" where
  "to_int64 v = (int v + 2 ^ 63) mod 2 ^ 64 - 2 ^ 63"

definition set_varint :: "nat \<Rightarrow> nat \<Rightarrow> params \<Rightarrow> params" where
  "set_varint num v p = (if num = 1 then p\<lparr>bp_version := to_int64 v\<rparr> else p)"

definition set_bytes :: "nat \<Rightarrow> bytes \<Rightarrow> params \<Rightarrow> params" where
  "set_bytes num v p =
     (if num = 2 then p\<lparr>bp_address := v\<rparr> else if num = 3 then p\<lparr>bp_protocol := v\<rparr> else p)"

text \<open>One field: an error, or the rest of the input and the parameters so far.\<close>

definition parse_field :: "wire \<Rightarrow> bytes \<Rightarrow> params \<Rightarrow> (err + bytes) \<times> params" where
  "parse_field wr b p =
     (case consume_tag wr b of
        None \<Rightarrow> (Inl ''invalid protobuf tag'', p)
      | Some (num, wtype, n) \<Rightarrow>
          let b = drop n b in
          if wtype = VarintType then
            (case consume_varint wr b of
               None \<Rightarrow> (Inl ''invalid protobuf varint'', p)
             | Some (v, n) \<Rightarrow> (Inr (drop n b), set_varint num v p))
          else if wtype = BytesType then
            (case consume_bytes wr b of
               None \<Rightarrow> (Inl ''invalid protobuf bytes'', p)
             | Some (v, n) \<Rightarrow> (Inr (drop n b), set_bytes num v p))
          else (Inl (''unexpected protobuf wire type '' @ dec wtype @ '' for field '' @ dec num), p))"

text \<open>The loop over the fields; \<open>None\<close> when it does not end.\<close>

partial_function (option) parse_fields :: "wire \<Rightarrow> bytes \<Rightarrow> params \<Rightarrow> (err option \<times> params) option" where
  "parse_fields wr b p =
     (if b = [] then Some (None, p)
      else case parse_field wr b p of
        (Inl e, p1) \<Rightarrow> Some (Some e, p1)
      | (Inr b1, p1) \<Rightarrow> parse_fields wr b1 p1)"

definition parseBootstrapResult ::
    "wire \<Rightarrow> (bytes \<Rightarrow> params \<Rightarrow> err option \<times> params) \<Rightarrow> bytes \<Rightarrow> params \<Rightarrow> (err option \<times> params) option" where
  "parseBootstrapResult wr json data p =
     (if data \<noteq> [] \<and> hd data = CHR 0x7B then Some (json data p)
      else case parse_fields wr data p of
        None \<Rightarrow> None
      | Some (Some e, p1) \<Rightarrow> Some (Some e, p1)
      | Some (None, p1) \<Rightarrow>
          Some (if bp_address p1 = [] then Some ''no address in bootstrap result'' else None, p1))"

text \<open>protowire never reads an empty prefix, and reads at most what is there.\<close>

definition wire_sizes :: "wire \<Rightarrow> bool" where
  "wire_sizes wr \<longleftrightarrow> (\<forall>b num ty n. consume_tag wr b = Some (num, ty, n) \<longrightarrow> 0 < n \<and> n \<le> length b)"

lemma parse_field_shrinks:
  assumes "wire_sizes wr" and "b \<noteq> []" and "parse_field wr b p = (Inr b1, p1)"
  shows "length b1 < length b"
  using assms(2,3)
  by (auto simp: parse_field_def Let_def dest!: assms(1) [unfolded wire_sizes_def, rule_format]
      split: option.splits if_splits prod.splits)

lemma parse_fields_terminates: "wire_sizes wr \<Longrightarrow> \<exists>r. parse_fields wr b p = Some r"
proof (induction "length b" arbitrary: b p rule: less_induct)
  case less
  show ?case
  proof (cases "b = []")
    case True
    then show ?thesis by (subst parse_fields.simps) simp
  next
    case False
    obtain r p1 where f: "parse_field wr b p = (r, p1)" by (cases "parse_field wr b p")
    then show ?thesis
    proof (cases r)
      case (Inr b1)
      with f False parse_field_shrinks [OF less.prems] have "length b1 < length b" by blast
      from less.hyps [OF this less.prems] f Inr False show ?thesis by (subst parse_fields.simps) simp
    qed (use False in \<open>subst parse_fields.simps; simp\<close>)
  qed
qed

lemma parseBootstrapResult_returns: "wire_sizes wr \<Longrightarrow> \<exists>r. parseBootstrapResult wr json data p = Some r"
  using parse_fields_terminates [of wr data p]
  by (auto simp: parseBootstrapResult_def split: option.splits)

text \<open>A response that is accepted in the binary form has an address.\<close>

lemma parseBootstrapResult_address:
  assumes "parseBootstrapResult wr json data p = Some (None, p1)" and "data = [] \<or> hd data \<noteq> CHR 0x7B"
  shows "bp_address p1 \<noteq> []"
  using assms by (auto simp: parseBootstrapResult_def split: option.splits if_splits)

section \<open>Decoding what was encoded\<close>

datatype field = Varint nat nat | Bytes nat bytes

text \<open>Laws of an encoder for the decoder's format: each decoder reads back its encoder's prefix.\<close>

record wire_enc =
  put_tag :: "nat \<Rightarrow> nat \<Rightarrow> bytes"
  put_varint :: "nat \<Rightarrow> bytes"
  put_bytes :: "bytes \<Rightarrow> bytes"

definition wire_laws :: "wire \<Rightarrow> wire_enc \<Rightarrow> bool" where
  "wire_laws wr en \<longleftrightarrow>
     (\<forall>num ty r. ty < 8 \<longrightarrow> consume_tag wr (put_tag en num ty @ r) = Some (num, ty, length (put_tag en num ty)))
   \<and> (\<forall>v r. consume_varint wr (put_varint en v @ r) = Some (v, length (put_varint en v)))
   \<and> (\<forall>v r. consume_bytes wr (put_bytes en v @ r) = Some (v, length (put_bytes en v)))
   \<and> (\<forall>num ty. put_tag en num ty \<noteq> [])"

lemmas wire_tag = wire_laws_def [THEN iffD1, THEN conjunct1, rule_format]
lemmas wire_varint = wire_laws_def [THEN iffD1, THEN conjunct2, THEN conjunct1, rule_format]
lemmas wire_bytes = wire_laws_def [THEN iffD1, THEN conjunct2, THEN conjunct2, THEN conjunct1, rule_format]
lemmas wire_nonempty = wire_laws_def [THEN iffD1, THEN conjunct2, THEN conjunct2, THEN conjunct2, rule_format]

fun enc_field :: "wire_enc \<Rightarrow> field \<Rightarrow> bytes" where
  "enc_field en (Varint num v) = put_tag en num VarintType @ put_varint en v"
| "enc_field en (Bytes num v) = put_tag en num BytesType @ put_bytes en v"

fun field_params :: "field \<Rightarrow> params \<Rightarrow> params" where
  "field_params (Varint num v) p = set_varint num v p"
| "field_params (Bytes num v) p = set_bytes num v p"

definition encode :: "wire_enc \<Rightarrow> field list \<Rightarrow> bytes" where
  "encode en fs = concat (map (enc_field en) fs)"

lemma parse_field_encoded:
  assumes "wire_laws wr en"
  shows "parse_field wr (enc_field en fl @ r) p = (Inr r, field_params fl p)"
proof (cases fl)
  case (Varint num v)
  then show ?thesis
    using wire_tag [OF assms, of VarintType num "put_varint en v @ r"] wire_varint [OF assms, of v r]
    by (simp add: parse_field_def VarintType_def Let_def)
next
  case (Bytes num v)
  then show ?thesis
    using wire_tag [OF assms, of BytesType num "put_bytes en v @ r"] wire_bytes [OF assms, of v r]
    by (simp add: parse_field_def VarintType_def BytesType_def Let_def)
qed

lemma parse_fields_encoded:
  assumes "wire_laws wr en"
  shows "parse_fields wr (encode en fs) p = Some (None, fold field_params fs p)"
proof (induction fs arbitrary: p)
  case Nil
  then show ?case by (subst parse_fields.simps) (simp add: encode_def)
next
  case (Cons fl fs)
  have ne: "encode en (fl # fs) \<noteq> []"
    using wire_nonempty [OF assms] by (cases fl) (auto simp: encode_def)
  have "parse_field wr (encode en (fl # fs)) p = (Inr (encode en fs), field_params fl p)"
    using parse_field_encoded [OF assms, of fl "encode en fs" p] by (simp add: encode_def)
  with ne Cons show ?case by (subst parse_fields.simps) simp
qed

text \<open>
  Any sequence of fields decodes to their effect in order: unknown fields change nothing and
  of repeated ones the last wins. (The first byte of a binary response is not \<^verbatim>\<open>{\<close>.)
\<close>


lemma to_int64_small: "v < 2 ^ 63 \<Longrightarrow> to_int64 v = int v"
  by (simp add: to_int64_def mod_pos_pos_trivial)

section \<open>A concrete wire format\<close>

text \<open>Base-128 varints, tags and length-prefixed bytes, as the encoding documents them.\<close>

fun uvarint :: "nat \<Rightarrow> bytes" where
  "uvarint v = (if v < 128 then [char_of v] else char_of (v mod 128 + 128) # uvarint (v div 128))"

declare uvarint.simps [simp del]

fun read_uvarint :: "bytes \<Rightarrow> (nat \<times> nat) option" where
  "read_uvarint [] = None"
| "read_uvarint (c # cs) =
     (let n = of_char c in
      if n < 128 then Some (n, 1)
      else map_option (\<lambda>(v, l). (n - 128 + 128 * v, Suc l)) (read_uvarint cs))"

lemma read_uvarint: "read_uvarint (uvarint v @ r) = Some (v, length (uvarint v))"
proof (induction v rule: uvarint.induct)
  case (1 v)
  show ?case
  proof (cases "v < 128")
    case True
    then show ?thesis by (simp add: uvarint.simps [of v] Let_def)
  next
    case False
    have "(of_char (char_of (v mod 128 + 128) :: char) :: nat) = v mod 128 + 128"
      by (simp add: mod_less)
    with 1 False show ?thesis by (simp add: uvarint.simps [of v] Let_def)
  qed
qed

definition proto_wire :: wire where
  "proto_wire =
     \<lparr>consume_tag = (\<lambda>b. map_option (\<lambda>(v, n). (v div 8, v mod 8, n)) (read_uvarint b)),
      consume_varint = read_uvarint,
      consume_bytes = (\<lambda>b. case read_uvarint b of None \<Rightarrow> None
        | Some (l, n) \<Rightarrow> if n + l \<le> length b then Some (take l (drop n b), n + l) else None)\<rparr>"

definition proto_enc :: wire_enc where
  "proto_enc =
     \<lparr>put_tag = (\<lambda>num ty. uvarint (num * 8 + ty mod 8)), put_varint = uvarint,
      put_bytes = (\<lambda>v. uvarint (length v) @ v)\<rparr>"

lemma uvarint_nonempty: "uvarint v \<noteq> []"
  by (simp add: uvarint.simps [of v])

lemma read_uvarint_size: "read_uvarint b = Some (v, n) \<Longrightarrow> 0 < n \<and> n \<le> length b"
proof (induction b arbitrary: v n)
  case (Cons c cs)
  then show ?case by (fastforce simp: Let_def split: if_splits)
qed simp

lemma proto_wire_sizes: "wire_sizes proto_wire"
  using read_uvarint_size by (auto simp: wire_sizes_def proto_wire_def)

lemma proto_laws: "wire_laws proto_wire proto_enc"
  unfolding wire_laws_def
  by (simp add: proto_wire_def proto_enc_def uvarint_nonempty)
     (simp add: read_uvarint [of _ "_ @ _", simplified] read_uvarint)

section \<open>Starting and deleting a shim\<close>

text \<open>The configuration of a test run (\<^verbatim>\<open>config.go\<close>); the environment in the order Go iterates.\<close>

record config =
  shimBinary :: string
  formatMounts :: bool
  cfg_env :: "(string \<times> string) list"
  cfg_debug :: bool
  provideNetwork :: bool

text \<open>A command the harness runs, and what running it gives.\<close>

record shim_cmd =
  cmd_path :: string
  cmd_args :: "string list"
  cmd_dir :: string
  cmd_stdin :: bytes
  cmd_env :: "string list"

record boot_request =
  br_id :: string
  br_ns :: string
  br_address :: string
  br_socketDir :: string
  br_debug :: bool

definition shimArgs :: "string \<Rightarrow> string \<Rightarrow> string \<Rightarrow> bool \<Rightarrow> string list" where
  "shimArgs ns cid containerdAddr debug =
     [''-namespace'', ns, ''-id'', cid, ''-address'', containerdAddr]
     @ (if debug then [''-debug''] else []) @ [''start'']"

definition deleteArgs :: "string \<Rightarrow> string \<Rightarrow> string \<Rightarrow> string \<Rightarrow> bool \<Rightarrow> string list" where
  "deleteArgs ns cid bundleDir containerdAddr debug =
     [''-namespace'', ns, ''-id'', cid, ''-bundle'', bundleDir, ''-address'', containerdAddr]
     @ (if debug then [''-debug''] else []) @ [''delete'']"

definition startEnv :: "string list \<Rightarrow> string \<Rightarrow> string \<Rightarrow> config \<Rightarrow> string list" where
  "startEnv environ socketDir containerdAddr cfg =
     environ @ [''GOMAXPROCS=2'', ''SHIM_SOCKET_DIR='' @ socketDir, ''TTRPC_ADDRESS='' @ containerdAddr]
     @ map (\<lambda>(k, v). k @ ''='' @ v) (cfg_env cfg)"

text \<open>The checks on a decoded response: address, default version, supported version.\<close>

definition check_params :: "params \<Rightarrow> params result" where
  "check_params p =
     (if bp_address p = [] then Inl ''shim returned empty address''
      else let p1 = (if bp_version p = 0 then p\<lparr>bp_version := 2\<rparr> else p)
        in if bp_version p1 \<noteq> 2 \<and> bp_version p1 \<noteq> 3
           then Inl (''unsupported shim task API version '' @ itoa (bp_version p1)) else Inr p1)"

text \<open>
  Cleanups run last in, first out. \<open>DumpLogs\<close> is only registered for tests, and prints
  the buffered log when the test failed; \<open>CloseLog\<close> closes the log reader and waits for its
  goroutine.
\<close>

datatype cleanup = RemoveSocketDir string | DumpLogs | CloseLog | DeleteShim

definition start_cleanups :: "bool \<Rightarrow> string \<Rightarrow> cleanup list" where
  "start_cleanups isBench socketDir =
     RemoveSocketDir socketDir # (if isBench then [] else [DumpLogs]) @ [CloseLog, DeleteShim]"

definition run_order :: "cleanup list \<Rightarrow> cleanup list" where
  "run_order cs = rev cs"

text \<open>
  What startShim needs of the machine: the temporary socket directory, the log pipe, the
  marshalled request, and the outcome of the command (an error with the standard error, or the
  standard output).
\<close>

record 'f starter =
  s_mkdirtemp :: "'f \<Rightarrow> string \<Rightarrow> string result \<times> 'f"
  s_mkfifo :: "string \<Rightarrow> 'f \<Rightarrow> err option \<times> 'f"
  s_openfifo :: "string \<Rightarrow> 'f \<Rightarrow> err option \<times> 'f"
  s_marshal :: "boot_request \<Rightarrow> bytes result"
  s_run :: "shim_cmd \<Rightarrow> 'f \<Rightarrow> ((err \<times> bytes) + bytes) \<times> 'f"
  s_environ :: "'f \<Rightarrow> string list"
  s_wire :: wire
  s_json :: "bytes \<Rightarrow> params \<Rightarrow> err option \<times> params"

definition setupLogPipe :: "'f starter \<Rightarrow> string \<Rightarrow> 'f \<Rightarrow> err option \<times> 'f" where
  "setupLogPipe st bundleDir f =
     (let logPath = path_join [bundleDir, ''log''] in
      case s_mkfifo st logPath f of
        (Some e, f1) \<Rightarrow> (Some (''failed to create log fifo: '' @ e), f1)
      | (None, f1) \<Rightarrow>
         (case s_openfifo st logPath f1 of
            (Some e, f2) \<Rightarrow> (Some (''failed to open log fifo: '' @ e), f2)
          | (None, f2) \<Rightarrow> (None, f2)))"

definition start_cmd ::
    "string \<Rightarrow> string \<Rightarrow> string \<Rightarrow> string \<Rightarrow> string \<Rightarrow> string \<Rightarrow> bytes \<Rightarrow> string list \<Rightarrow> config \<Rightarrow> shim_cmd" where
  "start_cmd shimBin bundleDir cid ns addr socketDir bootData environ cfg =
     \<lparr>cmd_path = shimBin, cmd_args = shimArgs ns cid addr (cfg_debug cfg), cmd_dir = bundleDir,
      cmd_stdin = bootData, cmd_env = startEnv environ socketDir addr cfg\<rparr>"

definition startShim ::
    "'f starter \<Rightarrow> string \<Rightarrow> string \<Rightarrow> string \<Rightarrow> string \<Rightarrow> string \<Rightarrow> string \<Rightarrow> config \<Rightarrow> 'f
      \<Rightarrow> params result option \<times> 'f" where
  "startShim st safeDir containerdAddr shimBin bundleDir cid ns cfg f =
     (case s_mkdirtemp st f safeDir of
        (Inl e, f1) \<Rightarrow> (Some (Inl (''failed to create socket dir: '' @ e)), f1)
      | (Inr socketDir, f0) \<Rightarrow>
         (case setupLogPipe st bundleDir f0 of
            (Some e, f1) \<Rightarrow> (Some (Inl e), f1)
          | (None, f1) \<Rightarrow>
             (case s_marshal st \<lparr>br_id = cid, br_ns = ns, br_address = containerdAddr,
                     br_socketDir = socketDir, br_debug = cfg_debug cfg\<rparr> of
                Inl e \<Rightarrow> (Some (Inl (''marshal bootstrap params: '' @ e)), f1)
              | Inr bootData \<Rightarrow>
                 (case s_run st (start_cmd shimBin bundleDir cid ns containerdAddr socketDir bootData
                         (s_environ st f1) cfg) f1 of
                    (Inl (e, errOut), f2) \<Rightarrow>
                      (Some (Inl (''shim start failed: '' @ e @ newline @ ''stderr: '' @ errOut)), f2)
                  | (Inr out, f2) \<Rightarrow>
                     (case parseBootstrapResult (s_wire st) (s_json st) out no_params of
                        None \<Rightarrow> (None, f2)
                      | Some (Some e, p) \<Rightarrow>
                          (Some (Inl (''failed to parse bootstrap params: '' @ e @ newline @ ''raw stdout: '' @ out)), f2)
                      | Some (None, p) \<Rightarrow> (Some (check_params p), f2))))))"

definition delete_cmd :: "string \<Rightarrow> string \<Rightarrow> string \<Rightarrow> string \<Rightarrow> string \<Rightarrow> string list \<Rightarrow> config \<Rightarrow> shim_cmd" where
  "delete_cmd shimBin bundleDir cid ns addr environ cfg =
     \<lparr>cmd_path = shimBin, cmd_args = deleteArgs ns cid bundleDir addr (cfg_debug cfg), cmd_dir = bundleDir,
      cmd_stdin = [], cmd_env = environ @ [''TTRPC_ADDRESS='' @ addr]\<rparr>"

text \<open>A failing delete is logged, not reported as a failure.\<close>

definition deleteShim ::
    "'f starter \<Rightarrow> string \<Rightarrow> string \<Rightarrow> string \<Rightarrow> string \<Rightarrow> string \<Rightarrow> config \<Rightarrow> 'f \<Rightarrow> string list \<times> 'f" where
  "deleteShim st addr shimBin bundleDir cid ns cfg f =
     (case s_run st (delete_cmd shimBin bundleDir cid ns addr (s_environ st f) cfg) f of
        (Inl (e, errOut), f1) \<Rightarrow> ([''shim delete failed: '' @ e @ '': '' @ trim_space errOut], f1)
      | (Inr out, f1) \<Rightarrow> ([], f1))"

lemma check_params_ok:
  "check_params p = Inr q \<Longrightarrow>
     bp_address q = bp_address p \<and> bp_address q \<noteq> [] \<and> bp_version q \<in> {2, 3}
   \<and> (bp_version p = 0 \<longrightarrow> bp_version q = 2) \<and> (bp_version p \<noteq> 0 \<longrightarrow> bp_version q = bp_version p)"
  by (auto simp: check_params_def Let_def split: if_splits)


text \<open>
  C7. The decoding loop of startShim ends on every output of the shim, so startShim always
  returns: with parameters or with a fatal error.
\<close>

theorem startShim_terminates:
  "wire_sizes (s_wire st) \<Longrightarrow> fst (startShim st safeDir addr shimBin bundleDir cid ns cfg f) \<noteq> None"
  using parseBootstrapResult_returns [of "s_wire st"]
  by (auto simp: startShim_def split: prod.split sum.split option.split) (metis option.distinct(1))

text \<open>The log is dumped only after its reader is closed, and the shim is deleted first of all.\<close>

lemma cleanup_order:
  "run_order (start_cleanups False d) = [DeleteShim, CloseLog, DumpLogs, RemoveSocketDir d]
   \<and> run_order (start_cleanups True d) = [DeleteShim, CloseLog, RemoveSocketDir d]"
  by (simp_all add: run_order_def start_cleanups_def)

text \<open>The last setting of a variable wins in an environment, so \<open>cfg.Env\<close> overrides the rest.\<close>

definition env_value :: "string list \<Rightarrow> string \<Rightarrow> string option" where
  "env_value env k =
     map_option (drop (length k + 1)) (find (\<lambda>e. has_prefix e (k @ ''='')) (rev env))"

lemma startEnv_override:
  assumes "cfg_env cfg = es @ [(k, v)]"
  shows "env_value (startEnv environ d a cfg) k = Some v"
  using assms by (simp add: env_value_def startEnv_def has_prefix_def)

section \<open>Looking for the shim's pid\<close>

datatype attempt = DialErr err | CallErr err | Pid nat

text \<open>
  Attempt \<open>i\<close> and whether the deadline has passed after it are the machine's; the loop
  returns the first pid that is not zero, or the last error once the deadline has passed.
\<close>

partial_function (option) pid_loop ::
    "(nat \<Rightarrow> attempt) \<Rightarrow> (nat \<Rightarrow> bool) \<Rightarrow> nat \<Rightarrow> err option \<Rightarrow> (nat result) option" where
  "pid_loop att late i lastErr =
     (case att i of
        Pid pid \<Rightarrow>
          if pid \<noteq> 0 then Some (Inr pid)
          else if late i then Some (Inl ''connect returned ShimPid=0'')
          else pid_loop att late (Suc i) (Some ''connect returned ShimPid=0'')
      | DialErr e \<Rightarrow>
          if late i then Some (Inl (''dial: '' @ e)) else pid_loop att late (Suc i) (Some (''dial: '' @ e))
      | CallErr e \<Rightarrow>
          if late i then Some (Inl (''connect RPC: '' @ e))
          else pid_loop att late (Suc i) (Some (''connect RPC: '' @ e)))"

definition shimPidViaConnect :: "(nat \<Rightarrow> attempt) \<Rightarrow> (nat \<Rightarrow> bool) \<Rightarrow> (nat result) option" where
  "shimPidViaConnect att late = pid_loop att late 0 None"

fun attempt_pid :: "attempt \<Rightarrow> nat option" where
  "attempt_pid (Pid n) = (if n = 0 then None else Some n)"
| "attempt_pid a = None"

text \<open>If the deadline ever passes the loop returns, and a pid is the first one seen.\<close>

lemma pid_loop_returns:
  assumes "late (i + n)"
  shows "\<exists>r. pid_loop att late i e = Some r"
  using assms
proof (induction n arbitrary: i e)
  case 0
  then show ?case by (subst pid_loop.simps) (simp split: attempt.split)
next
  case (Suc n)
  then have "\<exists>r. pid_loop att late (Suc i) e' = Some r" for e' by simp
  then show ?case by (subst pid_loop.simps) (simp split: attempt.split)
qed

theorem pid_loop_first:
  assumes "\<forall>j < n. attempt_pid (att (i + j)) = None \<and> \<not> late (i + j)" and "attempt_pid (att (i + n)) = Some pid"
  shows "pid_loop att late i e = Some (Inr pid)"
  using assms
proof (induction n arbitrary: i e)
  case 0
  then show ?case by (subst pid_loop.simps) (auto split: attempt.split if_splits elim: attempt_pid.elims)
next
  case (Suc n)
  from Suc.prems(1) have now: "attempt_pid (att i) = None" "\<not> late i" by (metis add_0_right zero_less_Suc)+
  have next_ok: "\<forall>j < n. attempt_pid (att (Suc i + j)) = None \<and> \<not> late (Suc i + j)"
    "attempt_pid (att (Suc i + n)) = Some pid"
    using Suc.prems by (auto simp flip: add_Suc_right)
  note IH = Suc.IH [OF next_ok]
  show ?case
    using now IH by (subst pid_loop.simps) (cases "att i", auto split: if_splits)
qed

section \<open>Names\<close>

definition shimtestNamespace :: string where "shimtestNamespace = ''shimtest''"

definition uniqueTestNamespace :: "bool \<Rightarrow> string \<Rightarrow> string \<Rightarrow> string" where
  "uniqueTestNamespace isBench suite sfx =
     (if isBench then shimtestNamespace
      else if suite \<noteq> [] then shimtestNamespace @ ''-'' @ suite @ ''-'' @ sfx
      else shimtestNamespace @ ''-'' @ sfx)"

text \<open>\<^verbatim>\<open>strings.ToLower\<close> on ASCII text.\<close>

definition lower_char :: "char \<Rightarrow> char" where
  "lower_char c = (let n = (of_char c :: nat) in if 65 \<le> n \<and> n \<le> 90 then char_of (n + 32) else c)"

definition containerID :: "string \<Rightarrow> string \<Rightarrow> string" where
  "containerID testName sfx =
     map lower_char (take 60 (map (\<lambda>c. if c = CHR ''/'' \<or> c = CHR '' '' then CHR ''-'' else c) testName))
       @ ''-'' @ sfx"

lemma of_char_lower:
  "(of_char (lower_char c) :: nat) = (let n = of_char c in if 65 \<le> n \<and> n \<le> 90 then n + 32 else n)"
  by (simp add: lower_char_def Let_def)

lemma lower_char_slash: "CHR ''/'' = lower_char c \<Longrightarrow> c = CHR ''/''"
proof -
  assume "CHR ''/'' = lower_char c"
  then have "(of_char (lower_char c) :: nat) = 47" by (simp flip: \<open>CHR ''/'' = lower_char c\<close>)
  then have "(of_char c :: nat) = of_char CHR ''/''" by (auto simp: of_char_lower Let_def split: if_splits)
  then show ?thesis by (simp only: of_char_eq_iff)
qed

text \<open>A container id is one path component, of bounded length.\<close>

theorem containerID_component:
  assumes "CHR ''/'' \<notin> set sfx" and "sfx \<noteq> []"
  shows "plain_elem (containerID name sfx) \<and> length (containerID name sfx) \<le> 61 + length sfx"
proof (intro conjI)
  show "length (containerID name sfx) \<le> 61 + length sfx" by (simp add: containerID_def)
  have "CHR ''/'' \<notin> set (containerID name sfx)"
    using assms(1) by (auto simp: containerID_def dest!: in_set_takeD lower_char_slash split: if_splits)
  moreover have "CHR ''-'' \<in> set (containerID name sfx)" by (simp add: containerID_def)
  ultimately show "plain_elem (containerID name sfx)" by (auto simp: plain_elem_def)
qed

text \<open>Distinct suffixes of one length give distinct namespaces and ids.\<close>

lemma uniqueTestNamespace_inj:
  assumes "length s = length t" and "uniqueTestNamespace False a s = uniqueTestNamespace False b t"
  shows "s = t"
proof -
  have "\<exists>x. uniqueTestNamespace False a s = x @ s" "\<exists>x. uniqueTestNamespace False b t = x @ t"
    by (auto simp: uniqueTestNamespace_def)
  with assms show ?thesis by (metis append_eq_append_conv)
qed

end
