(* ===== verification/Procs.thy ===== *)
theory Procs
  imports Bootstrap
begin

text \<open>
  Watching shim processes (\<^verbatim>\<open>proc_linux.go\<close>, and the leak check of \<^verbatim>\<open>helpers.go\<close>), and
  the socket paths a shim and its event publisher use (\<^verbatim>\<open>helpers.go\<close>,
  \<^verbatim>\<open>connect_unix.go\<close>). A Go map of pids is the list of its keys in iteration order; a nil
  map has none.
\<close>

section \<open>/proc\<close>

record procfs =
  p_readfile :: "string \<Rightarrow> bytes result"
  p_readlink :: "string \<Rightarrow> string result"
  p_readdir :: "string list result"
  p_evalSymlinks :: "string \<Rightarrow> string result"

definition proc_path :: "int \<Rightarrow> string \<Rightarrow> string" where
  "proc_path pid leaf = ''/proc/'' @ itoa pid @ CHR ''/'' # leaf"

text \<open>Go's 64-bit \<^verbatim>\<open>int\<close> arithmetic wraps.\<close>

definition wrap64 :: "int \<Rightarrow> int" where
  "wrap64 i = (i + 2 ^ 63) mod 2 ^ 64 - 2 ^ 63"

lemma wrap64_id: "in_int64 i \<Longrightarrow> wrap64 i = i"
  by (simp add: wrap64_def in_int64_def mod_pos_pos_trivial)

fun rss_lines :: "int \<Rightarrow> string list \<Rightarrow> int result" where
  "rss_lines pid [] = Inl (''VmRSS not found in '' @ proc_path pid ''status'')"
| "rss_lines pid (line # lines) =
     (if \<not> has_prefix line ''VmRSS:'' then rss_lines pid lines
      else let fields = str_fields line in
        if length fields < 2 then Inl (''VmRSS not found in '' @ proc_path pid ''status'')
        else case atoi (fields ! 1) of
          None \<Rightarrow> Inl (num_error ''ParseInt'' (fields ! 1))
        | Some kb \<Rightarrow> Inr (wrap64 (kb * 1024)))"

definition readRSS :: "procfs \<Rightarrow> int \<Rightarrow> int result" where
  "readRSS fs pid =
     (case p_readfile fs (proc_path pid ''status'') of
        Inl e \<Rightarrow> Inl e
      | Inr data \<Rightarrow> rss_lines pid (split_on CHR 0x0A data))"

text \<open>The flags' values: each adjacent pair of arguments is looked at, a later one wins.\<close>

fun scan_flags :: "string list \<Rightarrow> string \<Rightarrow> string \<Rightarrow> string \<times> string" where
  "scan_flags (a # b # args) ns cid =
     scan_flags (b # args) (if a = ''-namespace'' then b else ns)
       (if a \<noteq> ''-namespace'' \<and> a = ''-id'' then b else cid)"
| "scan_flags args ns cid = (ns, cid)"

definition shimCmdlineInfo :: "procfs \<Rightarrow> int \<Rightarrow> string" where
  "shimCmdlineInfo fs pid =
     (case p_readfile fs (proc_path pid ''cmdline'') of
        Inl e \<Rightarrow> []
      | Inr data \<Rightarrow>
          (case scan_flags (split_on nul (trim_right_by (\<lambda>c. c = nul) data)) [] [] of
             (ns, cid) \<Rightarrow>
               if ns = [] \<and> cid = [] then [] else ''namespace='' @ ns @ '' id='' @ cid))"

fun live_pids :: "procfs \<Rightarrow> string \<Rightarrow> string list \<Rightarrow> int list" where
  "live_pids fs target [] = []"
| "live_pids fs target (name # names) =
     (case atoi name of
        None \<Rightarrow> live_pids fs target names
      | Some pid \<Rightarrow>
         (case p_readlink fs (proc_path pid ''exe'') of
            Inl e \<Rightarrow> live_pids fs target names
          | Inr exe \<Rightarrow> if exe = target then List.insert pid (live_pids fs target names)
                      else live_pids fs target names))"

definition shimPIDs :: "procfs \<Rightarrow> string \<Rightarrow> int list" where
  "shimPIDs fs binary =
     (case p_evalSymlinks fs binary of
        Inl e \<Rightarrow> []
      | Inr target \<Rightarrow>
         (case p_readdir fs of
            Inl e \<Rightarrow> []
          | Inr entries \<Rightarrow> live_pids fs target entries))"

section \<open>The leak check\<close>

definition pidDiff :: "int list \<Rightarrow> int list \<Rightarrow> int list" where
  "pidDiff before now = filter (\<lambda>pid. pid \<notin> set before) now"

definition leak_message :: "procfs \<Rightarrow> int \<Rightarrow> string" where
  "leak_message fs pid =
     (let info = shimCmdlineInfo fs pid
      in if info \<noteq> [] then ''leaked shim process: PID '' @ itoa pid @ '' ('' @ info @ '')''
         else ''leaked shim process: PID '' @ itoa pid)"

text \<open>The errors reported at cleanup, from the snapshots at registration and at cleanup.\<close>

definition registerShimLeakCheck :: "procfs \<Rightarrow> procfs \<Rightarrow> string \<Rightarrow> string list" where
  "registerShimLeakCheck before now shimBin =
     map (leak_message now) (pidDiff (shimPIDs before shimBin) (shimPIDs now shimBin))"

lemma live_pids_iff:
  "pid \<in> set (live_pids fs target names) \<longleftrightarrow>
     (\<exists>name \<in> set names. atoi name = Some pid \<and> p_readlink fs (proc_path pid ''exe'') = Inr target)"
  by (induction fs target names rule: live_pids.induct) (auto split: option.split sum.split)

lemma live_pids_distinct: "distinct (live_pids fs target names)"
  by (induction fs target names rule: live_pids.induct) (auto split: option.split sum.split)

definition runs_shim :: "procfs \<Rightarrow> string \<Rightarrow> int \<Rightarrow> bool" where
  "runs_shim fs target pid \<longleftrightarrow>
     (\<exists>names name. p_readdir fs = Inr names \<and> name \<in> set names \<and> atoi name = Some pid
        \<and> p_readlink fs (proc_path pid ''exe'') = Inr target)"

lemma shimPIDs_iff:
  "p_evalSymlinks fs binary = Inr target \<Longrightarrow> pid \<in> set (shimPIDs fs binary) \<longleftrightarrow> runs_shim fs target pid"
  by (cases "p_readdir fs") (auto simp: shimPIDs_def runs_shim_def live_pids_iff)

text \<open>With both snapshots taken, exactly the processes that appeared are reported.\<close>


lemma leak_check_clean:
  assumes "p_evalSymlinks b bin = Inr target" and "p_evalSymlinks a bin = Inr target"
  shows "registerShimLeakCheck b a bin = [] \<longleftrightarrow> (\<forall>pid. runs_shim a target pid \<longrightarrow> runs_shim b target pid)"
  using shimPIDs_iff [OF assms(1)] shimPIDs_iff [OF assms(2)]
  by (auto simp: registerShimLeakCheck_def pidDiff_def filter_empty_conv)

text \<open>A binary name the symlink evaluation rejects disables the check altogether.\<close>

lemma leak_check_disabled:
  "p_evalSymlinks a bin = Inl e \<Longrightarrow> registerShimLeakCheck b a bin = []"
  by (simp add: registerShimLeakCheck_def pidDiff_def shimPIDs_def)

text \<open>An error in the first snapshot only is not silent: every running shim is a leak then.\<close>

lemma leak_check_first_failed:
  assumes "p_readdir b = Inl e" and "p_evalSymlinks a bin = Inr target"
  shows "set (registerShimLeakCheck b a bin) = leak_message a ` {pid. runs_shim a target pid}"
proof -
  have "shimPIDs b bin = []" using assms(1) by (simp add: shimPIDs_def split: sum.split)
  with shimPIDs_iff [OF assms(2)] show ?thesis by (auto simp: registerShimLeakCheck_def pidDiff_def)
qed

section \<open>Attribution of a leaked shim\<close>

definition flag_free :: "string \<Rightarrow> bool" where
  "flag_free s \<longleftrightarrow> s \<noteq> [] \<and> s \<notin> {''-namespace'', ''-id''} \<and> nul \<notin> set s"

text \<open>The command line startShim gives a shim is read back as its namespace and id.\<close>

text \<open>
  C28. The command line that startShim gives a shim, as the kernel shows it in /proc, is
  read back by shimCmdlineInfo as the namespace and id it was started with.
\<close>

theorem shimCmdlineInfo_started:
  assumes "flag_free path" "flag_free ns" "flag_free cid" "flag_free addr"
    and "p_readfile fs (proc_path pid ''cmdline'') = Inr (proc_cmdline (path # shimArgs ns cid addr debug))"
  shows "shimCmdlineInfo fs pid = ''namespace='' @ ns @ '' id='' @ cid"
proof -
  let ?argv = "path # shimArgs ns cid addr debug"
  have nn: "\<forall>a \<in> set ?argv. nul \<notin> set a" using assms(1-4) by (auto simp: shimArgs_def flag_free_def nul_def)
  have l: "last ?argv \<noteq> []" "?argv \<noteq> []" by (simp_all add: shimArgs_def)
  have "last (join [nul] ?argv) = last (last ?argv)" "join [nul] ?argv \<noteq> []"
    using last_join [OF l(2,1)] by blast+
  moreover have "last (last ?argv) \<noteq> nul" using nn l by (metis last_in_set)
  ultimately have "trim_right_by (\<lambda>c. c = nul) (proc_cmdline ?argv) = join [nul] ?argv"
    using proc_cmdline_join [OF l(2)] by (simp add: trim_right_by_snoc trim_right_by_none)
  then have "split_on nul (trim_right_by (\<lambda>c. c = nul) (proc_cmdline ?argv)) = ?argv"
    using split_join [OF l(2) nn] by simp
  moreover have "scan_flags ?argv [] [] = (ns, cid)"
    using assms(1-4) by (simp add: shimArgs_def flag_free_def)
  ultimately show ?thesis using assms(3,5) by (simp add: shimCmdlineInfo_def flag_free_def)
qed

section \<open>Memory of a process\<close>

lemma readRSS_reads:
  assumes "p_readfile fs (proc_path pid ''status'') = Inr data"
    and "split_on CHR 0x0A data = pre @ line # post" and "\<forall>l \<in> set pre. \<not> has_prefix l ''VmRSS:''"
    and "has_prefix line ''VmRSS:''" and "str_fields line = w # dec kb # fs1" and "int kb * 1024 < 2 ^ 63"
  shows "readRSS fs pid = Inr (int kb * 1024)"
proof -
  have "rss_lines pid (pre @ line # post) = rss_lines pid (line # post)"
    using assms(3) by (induction pre) auto
  moreover have "int kb < 2 ^ 63" using assms(6) by linarith
  then have "rss_lines pid (line # post) = Inr (int kb * 1024)"
    using assms(4-6) by (simp add: atoi_dec wrap64_id in_int64_def Let_def)
  ultimately show ?thesis using assms(1,2) by (simp add: readRSS_def)
qed

section \<open>Decimal bytes\<close>

fun int_bytes :: "int \<Rightarrow> string \<Rightarrow> int" where
  "int_bytes n [] = n"
| "int_bytes n (c # cs) = (if \<not> is_digit c then 0 else int_bytes (wrap64 (n * 10 + int (digit_val c))) cs)"

text \<open>Malformed input is 0 with no error.\<close>

definition parseIntBytes :: "bytes \<Rightarrow> int \<times> err option" where
  "parseIntBytes b = (int_bytes 0 (trim_space b), None)"

lemma int_bytes_dec_val:
  "dec_val a s = Some v \<Longrightarrow> int v < 2 ^ 63 \<Longrightarrow> int_bytes (int a) s = int v"
proof (induction s arbitrary: a)
  case (Cons c cs)
  have mono: "dec_val x t = Some y \<Longrightarrow> x \<le> y" for x t y
  proof (induction t arbitrary: x)
    case (Cons d ds)
    then show ?case by (fastforce split: if_splits dest: le_trans [rotated])
  qed simp
  from Cons.prems have c: "is_digit c" "dec_val (a * 10 + digit_val c) cs = Some v" by (auto split: if_splits)
  then have "a * 10 + digit_val c \<le> v" by (rule_tac mono)
  then have "in_int64 (int a * 10 + int (digit_val c))" using Cons.prems(2) by (simp add: in_int64_def)
  with Cons.IH [OF c(2) Cons.prems(2)] c(1) show ?case by (simp add: wrap64_id)
qed simp

lemma parseIntBytes_dec: "int n < 2 ^ 63 \<Longrightarrow> parseIntBytes (dec n) = (int n, None)"
  using int_bytes_dec_val [of 0 "dec n" n] dec_digits digit_not_space
  by (simp add: parseIntBytes_def trim_space_plain)

section \<open>Socket paths\<close>

definition maxBaseLen :: nat where
  "maxBaseLen = 104 - 64 - 14"

definition unixSafeDir :: "string \<Rightarrow> string" where
  "unixSafeDir tempDir = (if maxBaseLen < length tempDir then ''/tmp'' else tempDir)"

text \<open>\<^verbatim>\<open>os.MkdirTemp(base, "nb-")\<close> with a random number, and the shim's socket in it.\<close>

definition socket_path :: "string \<Rightarrow> string \<Rightarrow> string \<Rightarrow> string" where
  "socket_path base random name = base @ ''/nb-'' @ random @ CHR ''/'' # name"

text \<open>The bound the directory is chosen for is 104; with the separator the path can be 105 long.\<close>

lemma unixSafeDir_bound:
  assumes "length random \<le> 10" and "length name = 64"
  shows "length (socket_path (unixSafeDir tempDir) random name) \<le> 105"
  using assms by (simp add: socket_path_def unixSafeDir_def maxBaseLen_def)

lemma unixSafeDir_exceeds:
  assumes "length tempDir = 26" and "length random = 10" and "length name = 64"
  shows "length (socket_path (unixSafeDir tempDir) random name) = 105"
  using assms by (simp add: socket_path_def unixSafeDir_def maxBaseLen_def)

text \<open>The cache of short socket paths, per bundle directory.\<close>

type_synonym sock_cache = "string \<Rightarrow> string option"

definition containerdSockPath ::
    "('f \<Rightarrow> string result \<times> 'f) \<Rightarrow> string \<Rightarrow> sock_cache \<Rightarrow> 'f \<Rightarrow> (string result \<times> sock_cache) \<times> 'f" where
  "containerdSockPath mkdirTemp bundleDir cache f =
     (let candidate = path_join [bundleDir, ''c.sock''] in
      if length candidate < 104 then ((Inr candidate, cache), f)
      else case cache bundleDir of
        Some p \<Rightarrow> ((Inr p, cache), f)
      | None \<Rightarrow>
         (case mkdirTemp f of
            (Inl e, f1) \<Rightarrow> ((Inl (''create short socket dir: '' @ e), cache), f1)
          | (Inr dir, f1) \<Rightarrow>
              let p = path_join [dir, ''c.sock''] in ((Inr p, cache(bundleDir \<mapsto> p)), f1)))"

text \<open>Once a path is given for a bundle, every later call gives it again and changes nothing.\<close>

lemma containerdSockPath_stable:
  assumes "containerdSockPath mk bundle c f = ((Inr p, c1), f1)"
  shows "containerdSockPath mk bundle c1 f2 = ((Inr p, c1), f2)"
  using assms by (auto simp: containerdSockPath_def Let_def split: if_splits option.splits prod.splits sum.splits)

text \<open>And other bundles' paths are not disturbed.\<close>

lemma containerdSockPath_frame:
  assumes "containerdSockPath mk bundle c f = ((r, c1), f1)" and "b \<noteq> bundle"
  shows "c1 b = c b"
  using assms by (auto simp: containerdSockPath_def Let_def split: if_splits option.splits prod.splits sum.splits)

text \<open>\<^verbatim>\<open>dialShimConn\<close>, \<^verbatim>\<open>connectShim\<close>: the address without its scheme.\<close>

definition shim_socket :: "string \<Rightarrow> string" where
  "shim_socket address = trim_prefix address ''unix://''"

definition connectShim :: "('f \<Rightarrow> string \<Rightarrow> nat result \<times> 'f) \<Rightarrow> string \<Rightarrow> 'f \<Rightarrow> nat result \<times> 'f" where
  "connectShim dial address f =
     (case dial f (shim_socket address) of
        (Inl e, f1) \<Rightarrow> (Inl (''failed to connect to shim at '' @ shim_socket address @ '': '' @ e), f1)
      | (Inr conn, f1) \<Rightarrow> (Inr conn, f1))"

end
