(* ===== verification/Events.thy ===== *)
theory Events
  imports Procs
begin

text \<open>
  The events recorder (\<^verbatim>\<open>events.go\<close>) and the order check of the run suite's event test
  (\<^verbatim>\<open>run_suite.go\<close>, testEvents). Publishers call Forward concurrently; each call appends
  under the recorder's lock, so a step of the recorder is one append. A nil envelope, which
  the protocol allows, is kept as \<open>None\<close>: reading its topic panics.
\<close>

section \<open>The recorder\<close>

record envelope =
  env_topic :: string
  env_namespace :: string
  env_event :: bytes

type_synonym log = "envelope option list"

definition Forward :: "envelope option \<Rightarrow> log \<Rightarrow> log" where
  "Forward e l = l @ [e]"

fun topics :: "log \<Rightarrow> string list result" where
  "topics [] = Inr []"
| "topics (None # l) = Inl nil_deref"
| "topics (Some e # l) = (case topics l of Inl x \<Rightarrow> Inl x | Inr ts \<Rightarrow> Inr (env_topic e # ts))"

text \<open>One scan of the log: the first envelope of the topic.\<close>

fun first_topic :: "string \<Rightarrow> log \<Rightarrow> envelope option result" where
  "first_topic t [] = Inr None"
| "first_topic t (None # l) = Inl nil_deref"
| "first_topic t (Some e # l) = (if env_topic e = t then Inr (Some e) else first_topic t l)"

text \<open>
  The polls of waitForTopic see the log at successive times; \<open>late i\<close> says that the deadline
  has passed after poll \<open>i\<close>.
\<close>

partial_function (option) wait_from ::
    "(nat \<Rightarrow> log) \<Rightarrow> (nat \<Rightarrow> bool) \<Rightarrow> string \<Rightarrow> nat \<Rightarrow> envelope option result option" where
  "wait_from polls late topic i =
     (case first_topic topic (polls i) of
        Inl panic \<Rightarrow> Some (Inl panic)
      | Inr (Some e) \<Rightarrow> Some (Inr (Some e))
      | Inr None \<Rightarrow> if late i then Some (Inr None) else wait_from polls late topic (Suc i))"

definition waitForTopic :: "(nat \<Rightarrow> log) \<Rightarrow> (nat \<Rightarrow> bool) \<Rightarrow> string \<Rightarrow> envelope option result option" where
  "waitForTopic polls late topic = wait_from polls late topic 0"

section \<open>The log only grows\<close>

inductive recorder_step :: "log \<Rightarrow> log \<Rightarrow> bool" where
  "recorder_step l (Forward e l)"

inductive_simps recorder_step_iff: "recorder_step l m"

interpretation recorder: step_invariant recorder_step "prefix l" for l
  by unfold_locales (auto simp: recorder_step_iff Forward_def intro: prefix_prefix)

lemma recorder_grows: "recorder_step\<^sup>*\<^sup>* l m \<Longrightarrow> prefix l m"
  by (rule recorder.run_preserves) auto

lemma prefix_recorded: "prefix l m \<Longrightarrow> recorder_step\<^sup>*\<^sup>* l m"
proof (induction m rule: rev_induct)
  case (snoc e m)
  show ?case
  proof (cases "l = m @ [e]")
    case False
    with snoc have "recorder_step\<^sup>*\<^sup>* l m" by simp
    moreover have "recorder_step m (m @ [e])" by (auto simp: recorder_step_iff Forward_def)
    ultimately show ?thesis by simp
  qed simp
qed simp

lemma topics_ok: "None \<notin> set l \<Longrightarrow> topics l = Inr (map (env_topic \<circ> the) l)"
  by (induction l rule: topics.induct) auto

lemma topics_of: "topics l = Inr ts \<Longrightarrow> ts = map (env_topic \<circ> the) l \<and> None \<notin> set l"
  by (induction l arbitrary: ts rule: topics.induct) (auto split: sum.splits)

lemma first_topic_append:
  "first_topic t l = Inr (Some e) \<Longrightarrow> first_topic t (l @ m) = Inr (Some e)"
  by (induction t l rule: first_topic.induct) (auto split: if_splits)

lemma first_topic_found: "first_topic t l = Inr (Some e) \<Longrightarrow> env_topic e = t \<and> Some e \<in> set l"
  by (induction t l rule: first_topic.induct) (auto split: if_splits)

lemma first_topic_none:
  "None \<notin> set l \<Longrightarrow> first_topic t l = Inr None \<longleftrightarrow> t \<notin> (env_topic \<circ> the) ` set l"
  by (induction t l rule: first_topic.induct) auto

text \<open>
  What the wait gives is what one of its scans gave; so an envelope waited for is the first
  of its topic, in every later state of the log.
\<close>

lemma wait_from_scan:
  assumes "wait_from polls late topic i = Some r"
  shows "\<exists>j \<ge> i. first_topic topic (polls j) = r"
proof (rule wait_from.raw_induct [OF _ assms])
  fix w p l t i r
  assume IH: "\<And>p l t i r. w p l t i = Some r \<Longrightarrow> \<exists>j \<ge> i. first_topic t (p j) = r"
    and body: "(case first_topic t (p i) of Inl panic \<Rightarrow> Some (Inl panic)
      | Inr None \<Rightarrow> if l i then Some (Inr None) else w p l t (Suc i)
      | Inr (Some e) \<Rightarrow> Some (Inr (Some e))) = Some r"
  then consider "first_topic t (p i) = r" | "w p l t (Suc i) = Some r"
    by (auto split: sum.splits option.splits if_splits)
  then show "\<exists>j \<ge> i. first_topic t (p j) = r"
  proof cases
    case 2
    from IH [OF this] obtain j where "Suc i \<le> j" "first_topic t (p j) = r" by blast
    then show ?thesis by (intro exI [of _ j]) simp
  qed blast
qed

theorem wait_from_first:
  assumes "wait_from polls late topic i = Some (Inr (Some e))" and grow: "\<And>j k. j \<le> k \<Longrightarrow> prefix (polls j) (polls k)"
  shows "\<exists>j \<ge> i. \<forall>k \<ge> j. first_topic topic (polls k) = Inr (Some e)"
proof -
  from wait_from_scan [OF assms(1)] obtain j where
    j: "i \<le> j" "first_topic topic (polls j) = Inr (Some e)" by blast
  have "first_topic topic (polls k) = Inr (Some e)" if "j \<le> k" for k
    using grow [OF that] first_topic_append [OF j(2)] by (auto simp: prefix_def)
  with j(1) show ?thesis by blast
qed

text \<open>The wait ends: with the envelope if a poll before the deadline shows it.\<close>

lemma wait_from_finds:
  assumes "first_topic topic (polls (i + n)) = Inr (Some e)"
    and "\<forall>j < n. first_topic topic (polls (i + j)) = Inr None \<and> \<not> late (i + j)"
  shows "wait_from polls late topic i = Some (Inr (Some e))"
  using assms
proof (induction n arbitrary: i)
  case 0
  then show ?case by (subst wait_from.simps) simp
next
  case (Suc n)
  have "wait_from polls late topic (Suc i) = Some (Inr (Some e))"
    using Suc.prems by (intro Suc.IH) (auto simp flip: add_Suc_right)
  moreover have "first_topic topic (polls i) = Inr None" "\<not> late i" using Suc.prems(2) by force+
  ultimately show ?case by (subst wait_from.simps) simp
qed

lemma wait_from_returns:
  assumes "late (i + n)"
  shows "\<exists>r. wait_from polls late topic i = Some r"
  using assms
proof (induction n arbitrary: i)
  case 0
  then show ?case by (subst wait_from.simps) (simp split: sum.split option.split)
next
  case (Suc n)
  from Suc.IH [of "Suc i"] Suc.prems show ?case
    by (subst wait_from.simps) (auto split: sum.split option.split)
qed

section \<open>One recorder per bundle\<close>

text \<open>
  The recorders by bundle directory; \<open>listen\<close> binds a socket path and fails when it is bound
  already. A recorder is named by a number.
\<close>

record ev_state =
  recorders :: "string \<Rightarrow> nat option"
  next_rec :: nat
  bound :: "string set"

definition ev_bind :: "string \<Rightarrow> ev_state \<Rightarrow> err option \<times> ev_state" where
  "ev_bind p s =
     (if p \<in> bound s then (Some ''address already in use'', s) else (None, s\<lparr>bound := insert p (bound s)\<rparr>))"

definition startEventsRecorder :: "err option \<Rightarrow> string \<Rightarrow> string \<Rightarrow> ev_state \<Rightarrow> nat result \<times> ev_state" where
  "startEventsRecorder server_err socketPath bundleDir s =
     (case recorders s bundleDir of
        Some r \<Rightarrow> (Inr r, s)
      | None \<Rightarrow>
         (case ev_bind socketPath s of
            (Some e, s1) \<Rightarrow> (Inl (''events listen: '' @ e), s1)
          | (None, s1) \<Rightarrow>
             (case server_err of
                Some e \<Rightarrow> (Inl (''events server: '' @ e), s1\<lparr>bound := bound s1 - {socketPath}\<rparr>)
              | None \<Rightarrow>
                  (Inr (next_rec s1),
                   s1\<lparr>recorders := (recorders s1)(bundleDir \<mapsto> next_rec s1), next_rec := Suc (next_rec s1)\<rparr>))))"

definition stopEventsRecorder :: "string \<Rightarrow> string \<Rightarrow> ev_state \<Rightarrow> ev_state" where
  "stopEventsRecorder socketPath bundleDir s =
     s\<lparr>recorders := (recorders s)(bundleDir := None), bound := bound s - {socketPath}\<rparr>"

lemma startEventsRecorder_idem:
  assumes "startEventsRecorder se p b s = (Inr r, s1)"
  shows "startEventsRecorder se2 p2 b s1 = (Inr r, s1)"
  using assms by (auto simp: startEventsRecorder_def ev_bind_def split: option.splits if_splits)

text \<open>Different bundles have different recorders: numbers in use are below the next one.\<close>

definition ev_inv :: "ev_state \<Rightarrow> bool" where
  "ev_inv s \<longleftrightarrow> inj_on (recorders s) (dom (recorders s)) \<and> (\<forall>r \<in> ran (recorders s). r < next_rec s)"

lemma ev_inv_start:
  assumes "ev_inv s" and "startEventsRecorder se p b s = (r, s1)"
  shows "ev_inv s1"
proof -
  have "ev_inv (s\<lparr>bound := B\<rparr>)" for B using assms(1) by (simp add: ev_inv_def)
  moreover have "ev_inv (s\<lparr>bound := B, recorders := (recorders s)(b \<mapsto> next_rec s), next_rec := Suc (next_rec s)\<rparr>)"
    if "recorders s b = None" for B
    using assms(1) that
    by (auto simp: ev_inv_def inj_on_def ran_def dom_def less_Suc_eq)
  ultimately show ?thesis
    using assms by (auto simp: startEventsRecorder_def ev_bind_def split: option.splits if_splits)
qed

lemma ev_inv_stop: "ev_inv s \<Longrightarrow> ev_inv (stopEventsRecorder p b s)"
  by (auto simp: ev_inv_def stopEventsRecorder_def inj_on_def ran_def dom_def split: if_splits)

section \<open>Order of the lifecycle events\<close>

definition lifecycle_topics :: "string list" where
  "lifecycle_topics = [''/tasks/create'', ''/tasks/start'', ''/tasks/exit'', ''/tasks/delete'']"

text \<open>The loop of testEvents over the topics received; \<open>idx\<close> counts the wanted ones met.\<close>

fun match_from :: "string list \<Rightarrow> nat \<Rightarrow> string list \<Rightarrow> nat" where
  "match_from want idx [] = idx"
| "match_from want idx (t # ts) =
     match_from want (if idx < length want \<and> t = want ! idx then Suc idx else idx) ts"

definition in_order :: "string list \<Rightarrow> string list \<Rightarrow> bool" where
  "in_order want got \<longleftrightarrow> match_from want 0 got = length want"

lemma match_from_drop:
  "idx \<le> length want \<Longrightarrow> match_from want idx got = length want \<longleftrightarrow> subseq (drop idx want) got"
proof (induction got arbitrary: idx)
  case Nil
  then show ?case by (auto dest: list_emb_length)
next
  case (Cons t ts)
  show ?case
  proof (cases "idx < length want")
    case True
    then have d: "drop idx want = want ! idx # drop (Suc idx) want" by (simp add: Cons_nth_drop_Suc)
    have "match_from want (Suc idx) ts = length want \<longleftrightarrow> subseq (drop (Suc idx) want) ts"
      using True by (intro Cons.IH) simp
    moreover have "match_from want idx ts = length want \<longleftrightarrow> subseq (want ! idx # drop (Suc idx) want) ts"
      using True Cons.IH [of idx] d by simp
    ultimately show ?thesis using True by (simp add: d)
  next
    case False
    with Cons.prems have "idx = length want" by simp
    with Cons.IH [of idx] show ?thesis by simp
  qed
qed

text \<open>
  C40. The order check of the events test accepts exactly the received topic lists of
  which the wanted topics are a subsequence.
\<close>

theorem in_order_subseq: "in_order want got \<longleftrightarrow> subseq want got"
  using match_from_drop [of 0 want got] by (simp add: in_order_def)

end
