(* ===== verification/Taskclient.thy ===== *)
theory Taskclient
  imports Events
begin

text \<open>
  The task service (\<^verbatim>\<open>taskclient.go\<close>): the requests and responses of API version 3 that
  the suites use, those of version 2 that the bridge builds, the bridge itself, and the
  selection of a client by the version a shim declares. A message field the code only passes
  on is kept as its bytes.
\<close>

section \<open>Messages\<close>

text \<open>Version 3 (package \<^verbatim>\<open>taskAPI\<close>).\<close>

datatype req =
    State (rq_id: string) (rq_exec: string)
  | Create (rq_id: string) (cr_bundle: string) (cr_rootfs: "mount list") (cr_terminal: bool)
      (cr_stdin: string) (cr_stdout: string) (cr_stderr: string) (cr_checkpoint: string)
      (cr_parent: string) (cr_options: bytes)
  | Start (rq_id: string) (rq_exec: string)
  | Delete (rq_id: string) (rq_exec: string)
  | Pids (rq_id: string)
  | Pause (rq_id: string)
  | Resume (rq_id: string)
  | Checkpoint (rq_id: string) (ck_path: string) (ck_options: bytes)
  | Kill (rq_id: string) (rq_exec: string) (ki_signal: nat) (ki_all: bool)
  | Exec (rq_id: string) (rq_exec: string) (ex_terminal: bool) (ex_stdin: string) (ex_stdout: string)
      (ex_stderr: string) (ex_spec: bytes)
  | ResizePty (rq_id: string) (rq_exec: string) (pty_width: nat) (pty_height: nat)
  | CloseIO (rq_id: string) (rq_exec: string) (ci_stdin: bool)
  | Update (rq_id: string) (up_resources: bytes) (up_annotations: "(string \<times> string) list")
  | Wait (rq_id: string) (rq_exec: string)
  | Stats (rq_id: string)
  | Connect (rq_id: string)
  | Shutdown (rq_id: string) (sd_now: bool)

datatype status = UNKNOWN | CREATED | RUNNING | STOPPED | PAUSED | PAUSING

datatype resp =
    StateResp string string nat status string string string bool nat bytes string
  | CreateResp nat
  | StartResp nat
  | DeleteResp nat nat bytes
  | PidsResp bytes
  | Empty
  | WaitResp nat bytes
  | StatsResp bytes
  | ConnectResp nat nat string

text \<open>Version 2 (package \<^verbatim>\<open>taskV2\<close>).\<close>

datatype req2 =
    State2 string string
  | Create2 string string "mount list" bool string string string string string bytes
  | Start2 string string
  | Delete2 string string
  | Pids2 string
  | Pause2 string
  | Resume2 string
  | Checkpoint2 string string bytes
  | Kill2 string string nat bool
  | Exec2 string string bool string string string bytes
  | ResizePty2 string string nat nat
  | CloseIO2 string string bool
  | Update2 string bytes "(string \<times> string) list"
  | Wait2 string string
  | Stats2 string
  | Connect2 string
  | Shutdown2 string bool

datatype resp2 =
    StateResp2 string string nat status string string string bool nat bytes string
  | CreateResp2 nat
  | StartResp2 nat
  | DeleteResp2 nat nat bytes
  | PidsResp2 bytes
  | Empty2
  | WaitResp2 nat bytes
  | StatsResp2 bytes
  | ConnectResp2 nat nat string

text \<open>A call gives a response, which may be nil, and an error, which may be nil.\<close>

type_synonym 's service = "req \<Rightarrow> 's \<Rightarrow> (resp option \<times> err option) \<times> 's"
type_synonym 's service2 = "req2 \<Rightarrow> 's \<Rightarrow> (resp2 option \<times> err option) \<times> 's"

section \<open>The bridge\<close>

fun bridge_req :: "req \<Rightarrow> req2" where
  "bridge_req (State i e) = State2 i e"
| "bridge_req (Create i b r t si so se c pck opts) = Create2 i b r t si so se c pck opts"
| "bridge_req (Start i e) = Start2 i e"
| "bridge_req (Delete i e) = Delete2 i e"
| "bridge_req (Pids i) = Pids2 i"
| "bridge_req (Pause i) = Pause2 i"
| "bridge_req (Resume i) = Resume2 i"
| "bridge_req (Checkpoint i p opts) = Checkpoint2 i p opts"
| "bridge_req (Kill i e sg al) = Kill2 i e sg al"
| "bridge_req (Exec i e t si so se sp) = Exec2 i e t si so se sp"
| "bridge_req (ResizePty i e w h) = ResizePty2 i e w h"
| "bridge_req (CloseIO i e si) = CloseIO2 i e si"
| "bridge_req (Update i r an) = Update2 i r an"
| "bridge_req (Wait i e) = Wait2 i e"
| "bridge_req (Stats i) = Stats2 i"
| "bridge_req (Connect i) = Connect2 i"
| "bridge_req (Shutdown i n) = Shutdown2 i n"

text \<open>
  The getters of a nil response give zero values, so the bridge always returns a response
  for the calls that build one; the others hand on the response as it came.
\<close>

fun zero_resp2 :: "req \<Rightarrow> resp2 option" where
  "zero_resp2 (State i e) = Some (StateResp2 [] [] 0 UNKNOWN [] [] [] False 0 [] [])"
| "zero_resp2 (Create i b r t si so se c pck opts) = Some (CreateResp2 0)"
| "zero_resp2 (Start i e) = Some (StartResp2 0)"
| "zero_resp2 (Delete i e) = Some (DeleteResp2 0 0 [])"
| "zero_resp2 (Pids i) = Some (PidsResp2 [])"
| "zero_resp2 (Wait i e) = Some (WaitResp2 0 [])"
| "zero_resp2 (Stats i) = Some (StatsResp2 [])"
| "zero_resp2 (Connect i) = Some (ConnectResp2 0 0 [])"
| "zero_resp2 _ = None"

fun bridge_resp :: "resp2 \<Rightarrow> resp" where
  "bridge_resp (StateResp2 i b p st si so se t x at e) = StateResp i b p st si so se t x at e"
| "bridge_resp (CreateResp2 p) = CreateResp p"
| "bridge_resp (StartResp2 p) = StartResp p"
| "bridge_resp (DeleteResp2 p x at) = DeleteResp p x at"
| "bridge_resp (PidsResp2 ps) = PidsResp ps"
| "bridge_resp Empty2 = Empty"
| "bridge_resp (WaitResp2 x at) = WaitResp x at"
| "bridge_resp (StatsResp2 st) = StatsResp st"
| "bridge_resp (ConnectResp2 sp tp v) = ConnectResp sp tp v"

definition ttrpcV2Bridge :: "'s service2 \<Rightarrow> 's service" where
  "ttrpcV2Bridge client req s =
     (case client (bridge_req req) s of
        ((resp, e), s1) \<Rightarrow>
          ((map_option bridge_resp (case resp of None \<Rightarrow> zero_resp2 req | Some r \<Rightarrow> Some r), e), s1))"

text \<open>\<^verbatim>\<open>taskClientForVersion\<close>: \<open>None\<close> is the panic on a version startShim has not admitted.\<close>

definition taskClientForVersion :: "'s service2 \<Rightarrow> 's service \<Rightarrow> int \<Rightarrow> 's service option" where
  "taskClientForVersion c2 c3 version =
     (if version = 2 then Some (ttrpcV2Bridge c2) else if version = 3 then Some c3 else None)"

section \<open>A service seen through version 2\<close>

text \<open>The same calls in version 2 form, and a version 3 service answering them.\<close>

fun upgrade_req :: "req2 \<Rightarrow> req" where
  "upgrade_req (State2 i e) = State i e"
| "upgrade_req (Create2 i b r t si so se c pck opts) = Create i b r t si so se c pck opts"
| "upgrade_req (Start2 i e) = Start i e"
| "upgrade_req (Delete2 i e) = Delete i e"
| "upgrade_req (Pids2 i) = Pids i"
| "upgrade_req (Pause2 i) = Pause i"
| "upgrade_req (Resume2 i) = Resume i"
| "upgrade_req (Checkpoint2 i p opts) = Checkpoint i p opts"
| "upgrade_req (Kill2 i e sg al) = Kill i e sg al"
| "upgrade_req (Exec2 i e t si so se sp) = Exec i e t si so se sp"
| "upgrade_req (ResizePty2 i e w h) = ResizePty i e w h"
| "upgrade_req (CloseIO2 i e si) = CloseIO i e si"
| "upgrade_req (Update2 i r an) = Update i r an"
| "upgrade_req (Wait2 i e) = Wait i e"
| "upgrade_req (Stats2 i) = Stats i"
| "upgrade_req (Connect2 i) = Connect i"
| "upgrade_req (Shutdown2 i n) = Shutdown i n"

fun downgrade_resp :: "resp \<Rightarrow> resp2" where
  "downgrade_resp (StateResp i b p st si so se t x at e) = StateResp2 i b p st si so se t x at e"
| "downgrade_resp (CreateResp p) = CreateResp2 p"
| "downgrade_resp (StartResp p) = StartResp2 p"
| "downgrade_resp (DeleteResp p x at) = DeleteResp2 p x at"
| "downgrade_resp (PidsResp ps) = PidsResp2 ps"
| "downgrade_resp Empty = Empty2"
| "downgrade_resp (WaitResp x at) = WaitResp2 x at"
| "downgrade_resp (StatsResp st) = StatsResp2 st"
| "downgrade_resp (ConnectResp sp tp v) = ConnectResp2 sp tp v"

definition as_v2 :: "'s service \<Rightarrow> 's service2" where
  "as_v2 svc r s =
     (case svc (upgrade_req r) s of ((resp, e), s1) \<Rightarrow> ((map_option downgrade_resp resp, e), s1))"

lemma upgrade_bridge_req [simp]: "upgrade_req (bridge_req r) = r"
  by (cases r) simp_all

lemma bridge_upgrade_req [simp]: "bridge_req (upgrade_req r) = r"
  by (cases r) simp_all

lemma bridge_downgrade_resp [simp]: "bridge_resp (downgrade_resp r) = r"
  by (cases r) simp_all

lemma downgrade_bridge_resp [simp]: "downgrade_resp (bridge_resp r) = r"
  by (cases r) simp_all

lemma bridge_req_inj: "bridge_req r = bridge_req q \<longleftrightarrow> r = q"
  by (metis upgrade_bridge_req)

text \<open>A service that answers every call that has a response with one, as every server does.\<close>

definition answers :: "'s service \<Rightarrow> bool" where
  "answers svc \<longleftrightarrow> (\<forall>r s. zero_resp2 r \<noteq> None \<longrightarrow> fst (fst (svc r s)) \<noteq> None)"

text \<open>The bridge in front of a service seen through version 2 is the service.\<close>

lemma bridge_as_v2:
  assumes "answers svc"
  shows "ttrpcV2Bridge (as_v2 svc) = svc"
proof (intro ext)
  fix r s
  obtain resp e s1 where svc: "svc r s = ((resp, e), s1)" by (metis prod.collapse)
  have "map_option bridge_resp (case map_option downgrade_resp resp of None \<Rightarrow> zero_resp2 r | Some x \<Rightarrow> Some x) = resp"
  proof (cases resp)
    case None
    then have "fst (fst (svc r s)) = None" using svc by simp
    then have "zero_resp2 r = None" using assms unfolding answers_def by blast
    with None show ?thesis by simp
  qed simp
  then show "ttrpcV2Bridge (as_v2 svc) r s = svc r s" by (simp add: ttrpcV2Bridge_def as_v2_def svc)
qed

section \<open>The task service contract\<close>

text \<open>
  A client's view of a service: an invariant of the service's state that every call keeps.
  A suite only makes calls, so it holds after any sequence of them.
\<close>

fun calls :: "'s service \<Rightarrow> req list \<Rightarrow> 's \<Rightarrow> (resp option \<times> err option) list \<times> 's" where
  "calls svc [] s = ([], s)"
| "calls svc (r # rs) s =
     (case svc r s of (a, s1) \<Rightarrow> (case calls svc rs s1 of (as, s2) \<Rightarrow> (a # as, s2)))"

text \<open>Two services related by a simulation answer every sequence of calls alike.\<close>

locale service_sim =
  fixes svc :: "'s service" and svc' :: "'t service" and rel :: "'s \<Rightarrow> 't \<Rightarrow> bool"
  assumes sim: "rel s t \<Longrightarrow> fst (svc r s) = fst (svc' r t) \<and> rel (snd (svc r s)) (snd (svc' r t))"
begin

lemma calls_alike:
  "rel s t \<Longrightarrow> fst (calls svc rs s) = fst (calls svc' rs t) \<and> rel (snd (calls svc rs s)) (snd (calls svc' rs t))"
proof (induction rs arbitrary: s t)
  case (Cons r rs)
  from sim [OF Cons.prems, of r] Cons.IH [of "snd (svc r s)" "snd (svc' r t)"] show ?case
    by (simp add: split_beta)
qed simp

end

text \<open>A service made to answer, with zero values where it gave nothing.\<close>

definition answering :: "'s service \<Rightarrow> 's service" where
  "answering svc r s =
     (case svc r s of
        ((resp, e), s1) \<Rightarrow> ((map_option bridge_resp (case map_option downgrade_resp resp of
            None \<Rightarrow> zero_resp2 r | Some x \<Rightarrow> Some x), e), s1))"

lemma answering_answers: "answers (answering svc)"
  by (auto simp: answers_def answering_def split: prod.split option.split)

lemma answering_id: "answers svc \<Longrightarrow> answering svc = svc"
  using bridge_as_v2 [of svc] by (simp add: answering_def fun_eq_iff ttrpcV2Bridge_def as_v2_def split_beta)

interpretation v2: service_sim "ttrpcV2Bridge (as_v2 svc)" "answering svc" "(=)" for svc
  by unfold_locales (simp_all add: ttrpcV2Bridge_def as_v2_def answering_def split_beta)

text \<open>
  The version 2 bridge simulates the version 3 client: a shim that implements both versions
  over one state answers every sequence of calls alike, whichever version it declares.
\<close>


text \<open>The version check of startShim and the selection agree: no admitted version panics.\<close>

lemma admitted_version_has_client:
  "check_params p = Inr q \<Longrightarrow> taskClientForVersion c2 c3 (bp_version q) \<noteq> None"
  using check_params_ok [of p q] by (auto simp: taskClientForVersion_def)

end
