(* ===== verification/Fifo.thy ===== *)
theory Fifo
  imports Taskclient
begin

text \<open>
  The background readers of the harness (\<^verbatim>\<open>io_unix.go\<close>): a goroutine copies a FIFO into
  a buffer until a read fails and then closes its done channel. Also the errors of Go as the
  harness tests them (\<^verbatim>\<open>transfer_io.go\<close>, toNative).
\<close>

section \<open>Creating FIFOs\<close>

definition createIOFifos :: "(string \<Rightarrow> 'f \<Rightarrow> err option \<times> 'f) \<Rightarrow> string \<Rightarrow> 'f \<Rightarrow> (string \<times> string) result \<times> 'f" where
  "createIOFifos mkfifo dir f =
     (let out = path_join [dir, ''stdout'']; errp = path_join [dir, ''stderr''] in
      case mkfifo out f of
        (Some e, f1) \<Rightarrow> (Inl (''failed to create stdout fifo: '' @ e), f1)
      | (None, f1) \<Rightarrow>
         (case mkfifo errp f1 of
            (Some e, f2) \<Rightarrow> (Inl (''failed to create stderr fifo: '' @ e), f2)
          | (None, f2) \<Rightarrow> (Inr (out, errp), f2)))"

definition createStdioFifos ::
    "(string \<Rightarrow> 'f \<Rightarrow> err option \<times> 'f) \<Rightarrow> string \<Rightarrow> 'f \<Rightarrow> (string \<times> string \<times> string) result \<times> 'f" where
  "createStdioFifos mkfifo dir f =
     (let inp = path_join [dir, ''stdin''] in
      case mkfifo inp f of
        (Some e, f1) \<Rightarrow> (Inl (''failed to create stdin fifo: '' @ e), f1)
      | (None, f1) \<Rightarrow>
         (case createIOFifos mkfifo dir f1 of
            (Inl e, f2) \<Rightarrow> (Inl e, f2)
          | (Inr (out, errp), f2) \<Rightarrow> (Inr (inp, out, errp), f2)))"

section \<open>Draining\<close>

text \<open>
  \<open>d_sent\<close> is everything written into the pipe, \<open>d_in\<close> what of it is unread; the write end
  closes with the error the reader then sees. \<open>d_killed\<close> says that the reader's own end was
  closed (the test's cleanup) or its context cancelled: then a read fails at once.
\<close>

record drain =
  d_sent :: bytes
  d_in :: bytes
  d_end :: "err option"
  d_buf :: bytes
  d_done :: bool
  d_err :: "err option"
  d_killed :: "err option"

definition drain_init :: drain where
  "drain_init = \<lparr>d_sent = [], d_in = [], d_end = None, d_buf = [], d_done = False, d_err = None, d_killed = None\<rparr>"

text \<open>The goroutine of drainFifoIntoDone; a read takes at most 4096 bytes.\<close>

inductive drain_step :: "drain \<Rightarrow> drain \<Rightarrow> bool" where
  writer_puts: "d_end s = None \<Longrightarrow> drain_step s (s\<lparr>d_sent := d_sent s @ b, d_in := d_in s @ b\<rparr>)"
| writer_ends: "d_end s = None \<Longrightarrow> drain_step s (s\<lparr>d_end := Some e\<rparr>)"
| kill: "d_killed s = None \<Longrightarrow> drain_step s (s\<lparr>d_killed := Some e\<rparr>)"
| read_chunk: "\<not> d_done s \<Longrightarrow> d_in s \<noteq> [] \<Longrightarrow> 0 < n \<Longrightarrow> n \<le> 4096 \<Longrightarrow>
     drain_step s (s\<lparr>d_buf := d_buf s @ take n (d_in s), d_in := drop n (d_in s)\<rparr>)"
| read_end: "\<not> d_done s \<Longrightarrow> d_in s = [] \<Longrightarrow> d_end s = Some e \<Longrightarrow>
     drain_step s (s\<lparr>d_done := True, d_err := Some e\<rparr>)"
| read_killed: "\<not> d_done s \<Longrightarrow> d_killed s = Some e \<Longrightarrow> drain_step s (s\<lparr>d_done := True, d_err := Some e\<rparr>)"

definition drain_inv :: "drain \<Rightarrow> bool" where
  "drain_inv s \<longleftrightarrow> d_sent s = d_buf s @ d_in s
     \<and> (d_done s \<longrightarrow> (d_in s = [] \<and> d_end s \<noteq> None \<and> d_err s = d_end s) \<or> (d_killed s \<noteq> None \<and> d_err s = d_killed s))"

interpretation drain: step_invariant drain_step drain_inv
proof
  fix s t
  assume "drain_inv s" and "drain_step s t"
  from this(2,1) show "drain_inv t" by (cases rule: drain_step.cases) (auto simp: drain_inv_def)
qed

lemma drain_reached: "drain_step\<^sup>*\<^sup>* drain_init s \<Longrightarrow> drain_inv s"
  by (erule drain.run_preserves) (simp add: drain_inv_def drain_init_def)

text \<open>A closed done channel of a reader nobody killed means that the buffer is complete.\<close>

text \<open>
  C14. Whatever the interleaving of writer and reader, once the done channel of
  drainFifoIntoDone is closed by a reader nobody killed, the buffer holds everything that
  was written, and the write end is closed.
\<close>

theorem drain_complete:
  "drain_step\<^sup>*\<^sup>* drain_init s \<Longrightarrow> d_done s \<Longrightarrow> d_killed s = None \<Longrightarrow> d_buf s = d_sent s \<and> d_end s \<noteq> None"
  using drain_reached [of s] by (simp add: drain_inv_def)

text \<open>Without that channel the buffer is only a prefix of what was written.\<close>

lemma drain_prefix: "drain_step\<^sup>*\<^sup>* drain_init s \<Longrightarrow> prefix (d_buf s) (d_sent s)"
  using drain_reached [of s] by (auto simp: drain_inv_def)

text \<open>Once the writer is done the reader can always go on, and ends after finitely many reads.\<close>

lemma drain_progress: "d_end s \<noteq> None \<Longrightarrow> \<not> d_done s \<Longrightarrow> \<exists>t. drain_step s t"
  using drain_step.read_end drain_step.read_chunk [of s 1] by (cases "d_in s = []") auto

inductive reader_step :: "drain \<Rightarrow> drain \<Rightarrow> bool" where
  "drain_step s t \<Longrightarrow> d_sent t = d_sent s \<Longrightarrow> d_end t = d_end s \<Longrightarrow> d_killed t = d_killed s \<Longrightarrow> s \<noteq> t \<Longrightarrow>
     reader_step s t"

definition drain_measure :: "drain \<Rightarrow> nat" where
  "drain_measure s = length (d_in s) + (if d_done s then 0 else 1)"

interpretation reader: step_measure reader_step drain_measure
proof
  fix s t
  assume "reader_step s t"
  then show "drain_measure t < drain_measure s"
  proof cases
    case 1
    from 1(1) show ?thesis
    proof cases
      case (writer_puts b)
      then have "b = []" using 1(2) by simp
      with writer_puts 1(5) show ?thesis by simp
    next
      case (read_chunk n)
      then show ?thesis by (cases "d_in s") (auto simp: drain_measure_def)
    qed (use 1 in \<open>auto simp: drain_measure_def\<close>)
  qed
qed

section \<open>Errors\<close>

text \<open>An error of Go: a sentinel, a status of the RPC layer, or one wrapped with a text.\<close>

datatype goerr = EOF | Canceled | DeadlineExceeded | Status nat string | OtherErr string | Wrapped string goerr

fun err_is :: "goerr \<Rightarrow> goerr \<Rightarrow> bool" where
  "err_is (Wrapped m e) t = (Wrapped m e = t \<or> err_is e t)"
| "err_is e t = (e = t)"

fun err_text :: "goerr \<Rightarrow> string" where
  "err_text EOF = ''EOF''"
| "err_text Canceled = ''context canceled''"
| "err_text DeadlineExceeded = ''context deadline exceeded''"
| "err_text (Status c m) = m"
| "err_text (OtherErr m) = m"
| "err_text (Wrapped m e) = m @ '': '' @ err_text e"

text \<open>\<open>native\<close> is \<^verbatim>\<open>errgrpc.ToNative\<close>.\<close>

definition toNative :: "(goerr \<Rightarrow> goerr) \<Rightarrow> goerr option \<Rightarrow> goerr option" where
  "toNative native e =
     (case e of
        None \<Rightarrow> None
      | Some e \<Rightarrow>
          if err_is e EOF then Some EOF
          else if err_is e Canceled then Some Canceled
          else if err_is e DeadlineExceeded then Some DeadlineExceeded
          else Some (native e))"

lemma toNative_None: "toNative native e = None \<longleftrightarrow> e = None"
  by (simp add: toNative_def split: option.split)

lemma err_is_sentinel: "t \<in> {EOF, Canceled, DeadlineExceeded} \<Longrightarrow> err_is t u \<longleftrightarrow> t = u"
  by auto

text \<open>A context error stays one, so \<^verbatim>\<open>errors.Is\<close> on the result still finds it.\<close>

lemma err_is_chain:
  "err_is e t \<Longrightarrow> err_is e u \<Longrightarrow> t \<in> {EOF, Canceled, DeadlineExceeded} \<Longrightarrow> u \<in> {EOF, Canceled, DeadlineExceeded} \<Longrightarrow> t = u"
proof (induction e)
  case (Wrapped m e)
  from Wrapped.prems have "err_is e t" "err_is e u" by auto
  then show ?case using Wrapped.IH Wrapped.prems(3,4) by blast
qed auto

lemma toNative_keeps_context:
  assumes "err_is e t" and "t \<in> {EOF, Canceled, DeadlineExceeded}"
  shows "toNative native (Some e) = Some t"
proof -
  have u: "err_is e u \<longleftrightarrow> t = u" if "u \<in> {EOF, Canceled, DeadlineExceeded}" for u
    using err_is_chain [OF assms(1) _ assms(2) that] assms(1) by blast
  show ?thesis
    using assms(2) u [of EOF] u [of Canceled] u [of DeadlineExceeded] by (auto simp: toNative_def)
qed

end
