(* ===== verification/Transfers.thy ===== *)
theory Transfers
  imports Fifo
begin

text \<open>
  The transfer client (\<^verbatim>\<open>internal/transfer/transfer.go\<close>, \<^verbatim>\<open>transfer_io.go\<close>) and the
  transfer suite's own operations (\<^verbatim>\<open>transfer_suite.go\<close>): streams with a background
  goroutine and a Wait, copying a file in and out as a tar archive, and the guard of the
  missing-file fuzz target.
\<close>

section \<open>Opening a stream\<close>

text \<open>The calls on the shim's streaming service; a stream is named by a number.\<close>

record 's streaming =
  st_open :: "'s \<Rightarrow> (goerr + nat) \<times> 's"
  st_marshal_init :: "string \<Rightarrow> goerr + bytes"
  st_send :: "nat \<Rightarrow> bytes \<Rightarrow> 's \<Rightarrow> goerr option \<times> 's"
  st_recv :: "nat \<Rightarrow> 's \<Rightarrow> (goerr + bytes) \<times> 's"
  st_native :: "goerr \<Rightarrow> goerr"

definition native :: "'s streaming \<Rightarrow> goerr \<Rightarrow> goerr" where
  "native st e = the (toNative (st_native st) (Some e))"

text \<open>\<^verbatim>\<open>ttrpcStreamCreator.Create\<close>: open, send the init message, wait for the acknowledgement.\<close>

definition stream_create :: "'s streaming \<Rightarrow> string \<Rightarrow> 's \<Rightarrow> (goerr + nat) \<times> 's" where
  "stream_create st sid s =
     (case st_open st s of
        (Inl e, s1) \<Rightarrow> (Inl (native st e), s1)
      | (Inr stream, s1) \<Rightarrow>
         (case st_marshal_init st sid of
            Inl e \<Rightarrow> (Inl e, s1)
          | Inr m \<Rightarrow>
             (case st_send st stream m s1 of
                (Some e, s2) \<Rightarrow> (Inl (native st e), s2)
              | (None, s2) \<Rightarrow>
                 (case st_recv st stream s2 of
                    (Inl e, s3) \<Rightarrow> (Inl (native st e), s3)
                  | (Inr ack, s3) \<Rightarrow> (Inr stream, s3)))))"

definition ttrpcStream_send :: "'s streaming \<Rightarrow> nat \<Rightarrow> bytes \<Rightarrow> 's \<Rightarrow> goerr option \<times> 's" where
  "ttrpcStream_send st stream m s =
     (case st_send st stream m s of (e, s1) \<Rightarrow> (toNative (st_native st) e, s1))"

definition ttrpcStream_recv :: "'s streaming \<Rightarrow> nat \<Rightarrow> 's \<Rightarrow> (goerr + bytes) \<times> 's" where
  "ttrpcStream_recv st stream s =
     (case st_recv st stream s of (Inl e, s1) \<Rightarrow> (Inl (native st e), s1) | (Inr m, s1) \<Rightarrow> (Inr m, s1))"

section \<open>Sources and destinations\<close>

record container_path =
  cp_container :: string
  cp_path :: string
  cp_noWalk :: bool
  cp_preserve :: bool

datatype endpoint =
    PathEnd container_path
  | ReadEnd string string
  | WriteEnd string string

text \<open>
  What an endpoint marshals to: a container path as it is; a stream endpoint, given here with
  its media type and the id generated for it, as the id of a stream opened first.
\<close>

datatype any = AnyPath container_path | AnyRead string string | AnyWrite string string

definition marshalTransferAny :: "'s streaming \<Rightarrow> (any \<Rightarrow> goerr option) \<Rightarrow> endpoint \<Rightarrow> 's
    \<Rightarrow> (goerr + any \<times> nat option) \<times> 's" where
  "marshalTransferAny st marshal_err v s =
     (let finish = (\<lambda>a stream s1. case marshal_err a of Some e \<Rightarrow> (Inl e, s1) | None \<Rightarrow> (Inr (a, stream), s1))
      in case v of
        PathEnd cp \<Rightarrow> finish (AnyPath cp) None s
      | ReadEnd media sid \<Rightarrow>
          (case stream_create st sid s of
             (Inl e, s1) \<Rightarrow> (Inl e, s1) | (Inr stream, s1) \<Rightarrow> finish (AnyRead sid media) (Some stream) s1)
      | WriteEnd media sid \<Rightarrow>
          (case stream_create st sid s of
             (Inl e, s1) \<Rightarrow> (Inl e, s1) | (Inr stream, s1) \<Rightarrow> finish (AnyWrite sid media) (Some stream) s1))"

section \<open>WriteStream\<close>

text \<open>
  Data from the server to the client. The goroutine copies the stream into the writer and
  records the error the copy ended with before it closes \<open>done\<close>; \<open>ws_ctx\<close> is the error of
  the context, once it has fired.
\<close>

record wstream =
  ws_sent :: bytes
  ws_in :: bytes
  ws_end :: "goerr option"
  ws_written :: bytes
  ws_done :: bool
  ws_err :: "goerr option"
  ws_ctx :: "goerr option"

definition ws_init :: wstream where
  "ws_init = \<lparr>ws_sent = [], ws_in = [], ws_end = None, ws_written = [], ws_done = False, ws_err = None,
     ws_ctx = None\<rparr>"

text \<open>\<^verbatim>\<open>io.Copy\<close> reports no error at the end of the stream, and any other error as it is.\<close>

definition copy_result :: "goerr \<Rightarrow> goerr option" where
  "copy_result e = (if e = EOF then None else Some e)"

inductive ws_step :: "wstream \<Rightarrow> wstream \<Rightarrow> bool" where
  server_sends: "ws_end s = None \<Longrightarrow> ws_step s (s\<lparr>ws_sent := ws_sent s @ b, ws_in := ws_in s @ b\<rparr>)"
| server_ends: "ws_end s = None \<Longrightarrow> ws_step s (s\<lparr>ws_end := Some e\<rparr>)"
| ctx_fires: "ws_ctx s = None \<Longrightarrow> e \<noteq> EOF \<Longrightarrow> ws_step s (s\<lparr>ws_ctx := Some e\<rparr>)"
| copies: "\<not> ws_done s \<Longrightarrow> ws_in s \<noteq> [] \<Longrightarrow> 0 < n \<Longrightarrow>
     ws_step s (s\<lparr>ws_written := ws_written s @ take n (ws_in s), ws_in := drop n (ws_in s)\<rparr>)"
| copied: "\<not> ws_done s \<Longrightarrow> ws_in s = [] \<Longrightarrow> ws_end s = Some e \<Longrightarrow>
     ws_step s (s\<lparr>ws_done := True, ws_err := copy_result e\<rparr>)"
| cut_short: "\<not> ws_done s \<Longrightarrow> ws_ctx s = Some e \<Longrightarrow> ws_step s (s\<lparr>ws_done := True, ws_err := Some e\<rparr>)"

text \<open>The select of Wait: either ready branch may be taken.\<close>

inductive ws_wait :: "wstream \<Rightarrow> goerr option \<Rightarrow> bool" where
  "ws_done s \<Longrightarrow> ws_wait s (ws_err s)"
| "ws_ctx s = Some e \<Longrightarrow> ws_wait s (Some e)"

inductive_cases ws_wait_okE: "ws_wait s None"

definition ws_inv :: "wstream \<Rightarrow> bool" where
  "ws_inv s \<longleftrightarrow> ws_sent s = ws_written s @ ws_in s
     \<and> (ws_done s \<longrightarrow> ws_err s = None \<longrightarrow> ws_in s = [] \<and> ws_end s = Some EOF)"

interpretation ws: step_invariant ws_step ws_inv
proof
  fix s t
  assume "ws_inv s" and "ws_step s t"
  from this(2,1) show "ws_inv t"
    by (cases rule: ws_step.cases) (auto simp: ws_inv_def copy_result_def split: if_splits)
qed

text \<open>A Wait that returns no error returns after the server ended and with all it sent written.\<close>

lemma ws_wait_complete:
  assumes "ws_step\<^sup>*\<^sup>* ws_init s" and "ws_wait s None"
  shows "ws_written s = ws_sent s" and "ws_end s = Some EOF"
proof -
  have "ws_inv s" by (rule ws.run_preserves [OF assms(1)]) (simp add: ws_inv_def ws_init_def)
  moreover from assms(2) have "ws_done s \<and> ws_err s = None" by (rule ws_wait_okE) auto
  ultimately show "ws_written s = ws_sent s" and "ws_end s = Some EOF" by (simp_all add: ws_inv_def)
qed

text \<open>And if the server failed or the context fired before all was copied, Wait says so.\<close>

lemma ws_wait_reports:
  assumes "ws_step\<^sup>*\<^sup>* ws_init s" and "ws_wait s r" and "ws_written s \<noteq> ws_sent s \<or> ws_end s \<noteq> Some EOF"
  shows "r \<noteq> None"
  using assms ws_wait_complete [OF assms(1)] by metis

section \<open>ReadStream\<close>

text \<open>
  Data from the client to the server. \<open>SendStream\<close> logs its errors and returns nothing, so the
  goroutine can stop early and no step sets \<open>rs_err\<close>.
\<close>

record rstream =
  rs_unsent :: bytes
  rs_sent :: bytes
  rs_done :: bool
  rs_err :: "goerr option"
  rs_ctx :: "goerr option"

definition rs_init :: "bytes \<Rightarrow> rstream" where
  "rs_init data = \<lparr>rs_unsent = data, rs_sent = [], rs_done = False, rs_err = None, rs_ctx = None\<rparr>"

inductive rs_step :: "rstream \<Rightarrow> rstream \<Rightarrow> bool" where
  sends: "\<not> rs_done s \<Longrightarrow> rs_unsent s \<noteq> [] \<Longrightarrow> 0 < n \<Longrightarrow>
     rs_step s (s\<lparr>rs_sent := rs_sent s @ take n (rs_unsent s), rs_unsent := drop n (rs_unsent s)\<rparr>)"
| finishes: "\<not> rs_done s \<Longrightarrow> rs_unsent s = [] \<Longrightarrow> rs_step s (s\<lparr>rs_done := True\<rparr>)"
| send_fails: "\<not> rs_done s \<Longrightarrow> rs_step s (s\<lparr>rs_done := True\<rparr>)"
| rs_ctx_fires: "rs_ctx s = None \<Longrightarrow> rs_step s (s\<lparr>rs_ctx := Some e\<rparr>)"

inductive rs_wait :: "rstream \<Rightarrow> goerr option \<Rightarrow> bool" where
  "rs_done s \<Longrightarrow> rs_wait s (rs_err s)"
| "rs_ctx s = Some e \<Longrightarrow> rs_wait s (Some e)"

inductive_cases rs_waitE: "rs_wait s r"

definition rs_inv :: "bytes \<Rightarrow> rstream \<Rightarrow> bool" where
  "rs_inv data s \<longleftrightarrow> data = rs_sent s @ rs_unsent s \<and> rs_err s = None"

interpretation rs: step_invariant rs_step "rs_inv data" for data
proof
  fix s t
  assume "rs_inv data s" and "rs_step s t"
  from this(2,1) show "rs_inv data t" by (cases rule: rs_step.cases) (auto simp: rs_inv_def)
qed

lemma rs_reached: "rs_step\<^sup>*\<^sup>* (rs_init data) s \<Longrightarrow> rs_inv data s"
  by (erule rs.run_preserves) (simp add: rs_inv_def rs_init_def)

text \<open>Wait never reports a send error: it returns nil, or the context's error.\<close>

lemma rs_wait_never_send_error:
  assumes "rs_step\<^sup>*\<^sup>* (rs_init data) s" and "rs_wait s r"
  shows "r = None \<or> r = rs_ctx s"
  using rs_reached [OF assms(1)] assms(2) by (auto simp: rs_inv_def elim: rs_waitE)

text \<open>So a failed send is waited for without an error, with data unsent.\<close>

lemma rs_wait_silent:
  assumes "data \<noteq> []"
  shows "\<exists>s. rs_step\<^sup>*\<^sup>* (rs_init data) s \<and> rs_wait s None \<and> rs_unsent s \<noteq> []"
proof -
  let ?s = "(rs_init data)\<lparr>rs_done := True\<rparr>"
  have "rs_step (rs_init data) ?s" by (rule rs_step.send_fails) (simp add: rs_init_def)
  moreover have "rs_wait ?s None" using rs_wait.intros(1) [of ?s] by (simp add: rs_init_def)
  ultimately show ?thesis using assms by (intro exI [of _ ?s]) (auto simp: rs_init_def)
qed

section \<open>Copying a file in and out\<close>

text \<open>The tar library: writing an archive of one entry, and reading entries back.\<close>

record tar =
  tar_write :: "string \<Rightarrow> nat \<Rightarrow> bytes \<Rightarrow> bytes result"
  tar_read :: "bytes \<Rightarrow> (string \<times> bytes result) list \<times> err option"

definition transferred :: string where "transferred = ''transferred.txt''"

text \<open>The scan of copyFromContainer: the first entry whose name ends in the file's name.\<close>

fun scan_entries :: "(string \<times> bytes result) list \<Rightarrow> err option \<Rightarrow> bytes result" where
  "scan_entries [] None = Inl ''transferred.txt not found in tar archive''"
| "scan_entries [] (Some e) = Inl (''failed to read tar: '' @ e)"
| "scan_entries ((name, content) # es) bad =
     (if has_suffix name transferred then
        (case content of Inl e \<Rightarrow> Inl (''failed to read tar entry: '' @ e) | Inr data \<Rightarrow> Inr data)
      else scan_entries es bad)"

text \<open>
  A transfer: the RPC on the marshalled endpoints, then the Wait of the stream endpoint. For
  an import \<open>t_rpc\<close> is given the bytes the client sends; for an export it gives the bytes
  received by the time Wait returns.
\<close>

record 's transfer =
  t_streams :: "'s streaming"
  t_marshal_err :: "any \<Rightarrow> goerr option"
  t_import :: "any \<Rightarrow> any \<Rightarrow> bytes \<Rightarrow> 's \<Rightarrow> goerr option \<times> 's"
  t_export :: "any \<Rightarrow> any \<Rightarrow> 's \<Rightarrow> goerr option \<times> 's"
  t_received :: "'s \<Rightarrow> bytes"
  t_wait :: "'s \<Rightarrow> goerr option \<times> 's"
  t_tar :: tar
  t_sid :: "'s \<Rightarrow> string"

definition tar_media :: string where "tar_media = ''application/x-tar''"

definition plain_path :: "string \<Rightarrow> string \<Rightarrow> container_path" where
  "plain_path cid path = \<lparr>cp_container = cid, cp_path = path, cp_noWalk = False, cp_preserve = False\<rparr>"

definition copyToContainer :: "'s transfer \<Rightarrow> string \<Rightarrow> bytes \<Rightarrow> string \<Rightarrow> 's \<Rightarrow> err option \<times> 's" where
  "copyToContainer t cid content path s =
     (case tar_write (t_tar t) transferred 420 content of
        Inl e \<Rightarrow> (Some e, s)
      | Inr archive \<Rightarrow>
         (case marshalTransferAny (t_streams t) (t_marshal_err t) (ReadEnd tar_media (t_sid t s)) s of
            (Inl e, s1) \<Rightarrow> (Some (''failed to marshal source: '' @ err_text e), s1)
          | (Inr (srcAny, stream), s1) \<Rightarrow>
             (case marshalTransferAny (t_streams t) (t_marshal_err t) (PathEnd (plain_path cid path)) s1 of
                (Inl e, s2) \<Rightarrow> (Some (''failed to marshal destination: '' @ err_text e), s2)
              | (Inr (dstAny, no_stream), s2) \<Rightarrow>
                 (case t_import t srcAny dstAny archive s2 of
                    (Some e, s3) \<Rightarrow> (Some (''copy-to transfer failed: '' @ err_text e), s3)
                  | (None, s3) \<Rightarrow>
                     (case t_wait t s3 of
                        (Some e, s4) \<Rightarrow> (Some (''copy-to stream error: '' @ err_text e), s4)
                      | (None, s4) \<Rightarrow> (None, s4))))))"

definition copyFromContainer :: "'s transfer \<Rightarrow> string \<Rightarrow> string \<Rightarrow> 's \<Rightarrow> bytes result \<times> 's" where
  "copyFromContainer t cid path s =
     (case marshalTransferAny (t_streams t) (t_marshal_err t) (PathEnd (plain_path cid path)) s of
        (Inl e, s1) \<Rightarrow> (Inl (''failed to marshal source: '' @ err_text e), s1)
      | (Inr (srcAny, no_stream), s1) \<Rightarrow>
         (case marshalTransferAny (t_streams t) (t_marshal_err t) (WriteEnd tar_media (t_sid t s1)) s1 of
            (Inl e, s2) \<Rightarrow> (Inl (''failed to marshal destination: '' @ err_text e), s2)
          | (Inr (dstAny, stream), s2) \<Rightarrow>
             (case t_export t srcAny dstAny s2 of
                (Some e, s3) \<Rightarrow> (Inl (''copy-from transfer failed: '' @ err_text e), s3)
              | (None, s3) \<Rightarrow>
                 (case t_wait t s3 of
                    (Some e, s4) \<Rightarrow> (Inl (''copy-from stream error: '' @ err_text e), s4)
                  | (None, s4) \<Rightarrow>
                     (case tar_read (t_tar t) (t_received t s4) of
                        (es, bad) \<Rightarrow> (scan_entries es bad, s4))))))"

definition testContent :: bytes where "testContent = ''transfer-test-data-12345'' @ newline"

text \<open>testCopyToAndFrom: copy in, copy out, compare.\<close>

definition testCopyToAndFrom :: "'s transfer \<Rightarrow> string \<Rightarrow> 's \<Rightarrow> err option \<times> 's" where
  "testCopyToAndFrom t cid s =
     (case copyToContainer t cid testContent ''/tmp'' s of
        (Some e, s1) \<Rightarrow> (Some e, s1)
      | (None, s1) \<Rightarrow>
         (case copyFromContainer t cid ''/tmp/transferred.txt'' s1 of
            (Inl e, s2) \<Rightarrow> (Some e, s2)
          | (Inr received, s2) \<Rightarrow>
              (if received \<noteq> testContent
               then Some (''copy-from content mismatch: got '' @ quote received @ '', want '' @ quote testContent)
               else None, s2)))"

lemma scan_entries_first:
  assumes "\<forall>e \<in> set pre. \<not> has_suffix (fst e) transferred" and "has_suffix name transferred"
  shows "scan_entries (pre @ (name, Inr data) # post) bad = Inr data"
  using assms by (induction pre) auto

lemma scan_entries_found:
  "scan_entries es bad = Inr data \<Longrightarrow> \<exists>name. (name, Inr data) \<in> set es \<and> has_suffix name transferred"
  by (induction es bad rule: scan_entries.induct) (auto split: if_splits sum.splits)

text \<open>
  The test passes only if some archive it received in the second transfer holds, under a name
  ending in the file's, exactly the bytes of the first.
\<close>


section \<open>The fuzz guard\<close>

definition fuzzMissingBase :: string where "fuzzMissingBase = ''/.fuzz-missing''"

definition validFuzzSuffix :: "string \<Rightarrow> bool" where
  "validFuzzSuffix s \<longleftrightarrow> s \<noteq> [] \<and> length s \<le> 4000 \<and> \<not> has_prefix s ''/'' \<and> CHR 0x00 \<notin> set s
     \<and> \<not> str_contains s ''..''"

definition fuzz_path :: "string \<Rightarrow> string" where
  "fuzz_path s = fuzzMissingBase @ CHR ''/'' # s"

text \<open>The verdict on one input: skipped, passed, or the error reported.\<close>

datatype fuzz_verdict = FuzzSkip | FuzzPass | FuzzError string

definition fuzz_one :: "(string \<Rightarrow> goerr option) \<Rightarrow> string \<Rightarrow> fuzz_verdict" where
  "fuzz_one stat s =
     (if \<not> validFuzzSuffix s then FuzzSkip
      else let path = fuzz_path s in
        case stat path of
          None \<Rightarrow> FuzzError (''expected error for missing path '' @ quote path @ '', got nil'')
        | Some e \<Rightarrow>
            if err_is e DeadlineExceeded \<or> err_is e Canceled
            then FuzzError (''path '' @ quote path
              @ '': server did not respond before iteration deadline: '' @ err_text e)
            else FuzzPass)"

lemma clean_elems_no_dotdot:
  "\<forall>e \<in> set es. e \<noteq> ''..'' \<Longrightarrow> clean_elems r out es = rev out @ filter (\<lambda>e. e \<noteq> [] \<and> e \<noteq> ''.'') es"
  by (induction es arbitrary: out) auto

lemma split_on_contains: "f \<in> set (split_on c s) \<Longrightarrow> str_contains s f"
proof (induction s arbitrary: f)
  case (Cons x s)
  show ?case
  proof (cases "x = c")
    case True
    with Cons show ?thesis by (auto simp: str_contains_append_left [of s f "[x]", simplified] has_prefix_def)
  next
    case False
    obtain g gs where g: "split_on c s = g # gs" by (cases "split_on c s") auto
    have p: "prefix g s"
      using join_split [of c s] g by (cases gs) (auto simp: join_Cons prefix_def)
    show ?thesis
    proof (cases "f = x # g")
      case True
      with p show ?thesis by (auto simp: has_prefix_conv prefix_def)
    next
      case ne: False
      with Cons.prems False g have "f \<in> set (split_on c s)" by auto
      from str_contains_append_left [OF Cons.IH [OF this], of "[x]"] show ?thesis by simp
    qed
  qed
qed auto

text \<open>An accepted suffix names a path below the base, however it is cleaned.\<close>

lemma fuzz_path_below:
  assumes "validFuzzSuffix s"
  shows "\<exists>es. path_clean (fuzz_path s) = abs_path (''.fuzz-missing'' # es) \<and> (\<forall>e \<in> set es. e \<noteq> ''..'')"
proof -
  let ?es = "filter (\<lambda>e. e \<noteq> [] \<and> e \<noteq> ''.'') (split_on CHR ''/'' s)"
  have nd: "\<forall>e \<in> set (split_on CHR ''/'' s). e \<noteq> ''..''"
    using assms split_on_contains by (auto simp: validFuzzSuffix_def)
  have "fuzz_path s = ''/.fuzz-missing'' @ CHR ''/'' # s" by (simp add: fuzz_path_def fuzzMissingBase_def)
  then have sp: "split_on CHR ''/'' (fuzz_path s) = [] # ''.fuzz-missing'' # split_on CHR ''/'' s"
    by (simp add: split_on_append_sep)
  have "clean_elems True [] (split_on CHR ''/'' (fuzz_path s)) = ''.fuzz-missing'' # ?es"
    unfolding sp using nd by (subst clean_elems_no_dotdot) auto
  moreover have "has_prefix (fuzz_path s) ''/''" by (simp add: fuzz_path_def fuzzMissingBase_def has_prefix_def)
  ultimately have "path_clean (fuzz_path s) = abs_path (''.fuzz-missing'' # ?es)"
    by (simp add: path_clean_def abs_path_def fuzz_path_def fuzzMissingBase_def)
  with nd show ?thesis by (intro exI [of _ ?es]) simp
qed

lemma fuzz_one_pass:
  "fuzz_one stat s = FuzzPass \<longleftrightarrow> validFuzzSuffix s \<and>
     (\<exists>e. stat (fuzz_path s) = Some e \<and> \<not> err_is e DeadlineExceeded \<and> \<not> err_is e Canceled)"
  by (auto simp: fuzz_one_def Let_def split: option.split)

text \<open>\<^verbatim>\<open>skipIfNoTransfer\<close>: an empty request tells whether the service exists.\<close>

definition skipIfNoTransfer :: "('s \<Rightarrow> goerr option \<times> 's) \<Rightarrow> 's \<Rightarrow> string option \<times> 's" where
  "skipIfNoTransfer probe s =
     (case probe s of
        (None, s1) \<Rightarrow> (None, s1)
      | (Some e, s1) \<Rightarrow>
          (let msg = err_text e in
           if str_contains msg ''Unimplemented'' \<or> str_contains msg ''unknown service''
           then Some (''skipping: shim does not support transfer service: '' @ msg) else None, s1))"

end
