(* ===== verification/Stress.thy ===== *)
theory Stress
  imports Transfers
begin

text \<open>
  The stress suite (\<^verbatim>\<open>stress_suite.go\<close>): the loop that repeats an operation until a
  context ends, the exec variants and their data checks, guest memory, the memory growth
  verdict, and the transfer workloads with their bounded pools.
\<close>

section \<open>Sequences of calls\<close>

text \<open>Calls of the task service, each with the label its error is wrapped in.\<close>

fun run_rpcs :: "'s service \<Rightarrow> (string \<times> req) list \<Rightarrow> 's \<Rightarrow> err option \<times> 's" where
  "run_rpcs svc [] s = (None, s)"
| "run_rpcs svc ((label, r) # rs) s =
     (case svc r s of
        ((resp, Some e), s1) \<Rightarrow> (Some (label @ '': '' @ e), s1)
      | ((resp, None), s1) \<Rightarrow> run_rpcs svc rs s1)"

lemma run_rpcs_append:
  "run_rpcs svc (as @ bs) s = (case run_rpcs svc as s of (Some e, s1) \<Rightarrow> (Some e, s1) | (None, s1) \<Rightarrow> run_rpcs svc bs s1)"
  by (induction svc as s rule: run_rpcs.induct) (simp_all split: prod.split option.split)

lemma run_rpcs_calls:
  "run_rpcs svc rs s = (None, s1) \<Longrightarrow>
     snd (calls svc (map snd rs) s) = s1 \<and> (\<forall>a \<in> set (fst (calls svc (map snd rs) s)). snd a = None)"
proof (induction rs arbitrary: s)
  case (Cons lr rs)
  obtain label r where lr: "lr = (label, r)" by (cases lr)
  obtain resp e t where svc: "svc r s = ((resp, e), t)" by (metis prod.collapse)
  with Cons.prems lr have "e = None" "run_rpcs svc rs t = (None, s1)" by (auto split: option.splits)
  with Cons.IH [of t] lr svc show ?case by (simp add: split_beta)
qed simp

section \<open>runStress\<close>

text \<open>
  \<open>dead\<close> says that the outer context has ended; the operation threads the state and gives
  an error or none. \<open>vm\<close> is the test on the platform (Windows or macOS) under which a
  deadline error of an operation is skipped.
\<close>

partial_function (option) stress_loop ::
    "bool \<Rightarrow> ('s \<Rightarrow> bool) \<Rightarrow> ('s \<Rightarrow> goerr option \<times> 's) \<Rightarrow> nat \<Rightarrow> 's \<Rightarrow> (nat \<times> goerr option \<times> 's) option" where
  "stress_loop vm dead fn iters s =
     (if dead s then Some (iters, None, s)
      else case fn s of
        (None, s1) \<Rightarrow> stress_loop vm dead fn (Suc iters) s1
      | (Some e, s1) \<Rightarrow>
          if dead s1 then Some (iters, None, s1)
          else if vm \<and> err_is e DeadlineExceeded then stress_loop vm dead fn iters s1
          else Some (iters, Some e, s1))"

definition runStress ::
    "bool \<Rightarrow> ('s \<Rightarrow> bool) \<Rightarrow> ('s \<Rightarrow> goerr option \<times> 's) \<Rightarrow> 's \<Rightarrow> (nat \<times> goerr option \<times> 's) option" where
  "runStress vm dead fn s = stress_loop vm dead fn 0 s"

text \<open>The state after \<open>n\<close> operations, whatever they gave.\<close>

definition after_ops :: "('s \<Rightarrow> goerr option \<times> 's) \<Rightarrow> nat \<Rightarrow> 's \<Rightarrow> 's" where
  "after_ops fn n s = ((\<lambda>s. snd (fn s)) ^^ n) s"

lemma after_ops_0 [simp]: "after_ops fn 0 s = s"
  by (simp add: after_ops_def)

lemma after_ops_Suc [simp]: "after_ops fn (Suc n) s = after_ops fn n (snd (fn s))"
  by (simp add: after_ops_def funpow_Suc_right del: funpow.simps)

lemma stress_loop_returns:
  "dead (after_ops fn n s) \<Longrightarrow> \<exists>r. stress_loop vm dead fn i s = Some r"
proof (induction n arbitrary: i s)
  case 0
  then show ?case by (subst stress_loop.simps) simp
next
  case (Suc n)
  then have "\<exists>r. stress_loop vm dead fn j (snd (fn s)) = Some r" for j by simp
  then show ?case by (subst stress_loop.simps) (auto split: prod.split option.split)
qed

text \<open>
  On Linux the run is exact: with no failing operation before the context ends it counts the
  operations and passes; the first failing one, with the context alive, is its error.
\<close>

lemma stress_loop_clean:
  "\<lbrakk>\<forall>j < n. \<not> dead (after_ops fn j s) \<and> fst (fn (after_ops fn j s)) = None; dead (after_ops fn n s)\<rbrakk> \<Longrightarrow>
     stress_loop vm dead fn i s = Some (i + n, None, after_ops fn n s)"
proof (induction n arbitrary: i s)
  case 0
  then show ?case by (subst stress_loop.simps) simp
next
  case (Suc n)
  from Suc.prems(1) have "\<not> dead s" "fst (fn s) = None" by (metis after_ops_0 zero_less_Suc)+
  moreover have "stress_loop vm dead fn (Suc i) (snd (fn s)) = Some (Suc i + n, None, after_ops fn n (snd (fn s)))"
    using Suc.prems by (intro Suc.IH) (auto simp flip: after_ops_Suc)
  ultimately show ?case by (cases "fn s", subst stress_loop.simps) simp
qed

lemma stress_loop_fails:
  "\<lbrakk>\<forall>j < n. \<not> dead (after_ops fn j s) \<and> fst (fn (after_ops fn j s)) = None;
    \<not> dead (after_ops fn n s); fst (fn (after_ops fn n s)) = Some e; \<not> dead (after_ops fn (Suc n) s);
    \<not> vm \<or> \<not> err_is e DeadlineExceeded\<rbrakk> \<Longrightarrow>
     stress_loop vm dead fn i s = Some (i + n, Some e, after_ops fn (Suc n) s)"
proof (induction n arbitrary: i s)
  case 0
  then show ?case by (subst stress_loop.simps) (auto split: prod.split)
next
  case (Suc n)
  from Suc.prems(1) have "\<not> dead s" "fst (fn s) = None" by (metis after_ops_0 zero_less_Suc)+
  moreover have "stress_loop vm dead fn (Suc i) (snd (fn s))
      = Some (Suc i + n, Some e, after_ops fn (Suc n) (snd (fn s)))"
    using Suc.prems by (intro Suc.IH) (auto simp flip: after_ops_Suc)
  ultimately show ?case by (cases "fn s", subst stress_loop.simps) simp
qed

text \<open>And an error of the run is always an operation's, raised while the context was alive.\<close>

theorem stress_loop_error:
  assumes "stress_loop vm dead fn i s = Some (n, Some e, s')"
  shows "\<not> dead s' \<and> (\<exists>s0. \<not> dead s0 \<and> fn s0 = (Some e, s')) \<and> \<not> (vm \<and> err_is e DeadlineExceeded)"
proof -
  let ?P = "\<lambda>vm dead fn (i :: nat) (s :: 'a) r. \<forall>n e s'. r = (n :: nat, Some e, s') \<longrightarrow>
    \<not> dead s' \<and> (\<exists>s0. \<not> dead s0 \<and> fn s0 = (Some e, s')) \<and> \<not> (vm \<and> err_is e DeadlineExceeded)"
  have "?P vm dead fn i s (n, Some e, s')"
  proof (rule stress_loop.raw_induct [OF _ assms, where P = ?P])
    fix loop vm dead fn i and s :: 'a and r
    assume IH: "\<And>vm dead fn i s r. loop vm dead fn i s = Some r \<Longrightarrow> ?P vm dead fn i s r"
      and body: "(if dead s then Some (i, None, s)
        else case fn s of (None, s1) \<Rightarrow> loop vm dead fn (Suc i) s1
          | (Some e, s1) \<Rightarrow> if dead s1 then Some (i, None, s1)
              else if vm \<and> err_is e DeadlineExceeded then loop vm dead fn i s1 else Some (i, Some e, s1)) = Some r"
    show "?P vm dead fn i s r"
    proof (cases "dead s")
      case True
      with body show ?thesis by auto
    next
      case False
      note alive = this
      obtain o1 s1 where f: "fn s = (o1, s1)" by (cases "fn s")
      show ?thesis
      proof (cases o1)
        case None
        with body f alive have "loop vm dead fn (Suc i) s1 = Some r" by simp
        then show ?thesis by (rule IH)
      next
        case (Some e)
        note b = body [unfolded f, unfolded Some, simplified alive if_False prod.case option.case]
        show ?thesis
        proof (cases "dead s1")
          case True
          with b have "r = (i, None, s1)" by simp
          then show ?thesis by simp
        next
          case d: False
          show ?thesis
          proof (cases "vm \<and> err_is e DeadlineExceeded")
            case True
            with b d have "loop vm dead fn i s1 = Some r" by simp
            then show ?thesis by (rule IH)
          next
            case v: False
            with b d have "r = (i, Some e, s1)" by (simp only: if_False option.inject)
            with f alive Some d v show ?thesis by blast
          qed
        qed
      qed
    qed
  qed
  then show ?thesis by blast
qed

section \<open>The exec variants\<close>

definition stressExecMinSize :: nat where "stressExecMinSize = 32 * 1024"
definition stressExecMaxSize :: nat where "stressExecMaxSize = 32 * 1024 * 1024"
definition stressExecConcurrency :: nat where "stressExecConcurrency = 4"

datatype exec_kind = KindEcho | KindBurstexit | KindRoundTrip

text \<open>Iteration \<open>i\<close>, counted from 1, runs the kind in declaration order.\<close>

definition kind_of :: "nat \<Rightarrow> exec_kind" where
  "kind_of i = [KindEcho, KindBurstexit, KindRoundTrip] ! ((i - 1) mod 3)"

text \<open>
  \<open>intN k n\<close> is draw \<open>k\<close> of the seeded generator below \<open>n\<close>; an iteration takes one draw
  for each of its execs, in order, before any of them runs.
\<close>

definition nextSize :: "(nat \<Rightarrow> nat \<Rightarrow> nat) \<Rightarrow> nat \<Rightarrow> nat" where
  "nextSize intN k = stressExecMinSize + intN k (stressExecMaxSize - stressExecMinSize + 1)"

definition iteration_sizes :: "(nat \<Rightarrow> nat \<Rightarrow> nat) \<Rightarrow> nat \<Rightarrow> nat list" where
  "iteration_sizes intN i =
     map (\<lambda>j. nextSize intN ((i - 1) * stressExecConcurrency + j)) [0..<stressExecConcurrency]"

definition exec_id :: "nat \<Rightarrow> nat \<Rightarrow> string" where
  "exec_id i j = ''e-'' @ dec i @ CHR ''-'' # dec j"

text \<open>The first error stored, in the order the execs of an iteration finish.\<close>

definition first_error :: "goerr option list \<Rightarrow> goerr option" where
  "first_error finished = Option.bind (find (\<lambda>r. r \<noteq> None) finished) id"

lemma nextSize_bounds:
  "(\<And>k n. 0 < n \<Longrightarrow> intN k n < n) \<Longrightarrow> stressExecMinSize \<le> nextSize intN k \<and> nextSize intN k \<le> stressExecMaxSize"
proof -
  assume "\<And>k n. 0 < n \<Longrightarrow> intN k n < n"
  then have "intN k (stressExecMaxSize - stressExecMinSize + 1) < stressExecMaxSize - stressExecMinSize + 1" by simp
  then show ?thesis by (simp add: nextSize_def stressExecMinSize_def stressExecMaxSize_def)
qed

lemma kind_cycle: "kind_of (3 * q + 1) = KindEcho" "kind_of (3 * q + 2) = KindBurstexit"
  "kind_of (3 * q + 3) = KindRoundTrip"
  by (simp_all add: kind_of_def mod_Suc)

lemma exec_id_inj: "exec_id i j = exec_id k l \<longleftrightarrow> i = k \<and> j = l"
proof
  assume "exec_id i j = exec_id k l"
  then have e: "dec i @ CHR ''-'' # dec j = dec k @ CHR ''-'' # dec l" by (simp add: exec_id_def)
  have nd: "CHR ''-'' \<notin> set (dec n)" for n using dec_digits digit_not_special(4) by blast
  have "takeWhile (\<lambda>c. c \<noteq> CHR ''-'') (dec i @ CHR ''-'' # dec j) = dec i"
    "takeWhile (\<lambda>c. c \<noteq> CHR ''-'') (dec k @ CHR ''-'' # dec l) = dec k" using nd by simp_all
  with e have "dec i = dec k" by simp
  with e show "i = k \<and> j = l" by simp
qed simp

lemma first_error_None: "first_error rs = None \<longleftrightarrow> (\<forall>r \<in> set rs. r = None)"
  by (induction rs) (auto simp: first_error_def)

lemma first_error_Some: "first_error rs = Some e \<Longrightarrow> Some e \<in> set rs"
  by (induction rs) (auto simp: first_error_def split: if_splits)

section \<open>Checking what an exec wrote\<close>

text \<open>The byte count and the checksum of everything read from standard output.\<close>

definition verify_stdout :: "nat \<Rightarrow> bytes \<Rightarrow> err option" where
  "verify_stdout size1 got =
     (if length got \<noteq> size1
      then Some (''stdout truncated: got '' @ dec (length got) @ '' bytes, want '' @ dec size1)
      else if crc32c got \<noteq> tiledPayloadCRC32 (int size1)
      then Some (''stdout CRC mismatch: got '' @ hex32 (crc32c got) @ '', want ''
             @ hex32 (tiledPayloadCRC32 (int size1)) @ '' (data corrupted)'')
      else None)"

text \<open>The machine under the exec helpers: scratch directories, pipes, and what readers get.\<close>

record 's exec_rig =
  x_svc :: "'s service"
  x_cid :: string
  x_mkdtemp :: "string \<Rightarrow> 's \<Rightarrow> string result \<times> 's"
  x_pipe :: "string \<Rightarrow> string \<Rightarrow> 's \<Rightarrow> string result \<times> 's"
  x_spec :: "string list \<Rightarrow> bytes result"
  x_stdout :: "string \<Rightarrow> 's \<Rightarrow> bytes"
  x_feed :: "string \<Rightarrow> bytes \<Rightarrow> 's \<Rightarrow> (goerr + err option) \<times> 's"
  x_drained :: "string \<Rightarrow> 's \<Rightarrow> (goerr + err option) \<times> 's"

text \<open>The scratch directory and the pipes of an exec, in the order they are made.\<close>

fun make_pipes :: "'s exec_rig \<Rightarrow> string \<Rightarrow> string list \<Rightarrow> 's \<Rightarrow> string list result \<times> 's" where
  "make_pipes x dir [] s = (Inr [], s)"
| "make_pipes x dir (name # names) s =
     (case x_pipe x dir name s of
        (Inl e, s1) \<Rightarrow> (Inl (''create '' @ name @ '' pipe: '' @ e), s1)
      | (Inr path, s1) \<Rightarrow>
         (case make_pipes x dir names s1 of
            (Inl e, s2) \<Rightarrow> (Inl e, s2)
          | (Inr paths, s2) \<Rightarrow> (Inr (path # paths), s2)))"

definition exec_dir :: "'s exec_rig \<Rightarrow> string \<Rightarrow> string list \<Rightarrow> 's \<Rightarrow> string list result \<times> 's" where
  "exec_dir x prefix1 names s =
     (case x_mkdtemp x prefix1 s of
        (Inl e, s1) \<Rightarrow> (Inl (''mkdtemp: '' @ e), s1)
      | (Inr dir, s1) \<Rightarrow> make_pipes x dir names s1)"

definition exec_start :: "'s exec_rig \<Rightarrow> string \<Rightarrow> bytes \<Rightarrow> string \<Rightarrow> string \<Rightarrow> string \<Rightarrow> (string \<times> req) list" where
  "exec_start x eid spec inp out errp =
     [(''exec'', Exec (x_cid x) eid False inp out errp spec), (''start exec'', Start (x_cid x) eid)]"

definition exec_end :: "'s exec_rig \<Rightarrow> string \<Rightarrow> (string \<times> req) list" where
  "exec_end x eid = [(''wait'', Wait (x_cid x) eid), (''delete exec'', Delete (x_cid x) eid)]"

definition runOneExec :: "'s exec_rig \<Rightarrow> string \<Rightarrow> bytes \<Rightarrow> 's \<Rightarrow> err option \<times> 's" where
  "runOneExec x eid spec s =
     (case exec_dir x ''stress-exec-'' [''stdout'', ''stderr''] s of
        (Inl e, s1) \<Rightarrow> (Some e, s1)
      | (Inr paths, s1) \<Rightarrow>
          run_rpcs (x_svc x) (exec_start x eid spec [] (paths ! 0) (paths ! 1) @ exec_end x eid) s1)"

definition captureExec :: "'s exec_rig \<Rightarrow> string \<Rightarrow> bytes \<Rightarrow> 's \<Rightarrow> bytes result \<times> 's" where
  "captureExec x eid spec s =
     (case exec_dir x ''stress-capture-'' [''stdout'', ''stderr''] s of
        (Inl e, s1) \<Rightarrow> (Inl e, s1)
      | (Inr paths, s1) \<Rightarrow>
         (case run_rpcs (x_svc x)
             (exec_start x eid spec [] (paths ! 0) (paths ! 1) @ exec_end x eid) s1 of
            (Some e, s2) \<Rightarrow> (Inl e, s2)
          | (None, s2) \<Rightarrow> (Inr (x_stdout x (paths ! 0) s2), s2)))"

text \<open>The end both checked variants share: drain standard output to its end, then verify.\<close>

definition drain_and_verify :: "'s exec_rig \<Rightarrow> string \<Rightarrow> nat \<Rightarrow> 's \<Rightarrow> err option \<times> 's" where
  "drain_and_verify x out size1 s =
     (case x_drained x out s of
        (Inl e, s1) \<Rightarrow> (Some (''stdout drain timed out after Delete: '' @ err_text e), s1)
      | (Inr (Some e), s1) \<Rightarrow> (Some (''stdout read: '' @ e), s1)
      | (Inr None, s1) \<Rightarrow> (verify_stdout size1 (x_stdout x out s1), s1))"

definition runExecBurstexit :: "'s exec_rig \<Rightarrow> string \<Rightarrow> nat \<Rightarrow> 's \<Rightarrow> err option \<times> 's" where
  "runExecBurstexit x eid size1 s =
     (case exec_dir x ''stress-burst-'' [''stdout'', ''stderr''] s of
        (Inl e, s1) \<Rightarrow> (Some e, s1)
      | (Inr paths, s1) \<Rightarrow>
         (case x_spec x [''/bin/burstexit'', dec size1, ''0''] of
            Inl e \<Rightarrow> (Some (''marshal exec spec: '' @ e), s1)
          | Inr spec \<Rightarrow>
             (case run_rpcs (x_svc x)
                 (exec_start x eid spec [] (paths ! 0) (paths ! 1) @ exec_end x eid) s1 of
                (Some e, s2) \<Rightarrow> (Some e, s2)
              | (None, s2) \<Rightarrow> drain_and_verify x (paths ! 0) size1 s2)))"

definition runExecRoundTrip :: "'s exec_rig \<Rightarrow> string \<Rightarrow> nat \<Rightarrow> 's \<Rightarrow> err option \<times> 's" where
  "runExecRoundTrip x eid size1 s =
     (case exec_dir x ''stress-rt-'' [''stdin'', ''stdout'', ''stderr''] s of
        (Inl e, s1) \<Rightarrow> (Some e, s1)
      | (Inr paths, s1) \<Rightarrow>
         (case x_spec x [''/bin/cat''] of
            Inl e \<Rightarrow> (Some (''marshal exec spec: '' @ e), s1)
          | Inr spec \<Rightarrow>
             (case run_rpcs (x_svc x) (exec_start x eid spec (paths ! 0) (paths ! 1) (paths ! 2)) s1 of
                (Some e, s2) \<Rightarrow> (Some e, s2)
              | (None, s2) \<Rightarrow>
                 (case x_feed x (paths ! 0) (fst (copy_limited tile_read (32 * 1024) new_tile_reader (int size1))) s2 of
                    (Inl e, s3) \<Rightarrow> (Some (''stdin write timed out: '' @ err_text e), s3)
                  | (Inr (Some e), s3) \<Rightarrow> (Some (''write stdin: '' @ e), s3)
                  | (Inr None, s3) \<Rightarrow>
                     (case run_rpcs (x_svc x)
                         ((''close stdin'', CloseIO (x_cid x) eid True) # exec_end x eid) s3 of
                        (Some e, s4) \<Rightarrow> (Some e, s4)
                      | (None, s4) \<Rightarrow> drain_and_verify x (paths ! 1) size1 s4)))))"

lemma verify_tiled: "verify_stdout n (tiledPayload n) = None"
  by (simp add: verify_stdout_def tiledPayloadCRC32_eq)

lemma verify_length: "verify_stdout n got = None \<Longrightarrow> length got = n \<and> crc32c got = crc32c (tiledPayload n)"
  by (simp add: verify_stdout_def tiledPayloadCRC32_eq split: if_splits)

text \<open>No damage to a single byte, and no lost or extra byte, passes.\<close>

theorem verify_detects_byte:
  assumes "i < n" and "c \<noteq> tiledPayload n ! i"
  shows "verify_stdout n ((tiledPayload n)[i := c]) \<noteq> None"
proof
  assume "verify_stdout n ((tiledPayload n)[i := c]) = None"
  then have "crc32c ((tiledPayload n)[i := c]) = crc32c (tiledPayload n)" by (simp add: verify_length)
  moreover have "length (tiledPayload n) = n"
    using verify_length [OF verify_tiled] by simp
  ultimately show False
    using assms crc32c_one_byte [of c "tiledPayload n ! i" "take i (tiledPayload n)" "drop (Suc i) (tiledPayload n)"]
    by (simp add: upd_conv_take_nth_drop flip: id_take_nth_drop)
qed

text \<open>A round trip passes only if the container's output has the payload's length and checksum.\<close>

lemma drain_and_verify_ok:
  assumes "drain_and_verify x out n s = (None, s')"
  shows "length (x_stdout x out s') = n \<and> crc32c (x_stdout x out s') = crc32c (tiledPayload n)"
  using assms verify_length by (auto simp: drain_and_verify_def split: prod.splits sum.splits option.splits)

lemma runExecRoundTrip_ok:
  assumes "runExecRoundTrip x eid n s = (None, s')"
  shows "\<exists>out. length (x_stdout x out s') = n \<and> crc32c (x_stdout x out s') = crc32c (tiledPayload n)"
proof -
  from assms obtain out s1 where "drain_and_verify x out n s1 = (None, s')"
    by (auto simp: runExecRoundTrip_def split: prod.splits sum.splits option.splits)
  from drain_and_verify_ok [OF this] show ?thesis by blast
qed

end
