(* ===== verification/Workloads.thy ===== *)
theory Workloads
  imports Stress
begin

text \<open>
  The workloads of the stress suite (\<^verbatim>\<open>stress_suite.go\<close>): sampling guest memory, the
  verdict on memory growth, one full container lifecycle per iteration, and the concurrent
  stat, write and read subtests over pools of files that do not grow.
\<close>

section \<open>Guest memory\<close>

text \<open>
  \<^verbatim>\<open>fmt.Sscanf(line, "<label> %d kB", &val)\<close> counted as one item: the label, at least one
  space, then a signed decimal number in range.
\<close>

definition take_number :: "string \<Rightarrow> int option" where
  "take_number s =
     (case s of
        [] \<Rightarrow> None
      | c # cs \<Rightarrow>
          if c = CHR ''-'' \<or> c = CHR ''+''
          then (if takeWhile is_digit cs = [] then None else atoi (c # takeWhile is_digit cs))
          else (if takeWhile is_digit s = [] then None else atoi (takeWhile is_digit s)))"

definition scan_kb :: "string \<Rightarrow> string \<Rightarrow> int option" where
  "scan_kb label line =
     (if \<not> has_prefix line label then None
      else let r = drop (length label) line in
        if r = [] \<or> \<not> is_space (hd r) then None else take_number (dropWhile is_space r))"

definition meminfo_line :: "int \<times> int \<Rightarrow> string \<Rightarrow> int \<times> int" where
  "meminfo_line = (\<lambda>(tot, avail) line.
     (case scan_kb ''MemTotal:'' line of None \<Rightarrow> tot | Some v \<Rightarrow> v,
      case scan_kb ''MemAvailable:'' line of None \<Rightarrow> avail | Some v \<Rightarrow> v))"

definition parse_meminfo :: "string \<Rightarrow> int result" where
  "parse_meminfo out =
     (case foldl meminfo_line (0, 0) (split_on CHR 0x0A out) of
        (tot, avail) \<Rightarrow>
          if tot = 0 then Inl ''could not parse MemTotal from /proc/meminfo output''
          else Inr (wrap64 (wrap64 (tot - avail) * 1024)))"

definition readGuestMem :: "'s exec_rig \<Rightarrow> string \<Rightarrow> 's \<Rightarrow> int result \<times> 's" where
  "readGuestMem x eid s =
     (case x_spec x [''/bin/cat'', ''/proc/meminfo''] of
        Inl e \<Rightarrow> (Inl e, s)
      | Inr spec \<Rightarrow>
         (case captureExec x eid spec s of
            (Inl e, s1) \<Rightarrow> (Inl e, s1)
          | (Inr out, s1) \<Rightarrow> (parse_meminfo out, s1)))"

text \<open>A line of meminfo as the kernel prints it, with the number right-aligned.\<close>

definition meminfo_text :: "string \<Rightarrow> nat \<Rightarrow> nat \<Rightarrow> string" where
  "meminfo_text label pad kb = label @ replicate (Suc pad) CHR '' '' @ dec kb @ '' kB''"

lemma takeWhile_dec: "takeWhile is_digit (dec kb @ CHR '' '' # r) = dec kb"
  using dec_digits by (simp add: takeWhile_append is_digit_def)

lemma dec_not_space: "dropWhile is_space (dec kb @ r) = dec kb @ r"
proof -
  obtain c cs where d: "dec kb = c # cs" by (cases "dec kb") auto
  then have "\<not> is_space c" using dec_digits [of c kb] digit_not_space by auto
  then show ?thesis by (simp add: d)
qed

lemma dropWhile_replicate: "P c \<Longrightarrow> dropWhile P (replicate n c @ r) = dropWhile P r"
  by (induction n) auto

lemma take_number_dec:
  assumes "int kb < 2 ^ 63"
  shows "take_number (dec kb @ CHR '' '' # r) = Some (int kb)"
proof -
  obtain c cs where d: "dec kb = c # cs" by (cases "dec kb") auto
  then have "is_digit c" using dec_digits [of c kb] by simp
  then have "c \<noteq> CHR ''-''" "c \<noteq> CHR ''+''" using digit_not_special by auto
  then have "take_number (dec kb @ CHR '' '' # r)
      = (if takeWhile is_digit (dec kb @ CHR '' '' # r) = [] then None
         else atoi (takeWhile is_digit (dec kb @ CHR '' '' # r)))"
    by (simp add: take_number_def d)
  then show ?thesis using assms by (simp add: takeWhile_dec atoi_dec)
qed

lemma scan_kb_line: "int kb < 2 ^ 63 \<Longrightarrow> scan_kb label (meminfo_text label pad kb) = Some (int kb)"
  by (simp add: scan_kb_def meminfo_text_def is_space_def dropWhile_replicate dec_not_space
      take_number_dec Let_def)

lemma scan_kb_other: "\<not> has_prefix line label \<Longrightarrow> scan_kb label line = None"
  by (simp add: scan_kb_def)

lemma fold_meminfo_skip:
  "\<forall>l \<in> set ls. \<not> has_prefix l ''MemTotal:'' \<and> \<not> has_prefix l ''MemAvailable:'' \<Longrightarrow>
     foldl meminfo_line ta ls = ta"
  by (induction ls arbitrary: ta) (auto simp: meminfo_line_def scan_kb_other)

theorem parse_meminfo_reads:
  assumes "split_on CHR 0x0A out = pre @ meminfo_text ''MemTotal:'' i tot # mid
      @ meminfo_text ''MemAvailable:'' j avail # post"
    and "\<forall>l \<in> set (pre @ mid @ post). \<not> has_prefix l ''MemTotal:'' \<and> \<not> has_prefix l ''MemAvailable:''"
    and "0 < tot" and "avail \<le> tot" and "int tot * 1024 < 2 ^ 63"
  shows "parse_meminfo out = Inr (int (tot - avail) * 1024)"
proof -
  have small: "int tot < 2 ^ 63" "int avail < 2 ^ 63" "in_int64 (int tot - int avail)"
    "in_int64 ((int tot - int avail) * 1024)"
    using assms(4,5) by (auto simp: in_int64_def)
  have np: "\<not> has_prefix (meminfo_text ''MemTotal:'' i tot) ''MemAvailable:''"
    "\<not> has_prefix (meminfo_text ''MemAvailable:'' j avail) ''MemTotal:''"
    by (simp_all add: meminfo_text_def has_prefix_def)
  have step: "meminfo_line (0, 0) (meminfo_text ''MemTotal:'' i tot) = (int tot, 0)"
    "meminfo_line (int tot, 0) (meminfo_text ''MemAvailable:'' j avail) = (int tot, int avail)"
    using small by (simp_all add: meminfo_line_def scan_kb_line scan_kb_other np)
  have "foldl meminfo_line (0, 0) (split_on CHR 0x0A out) = (int tot, int avail)"
    unfolding assms(1) using assms(2) by (simp add: fold_meminfo_skip step)
  then show ?thesis using assms(3,4) small by (simp add: parse_meminfo_def wrap64_id of_nat_diff)
qed

section \<open>Memory growth\<close>

text \<open>
  The verdict of testExec on host memory: \<open>after_read\<close> is the second reading, whose error is
  dropped, so that a failed read counts as zero bytes.
\<close>

definition stressMaxRSSGrowth :: "string \<Rightarrow> int" where
  "stressMaxRSSGrowth goos = (if goos = ''darwin'' then 128 * 2 ^ 20 else 384 * 2 ^ 20)"

definition rss_verdict :: "string \<Rightarrow> int \<Rightarrow> int \<Rightarrow> int result \<Rightarrow> err option" where
  "rss_verdict goos override rssBefore after_read =
     (let rssAfter = (case after_read of Inl e \<Rightarrow> 0 | Inr v \<Rightarrow> v);
          threshold = (if 0 < override then override else stressMaxRSSGrowth goos);
          growth = rssAfter - rssBefore
      in if threshold < growth
         then Some (''host shim RSS grew '' @ itoa growth @ '' bytes (threshold '' @ itoa threshold
              @ '') during exec stress'')
         else None)"

lemma rss_verdict_iff:
  "rss_verdict goos override before (Inr now) = None \<longleftrightarrow>
     now - before \<le> (if 0 < override then override else stressMaxRSSGrowth goos)"
  by (simp add: rss_verdict_def Let_def)

text \<open>A shim whose memory cannot be read any more passes, whatever it had grown to.\<close>

lemma rss_unreadable_passes: "0 \<le> before \<Longrightarrow> rss_verdict goos override before (Inl e) = None"
  by (simp add: rss_verdict_def stressMaxRSSGrowth_def Let_def)

section \<open>One lifecycle per iteration\<close>

text \<open>
  The rig of doFullLifecycle: bringing the shim up (which ends the sub-test on an error of its
  own), the polls of the captured output, and the shutdown call's error.
\<close>

datatype poll = Shows bytes | Deadline

fun await_output :: "string \<Rightarrow> poll list \<Rightarrow> err option" where
  "await_output word [] = Some ''timed out waiting for output''"
| "await_output word (Deadline # ps) = Some ''timed out waiting for output''"
| "await_output word (Shows got # ps) = (if str_contains got word then None else await_output word ps)"

definition lifecycle_end :: "'s service \<Rightarrow> string \<Rightarrow> nat \<Rightarrow> 's \<Rightarrow> err option \<times> nat \<times> 's" where
  "lifecycle_end svc cid closed s =
     (case run_rpcs svc [(''wait'', Wait cid []), (''delete'', Delete cid [])] s of
        (Some e, s1) \<Rightarrow> (Some e, closed, s1)
      | (None, s1) \<Rightarrow>
         (case svc (Shutdown cid False) s1 of
            ((resp, None), s2) \<Rightarrow> (None, closed, s2)
          | ((resp, Some e), s2) \<Rightarrow>
              if str_contains e ''ttrpc: closed'' then (None, Suc closed, s2)
              else (Some (''shutdown: '' @ e), closed, s2)))"

definition doFullLifecycle ::
    "'s service \<Rightarrow> req \<Rightarrow> ('s \<Rightarrow> poll list) \<Rightarrow> nat \<Rightarrow> 's \<Rightarrow> err option \<times> nat \<times> 's" where
  "doFullLifecycle svc create polls closed s =
     (let cid = rq_id create in
      case run_rpcs svc [(''create'', create), (''start'', Start cid [])] s of
        (Some e, s1) \<Rightarrow> (Some e, closed, s1)
      | (None, s1) \<Rightarrow>
         (case await_output ''hello'' (polls s1) of
            Some e \<Rightarrow> (Some e, closed, s1)
          | None \<Rightarrow> lifecycle_end svc cid closed s1))"

lemma await_output_ok: "await_output word ps = None \<Longrightarrow> \<exists>got. Shows got \<in> set ps \<and> str_contains got word"
  by (induction word ps rule: await_output.induct) (auto split: if_splits)

text \<open>A clean iteration has made every call of the lifecycle, in order, and none failed before shutdown.\<close>

lemma lifecycle_end_ok:
  assumes "lifecycle_end svc cid closed s = (None, closed', s')"
  shows "\<exists>s1. run_rpcs svc [(''wait'', Wait cid []), (''delete'', Delete cid [])] s = (None, s1)
    \<and> snd (svc (Shutdown cid False) s1) = s'
    \<and> (closed' = closed \<or> (\<exists>e. snd (fst (svc (Shutdown cid False) s1)) = Some e \<and> str_contains e ''ttrpc: closed''))"
  using assms by (fastforce simp: lifecycle_end_def split: prod.splits option.splits if_splits)

text \<open>
  The outcome of the sub-test of an iteration: it passed, it failed with the error the body
  returned, or a helper ended it (\<^verbatim>\<open>t.Fatal\<close>) before the body could return one.
\<close>

datatype subtest = Passed | ReturnedErr goerr | FatalInHelper string

definition iteration_result :: "subtest \<Rightarrow> goerr option" where
  "iteration_result o1 = (case o1 of Passed \<Rightarrow> None | ReturnedErr e \<Rightarrow> Some e | FatalInHelper m \<Rightarrow> None)"

text \<open>A sub-test a helper ended is counted as an iteration, and the run goes on.\<close>

lemma fatal_in_helper_continues:
  assumes "\<not> dead s" and "fn s = (iteration_result (FatalInHelper m), s1)"
  shows "stress_loop vm dead fn i s = stress_loop vm dead fn (Suc i) s1"
  using assms by (subst stress_loop.simps) (simp add: iteration_result_def)

section \<open>Transfer workloads\<close>

definition stressReadPoolSize :: nat where "stressReadPoolSize = 1000"
definition stressWritePoolSize :: nat where "stressWritePoolSize = 100"
definition stressReadDir :: string where "stressReadDir = ''/tmp/stress-read''"
definition stressWriteDir :: string where "stressWriteDir = ''/tmp/stress-write''"

definition pool_file :: "nat \<Rightarrow> string" where
  "pool_file i = ''file-'' @ dec_pad 5 i @ ''.txt''"

definition stressFileContent :: "nat \<Rightarrow> bytes" where
  "stressFileContent i = ''stress-content-'' @ dec_pad 5 i @ newline"

text \<open>The three operations on the container, each with its own deadline.\<close>

record 's loads =
  l_stat :: "string \<Rightarrow> 's \<Rightarrow> goerr option \<times> 's"
  l_write :: "string \<Rightarrow> string \<Rightarrow> bytes \<Rightarrow> 's \<Rightarrow> goerr option \<times> 's"
  l_read :: "string \<Rightarrow> 's \<Rightarrow> (goerr + (string \<times> bytes result) list \<times> err option) \<times> 's"

definition read_pool_path :: "nat \<Rightarrow> string" where
  "read_pool_path i = stressReadDir @ CHR ''/'' # pool_file i"

fun scan_tar :: "string \<Rightarrow> (string \<times> bytes result) list \<Rightarrow> err option \<Rightarrow> bytes result" where
  "scan_tar name [] None = Inl (''entry '' @ quote name @ '' not found in tar'')"
| "scan_tar name [] (Some e) = Inl (''read tar: '' @ e)"
| "scan_tar name ((n, content) # es) bad =
     (if has_suffix n name then
        (case content of Inl e \<Rightarrow> Inl (''read tar entry: '' @ e) | Inr data \<Rightarrow> Inr data)
      else scan_tar name es bad)"

definition stressTransferReadFile :: "'s loads \<Rightarrow> string \<Rightarrow> string \<Rightarrow> 's \<Rightarrow> (goerr + bytes) \<times> 's" where
  "stressTransferReadFile l path name s =
     (case l_read l path s of
        (Inl e, s1) \<Rightarrow> (Inl e, s1)
      | (Inr (es, bad), s1) \<Rightarrow>
         (case scan_tar name es bad of Inl e \<Rightarrow> (Inl (OtherErr e), s1) | Inr data \<Rightarrow> (Inr data, s1)))"

text \<open>Setting up the read pool, then checking that every file of it exists.\<close>

fun write_pool :: "'s loads \<Rightarrow> nat list \<Rightarrow> 's \<Rightarrow> err option \<times> 's" where
  "write_pool l [] s = (None, s)"
| "write_pool l (i # is) s =
     (case l_write l stressReadDir (pool_file i) (stressFileContent i) s of
        (Some e, s1) \<Rightarrow> (Some (''read pool setup '' @ dec i @ '': '' @ err_text e), s1)
      | (None, s1) \<Rightarrow> write_pool l is s1)"

fun count_missing :: "'s loads \<Rightarrow> nat list \<Rightarrow> nat \<Rightarrow> 's \<Rightarrow> nat \<times> 's" where
  "count_missing l [] missing s = (missing, s)"
| "count_missing l (i # is) missing s =
     (case l_stat l (read_pool_path i) s of
        (e, s1) \<Rightarrow> count_missing l is (if e = None then missing else Suc missing) s1)"

definition setup_read_pool :: "'s loads \<Rightarrow> 's \<Rightarrow> err option \<times> 's" where
  "setup_read_pool l s =
     (case write_pool l [0..<stressReadPoolSize] s of
        (Some e, s1) \<Rightarrow> (Some e, s1)
      | (None, s1) \<Rightarrow>
         (case count_missing l [0..<stressReadPoolSize] 0 s1 of
            (missing, s2) \<Rightarrow>
              (if 0 < missing
               then Some (''setup verify: '' @ dec missing @ CHR ''/'' # dec stressReadPoolSize
                 @ '' read-pool files were not persisted by the shim'')
               else None, s2)))"

text \<open>Call \<open>i\<close>, counted from 1, of each subtest's function.\<close>

definition stat_op :: "'s loads \<Rightarrow> 's \<Rightarrow> goerr option \<times> 's" where
  "stat_op l = l_stat l ''/data/stat''"

definition write_name :: "nat \<Rightarrow> string" where
  "write_name i = pool_file (i mod stressWritePoolSize)"

definition write_op :: "'s loads \<Rightarrow> nat \<Rightarrow> 's \<Rightarrow> goerr option \<times> 's" where
  "write_op l i = l_write l stressWriteDir (write_name i) (stressFileContent i)"

definition read_index :: "nat \<Rightarrow> nat" where
  "read_index i = (i - 1) mod stressReadPoolSize"

definition read_op :: "'s loads \<Rightarrow> nat \<Rightarrow> 's \<Rightarrow> goerr option \<times> 's" where
  "read_op l i s =
     (let j = read_index i; name = pool_file j; want = stressFileContent j in
      case stressTransferReadFile l (read_pool_path j) name s of
        (Inl e, s1) \<Rightarrow> (Some e, s1)
      | (Inr got, s1) \<Rightarrow>
          (if got \<noteq> want
           then Some (OtherErr (''content mismatch for '' @ name @ '': got '' @ quote got @ '', want '' @ quote want))
           else None, s1))"

lemma pool_file_inj: "pool_file i = pool_file j \<longleftrightarrow> i = j"
  by (simp add: pool_file_def)

lemma stressFileContent_inj: "stressFileContent i = stressFileContent j \<longleftrightarrow> i = j"
  by (simp add: stressFileContent_def)

text \<open>However long the write subtest runs it uses the same hundred names.\<close>

lemma write_names_bounded: "range write_name \<subseteq> pool_file ` {..<stressWritePoolSize}"
  by (auto simp: write_name_def stressWritePoolSize_def)

theorem write_names_card: "card (range write_name) = stressWritePoolSize"
proof -
  have "pool_file ` {..<stressWritePoolSize} \<subseteq> range write_name"
  proof
    fix p
    assume "p \<in> pool_file ` {..<stressWritePoolSize}"
    then obtain i where "i < stressWritePoolSize" "p = pool_file i" by auto
    then have "p = write_name i" by (simp add: write_name_def)
    then show "p \<in> range write_name" by simp
  qed
  then have "range write_name = pool_file ` {..<stressWritePoolSize}" using write_names_bounded by blast
  moreover have "inj_on pool_file {..<stressWritePoolSize}" by (simp add: inj_on_def pool_file_inj)
  ultimately show ?thesis by (simp add: card_image)
qed

lemma write_pool_ok:
  "write_pool l is s = (None, s') \<Longrightarrow>
     \<forall>i \<in> set is. \<exists>t t'. l_write l stressReadDir (pool_file i) (stressFileContent i) t = (None, t')"
  by (induction l "is" s rule: write_pool.induct) (fastforce split: prod.splits option.splits)+

lemma count_missing_ge: "m \<le> fst (count_missing l is m s)"
proof (induction "is" arbitrary: m s)
  case (Cons i "is")
  show ?case
    using Cons.IH [of m] Cons.IH [of "Suc m"] by (auto split: prod.split intro: Suc_leD)
qed simp

lemma count_missing_none:
  "fst (count_missing l is 0 s) = 0 \<Longrightarrow> \<forall>i \<in> set is. \<exists>t t'. l_stat l (read_pool_path i) t = (None, t')"
proof (induction "is" arbitrary: s)
  case (Cons i "is")
  obtain e s1 where st: "l_stat l (read_pool_path i) s = (e, s1)" by (cases "l_stat l (read_pool_path i) s")
  have "e = None"
  proof (rule ccontr)
    assume "e \<noteq> None"
    with Cons.prems st have "fst (count_missing l is (Suc 0) s1) = 0" by simp
    with count_missing_ge [of "Suc 0" l "is" s1] show False by simp
  qed
  with Cons st show ?case by auto
qed simp

text \<open>Setup passes only if every file of the pool was written and then found.\<close>

theorem setup_read_pool_ok:
  assumes "setup_read_pool l s = (None, s')"
  shows "\<forall>i < stressReadPoolSize. (\<exists>t t'. l_write l stressReadDir (pool_file i) (stressFileContent i) t = (None, t'))
    \<and> (\<exists>t t'. l_stat l (read_pool_path i) t = (None, t'))"
proof -
  from assms obtain s1 where w: "write_pool l [0..<stressReadPoolSize] s = (None, s1)"
    and c: "fst (count_missing l [0..<stressReadPoolSize] 0 s1) = 0"
    by (auto simp: setup_read_pool_def split: prod.splits option.splits if_splits)
  from write_pool_ok [OF w] count_missing_none [OF c] show ?thesis by simp
qed

text \<open>A read passes only if the archive held the file's own content, under a name ending in its name.\<close>

lemma scan_tar_found: "scan_tar name es bad = Inr data \<Longrightarrow> \<exists>n. (n, Inr data) \<in> set es \<and> has_suffix n name"
  by (induction name es bad rule: scan_tar.induct) (auto split: if_splits sum.splits)

theorem read_op_ok:
  assumes "read_op l i s = (None, s')"
  shows "\<exists>es bad n. l_read l (read_pool_path (read_index i)) s = (Inr (es, bad), s')
    \<and> (n, Inr (stressFileContent (read_index i))) \<in> set es \<and> has_suffix n (pool_file (read_index i))
    \<and> read_index i < stressReadPoolSize"
proof -
  have r: "read_index i < stressReadPoolSize" by (simp add: read_index_def stressReadPoolSize_def)
  from assms obtain es bad where
    "l_read l (read_pool_path (read_index i)) s = (Inr (es, bad), s')"
    "scan_tar (pool_file (read_index i)) es bad = Inr (stressFileContent (read_index i))"
    by (auto simp: read_op_def stressTransferReadFile_def Let_def split: prod.splits sum.splits if_splits)
  with scan_tar_found r show ?thesis by blast
qed

section \<open>Collecting the results\<close>

record load_result =
  lr_name :: string
  lr_iters :: nat
  lr_err :: "goerr option"

text \<open>The loop over the results in the order they arrive.\<close>

fun collect :: "load_result list \<Rightarrow> (string \<times> goerr) option \<Rightarrow> (string \<times> goerr) option" where
  "collect [] firstErr = firstErr"
| "collect (r # rs) firstErr =
     collect rs (case (lr_err r, firstErr) of (Some e, None) \<Rightarrow> Some (lr_name r, e) | _ \<Rightarrow> firstErr)"

definition transfer_verdict :: "load_result list \<Rightarrow> err option" where
  "transfer_verdict rs =
     (case collect rs None of None \<Rightarrow> None | Some (name, e) \<Rightarrow> Some (name @ '': '' @ err_text e))"

lemma collect_Some: "collect rs (Some x) = Some x"
  by (induction rs) (auto split: option.split)

lemma collect_None: "collect rs None = None \<longleftrightarrow> (\<forall>r \<in> set rs. lr_err r = None)"
  by (induction rs) (auto simp: collect_Some split: option.split)

lemma collect_first:
  "\<lbrakk>\<forall>r \<in> set pre. lr_err r = None; lr_err r1 = Some e\<rbrakk> \<Longrightarrow> collect (pre @ r1 # post) None = Some (lr_name r1, e)"
  by (induction pre) (auto simp: collect_Some split: option.split)

lemma transfer_verdict_iff: "transfer_verdict rs = None \<longleftrightarrow> (\<forall>r \<in> set rs. lr_err r = None)"
  using collect_None [of rs] by (auto simp: transfer_verdict_def split: option.splits)

end
