(* ===== verification/Ocispec.thy ===== *)
theory Ocispec
  imports Mounts
begin

text \<open>
  The OCI spec of a test container (\<^verbatim>\<open>helpers.go\<close>: createOCISpec and its options). A
  pointer of the spec that may be nil is an option; an option function that follows a nil
  pointer panics, which is the left side of its result.
\<close>

section \<open>The spec\<close>

datatype nstype = MountNamespace | UserNamespace | PIDNamespace | NetworkNamespace | IPCNamespace
  | UTSNamespace | OtherNamespace string

record namespace =
  ns_type :: nstype
  ns_path :: string

record idmapping =
  containerID_of :: nat
  hostID_of :: nat
  map_size :: nat

record memory =
  mem_limit :: "int option"
  mem_swap :: "int option"

record resources =
  res_memory :: "memory option"

record linux =
  namespaces :: "namespace list"
  uidMappings :: "idmapping list"
  gidMappings :: "idmapping list"
  linux_resources :: "resources option"

record capabilities =
  bounding :: "string list"
  effective :: "string list"
  permitted :: "string list"

record process =
  proc_args :: "string list"
  proc_cwd :: string
  proc_env :: "string list"
  proc_caps :: "capabilities option"

record spec_mount =
  sm_destination :: string
  sm_type :: string
  sm_source :: string
  sm_options :: "string list"

record spec =
  sp_version :: string
  sp_root_path :: string
  sp_root_readonly :: bool
  sp_process :: "process option"
  sp_mounts :: "spec_mount list"
  sp_linux :: "linux option"

definition new_linux :: linux where
  "new_linux = \<lparr>namespaces = [], uidMappings = [], gidMappings = [], linux_resources = None\<rparr>"

definition new_ns :: "nstype \<Rightarrow> namespace" where
  "new_ns t = \<lparr>ns_type = t, ns_path = []\<rparr>"

type_synonym spec_opt = "spec \<Rightarrow> spec result"

section \<open>The options\<close>

definition withExtraMounts :: "spec_mount list \<Rightarrow> spec_opt" where
  "withExtraMounts ms s = Inr (s\<lparr>sp_mounts := sp_mounts s @ ms\<rparr>)"

text \<open>The first entry of the type gets the path; the rest of the list is not looked at.\<close>

fun set_ns_path :: "nstype \<Rightarrow> string \<Rightarrow> namespace list \<Rightarrow> namespace list option" where
  "set_ns_path t path [] = None"
| "set_ns_path t path (n # ns) =
     (if ns_type n = t then Some (n\<lparr>ns_path := path\<rparr> # ns)
      else map_option ((#) n) (set_ns_path t path ns))"

definition withHostPathNamespace :: "nstype \<Rightarrow> string \<Rightarrow> spec_opt" where
  "withHostPathNamespace t path s =
     (let l = (case sp_linux s of None \<Rightarrow> new_linux | Some l \<Rightarrow> l)
      in Inr (s\<lparr>sp_linux := Some (l\<lparr>namespaces :=
           (case set_ns_path t path (namespaces l) of
              Some ns \<Rightarrow> ns
            | None \<Rightarrow> namespaces l @ [\<lparr>ns_type = t, ns_path = path\<rparr>])\<rparr>)\<rparr>))"

definition withMemoryLimit :: "int \<Rightarrow> spec_opt" where
  "withMemoryLimit limit s =
     (case sp_linux s of
        None \<Rightarrow> Inl nil_deref
      | Some l \<Rightarrow>
          let r = (case linux_resources l of None \<Rightarrow> \<lparr>res_memory = None\<rparr> | Some r \<Rightarrow> r)
          in Inr (s\<lparr>sp_linux := Some (l\<lparr>linux_resources :=
               Some (r\<lparr>res_memory := Some \<lparr>mem_limit = Some limit, mem_swap = Some limit\<rparr>\<rparr>)\<rparr>)\<rparr>))"

definition withNewNetworkNamespace :: spec_opt where
  "withNewNetworkNamespace s =
     (let l = (case sp_linux s of None \<Rightarrow> new_linux | Some l \<Rightarrow> l)
      in if \<exists>n \<in> set (namespaces l). ns_type n = NetworkNamespace
         then Inr (s\<lparr>sp_linux := Some l\<rparr>)
         else Inr (s\<lparr>sp_linux := Some (l\<lparr>namespaces := namespaces l @ [new_ns NetworkNamespace]\<rparr>)\<rparr>))"

definition withCapabilities :: "string list \<Rightarrow> spec_opt" where
  "withCapabilities caps s =
     (case sp_process s of
        None \<Rightarrow> Inl nil_deref
      | Some p \<Rightarrow>
          let c = (case proc_caps p of None \<Rightarrow> \<lparr>bounding = [], effective = [], permitted = []\<rparr> | Some c \<Rightarrow> c)
          in Inr (s\<lparr>sp_process := Some (p\<lparr>proc_caps := Some (c\<lparr>bounding := bounding c @ caps,
               effective := effective c @ caps, permitted := permitted c @ caps\<rparr>)\<rparr>)\<rparr>))"

section \<open>createOCISpec\<close>

text \<open>Go's conversion to \<^verbatim>\<open>uint32\<close>.\<close>

definition to_uint32 :: "int \<Rightarrow> nat" where
  "to_uint32 i = nat (i mod 2 ^ 32)"

definition base_spec :: "string \<Rightarrow> string list \<Rightarrow> spec" where
  "base_spec version args =
     \<lparr>sp_version = version, sp_root_path = ''rootfs'', sp_root_readonly = False,
      sp_process = Some \<lparr>proc_args = args, proc_cwd = ''/'',
        proc_env = [''PATH=/usr/local/sbin:/usr/local/bin:/usr/sbin:/usr/bin:/sbin:/bin''], proc_caps = None\<rparr>,
      sp_mounts = [\<lparr>sm_destination = ''/proc'', sm_type = ''proc'', sm_source = ''proc'', sm_options = []\<rparr>,
                   \<lparr>sm_destination = ''/dev'', sm_type = ''tmpfs'', sm_source = ''tmpfs'', sm_options = []\<rparr>],
      sp_linux = Some (new_linux\<lparr>namespaces := [new_ns MountNamespace]\<rparr>)\<rparr>"

definition rootless :: "int \<Rightarrow> int \<Rightarrow> linux \<Rightarrow> linux" where
  "rootless uid gid l =
     l\<lparr>namespaces := namespaces l @ [new_ns UserNamespace, new_ns PIDNamespace, new_ns NetworkNamespace],
       uidMappings := [\<lparr>containerID_of = 0, hostID_of = to_uint32 uid, map_size = 1\<rparr>],
       gidMappings := [\<lparr>containerID_of = 0, hostID_of = to_uint32 gid, map_size = 1\<rparr>]\<rparr>"

definition start_spec :: "string \<Rightarrow> int \<Rightarrow> int \<Rightarrow> bool \<Rightarrow> string list \<Rightarrow> spec" where
  "start_spec version uid gid formatMounts args =
     (let s = base_spec version args
      in if uid \<noteq> 0 \<and> \<not> formatMounts then s\<lparr>sp_linux := map_option (rootless uid gid) (sp_linux s)\<rparr> else s)"

fun apply_opts :: "spec_opt list \<Rightarrow> spec \<Rightarrow> spec result" where
  "apply_opts [] s = Inr s"
| "apply_opts (o1 # os) s = (case o1 s of Inl e \<Rightarrow> Inl e | Inr s1 \<Rightarrow> apply_opts os s1)"

text \<open>The JSON encoder is a parameter; the file is written under the bundle directory.\<close>

definition createOCISpec ::
    "'f host \<Rightarrow> (spec \<Rightarrow> bytes result) \<Rightarrow> string \<Rightarrow> int \<Rightarrow> int \<Rightarrow> string \<Rightarrow> string list \<Rightarrow> bool
      \<Rightarrow> spec_opt list \<Rightarrow> 'f \<Rightarrow> err option \<times> 'f" where
  "createOCISpec h json version uid gid bundleDir args formatMounts opts f =
     (case apply_opts opts (start_spec version uid gid formatMounts args) of
        Inl panic \<Rightarrow> (Some panic, f)
      | Inr s \<Rightarrow>
         (case json s of
            Inl e \<Rightarrow> (Some (''failed to marshal OCI spec: '' @ e), f)
          | Inr data \<Rightarrow>
             (case h_do h (WriteFile (path_join [bundleDir, ''config.json'']) 420 data) f of
                (Some e, f1) \<Rightarrow> (Some (''failed to write config.json: '' @ e), f1)
              | (None, f1) \<Rightarrow> (None, f1))))"

section \<open>What the options promise\<close>

definition has_ns :: "nstype \<Rightarrow> spec \<Rightarrow> bool" where
  "has_ns t s \<longleftrightarrow> (\<exists>l. sp_linux s = Some l \<and> (\<exists>n \<in> set (namespaces l). ns_type n = t))"

definition ns_paths :: "nstype \<Rightarrow> spec \<Rightarrow> string list" where
  "ns_paths t s =
     (case sp_linux s of None \<Rightarrow> []
      | Some l \<Rightarrow> map ns_path (filter (\<lambda>n. ns_type n = t) (namespaces l)))"

lemma set_ns_path_None: "set_ns_path t path ns = None \<longleftrightarrow> (\<forall>n \<in> set ns. ns_type n \<noteq> t)"
  by (induction ns) auto

lemma set_ns_path_Some:
  "set_ns_path t path ns = Some ns' \<Longrightarrow>
     filter (\<lambda>n. ns_type n = u) ns' = (if u = t
       then (hd (filter (\<lambda>n. ns_type n = t) ns))\<lparr>ns_path := path\<rparr> # tl (filter (\<lambda>n. ns_type n = t) ns)
       else filter (\<lambda>n. ns_type n = u) ns) \<and> filter (\<lambda>n. ns_type n = t) ns \<noteq> []"
  by (induction ns arbitrary: ns') (auto split: if_splits)

theorem withHostPathNamespace_sets:
  assumes "withHostPathNamespace t path s = Inr s'"
  shows "ns_paths t s' = path # tl (ns_paths t s) \<and> (u \<noteq> t \<longrightarrow> ns_paths u s' = ns_paths u s)"
proof -
  let ?l = "case sp_linux s of None \<Rightarrow> new_linux | Some l \<Rightarrow> l"
  have l: "ns_paths v s = map ns_path (filter (\<lambda>n. ns_type n = v) (namespaces ?l))" for v
    by (simp add: ns_paths_def new_linux_def split: option.split)
  have s': "sp_linux s' = Some (?l\<lparr>namespaces := (case set_ns_path t path (namespaces ?l) of
       Some ns \<Rightarrow> ns | None \<Rightarrow> namespaces ?l @ [\<lparr>ns_type = t, ns_path = path\<rparr>])\<rparr>)"
    using assms by (auto simp: withHostPathNamespace_def Let_def)
  show ?thesis
  proof (cases "set_ns_path t path (namespaces ?l)")
    case None
    then have "filter (\<lambda>n. ns_type n = t) (namespaces ?l) = []" by (simp add: set_ns_path_None filter_empty_conv)
    with s' None l show ?thesis by (simp add: ns_paths_def)
  next
    case (Some ns)
    from set_ns_path_Some [OF Some, of t] set_ns_path_Some [OF Some, of u] s' Some l show ?thesis
      by (simp add: ns_paths_def map_tl)
  qed
qed

lemma spec_update_same: "sp_linux s = Some l \<Longrightarrow> s\<lparr>sp_linux := Some l\<rparr> = s"
  by (cases s) simp

lemma set_ns_path_again:
  "set_ns_path t path ns = Some ns' \<Longrightarrow> set_ns_path t q ns' = set_ns_path t q ns"
  by (induction ns arbitrary: ns') (auto split: if_splits)

lemma withNewNetworkNamespace_idem:
  assumes "withNewNetworkNamespace s = Inr s'"
  shows "withNewNetworkNamespace s' = Inr s' \<and> has_ns NetworkNamespace s'
    \<and> (\<forall>t. t \<noteq> NetworkNamespace \<longrightarrow> ns_paths t s' = ns_paths t s)"
  using assms
  by (auto simp: withNewNetworkNamespace_def has_ns_def ns_paths_def new_linux_def new_ns_def Let_def
      spec_update_same split: option.splits if_splits)

definition memory_of :: "spec \<Rightarrow> memory option" where
  "memory_of s = Option.bind (sp_linux s) (\<lambda>l. Option.bind (linux_resources l) res_memory)"

lemma withMemoryLimit_sets:
  assumes "withMemoryLimit limit s = Inr s'"
  shows "memory_of s' = Some \<lparr>mem_limit = Some limit, mem_swap = Some limit\<rparr>"
    and "ns_paths t s' = ns_paths t s" and "sp_process s' = sp_process s" and "sp_mounts s' = sp_mounts s"
  using assms by (auto simp: withMemoryLimit_def memory_of_def ns_paths_def Let_def split: option.splits)

definition spec_caps :: "spec \<Rightarrow> string set" where
  "spec_caps s = (case Option.bind (sp_process s) proc_caps of
     None \<Rightarrow> {} | Some c \<Rightarrow> set (bounding c) \<inter> set (effective c) \<inter> set (permitted c))"

lemma withCapabilities_grants:
  assumes "withCapabilities caps s = Inr s'"
  shows "set caps \<union> spec_caps s \<subseteq> spec_caps s'" and "sp_linux s' = sp_linux s" and "sp_mounts s' = sp_mounts s"
  using assms by (auto simp: withCapabilities_def spec_caps_def Let_def split: option.splits)

text \<open>A well-formed spec has a process and a Linux section: then no option panics.\<close>

definition spec_wf :: "spec \<Rightarrow> bool" where
  "spec_wf s \<longleftrightarrow> sp_process s \<noteq> None \<and> sp_linux s \<noteq> None"

datatype named_opt = ExtraMounts "spec_mount list" | HostPath nstype string | MemoryLimit int
  | NewNetwork | Capabilities "string list"

fun opt_of :: "named_opt \<Rightarrow> spec_opt" where
  "opt_of (ExtraMounts ms) = withExtraMounts ms"
| "opt_of (HostPath t p) = withHostPathNamespace t p"
| "opt_of (MemoryLimit b) = withMemoryLimit b"
| "opt_of NewNetwork = withNewNetworkNamespace"
| "opt_of (Capabilities cs) = withCapabilities cs"

lemma opt_of_wf: "spec_wf s \<Longrightarrow> \<exists>s'. opt_of o1 s = Inr s' \<and> spec_wf s'"
  by (cases o1) (auto simp: spec_wf_def withExtraMounts_def withHostPathNamespace_def withMemoryLimit_def
      withNewNetworkNamespace_def withCapabilities_def Let_def)

lemma start_spec_wf: "spec_wf (start_spec v uid gid fm args)"
  by (simp add: spec_wf_def start_spec_def base_spec_def Let_def)

text \<open>
  C30. On a spec with a process and a Linux section no sequence of the spec options panics
  on a nil pointer, and the result has both sections.
\<close>

theorem apply_opts_wf: "spec_wf s \<Longrightarrow> \<exists>s'. apply_opts (map opt_of os) s = Inr s' \<and> spec_wf s'"
proof (induction os arbitrary: s)
  case (Cons o1 os)
  from opt_of_wf [OF Cons.prems, of o1] obtain s1 where "opt_of o1 s = Inr s1" "spec_wf s1" by blast
  with Cons.IH show ?case by simp
qed simp

text \<open>A rootless spec has its own network namespace and maps exactly the caller's ids.\<close>

lemma start_spec_rootless:
  assumes "uid \<noteq> 0" "0 \<le> uid" "uid < 2 ^ 32"
  shows "has_ns NetworkNamespace (start_spec v uid gid False args)"
    and "map_option uidMappings (sp_linux (start_spec v uid gid False args))
       = Some [\<lparr>containerID_of = 0, hostID_of = nat uid, map_size = 1\<rparr>]"
  using assms by (simp_all add: start_spec_def base_spec_def rootless_def has_ns_def new_ns_def new_linux_def
      to_uint32_def Let_def)

end
