(* ===== verification/Examples_Harness.thy ===== *)
theory Examples_Harness
  imports Workloads Layers Ocispec
begin

text \<open>
  Concrete hosts, shims, services and transfer endpoints on which the theorems about the
  harness are applied: each theorem with a hypothesis has its witness here.
\<close>

section \<open>Images\<close>

text \<open>A host that keeps the tree of every image, on which no call fails.\<close>

type_synonym images = "string \<Rightarrow> string \<Rightarrow> entry option"

fun image_call :: "call \<Rightarrow> images \<Rightarrow> images" where
  "image_call (CreateFile img) f = f(img := (\<lambda>p. None))"
| "image_call c f = (case img_of c of None \<Rightarrow> f | Some img \<Rightarrow> f(img := img_entry c (f img)))"

definition image_host :: "images host" where
  "image_host =
     \<lparr>h_do = (\<lambda>c f. (None, image_call c f)), h_tempdir = (\<lambda>f. (''/t'', f)), h_getenv = (\<lambda>f v. []),
      h_readfile = (\<lambda>f p. Inl ''ENOENT''), h_http = (\<lambda>f u. Inl ''no route''), h_walk = (\<lambda>f p. Inl ''ENOENT''),
      h_has_readlink = True, h_uid = 0, h_goarch = ''amd64'', h_testbinVersion = ''v0.1.7''\<rparr>"

lemma image_host_do: "do_all image_host cs f = Some (fold image_call cs f)"
  by (induction cs arbitrary: f) (simp_all add: image_host_def)

lemma image_call_img: "img_of c = Some img \<Longrightarrow> image_call c f = f(img := img_entry c (f img))"
  by (cases c) auto

lemma image_call_close: "image_call (ImgClose img) f = f"
  by simp

lemma fold_image_call:
  "\<forall>c \<in> set cs. img_of c = Some img \<Longrightarrow> fold image_call cs f img = fold img_entry cs (f img)"
  by (induction cs arbitrary: f) (auto simp: image_call_img)

lemma image_host_laws: "erofs_laws image_host (\<lambda>f. f)"
  unfolding erofs_laws_def
proof (intro conjI allI impI)
  fix img cs f f'
  assume cs: "\<forall>c \<in> set cs. img_of c = Some img"
    and "do_all image_host (CreateFile img # cs @ [ImgClose img]) f = Some f'"
  then have "f' = fold image_call cs (f(img := (\<lambda>p. None)))" unfolding image_host_do by simp
  with fold_image_call [OF cs] show "f' img = entries cs" by (simp add: entries_def)
next
  fix c f f' img
  assume "h_do image_host c f = (None, f')" "img_of c \<noteq> Some img" "c \<noteq> CreateFile img" "c \<noteq> ImgClose img"
  then show "f' img = f img" by (cases c) (auto simp: image_host_def)
qed

lemma image_host_run: "run_calls image_host cs f = (None, fold image_call (map snd cs) f)"
  by (simp add: run_calls_ok image_host_do)

lemma image_host_layers: "\<exists>paths f'. write_layers_from image_host dir n ks ps f = (Inr paths, f')"
  by (induction ks arbitrary: ps f) (simp_all add: image_host_run)

lemma writeLayersErofs_top_first_witness:
  "\<exists>f'. writeLayersErofs image_host (int 3) (\<lambda>i p. None)
     = (Inr (map (layer_path (fst (h_tempdir image_host (\<lambda>i p. None)))) (rev [1..<Suc 3])), f')"
proof -
  obtain paths f' where w: "writeLayersErofs image_host (int 3) (\<lambda>i p. None) = (Inr paths, f')"
    using image_host_layers [of "''/t''" 3 "[1..<Suc 3]" "replicate 3 []" "\<lambda>i p. None"]
    by (auto simp: writeLayersErofs_def image_host_def)
  with writeLayersErofs_top_first [OF w] show ?thesis by blast
qed


lemma lowerdir_images_witness:
  "map (resolve_ref (erofs_mounts ''/s.ext4'' [''/a'', ''/b''])) (split_on CHR '':'' (join '':'' (lowers [''/a'', ''/b''])))
     = [Some ''/a'', Some ''/b'']"
  using lowerdir_images [of "[''/a'', ''/b'']" "''/s.ext4''"] by simp

section \<open>The OCI spec\<close>

lemma withHostPathNamespace_sets_witness:
  "\<exists>s'. withHostPathNamespace IPCNamespace ''/proc/1/ns/ipc'' (start_spec ''1.0'' 0 0 True []) = Inr s'
     \<and> ns_paths IPCNamespace s' = [''/proc/1/ns/ipc'']"
proof -
  let ?s = "start_spec ''1.0'' 0 0 True []"
  obtain s' where s: "withHostPathNamespace IPCNamespace ''/proc/1/ns/ipc'' ?s = Inr s'"
    by (auto simp: withHostPathNamespace_def Let_def)
  have "ns_paths IPCNamespace ?s = []"
    by (simp add: ns_paths_def start_spec_def base_spec_def new_linux_def new_ns_def Let_def)
  with withHostPathNamespace_sets [OF s, of PIDNamespace] s show ?thesis by auto
qed

lemma apply_opts_wf_witness:
  "\<exists>s'. apply_opts (map opt_of [MemoryLimit 1024, NewNetwork]) (start_spec ''1.0'' 0 0 True []) = Inr s' \<and> spec_wf s'"
  by (rule apply_opts_wf [OF start_spec_wf])

section \<open>Shims\<close>

text \<open>A shim that answers \<^verbatim>\<open>start\<close> with the given bytes.\<close>

definition shim_of :: "bytes \<Rightarrow> unit starter" where
  "shim_of out = \<lparr>s_mkdirtemp = (\<lambda>f d. (Inr (d @ ''/nb-1''), f)), s_mkfifo = (\<lambda>p f. (None, f)),
     s_openfifo = (\<lambda>p f. (None, f)), s_marshal = (\<lambda>r. Inr ''boot''),
     s_run = (\<lambda>c f. (Inr out, f)), s_environ = (\<lambda>f. []), s_wire = proto_wire, s_json = (\<lambda>d p. (Some ''EOF'', p))\<rparr>"

definition plain_config :: config where
  "plain_config = \<lparr>shimBinary = ''shim'', formatMounts = True, cfg_env = [], cfg_debug = False, provideNetwork = False\<rparr>"

definition start_answer :: bytes where
  "start_answer = encode proto_enc [Varint 1 3, Bytes 2 ''unix:///s'']"

lemma uvarint_small: "v < 128 \<Longrightarrow> uvarint v = [char_of v]"
  by (simp add: uvarint.simps)

lemma start_answer_head: "start_answer \<noteq> [] \<and> hd start_answer \<noteq> CHR 0x7B"
proof -
  have h: "put_tag proto_enc 1 VarintType = [char_of (8 :: nat)]"
    by (simp add: proto_enc_def VarintType_def uvarint_small)
  then have "start_answer = char_of (8 :: nat) # put_varint proto_enc 3 @ enc_field proto_enc (Bytes 2 ''unix:///s'')"
    unfolding start_answer_def encode_def by simp
  moreover have "char_of (8 :: nat) \<noteq> CHR 0x7B" by code_simp
  ultimately show ?thesis by (metis list.distinct(1) list.sel(1))
qed


lemma start_answer_parsed:
  "parseBootstrapResult proto_wire json start_answer no_params
     = Some (None, \<lparr>bp_version = 3, bp_address = ''unix:///s'', bp_protocol = []\<rparr>)"
proof -
  have "parse_fields proto_wire start_answer no_params
      = Some (None, fold field_params [Varint 1 3, Bytes 2 ''unix:///s''] no_params)"
    unfolding start_answer_def by (rule parse_fields_encoded [OF proto_laws])
  then show ?thesis
    using start_answer_head
    by (auto simp: parseBootstrapResult_def no_params_def set_varint_def set_bytes_def to_int64_small)
qed


lemma startShim_terminates_witness:
  "fst (startShim (shim_of ''garbage'') ''/tmp'' ''/c.sock'' ''/bin/shim'' ''/b'' ''c1'' ''ns'' plain_config ()) \<noteq> None"
  by (rule startShim_terminates) (simp add: shim_of_def proto_wire_sizes)

text \<open>The first pid other than zero, on the third attempt.\<close>

lemma pid_loop_first_witness:
  "pid_loop (\<lambda>i. if i = 0 then DialErr ''refused'' else if i = 1 then Pid 0 else Pid 42) (\<lambda>i. 5 < i) 0 None = Some (Inr 42)"
  by (rule pid_loop_first [of 2]) (auto simp: less_Suc_eq numeral_eq_Suc)

lemma containerID_component_witness:
  "plain_elem (containerID ''TestShim/run Lifecycle'' ''0a1b'') \<and> length (containerID ''TestShim/run Lifecycle'' ''0a1b'') \<le> 65"
  using containerID_component [of "''0a1b''" "''TestShim/run Lifecycle''"] by simp

section \<open>Processes\<close>

text \<open>One process, whose executable is the given one.\<close>

definition one_proc :: "string \<Rightarrow> bytes \<Rightarrow> procfs" where
  "one_proc exe content = \<lparr>p_readfile = (\<lambda>f. Inr content), p_readlink = (\<lambda>f. if f = proc_path 12 ''exe'' then Inr exe else Inl ''ENOENT''),
     p_readdir = Inr [''self'', ''12''], p_evalSymlinks = (\<lambda>p. Inr ''/bin/shim'')\<rparr>"


lemma shimCmdlineInfo_started_witness:
  "shimCmdlineInfo (one_proc ''/bin/shim'' (proc_cmdline (''/bin/shim'' # shimArgs ''ns1'' ''c1'' ''/c.sock'' True))) 12
     = ''namespace='' @ ''ns1'' @ '' id='' @ ''c1''"
  by (rule shimCmdlineInfo_started [of "''/bin/shim''" _ _ "''/c.sock''" _ _ True])
    (simp_all add: one_proc_def flag_free_def nul_def)

lemma unixSafeDir_exceeds_witness:
  "length (socket_path (unixSafeDir (replicate 26 CHR ''a'')) (replicate 10 CHR ''1'') (replicate 64 CHR ''f'')) = 105"
  by (rule unixSafeDir_exceeds) simp_all

section \<open>Events\<close>

definition exit_event :: envelope where
  "exit_event = \<lparr>env_topic = ''/tasks/exit'', env_namespace = ''ns'', env_event = []\<rparr>"

lemma wait_from_first_witness:
  "wait_from (\<lambda>i. if i = 0 then [] else [Some exit_event]) (\<lambda>i. False) ''/tasks/exit'' 0 = Some (Inr (Some exit_event))
   \<and> (\<exists>j. first_topic ''/tasks/exit'' (if j = (0 :: nat) then [] else [Some exit_event]) = Inr (Some exit_event))"
proof -
  let ?polls = "\<lambda>i :: nat. if i = 0 then [] else [Some exit_event]"
  have w: "wait_from ?polls (\<lambda>i. False) ''/tasks/exit'' 0 = Some (Inr (Some exit_event))"
    by (subst wait_from.simps, simp, subst wait_from.simps) (simp add: exit_event_def)
  have "prefix (?polls j) (?polls k)" if "j \<le> k" for j k using that by simp
  from wait_from_first [OF w this] w show ?thesis by blast
qed

section \<open>Task services\<close>

text \<open>A service that runs nothing: every call succeeds, with the zero response of its kind.\<close>

definition idle_service :: "nat service" where
  "idle_service = answering (\<lambda>r s. ((None, None), Suc s))"


section \<open>Pipes and streams\<close>

lemma drain_complete_witness:
  "\<exists>s. drain_step\<^sup>*\<^sup>* drain_init s \<and> d_done s \<and> d_killed s = None \<and> d_buf s = ''hi'' \<and> d_buf s = d_sent s \<and> d_end s \<noteq> None"
proof -
  let ?a = "drain_init\<lparr>d_sent := ''hi'', d_in := ''hi''\<rparr>"
  let ?b = "?a\<lparr>d_end := Some ''EOF''\<rparr>"
  let ?c = "?b\<lparr>d_buf := ''hi'', d_in := []\<rparr>"
  let ?d = "?c\<lparr>d_done := True, d_err := Some ''EOF''\<rparr>"
  have "drain_step drain_init ?a" using drain_step.writer_puts [of drain_init "''hi''"] by (simp add: drain_init_def)
  moreover have "drain_step ?a ?b" by (rule drain_step.writer_ends) (simp add: drain_init_def)
  moreover have "drain_step ?b ?c" using drain_step.read_chunk [of ?b 2] by (simp add: drain_init_def)
  moreover have "drain_step ?c ?d" by (rule drain_step.read_end) (simp_all add: drain_init_def)
  ultimately have r: "drain_step\<^sup>*\<^sup>* drain_init ?d" by (meson converse_rtranclp_into_rtranclp rtranclp.rtrancl_refl)
  have "d_done ?d" "d_killed ?d = None" by (simp_all add: drain_init_def)
  with drain_complete [OF r this] r show ?thesis by (intro exI [of _ ?d]) simp
qed

lemma rs_wait_silent_witness:
  "\<exists>s. rs_step\<^sup>*\<^sup>* (rs_init ''abc'') s \<and> rs_wait s None \<and> rs_unsent s \<noteq> []"
  by (rule rs_wait_silent) simp

text \<open>Endpoints that keep the last archive, as the bytes of its one entry.\<close>

definition echo_streams :: "bytes streaming" where
  "echo_streams = \<lparr>st_open = (\<lambda>s. (Inr 1, s)), st_marshal_init = (\<lambda>i. Inr i), st_send = (\<lambda>n b s. (None, s)),
     st_recv = (\<lambda>n s. (Inr [], s)), st_native = (\<lambda>e. e)\<rparr>"

definition echo_transfer :: "bytes transfer" where
  "echo_transfer = \<lparr>t_streams = echo_streams, t_marshal_err = (\<lambda>a. None), t_import = (\<lambda>a b d s. (None, d)),
     t_export = (\<lambda>a b s. (None, s)), t_received = (\<lambda>s. s), t_wait = (\<lambda>s. (None, s)),
     t_tar = \<lparr>tar_write = (\<lambda>n m c. Inr c), tar_read = (\<lambda>b. ([(transferred, Inr b)], None))\<rparr>, t_sid = (\<lambda>s. ''data-1'')\<rparr>"


lemma fuzz_path_below_witness:
  "\<exists>es. path_clean (fuzz_path ''a/./b'') = abs_path (''.fuzz-missing'' # es) \<and> (\<forall>e \<in> set es. e \<noteq> ''..'')"
  by (rule fuzz_path_below) code_simp

section \<open>Stress runs\<close>

lemma stress_loop_returns_witness:
  "\<exists>r. stress_loop False (\<lambda>s. 10 \<le> s) (\<lambda>s. (None, s + 1)) 0 (0 :: nat) = Some r"
proof -
  have "after_ops (\<lambda>s. (None :: goerr option, s + 1)) n (m :: nat) = m + n" for n m
    by (induction n arbitrary: m) simp_all
  then show ?thesis using stress_loop_returns [of "\<lambda>s. 10 \<le> s" "\<lambda>s. (None, s + 1)" 10 "0 :: nat" False 0] by simp
qed

lemma stress_loop_error_witness:
  "\<exists>s'. stress_loop False (\<lambda>s. False) (\<lambda>s. (Some EOF, s + 1)) 0 (0 :: nat) = Some (0, Some EOF, s')
     \<and> (\<exists>s0. (\<lambda>s. (Some EOF, s + 1)) s0 = (Some EOF, s'))"
proof -
  have l: "stress_loop False (\<lambda>s. False) (\<lambda>s. (Some EOF, s + 1)) 0 (0 :: nat) = Some (0, Some EOF, 1)"
    by (subst stress_loop.simps) simp
  from stress_loop_error [OF l] l show ?thesis by blast
qed

text \<open>A store of files that is never full.\<close>

definition file_loads :: "(string \<Rightarrow> bytes option) loads" where
  "file_loads = \<lparr>l_stat = (\<lambda>p s. (None, s)), l_write = (\<lambda>d n c s. (None, s(d @ CHR ''/'' # n \<mapsto> c))),
     l_read = (\<lambda>p s. (case s p of None \<Rightarrow> Inl (OtherErr ''no such file'') | Some c \<Rightarrow> Inr ([(p, Inr c)], None), s))\<rparr>"

lemma file_loads_setup: "\<exists>s'. setup_read_pool file_loads s = (None, s')"
proof -
  have "\<exists>s'. write_pool file_loads is s = (None, s')" for "is" s
    by (induction "is" arbitrary: s) (simp_all add: file_loads_def)
  then obtain s1 where "write_pool file_loads [0..<stressReadPoolSize] s = (None, s1)" by blast
  moreover have "count_missing file_loads is m s = (m, s)" for "is" m s
    by (induction "is" arbitrary: s) (simp_all add: file_loads_def)
  ultimately show ?thesis by (simp add: setup_read_pool_def)
qed

lemma setup_read_pool_ok_witness:
  "\<exists>s'. setup_read_pool file_loads Map.empty = (None, s')
     \<and> (\<exists>t t'. l_write file_loads stressReadDir (pool_file 7) (stressFileContent 7) t = (None, t'))"
proof -
  obtain s' where s: "setup_read_pool file_loads Map.empty = (None, s')" using file_loads_setup by blast
  have "7 < stressReadPoolSize" by (simp add: stressReadPoolSize_def)
  with setup_read_pool_ok [OF s] s show ?thesis by blast
qed

lemma read_op_ok_witness:
  "\<exists>s' es bad n. read_op file_loads 1 [read_pool_path 0 \<mapsto> stressFileContent 0] = (None, s')
     \<and> l_read file_loads (read_pool_path (read_index 1)) [read_pool_path 0 \<mapsto> stressFileContent 0] = (Inr (es, bad), s')
     \<and> (n, Inr (stressFileContent (read_index 1))) \<in> set es"
proof -
  let ?s = "[read_pool_path 0 \<mapsto> stressFileContent 0]"
  have i: "read_index (Suc 0) = 0" by (simp add: read_index_def)
  have "has_suffix (read_pool_path 0) (pool_file 0)"
    unfolding read_pool_path_def has_suffix_def by (auto simp: suffix_def)
  then have r: "read_op file_loads 1 ?s = (None, ?s)"
    by (simp add: read_op_def i stressTransferReadFile_def file_loads_def Let_def)
  from read_op_ok [OF r] r show ?thesis by blast
qed

lemma parse_meminfo_reads_witness:
  "parse_meminfo (''MemTotal:        2000 kB'' @ [CHR 0x0A] @ ''MemAvailable:    500 kB'' @ [CHR 0x0A]) = Inr (int (2000 - 500) * 1024)"
proof (rule parse_meminfo_reads [where pre = "[]" and mid = "[]" and post = "[[]]" and i = 7 and j = 3])
  show "split_on CHR 0x0A (''MemTotal:        2000 kB'' @ [CHR 0x0A] @ ''MemAvailable:    500 kB'' @ [CHR 0x0A])
      = [] @ meminfo_text ''MemTotal:'' 7 2000 # [] @ meminfo_text ''MemAvailable:'' 3 500 # [[]]"
    by code_simp
qed (simp_all add: has_prefix_def)

lemma verify_detects_byte_witness:
  "verify_stdout 3 ((tiledPayload 3)[1 := CHR ''z'']) \<noteq> None"
proof (rule verify_detects_byte)
  show "CHR ''z'' \<noteq> tiledPayload 3 ! 1" by code_simp
qed simp

end
