(* ===== verification/Testing.thy ===== *)
theory Testing
  imports Workloads Ocispec
begin

text \<open>
  The behaviour of Go's \<^verbatim>\<open>testing.TB\<close> that the suites rest on: a fatal failure ends the test, an
  error is recorded and the test goes on, cleanups run last registered first once the test has
  ended however it ended, a deferred call runs before them, and a subtest's failure fails its
  parent. A test is a function of the world; what it records and registers is part of its
  result, so that sequencing is associative and one rule per operation says what a clean run
  of it is.
\<close>

section \<open>Tests\<close>

datatype 'a stop = Returned 'a | FatalStop string | SkipStop string

type_synonym 's closing = "'s \<Rightarrow> string list \<times> 's"

type_synonym ('s, 'a) test = "'s \<Rightarrow> 'a stop \<times> string list \<times> 's closing list \<times> 's"

definition ret :: "'a \<Rightarrow> ('s, 'a) test" where
  "ret a s = (Returned a, [], [], s)"

definition andThen :: "('s, 'a) test \<Rightarrow> ('a \<Rightarrow> ('s, 'b) test) \<Rightarrow> ('s, 'b) test" where
  "andThen m f s =
     (case m s of
        (Returned a, es, cs, s1) \<Rightarrow> (case f a s1 of (r, es2, cs2, s2) \<Rightarrow> (r, es @ es2, cs2 @ cs, s2))
      | (FatalStop e, es, cs, s1) \<Rightarrow> (FatalStop e, es, cs, s1)
      | (SkipStop e, es, cs, s1) \<Rightarrow> (SkipStop e, es, cs, s1))"

fun inOrder :: "('s, unit) test list \<Rightarrow> ('s, unit) test" where
  "inOrder [] = ret ()"
| "inOrder (m # ms) = andThen m (\<lambda>u. inOrder ms)"

text \<open>\<^verbatim>\<open>tb.Fatal\<close>, \<^verbatim>\<open>tb.Error\<close>, \<^verbatim>\<open>tb.Skip\<close>, \<^verbatim>\<open>tb.Cleanup\<close>.\<close>

definition fatal :: "string \<Rightarrow> ('s, 'a) test" where
  "fatal e s = (FatalStop e, [], [], s)"

definition errorf :: "string \<Rightarrow> ('s, unit) test" where
  "errorf e s = (Returned (), [e], [], s)"

definition skip :: "string \<Rightarrow> ('s, 'a) test" where
  "skip e s = (SkipStop e, [], [], s)"

definition on_cleanup :: "'s closing \<Rightarrow> ('s, unit) test" where
  "on_cleanup c s = (Returned (), [], [c], s)"

text \<open>An operation on the world, one whose error is fatal, and one that only reports an error.\<close>

definition act :: "('s \<Rightarrow> 'a \<times> 's) \<Rightarrow> ('s, 'a) test" where
  "act f s = (case f s of (a, s1) \<Rightarrow> (Returned a, [], [], s1))"

definition must :: "string \<Rightarrow> ('s \<Rightarrow> 'a result \<times> 's) \<Rightarrow> ('s, 'a) test" where
  "must label f s =
     (case f s of
        (Inl e, s1) \<Rightarrow> (FatalStop (label @ e), [], [], s1)
      | (Inr a, s1) \<Rightarrow> (Returned a, [], [], s1))"

definition must_do :: "string \<Rightarrow> ('s \<Rightarrow> err option \<times> 's) \<Rightarrow> ('s, unit) test" where
  "must_do label f s =
     (case f s of
        (Some e, s1) \<Rightarrow> (FatalStop (label @ e), [], [], s1)
      | (None, s1) \<Rightarrow> (Returned (), [], [], s1))"

text \<open>A condition whose failure is fatal, and one whose failure is an error.\<close>

definition demand :: "string \<Rightarrow> bool \<Rightarrow> ('s, unit) test" where
  "demand msg b = (if b then ret () else fatal msg)"

definition expect :: "string \<Rightarrow> bool \<Rightarrow> ('s, unit) test" where
  "expect msg b = (if b then ret () else errorf msg)"

text \<open>A deferred call: it runs when the function ends, also by a fatal failure.\<close>

definition deferred :: "('s \<Rightarrow> 's) \<Rightarrow> ('s, 'a) test \<Rightarrow> ('s, 'a) test" where
  "deferred f m s = (case m s of (r, es, cs, s1) \<Rightarrow> (r, es, cs, f s1))"

section \<open>Ending a test\<close>

datatype verdict = Passed | Failed | WasSkipped

fun run_closings :: "'s closing list \<Rightarrow> 's \<Rightarrow> string list \<times> 's" where
  "run_closings [] s = ([], s)"
| "run_closings (c # cs) s =
     (case c s of (es, s1) \<Rightarrow> (case run_closings cs s1 of (es2, s2) \<Rightarrow> (es @ es2, s2)))"

definition verdict_of :: "'a stop \<Rightarrow> string list \<Rightarrow> verdict" where
  "verdict_of r es =
     (case r of FatalStop e \<Rightarrow> Failed
      | SkipStop e \<Rightarrow> if es = [] then WasSkipped else Failed
      | Returned a \<Rightarrow> if es = [] then Passed else Failed)"

definition finish :: "('s, 'a) test \<Rightarrow> 's \<Rightarrow> verdict \<times> 's" where
  "finish m s =
     (case m s of (r, es, cs, s1) \<Rightarrow>
       (case run_closings cs s1 of (es2, s2) \<Rightarrow> (verdict_of r (es @ es2), s2)))"

text \<open>\<^verbatim>\<open>t.Run\<close>: the subtest ends, with its cleanups, before the parent goes on.\<close>

definition subtest :: "string \<Rightarrow> ('s, unit) test \<Rightarrow> ('s, unit) test" where
  "subtest name m s =
     (case finish m s of (v, s1) \<Rightarrow> (Returned (), if v = Failed then [name] else [], [], s1))"

text \<open>
  A goroutine that may call \<^verbatim>\<open>Fatal\<close>: only the goroutine ends, the failure is recorded, and
  the test goes on.
\<close>

definition goroutine :: "('s, 'a) test \<Rightarrow> ('s, unit) test" where
  "goroutine m s =
     (case m s of
        (Returned a, es, cs, s1) \<Rightarrow> (Returned (), es, cs, s1)
      | (FatalStop e, es, cs, s1) \<Rightarrow> (Returned (), es @ [e], cs, s1)
      | (SkipStop e, es, cs, s1) \<Rightarrow> (Returned (), es, cs, s1))"

section \<open>Laws\<close>

lemma test_result:
  fixes m :: "('s, 'a) test"
  obtains r es cs t where "m s = (r, es, cs, t)"
  by (cases "m s") auto

lemma andThen_ret [simp]: "andThen (ret a) f = f a"
  by (rule ext) (simp add: andThen_def ret_def)

lemma andThen_ret_right [simp]: "andThen m ret = m"
  by (rule ext) (auto simp: andThen_def ret_def split: prod.split stop.split)

lemma andThen_assoc: "andThen (andThen m f) g = andThen m (\<lambda>a. andThen (f a) g)"
  by (rule ext) (auto simp: andThen_def split: prod.split stop.split)

lemma andThen_fatal [simp]: "andThen (fatal e) f = fatal e"
  by (rule ext) (simp add: andThen_def fatal_def)

lemma inOrder_append: "inOrder (ms @ ns) = andThen (inOrder ms) (\<lambda>u. inOrder ns)"
  by (induction ms) (simp_all add: andThen_assoc)

lemma run_closings_append:
  "run_closings (cs @ ds) s =
     (case run_closings cs s of (es, s1) \<Rightarrow> (case run_closings ds s1 of (es2, s2) \<Rightarrow> (es @ es2, s2)))"
  by (induction cs arbitrary: s) (simp_all split: prod.split)

section \<open>Clean runs\<close>

text \<open>A run that returns, with nothing recorded.\<close>

definition passes :: "('s, 'a) test \<Rightarrow> 's \<Rightarrow> 'a \<Rightarrow> 's \<Rightarrow> bool" where
  "passes m s a s' \<longleftrightarrow> (\<exists>cs. m s = (Returned a, [], cs, s'))"

named_theorems passes_simps "what a clean run of each operation of a test is"

lemma passes_ret [passes_simps]: "passes (ret a) s b s' \<longleftrightarrow> b = a \<and> s' = s"
  by (auto simp: passes_def ret_def)

lemma passes_andThen [passes_simps]:
  "passes (andThen m f) s b s' \<longleftrightarrow> (\<exists>a t. passes m s a t \<and> passes (f a) t b s')"
  by (force simp: passes_def andThen_def split: prod.split stop.split)

lemma passes_fatal [passes_simps]: "\<not> passes (fatal e) s b s'"
  by (simp add: passes_def fatal_def)

lemma passes_errorf [passes_simps]: "\<not> passes (errorf e) s b s'"
  by (simp add: passes_def errorf_def)

lemma passes_skip [passes_simps]: "\<not> passes (skip e) s b s'"
  by (simp add: passes_def skip_def)

lemma passes_on_cleanup [passes_simps]: "passes (on_cleanup c) s b s' \<longleftrightarrow> s' = s"
  by (auto simp: passes_def on_cleanup_def)

lemma passes_act [passes_simps]: "passes (act f) s a s' \<longleftrightarrow> f s = (a, s')"
  by (auto simp: passes_def act_def split: prod.split)

lemma passes_must [passes_simps]: "passes (must label f) s a s' \<longleftrightarrow> f s = (Inr a, s')"
  by (auto simp: passes_def must_def split: prod.split sum.split)

lemma passes_must_do [passes_simps]: "passes (must_do label f) s a s' \<longleftrightarrow> f s = (None, s')"
  by (auto simp: passes_def must_do_def split: prod.split option.split)

lemma passes_demand [passes_simps]: "passes (demand msg b) s a s' \<longleftrightarrow> b \<and> s' = s"
  by (simp add: demand_def passes_fatal passes_ret)

lemma passes_expect [passes_simps]: "passes (expect msg b) s a s' \<longleftrightarrow> b \<and> s' = s"
  by (simp add: expect_def passes_errorf passes_ret)

lemma passes_deferred [passes_simps]:
  "passes (deferred f m) s a s' \<longleftrightarrow> (\<exists>t. passes m s a t \<and> s' = f t)"
  by (auto simp: passes_def deferred_def split: prod.split)

lemma passes_if [passes_simps]:
  "passes (if c then m else n) s a s' \<longleftrightarrow> (if c then passes m s a s' else passes n s a s')"
  by simp

lemma passes_subtest [passes_simps]:
  "passes (subtest name m) s a s' \<longleftrightarrow> snd (finish m s) = s' \<and> fst (finish m s) \<noteq> Failed"
  by (auto simp: passes_def subtest_def split: prod.split)

lemma passes_goroutine:
  "passes (goroutine m) s u s' \<longleftrightarrow> (\<exists>a. passes m s a s') \<or> (\<exists>e cs. m s = (SkipStop e, [], cs, s'))"
  by (auto simp: passes_def goroutine_def split: prod.splits stop.splits)

lemma passes_inOrder_Cons [passes_simps]:
  "passes (inOrder (m # ms)) s u s' \<longleftrightarrow> (\<exists>a t. passes m s a t \<and> passes (inOrder ms) t u s')"
  by (simp add: passes_andThen)

lemma passes_inOrder_Nil [passes_simps]: "passes (inOrder []) s u s' \<longleftrightarrow> s' = s"
  by (simp add: passes_ret)

text \<open>The other way round, to build a clean run of a sequence from those of its parts.\<close>

lemma then_run: "passes m s a t \<Longrightarrow> passes (f a) t b s' \<Longrightarrow> passes (andThen m f) s b s'"
  by (auto simp: passes_andThen)

lemma ret_run: "passes (ret a) s a s"
  by (simp add: passes_ret)

lemma check_run: "b \<Longrightarrow> passes (demand msg b) s () s" "b \<Longrightarrow> passes (expect msg b) s () s"
  by (simp_all add: passes_demand passes_expect)

text \<open>A test that is reported as passed had a clean run, and clean cleanups.\<close>

lemma finish_passed:
  assumes "finish m s = (Passed, s')"
  obtains a t cs where "m s = (Returned a, [], cs, t)" and "run_closings cs t = ([], s')" and "passes m s a t"
proof -
  obtain r es cs t where m: "m s = (r, es, cs, t)" by (rule test_result)
  obtain es2 s2 where c: "run_closings cs t = (es2, s2)" by (metis prod.collapse)
  from assms m c have "verdict_of r (es @ es2) = Passed" "s2 = s'" by (simp_all add: finish_def)
  then obtain a where "r = Returned a" "es = []" "es2 = []"
    by (auto simp: verdict_of_def split: stop.splits if_splits)
  with m c \<open>s2 = s'\<close> that show ?thesis by (simp add: passes_def)
qed

text \<open>Conversely a clean run passes when its cleanups report nothing.\<close>

lemma finish_clean:
  "m s = (Returned a, [], cs, t) \<Longrightarrow> run_closings cs t = ([], s') \<Longrightarrow> finish m s = (Passed, s')"
  by (simp add: finish_def verdict_of_def)

text \<open>No error of a test is lost: an error once recorded fails it, whatever follows.\<close>

lemma error_fails:
  assumes "m s = (Returned a, es, cs, t)" and "es \<noteq> []"
  shows "fst (finish (andThen m f) s) = Failed"
  using assms by (auto simp: finish_def andThen_def verdict_of_def split: prod.splits stop.splits)

section \<open>Cleanups\<close>

text \<open>
  The cleanups of a test are run whatever ends it: those a part of the test registered before
  the end come after those registered later.
\<close>

lemma cleanups_after_fatal:
  assumes "m s = (Returned a, es, cs, s1)" and "f a s1 = (FatalStop e, es2, cs2, s2)"
  shows "finish (andThen m f) s = (Failed, snd (run_closings cs (snd (run_closings cs2 s2))))"
  using assms by (simp add: finish_def andThen_def verdict_of_def run_closings_append split: prod.split)

section \<open>Calls of a service\<close>

text \<open>A call whose error is fatal, one whose error is dropped, and readings of responses.\<close>

definition rpc :: "string \<Rightarrow> 's service \<Rightarrow> req \<Rightarrow> ('s, resp option) test" where
  "rpc label svc r = must label (\<lambda>s. case svc r s of ((a, Some e), t) \<Rightarrow> (Inl e, t) | ((a, None), t) \<Rightarrow> (Inr a, t))"

definition rpc_drop :: "'s service \<Rightarrow> req \<Rightarrow> ('s, unit) test" where
  "rpc_drop svc r = act (\<lambda>s. ((), snd (svc r s)))"

lemma passes_rpc [passes_simps]: "passes (rpc label svc r) s a s' \<longleftrightarrow> svc r s = ((a, None), s')"
  by (auto simp: rpc_def passes_must split: prod.split option.split)

lemma passes_rpc_drop [passes_simps]: "passes (rpc_drop svc r) s a s' \<longleftrightarrow> s' = snd (svc r s)"
  by (auto simp: rpc_drop_def passes_act)

text \<open>\<^verbatim>\<open>resp.Status\<close>, \<^verbatim>\<open>resp.ExitStatus\<close>, \<^verbatim>\<open>resp.Pid\<close>: following a nil response panics.\<close>

definition exit_status :: "resp option \<Rightarrow> ('s, nat) test" where
  "exit_status a = (case a of Some (WaitResp x at) \<Rightarrow> ret x | _ \<Rightarrow> fatal nil_deref)"

definition task_status :: "resp option \<Rightarrow> ('s, status) test" where
  "task_status a = (case a of Some (StateResp i b p st si so se t x at e) \<Rightarrow> ret st | _ \<Rightarrow> fatal nil_deref)"

definition create_pid :: "resp option \<Rightarrow> ('s, nat) test" where
  "create_pid a = (case a of Some (CreateResp p) \<Rightarrow> ret p | _ \<Rightarrow> fatal nil_deref)"

lemma passes_exit_status [passes_simps]:
  "passes (exit_status a) s x s' \<longleftrightarrow> (\<exists>at. a = Some (WaitResp x at)) \<and> s' = s"
  by (auto simp: exit_status_def passes_ret passes_fatal split: option.split resp.split)

lemma passes_task_status [passes_simps]:
  "passes (task_status a) s st s' \<longleftrightarrow>
     (\<exists>i b p si so se t x at e. a = Some (StateResp i b p st si so se t x at e)) \<and> s' = s"
  by (auto simp: task_status_def passes_ret passes_fatal split: option.split resp.split)

lemma passes_create_pid [passes_simps]:
  "passes (create_pid a) s p s' \<longleftrightarrow> a = Some (CreateResp p) \<and> s' = s"
  by (auto simp: create_pid_def passes_ret passes_fatal split: option.split resp.split)

section \<open>Polling a captured output\<close>

text \<open>
  The readings of a buffer that a polling loop makes until its deadline: the first one that
  is accepted ends the loop.
\<close>

fun first_accepted :: "(bytes \<Rightarrow> 'a option) \<Rightarrow> bytes list \<Rightarrow> 'a option" where
  "first_accepted P [] = None"
| "first_accepted P (got # more_reads) = (case P got of Some a \<Rightarrow> Some a | None \<Rightarrow> first_accepted P more_reads)"

definition poll_until :: "string \<Rightarrow> (bytes \<Rightarrow> 'a option) \<Rightarrow> ('s \<Rightarrow> bytes list \<times> 's) \<Rightarrow> ('s, 'a) test" where
  "poll_until label P readings =
     must label (\<lambda>s. case readings s of (gots, t) \<Rightarrow>
       (case first_accepted P gots of Some a \<Rightarrow> (Inr a, t) | None \<Rightarrow> (Inl (concat (take 1 (rev gots))), t)))"

definition containing :: "string \<Rightarrow> bytes \<Rightarrow> bytes option" where
  "containing want got = (if str_contains got want then Some got else None)"

lemma first_accepted_Some: "first_accepted P gots = Some a \<Longrightarrow> \<exists>g \<in> set gots. P g = Some a"
  by (induction gots) (auto split: option.splits)

lemma first_accepted_None: "first_accepted P gots = None \<longleftrightarrow> (\<forall>g \<in> set gots. P g = None)"
  by (induction gots) (auto split: option.splits)

lemma passes_poll_until [passes_simps]:
  "passes (poll_until label P readings) s a s' \<longleftrightarrow> (\<exists>gots. readings s = (gots, s') \<and> first_accepted P gots = Some a)"
  by (auto simp: poll_until_def passes_must split: prod.split option.split)

lemma containing_Some [simp]: "containing want got = Some a \<longleftrightarrow> str_contains got want \<and> a = got"
  by (auto simp: containing_def)

end
