(* ===== verification/Bringup.thy ===== *)
theory Bringup
  imports Testing
begin

text \<open>
  Bringing a shim and a container up (\<^verbatim>\<open>helpers.go\<close>, \<^verbatim>\<open>shimenv.go\<close>): the bundle with its rootfs
  and its events recorder, the request that creates the task, the client for the version the
  shim declared, and the environment of the stress and transfer suites with its shutdown.
\<close>

section \<open>The machine under the suites\<close>

text \<open>
  The host, the shim starter and the services a connection offers are those of the component
  theories, over one state. \<open>lb_socks\<close> and \<open>lb_ev\<close> are the process-wide maps of socket paths
  and recorders, kept in that state. \<open>lb_readings\<close> gives what a loop polling the buffer of a
  FIFO sees until its deadline, \<open>lb_drained\<close> the whole of it once the write end is closed (or
  nothing when the deadline passes first), \<open>lb_buffered\<close> what it holds now; \<open>lb_polls\<close> and
  \<open>lb_log\<close> do the same for the log of a recorder. \<open>lb_feed\<close> writes in the background and gives
  nothing when the write does not end in time. \<open>lb_now\<close> is the wall clock, in seconds since
  year 1 and nanoseconds, \<open>lb_clock\<close> the monotonic one in nanoseconds.
\<close>

record runc_options =
  systemdCgroup :: bool
  ioUid :: nat
  ioGid :: nat
  runcRoot :: string

record 's lab =
  lb_host :: "'s host"
  lb_starter :: "'s starter"
  lb_name :: string
  lb_isBench :: bool
  lb_uid :: int
  lb_gid :: int
  lb_tmpdir :: string
  lb_specVersion :: string
  lb_bigfile :: bytes
  lb_lookPath :: "string \<Rightarrow> 's \<Rightarrow> string result"
  lb_setenv :: "string \<Rightarrow> string \<Rightarrow> 's \<Rightarrow> 's"
  lb_evalSymlinks :: "string \<Rightarrow> 's \<Rightarrow> string result"
  lb_removeAll :: "string \<Rightarrow> 's \<Rightarrow> 's"
  lb_closeLog :: "string \<Rightarrow> 's \<Rightarrow> 's"
  lb_unmount :: "string \<Rightarrow> 's \<Rightarrow> 's"
  lb_urandom :: "'s \<Rightarrow> bytes option \<times> 's"
  lb_sockdir :: "'s \<Rightarrow> string result \<times> 's"
  lb_socks :: "'s \<Rightarrow> sock_cache"
  lb_set_socks :: "sock_cache \<Rightarrow> 's \<Rightarrow> 's"
  lb_ev :: "'s \<Rightarrow> ev_state"
  lb_set_ev :: "ev_state \<Rightarrow> 's \<Rightarrow> 's"
  lb_serve :: "'s \<Rightarrow> err option"
  lb_json :: "spec \<Rightarrow> bytes result"
  lb_anyOptions :: "runc_options \<Rightarrow> bytes result"
  lb_anyProcess :: "process \<Rightarrow> bytes result"
  lb_dial :: "'s \<Rightarrow> string \<Rightarrow> nat result \<times> 's"
  lb_close :: "nat \<Rightarrow> 's \<Rightarrow> 's"
  lb_task2 :: "nat \<Rightarrow> 's service2"
  lb_task3 :: "nat \<Rightarrow> 's service"
  lb_notFound :: "err \<Rightarrow> bool"
  lb_readings :: "string \<Rightarrow> 's \<Rightarrow> bytes list \<times> 's"
  lb_drained :: "string \<Rightarrow> 's \<Rightarrow> bytes option \<times> 's"
  lb_buffered :: "string \<Rightarrow> 's \<Rightarrow> bytes"
  lb_polls :: "nat \<Rightarrow> string \<Rightarrow> 's \<Rightarrow> ((nat \<Rightarrow> log) \<times> nat) \<times> 's"
  lb_log :: "nat \<Rightarrow> 's \<Rightarrow> log"
  lb_exitEvent :: "bytes \<Rightarrow> (string \<times> nat) result"
  lb_openWriter :: "string \<Rightarrow> 's \<Rightarrow> nat result \<times> 's"
  lb_openReader :: "string \<Rightarrow> 's \<Rightarrow> nat result \<times> 's"
  lb_write :: "nat \<Rightarrow> bytes \<Rightarrow> 's \<Rightarrow> err option \<times> 's"
  lb_feed :: "nat \<Rightarrow> bytes \<Rightarrow> 's \<Rightarrow> err option option \<times> 's"
  lb_closeFile :: "nat \<Rightarrow> 's \<Rightarrow> 's"
  lb_now :: "'s \<Rightarrow> int \<times> int"
  lb_clock :: "'s \<Rightarrow> int"
  lb_procfs :: "'s \<Rightarrow> procfs"
  lb_connects :: "string \<Rightarrow> string \<Rightarrow> int \<Rightarrow> 's \<Rightarrow> (nat \<Rightarrow> attempt) \<times> nat"

section \<open>Names and paths\<close>

text \<open>\<^verbatim>\<open>randomSuffix\<close>: four random bytes in hex, zero where the read fell short.\<close>

definition randomSuffix :: "'s lab \<Rightarrow> 's \<Rightarrow> string \<times> 's" where
  "randomSuffix lab s =
     (case lb_urandom lab s of
        (None, s1) \<Rightarrow> (''0000'', s1)
      | (Some data, s1) \<Rightarrow>
          (concat (map (\<lambda>c. [hex_digit (of_char c div 16), hex_digit (of_char c mod 16)])
             (take 4 (data @ replicate 4 nul))), s1))"

definition container_id :: "'s lab \<Rightarrow> ('s, string) test" where
  "container_id lab = act (\<lambda>s. case randomSuffix lab s of (sfx, s1) \<Rightarrow> (containerID (lb_name lab) sfx, s1))"

definition unique_namespace :: "'s lab \<Rightarrow> string \<Rightarrow> ('s, string) test" where
  "unique_namespace lab suite =
     (if lb_isBench lab then ret (uniqueTestNamespace True suite [])
      else act (\<lambda>s. case randomSuffix lab s of (sfx, s1) \<Rightarrow> (uniqueTestNamespace False suite sfx, s1)))"

text \<open>\<^verbatim>\<open>filepath.Dir\<close>.\<close>

definition path_dir :: "string \<Rightarrow> string" where
  "path_dir p = path_clean (rev (dropWhile (\<lambda>c. c \<noteq> CHR ''/'') (rev p)))"

section \<open>The bundle\<close>

text \<open>
  The socket path of a bundle: a short one that had to be made is cached, and forgotten and
  removed at the end of the test that made it.
\<close>

definition sock_path :: "'s lab \<Rightarrow> string \<Rightarrow> ('s, string) test" where
  "sock_path lab bundleDir =
     andThen (act (\<lambda>s. (lb_socks lab s bundleDir, s))) (\<lambda>known.
     andThen (must [] (\<lambda>s. case containerdSockPath (lb_sockdir lab) bundleDir (lb_socks lab s) s of
         ((r, cache), s1) \<Rightarrow> (r, lb_set_socks lab cache s1))) (\<lambda>p.
     andThen (act (\<lambda>s. (lb_socks lab s bundleDir, s))) (\<lambda>now.
     if known = now then ret p
     else andThen (on_cleanup (\<lambda>s. ([], lb_removeAll lab (path_dir p)
            (lb_set_socks lab ((lb_socks lab s)(bundleDir := None)) s)))) (\<lambda>u. ret p))))"

text \<open>
  The recorder of a bundle: one already running is handed out, otherwise it is bound to the
  socket path and stopped at the end of the test that bound it.
\<close>

definition bind_recorder :: "'s lab \<Rightarrow> string \<Rightarrow> string \<Rightarrow> 's \<Rightarrow> nat result \<times> 's" where
  "bind_recorder lab p bundleDir s =
     (case startEventsRecorder (lb_serve lab s) p bundleDir (lb_ev lab s) of
        (r, ev) \<Rightarrow> (r, lb_set_ev lab ev s))"

definition events_recorder :: "'s lab \<Rightarrow> string \<Rightarrow> ('s, nat) test" where
  "events_recorder lab bundleDir =
     andThen (act (\<lambda>s. (recorders (lb_ev lab s) bundleDir, s))) (\<lambda>running.
     case running of
       Some r \<Rightarrow> ret r
     | None \<Rightarrow>
         andThen (sock_path lab bundleDir) (\<lambda>p.
         andThen (must [] (bind_recorder lab p bundleDir)) (\<lambda>r.
         andThen (on_cleanup (\<lambda>s. ([], lb_set_ev lab (stopEventsRecorder p bundleDir (lb_ev lab s)) s))) (\<lambda>u.
         ret r))))"

definition ensure_path :: "'s lab \<Rightarrow> string \<Rightarrow> ('s, unit) test" where
  "ensure_path lab shimDir =
     act (\<lambda>s. let path = h_getenv (lb_host lab) s ''PATH'' in
       ((), if str_contains path shimDir then s else lb_setenv lab ''PATH'' (shimDir @ CHR '':'' # path) s))"

definition shimSetup :: "'s lab \<Rightarrow> config \<Rightarrow> ('s, string \<times> string \<times> mount list) test" where
  "shimSetup lab cfg =
     andThen (must (''shim binary '' @ quote (shimBinary cfg) @ '' not found in PATH: '')
       (\<lambda>s. (lb_lookPath lab (shimBinary cfg) s, s))) (\<lambda>shimBin.
     andThen (ensure_path lab (path_dir shimBin)) (\<lambda>u.
     andThen (act (h_tempdir (lb_host lab))) (\<lambda>tmp.
     andThen (must ''failed to resolve bundle dir: '' (\<lambda>s. (lb_evalSymlinks lab tmp s, s))) (\<lambda>bundleDir.
     let rootfsDir = path_join [bundleDir, ''rootfs''] in
     andThen (must_do ''failed to create rootfs dir: '' (h_do (lb_host lab) (MkdirAll rootfsDir))) (\<lambda>u.
     andThen (on_cleanup (\<lambda>s. ([], lb_unmount lab rootfsDir s))) (\<lambda>u.
     andThen (must [] (buildEmbeddedRootfs (lb_host lab) (lb_bigfile lab) bundleDir (formatMounts cfg)))
       (\<lambda>rootfsMounts.
     andThen (events_recorder lab bundleDir) (\<lambda>r.
     ret (shimBin, bundleDir, rootfsMounts)))))))))"

definition oci_spec ::
    "'s lab \<Rightarrow> string \<Rightarrow> string list \<Rightarrow> config \<Rightarrow> spec_opt list \<Rightarrow> ('s, unit) test" where
  "oci_spec lab bundleDir args cfg opts =
     must_do [] (createOCISpec (lb_host lab) (lb_json lab) (lb_specVersion lab) (lb_uid lab) (lb_gid lab)
       bundleDir args (formatMounts cfg) opts)"

definition io_fifos :: "'s lab \<Rightarrow> string \<Rightarrow> ('s, string \<times> string) test" where
  "io_fifos lab dir = must [] (createIOFifos (s_mkfifo (lb_starter lab)) dir)"

definition stdio_fifos :: "'s lab \<Rightarrow> string \<Rightarrow> ('s, string \<times> string \<times> string) test" where
  "stdio_fifos lab dir = must [] (createStdioFifos (s_mkfifo (lb_starter lab)) dir)"

text \<open>The three drain helpers differ in what the harness can later read; each opens the FIFO.\<close>

definition drainFifo :: "'s lab \<Rightarrow> string \<Rightarrow> ('s, unit) test" where
  "drainFifo lab path = must_do ''failed to open fifo: '' (s_openfifo (lb_starter lab) path)"

section \<open>Starting the shim\<close>

text \<open>
  \<^verbatim>\<open>startShim\<close> with what it registers on the way: each cleanup stands where the code
  registers it, so that a later failure still runs the earlier ones. Printing the buffered
  log leaves the world as it is.
\<close>

definition run_start :: "'s starter \<Rightarrow> shim_cmd \<Rightarrow> 's \<Rightarrow> bytes result \<times> 's" where
  "run_start st cmd s =
     (case s_run st cmd s of
        (Inl (e, errOut), s1) \<Rightarrow> (Inl (''shim start failed: '' @ e @ newline @ ''stderr: '' @ errOut), s1)
      | (Inr out, s1) \<Rightarrow> (Inr out, s1))"

definition decode_start :: "'s starter \<Rightarrow> bytes \<Rightarrow> params result" where
  "decode_start st out =
     (case parseBootstrapResult (s_wire st) (s_json st) out no_params of
        None \<Rightarrow> Inl ''does not return''
      | Some (Some e, p) \<Rightarrow> Inl (''failed to parse bootstrap params: '' @ e @ newline @ ''raw stdout: '' @ out)
      | Some (None, p) \<Rightarrow> check_params p)"

definition start_shim :: "'s lab \<Rightarrow> string \<Rightarrow> string \<Rightarrow> string \<Rightarrow> string \<Rightarrow> config \<Rightarrow> ('s, params) test" where
  "start_shim lab shimBin bundleDir cid ns cfg =
     (let st = lb_starter lab in
      andThen (must ''failed to create socket dir: '' (\<lambda>s. s_mkdirtemp st s (unixSafeDir (lb_tmpdir lab)))) (\<lambda>socketDir.
      andThen (on_cleanup (\<lambda>s. ([], lb_removeAll lab socketDir s))) (\<lambda>u.
      andThen (must_do [] (setupLogPipe st bundleDir)) (\<lambda>u.
      andThen (if lb_isBench lab then ret () else on_cleanup (\<lambda>s. ([], s))) (\<lambda>u.
      andThen (on_cleanup (\<lambda>s. ([], lb_closeLog lab bundleDir s))) (\<lambda>u.
      andThen (sock_path lab bundleDir) (\<lambda>addr.
      andThen (must ''marshal bootstrap params: ''
        (\<lambda>s. (s_marshal st \<lparr>br_id = cid, br_ns = ns, br_address = addr, br_socketDir = socketDir,
           br_debug = cfg_debug cfg\<rparr>, s))) (\<lambda>bootData.
      andThen (must [] (\<lambda>s. run_start st
        (start_cmd shimBin bundleDir cid ns addr socketDir bootData (s_environ st s) cfg) s)) (\<lambda>out.
      andThen (must [] (\<lambda>s. (decode_start st out, s))) (\<lambda>p.
      andThen (on_cleanup (\<lambda>s. ([], snd (deleteShim st addr shimBin bundleDir cid ns cfg s)))) (\<lambda>u.
      ret p)))))))))))"

definition connect_shim :: "'s lab \<Rightarrow> string \<Rightarrow> ('s, nat) test" where
  "connect_shim lab address =
     andThen (must [] (connectShim (lb_dial lab) address)) (\<lambda>conn.
     andThen (on_cleanup (\<lambda>s. ([], lb_close lab conn s))) (\<lambda>u. ret conn))"

definition newTaskClient :: "'s lab \<Rightarrow> nat \<Rightarrow> int \<Rightarrow> ('s, 's service) test" where
  "newTaskClient lab conn version =
     (case taskClientForVersion (lb_task2 lab conn) (lb_task3 lab conn) version of
        None \<Rightarrow> fatal (''unsupported shim task API version '' @ itoa version)
      | Some svc \<Rightarrow> ret svc)"

section \<open>The create request\<close>

text \<open>
  \<^verbatim>\<open>newCreateTaskRequest\<close> on Unix: only a user other than root gets the rootless options. The
  directory's creation may fail unnoticed.
\<close>

definition rootless_options :: "'s lab \<Rightarrow> runc_options" where
  "rootless_options lab =
     (if 0 < lb_uid lab
      then \<lparr>systemdCgroup = False, ioUid = to_uint32 (lb_uid lab), ioGid = to_uint32 (lb_gid lab),
        runcRoot = path_join [lb_tmpdir lab, ''shimtest-runc'']\<rparr>
      else \<lparr>systemdCgroup = False, ioUid = 0, ioGid = 0, runcRoot = []\<rparr>)"

definition create_request ::
    "'s lab \<Rightarrow> string \<Rightarrow> string \<Rightarrow> string \<Rightarrow> string \<Rightarrow> string \<Rightarrow> mount list \<Rightarrow> ('s, req) test" where
  "create_request lab cid bundle inp out errp rootfs =
     andThen (act (\<lambda>s. ((), if 0 < lb_uid lab
       then snd (h_do (lb_host lab) (MkdirAll (runcRoot (rootless_options lab))) s) else s))) (\<lambda>u.
     andThen (must ''failed to marshal runc options: '' (\<lambda>s. (lb_anyOptions lab (rootless_options lab), s))) (\<lambda>opts.
     ret (Create cid bundle rootfs False inp out errp [] [] opts)))"

definition newCreateTaskRequest ::
    "'s lab \<Rightarrow> string \<Rightarrow> string \<Rightarrow> string \<Rightarrow> string \<Rightarrow> mount list \<Rightarrow> ('s, req) test" where
  "newCreateTaskRequest lab cid bundle out errp rootfs = create_request lab cid bundle [] out errp rootfs"

definition newCreateTaskRequestStdin ::
    "'s lab \<Rightarrow> string \<Rightarrow> string \<Rightarrow> string \<Rightarrow> string \<Rightarrow> string \<Rightarrow> mount list \<Rightarrow> ('s, req) test" where
  "newCreateTaskRequestStdin lab cid bundle inp out errp rootfs =
     create_request lab cid bundle inp out errp rootfs"

definition shutdownTask :: "'s service \<Rightarrow> string \<Rightarrow> ('s, unit) test" where
  "shutdownTask svc cid = rpc_drop svc (Shutdown cid False)"

section \<open>The environment of the stress and transfer suites\<close>

record 's shimEnv =
  env_conn :: nat
  env_tc :: "'s service"
  env_cid :: string
  env_shimPID :: int

text \<open>
  The pid: the first one an attempt over Connect reports before the deadline, otherwise the
  number in the file the shim may have written, otherwise 0.
\<close>

definition shim_pid :: "'s lab \<Rightarrow> string \<Rightarrow> string \<Rightarrow> string \<Rightarrow> int \<Rightarrow> 's \<Rightarrow> int" where
  "shim_pid lab bundleDir address cid version s =
     (case lb_connects lab address cid version s of (att, n) \<Rightarrow>
       (case shimPidViaConnect att (\<lambda>i. n \<le> i) of
          Some (Inr pid) \<Rightarrow> int pid
        | _ \<Rightarrow>
           (case h_readfile (lb_host lab) s (path_join [bundleDir, ''shim.pid'']) of
              Inl e \<Rightarrow> 0
            | Inr data \<Rightarrow> fst (parseIntBytes data))))"

definition newShimEnv :: "'s lab \<Rightarrow> config \<Rightarrow> string \<Rightarrow> ('s, 's shimEnv) test" where
  "newShimEnv lab cfg suite =
     andThen (shimSetup lab cfg) (\<lambda>(shimBin, bundleDir, rootfsMounts).
     andThen (container_id lab) (\<lambda>cid.
     andThen (oci_spec lab bundleDir [''/bin/forever''] cfg []) (\<lambda>u.
     andThen (io_fifos lab bundleDir) (\<lambda>(out, errp).
     andThen (unique_namespace lab suite) (\<lambda>ns.
     andThen (events_recorder lab bundleDir) (\<lambda>r.
     andThen (start_shim lab shimBin bundleDir cid ns cfg) (\<lambda>p.
     andThen (connect_shim lab (bp_address p)) (\<lambda>conn.
     andThen (on_cleanup (\<lambda>s. ([], lb_close lab conn s))) (\<lambda>u.
     andThen (newTaskClient lab conn (bp_version p)) (\<lambda>tc.
     andThen (drainFifo lab out) (\<lambda>u.
     andThen (drainFifo lab errp) (\<lambda>u.
     andThen (newCreateTaskRequest lab cid bundleDir out errp rootfsMounts) (\<lambda>r.
     andThen (rpc ''failed to create task: '' tc r) (\<lambda>a.
     andThen (rpc ''failed to start task: '' tc (Start cid [])) (\<lambda>a.
     act (\<lambda>s. (\<lparr>env_conn = conn, env_tc = tc, env_cid = cid,
        env_shimPID = shim_pid lab bundleDir (bp_address p) cid (bp_version p) s\<rparr>, s)))))))))))))))))"

text \<open>Best effort: the errors of the four calls are dropped.\<close>

definition shutdownShim :: "'s shimEnv \<Rightarrow> ('s, unit) test" where
  "shutdownShim env =
     inOrder [rpc_drop (env_tc env) (Kill (env_cid env) [] 9 True), rpc_drop (env_tc env) (Wait (env_cid env) []),
       rpc_drop (env_tc env) (Delete (env_cid env) []), rpc_drop (env_tc env) (Shutdown (env_cid env) False)]"

section \<open>A suite\<close>

text \<open>
  Every suite registers the leak check and then runs its tests one after the other, each
  under its own name.
\<close>

definition in_subtest :: "'s lab \<Rightarrow> string \<Rightarrow> 's lab" where
  "in_subtest lab name = lab\<lparr>lb_name := lb_name lab @ CHR ''/'' # name\<rparr>"

definition leak_check :: "'s lab \<Rightarrow> string \<Rightarrow> ('s, unit) test" where
  "leak_check lab shimBin =
     andThen (act (\<lambda>s. (lb_procfs lab s, s))) (\<lambda>before_all.
     on_cleanup (\<lambda>s. (registerShimLeakCheck before_all (lb_procfs lab s) shimBin, s)))"

definition suite_run ::
    "'s lab \<Rightarrow> config \<Rightarrow> (string \<times> ('s lab \<Rightarrow> config \<Rightarrow> ('s, unit) test)) list \<Rightarrow> ('s, unit) test" where
  "suite_run lab cfg tests =
     andThen (leak_check lab (shimBinary cfg)) (\<lambda>u.
     inOrder (map (\<lambda>(name, test). subtest name (test (in_subtest lab name) cfg)) tests))"

section \<open>What bringing up gives\<close>

text \<open>The maps of recorders and of socket paths are parts of the world that are read as written.\<close>

definition lab_laws :: "'s lab \<Rightarrow> bool" where
  "lab_laws lab \<longleftrightarrow>
     (\<forall>ev s. lb_ev lab (lb_set_ev lab ev s) = ev) \<and> (\<forall>c s. lb_socks lab (lb_set_socks lab c s) = c)
     \<and> (\<forall>s. lb_set_socks lab (lb_socks lab s) s = s) \<and> (\<forall>c s. lb_ev lab (lb_set_socks lab c s) = lb_ev lab s)"

lemmas lab_ev = lab_laws_def [THEN iffD1, THEN conjunct1, rule_format]
lemmas lab_socks = lab_laws_def [THEN iffD1, THEN conjunct2, THEN conjunct1, rule_format]
lemmas lab_socks_same = lab_laws_def [THEN iffD1, THEN conjunct2, THEN conjunct2, THEN conjunct1, rule_format]

text \<open>A short candidate is the path, and nothing changes.\<close>

lemma sock_path_short:
  assumes "lab_laws lab" and "length (path_join [bundleDir, ''c.sock'']) < 104"
  shows "sock_path lab bundleDir = ret (path_join [bundleDir, ''c.sock''])"
  using assms(2) lab_socks_same [OF assms(1)]
  by (intro ext) (simp add: sock_path_def andThen_def act_def must_def containerdSockPath_def Let_def ret_def)

lemma events_recorder_runs:
  assumes "lab_laws lab" and "passes (events_recorder lab bundleDir) s r s'"
  shows "recorders (lb_ev lab s') bundleDir = Some r"
proof (cases "recorders (lb_ev lab s) bundleDir")
  case None
  with assms(2) obtain p t where "bind_recorder lab p bundleDir t = (Inr r, s')"
    by (auto simp: events_recorder_def passes_simps)
  then obtain ev where ev: "startEventsRecorder (lb_serve lab t) p bundleDir (lb_ev lab t) = (Inr r, ev)"
    "s' = lb_set_ev lab ev t"
    by (auto simp: bind_recorder_def split: prod.splits)
  from ev(1) have "recorders ev bundleDir = Some r"
    by (auto simp: startEventsRecorder_def ev_bind_def split: option.splits if_splits)
  with ev(2) lab_ev [OF assms(1)] show ?thesis by simp
next
  case (Some x)
  with assms(2) show ?thesis by (auto simp: events_recorder_def passes_simps)
qed

text \<open>Setting up leaves the bundle's recorder running, so the shim started next can publish.\<close>

lemma shimSetup_recorder:
  assumes "lab_laws lab" and "passes (shimSetup lab cfg) s (shimBin, bundleDir, ms) s'"
  shows "\<exists>r. recorders (lb_ev lab s') bundleDir = Some r"
  using assms(2) events_recorder_runs [OF assms(1), of bundleDir]
  by (auto simp: shimSetup_def Let_def passes_simps)

lemma shimSetup_mounts:
  assumes "passes (shimSetup lab cfg) s (shimBin, bundleDir, ms) s'"
  shows "\<exists>t t'. lb_lookPath lab (shimBinary cfg) s = Inr shimBin
    \<and> buildEmbeddedRootfs (lb_host lab) (lb_bigfile lab) bundleDir (formatMounts cfg) t = (Inr ms, t')"
  using assms by (auto simp: shimSetup_def Let_def passes_simps)

text \<open>Starting in a test is \<^verbatim>\<open>startShim\<close> with its cleanups registered on the way.\<close>

lemma decode_start_ok:
  "decode_start st out = Inr p \<longleftrightarrow>
     (\<exists>q. parseBootstrapResult (s_wire st) (s_json st) out no_params = Some (None, q) \<and> check_params q = Inr p)"
  by (auto simp: decode_start_def split: option.splits prod.splits)

lemma run_start_ok: "run_start st cmd s = (Inr out, t) \<longleftrightarrow> s_run st cmd s = (Inr out, t)"
  by (auto simp: run_start_def split: prod.splits sum.splits)


text \<open>
  However starting ends once the socket directory is made, its removal is registered, and it
  runs after every other cleanup of the start.
\<close>

lemma andThen_cleanups:
  assumes "m s = (Returned a, [], cs, s1)"
  shows "\<exists>r es cs2 s2. andThen m f s = (r, es, cs2 @ cs, s2)"
  using assms by (cases "f a s1") (auto simp: andThen_def)

lemma andThen_before:
  assumes "m s = (Returned a, [], [], s0)" and "\<exists>r es cs t. f a s0 = (r, es, cs @ ds, t)"
  shows "\<exists>r es cs t. andThen m f s = (r, es, cs @ ds, t)"
  using assms by (auto simp: andThen_def)

lemma start_shim_removes:
  assumes "s_mkdirtemp (lb_starter lab) s (unixSafeDir (lb_tmpdir lab)) = (Inr socketDir, s0)"
  shows "\<exists>r es cs t. start_shim lab shimBin bundleDir cid ns cfg s
    = (r, es, cs @ [\<lambda>s. ([], lb_removeAll lab socketDir s)], t)"
proof -
  have m: "must ''failed to create socket dir: '' (\<lambda>s. s_mkdirtemp (lb_starter lab) s (unixSafeDir (lb_tmpdir lab))) s
      = (Returned socketDir, [], [], s0)"
    using assms by (simp add: must_def)
  show ?thesis
    unfolding start_shim_def Let_def
    by (rule andThen_before, rule m, rule andThen_cleanups) (simp add: on_cleanup_def)
qed

text \<open>The client is the one of the version the shim declared.\<close>

lemma passes_newTaskClient [passes_simps]:
  "passes (newTaskClient lab conn version) s svc s' \<longleftrightarrow>
     taskClientForVersion (lb_task2 lab conn) (lb_task3 lab conn) version = Some svc \<and> s' = s"
  by (auto simp: newTaskClient_def passes_ret passes_fatal split: option.split)

lemma passes_create_request:
  "passes (create_request lab cid bundle inp out errp rootfs) s r s' \<Longrightarrow>
     \<exists>opts. lb_anyOptions lab (rootless_options lab) = Inr opts
       \<and> r = Create cid bundle rootfs False inp out errp [] [] opts"
  by (auto simp: create_request_def passes_simps)

lemma rootless_options_root: "lb_uid lab \<le> 0 \<Longrightarrow> rootless_options lab = \<lparr>systemdCgroup = False, ioUid = 0, ioGid = 0, runcRoot = []\<rparr>"
  by (simp add: rootless_options_def)

text \<open>An environment comes with a task created and then started over its client.\<close>

lemma newShimEnv_started:
  assumes "passes (newShimEnv lab cfg suite) s env s'"
  shows "\<exists>s1 s2 bundle ms out errp opts a b. env_tc env (Create (env_cid env) bundle ms False [] out errp [] [] opts) s1
      = ((a, None), s2) \<and> env_tc env (Start (env_cid env) []) s2 = ((b, None), s')"
  using assms
  by (auto simp: newShimEnv_def newCreateTaskRequest_def passes_simps dest!: passes_create_request) blast

text \<open>The loop for the pid has a deadline, so the environment's pid never waits for ever.\<close>

lemma shim_pid_decides:
  "shimPidViaConnect att (\<lambda>i. n \<le> i) \<noteq> None"
  using pid_loop_returns [of "\<lambda>i. n \<le> i" 0 n att None] by (simp add: shimPidViaConnect_def)

lemma shim_pid_connect:
  assumes "lb_connects lab address cid version s = (att, n)" and "shimPidViaConnect att (\<lambda>i. n \<le> i) = Some (Inr pid)"
  shows "shim_pid lab bundleDir address cid version s = int pid"
  using assms by (simp add: shim_pid_def)

lemma shim_pid_file:
  assumes "lb_connects lab address cid version s = (att, n)" and "shimPidViaConnect att (\<lambda>i. n \<le> i) = Some (Inl e)"
    and "h_readfile (lb_host lab) s (path_join [bundleDir, ''shim.pid'']) = Inr (dec k)" and "int k < 2 ^ 63"
  shows "shim_pid lab bundleDir address cid version s = int k"
  using assms by (simp add: shim_pid_def parseIntBytes_dec)

section \<open>What a passing suite says\<close>

text \<open>The tests of a suite leave no cleanup behind: only the leak check is left for its end.\<close>

lemma inOrder_subtests:
  assumes "inOrder (map (\<lambda>(name, test). subtest name (f name test)) ts) s = (r, es, cs, s')"
  shows "r = Returned () \<and> cs = []
    \<and> (es = [] \<longrightarrow> (\<forall>name test. (name, test) \<in> set ts \<longrightarrow> (\<exists>t. fst (finish (f name test) t) \<noteq> Failed)))"
  using assms
proof (induction ts arbitrary: s s' r es cs)
  case Nil
  then show ?case by (simp add: ret_def)
next
  case (Cons nt ts)
  obtain name test where nt: "nt = (name, test)" by (cases nt)
  obtain v s1 where f: "finish (f name test) s = (v, s1)" by (cases "finish (f name test) s")
  obtain r2 es2 cs2 s2 where rec: "inOrder (map (\<lambda>(name, test). subtest name (f name test)) ts) s1 = (r2, es2, cs2, s2)"
    by (rule test_result)
  have "subtest name (f name test) s = (Returned (), if v = Failed then [name] else [], [], s1)"
    using f by (simp add: subtest_def)
  with Cons.prems nt rec have e: "r = r2" "cs = cs2" "es = (if v = Failed then [name] else []) @ es2"
    by (simp_all add: andThen_def)
  note ih = Cons.IH [OF rec]
  have "\<exists>t. fst (finish (f n test2) t) \<noteq> Failed" if es: "es = []" and m: "(n, test2) \<in> set (nt # ts)" for n test2
  proof (cases "(n, test2) = nt")
    case True
    from es e(3) have "v \<noteq> Failed" by (simp split: if_splits)
    with f True nt show ?thesis by (intro exI [of _ s]) simp
  next
    case False
    with m have "(n, test2) \<in> set ts" by simp
    moreover from es e(3) have "es2 = []" by simp
    ultimately show ?thesis using ih by blast
  qed
  with e ih show ?case by blast
qed

lemma suite_run_result:
  assumes "inOrder (map (\<lambda>(name, test). subtest name (test (in_subtest lab name) cfg)) tests) s = (r, es, cs, t)"
  shows "suite_run lab cfg tests s = (r, es, cs @ [\<lambda>s1. (registerShimLeakCheck (lb_procfs lab s) (lb_procfs lab s1)
      (shimBinary cfg), s1)], t)"
  using assms by (simp add: suite_run_def leak_check_def andThen_def act_def on_cleanup_def split: stop.split)

lemma suite_run_passed:
  assumes "finish (suite_run lab cfg tests) s = (Passed, s')"
  shows "registerShimLeakCheck (lb_procfs lab s) (lb_procfs lab s') (shimBinary cfg) = []
    \<and> (\<forall>name test. (name, test) \<in> set tests \<longrightarrow> (\<exists>t. fst (finish (test (in_subtest lab name) cfg) t) \<noteq> Failed))"
proof -
  obtain r es cs t where run: "inOrder (map (\<lambda>(name, test). subtest name (test (in_subtest lab name) cfg)) tests) s
      = (r, es, cs, t)" by (rule test_result)
  note sub = inOrder_subtests [OF run]
  have all: "suite_run lab cfg tests s = (Returned (), es, [\<lambda>s1. (registerShimLeakCheck (lb_procfs lab s)
      (lb_procfs lab s1) (shimBinary cfg), s1)], t)"
    using suite_run_result [OF run] sub by simp
  from assms have v: "verdict_of (Returned ()) (es @ registerShimLeakCheck (lb_procfs lab s) (lb_procfs lab t)
      (shimBinary cfg)) = Passed" and t: "t = s'"
    unfolding finish_def all by auto
  from v have "es = []" "registerShimLeakCheck (lb_procfs lab s) (lb_procfs lab s') (shimBinary cfg) = []"
    unfolding t by (simp_all add: verdict_of_def split: if_splits)
  with sub show ?thesis by blast
qed

text \<open>So a suite that passed left no process of the shim that was not there when it began.\<close>


end
