(* ===== verification/Run_Suite.thy ===== *)
theory Run_Suite
  imports Bringup
begin

text \<open>
  The run suite (\<^verbatim>\<open>run_suite.go\<close>): lifecycle, exit codes of init, output followed by exit, the
  published events, and the burst of output before an abrupt shutdown. Each test is the
  sequence of its calls and checks; the theorems say what a shim must have done for the test
  to pass, and that the programs of testbin produce output the checks accept.
\<close>

section \<open>A shim with a client\<close>

text \<open>The opening of nearly every test, up to the deferred close of its client.\<close>

record up =
  up_conn :: nat
  up_version :: int
  up_cid :: string
  up_bundle :: string
  up_ns :: string
  up_mounts :: "mount list"
  up_out :: string
  up_err :: string

definition bring_up ::
    "'s lab \<Rightarrow> config \<Rightarrow> string \<Rightarrow> string list \<Rightarrow> spec_opt list \<Rightarrow> ('s, up) test" where
  "bring_up lab cfg suite args opts =
     andThen (shimSetup lab cfg) (\<lambda>(shimBin, bundleDir, rootfsMounts).
     andThen (container_id lab) (\<lambda>cid.
     andThen (oci_spec lab bundleDir args cfg opts) (\<lambda>u.
     andThen (io_fifos lab bundleDir) (\<lambda>(out, errp).
     andThen (unique_namespace lab suite) (\<lambda>ns.
     andThen (start_shim lab shimBin bundleDir cid ns cfg) (\<lambda>p.
     andThen (connect_shim lab (bp_address p)) (\<lambda>conn.
     ret \<lparr>up_conn = conn, up_version = bp_version p, up_cid = cid, up_bundle = bundleDir, up_ns = ns,
       up_mounts = rootfsMounts, up_out = out, up_err = errp\<rparr>)))))))"

definition with_client :: "'s lab \<Rightarrow> up \<Rightarrow> ('s service \<Rightarrow> ('s, unit) test) \<Rightarrow> ('s, unit) test" where
  "with_client lab u body =
     deferred (lb_close lab (up_conn u)) (andThen (newTaskClient lab (up_conn u) (up_version u)) body)"

definition drain_both :: "'s lab \<Rightarrow> up \<Rightarrow> ('s, unit) test" where
  "drain_both lab u = inOrder [drainFifo lab (up_out u), drainFifo lab (up_err u)]"

definition create_task :: "'s lab \<Rightarrow> up \<Rightarrow> string \<Rightarrow> 's service \<Rightarrow> ('s, resp option) test" where
  "create_task lab u label svc =
     andThen (newCreateTaskRequest lab (up_cid u) (up_bundle u) (up_out u) (up_err u) (up_mounts u)) (rpc label svc)"

definition start_init :: "'s lab \<Rightarrow> up \<Rightarrow> 's service \<Rightarrow> ('s, unit) test" where
  "start_init lab u svc =
     andThen (drain_both lab u) (\<lambda>x.
     andThen (create_task lab u ''create failed: '' svc) (\<lambda>a.
     andThen (rpc ''start failed: '' svc (Start (up_cid u) [])) (\<lambda>a. ret ())))"

text \<open>What a clean opening makes of the world, for the tests' theorems.\<close>

lemma passes_with_client [passes_simps]:
  "passes (with_client lab u body) s x s' \<longleftrightarrow>
     (\<exists>svc t. taskClientForVersion (lb_task2 lab (up_conn u)) (lb_task3 lab (up_conn u)) (up_version u) = Some svc
        \<and> passes (body svc) s x t \<and> s' = lb_close lab (up_conn u) t)"
  by (auto simp: with_client_def passes_simps)

lemma passes_create_task:
  "passes (create_task lab u label svc) s a s' \<Longrightarrow>
     \<exists>opts t. svc (Create (up_cid u) (up_bundle u) (up_mounts u) False [] (up_out u) (up_err u) [] [] opts) t = ((a, None), s')"
  by (auto simp: create_task_def newCreateTaskRequest_def passes_simps dest!: passes_create_request)

lemma passes_start_init:
  assumes "passes (start_init lab u svc) s x s'"
  shows "\<exists>opts t t1 a b.
    svc (Create (up_cid u) (up_bundle u) (up_mounts u) False [] (up_out u) (up_err u) [] [] opts) t = ((a, None), t1)
    \<and> svc (Start (up_cid u) []) t1 = ((b, None), s')"
proof -
  from assms obtain a b s1 t1 where "passes (create_task lab u ''create failed: '' svc) s1 a t1"
    and st: "svc (Start (up_cid u) []) t1 = ((b, None), s')"
    by (auto simp: start_init_def passes_simps)
  from passes_create_task [OF this(1)] st show ?thesis by metis
qed

text \<open>A call the client of a connection answered without an error, at some point.\<close>

definition replied :: "'s lab \<Rightarrow> up \<Rightarrow> req \<Rightarrow> resp \<Rightarrow> bool" where
  "replied lab u r a \<longleftrightarrow>
     (\<exists>svc t t'. taskClientForVersion (lb_task2 lab (up_conn u)) (lb_task3 lab (up_conn u)) (up_version u) = Some svc
        \<and> svc r t = ((Some a, None), t'))"

lemma repliedI:
  "taskClientForVersion (lb_task2 lab (up_conn u)) (lb_task3 lab (up_conn u)) (up_version u) = Some svc \<Longrightarrow>
     svc r t = ((Some a, None), t') \<Longrightarrow> replied lab u r a"
  by (auto simp: replied_def)

section \<open>Exit codes of init\<close>

definition run_exit_code :: "'s lab \<Rightarrow> config \<Rightarrow> nat \<Rightarrow> ('s, unit) test" where
  "run_exit_code lab cfg code =
     andThen (bring_up lab cfg ''run'' [''/bin/exit'', dec code] []) (\<lambda>u.
     with_client lab u (\<lambda>svc.
     andThen (start_init lab u svc) (\<lambda>x.
     andThen (rpc ''wait failed: '' svc (Wait (up_cid u) [])) (\<lambda>w.
     andThen (exit_status w) (\<lambda>st.
     andThen (demand (''expected exit status '' @ dec code @ '', got '' @ dec st) (st = code)) (\<lambda>x.
     inOrder [rpc_drop svc (Delete (up_cid u) []), shutdownTask svc (up_cid u)]))))))"

definition exit_codes :: "nat list" where
  "exit_codes = [0, 1, 2, 42, 127, 255]"

definition testInitExitCodes :: "'s lab \<Rightarrow> config \<Rightarrow> ('s, unit) test" where
  "testInitExitCodes lab cfg =
     inOrder (map (\<lambda>code. let name = ''Exit'' @ dec code in
       subtest name (run_exit_code (in_subtest lab name) cfg code)) exit_codes)"

lemma run_exit_code_waits:
  assumes "passes (run_exit_code lab cfg code) s x s'"
  shows "\<exists>u t at. passes (bring_up lab cfg ''run'' [''/bin/exit'', dec code] []) s u t
    \<and> replied lab u (Wait (up_cid u) []) (WaitResp code at)"
  using assms by (auto simp: run_exit_code_def passes_simps) (blast intro: repliedI)

section \<open>Output, then exit\<close>

text \<open>The check of the captured output: fifty numbered lines and nothing else.\<close>

fun check_lines :: "nat \<Rightarrow> string list \<Rightarrow> err option" where
  "check_lines i [] = None"
| "check_lines i (line # ls) =
     (if line \<noteq> ''tick '' @ dec (Suc i)
      then Some (''line '' @ dec i @ '': got '' @ quote line @ '', want '' @ quote (''tick '' @ dec (Suc i)))
      else check_lines (Suc i) ls)"

definition check_ticks :: "bytes \<Rightarrow> err option" where
  "check_ticks got =
     (let lines = split_on CHR 0x0A (trim_right_by (\<lambda>c. c = CHR 0x0A) got) in
      if length lines \<noteq> 50
      then Some (''expected 50 output lines, got '' @ dec (length lines) @ '': '' @ quote got)
      else check_lines 0 lines)"

definition testOutputThenExit :: "'s lab \<Rightarrow> config \<Rightarrow> ('s, unit) test" where
  "testOutputThenExit lab cfg =
     andThen (bring_up lab cfg ''run'' [''/bin/tickexit''] []) (\<lambda>u.
     with_client lab u (\<lambda>svc.
     andThen (start_init lab u svc) (\<lambda>x.
     andThen (rpc ''wait failed: '' svc (Wait (up_cid u) [])) (\<lambda>w.
     andThen (exit_status w) (\<lambda>st.
     andThen (demand (''expected exit status 7, got '' @ dec st) (st = 7)) (\<lambda>x.
     andThen (poll_until ''timed out waiting for final output, got: '' (containing (''tick 50'' @ newline))
       (lb_readings lab (up_out u))) (\<lambda>seen.
     andThen (must_do [] (\<lambda>s. (check_ticks (lb_buffered lab (up_out u) s), s))) (\<lambda>x.
     inOrder [rpc_drop svc (Delete (up_cid u) []), shutdownTask svc (up_cid u)]))))))))"

lemma check_lines_iff: "check_lines i ls = None \<longleftrightarrow> ls = map (\<lambda>j. ''tick '' @ dec j) [Suc i..<Suc i + length ls]"
  by (induction i ls rule: check_lines.induct) (auto simp: upt_conv_Cons simp del: upt_Suc)

lemma trim_right_split: "\<exists>k. got = trim_right_by (\<lambda>c. c = x) got @ replicate k x"
proof (induction got rule: rev_induct)
  case (snoc c got)
  show ?case
  proof (cases "c = x")
    case True
    from snoc obtain k where "got = trim_right_by (\<lambda>c. c = x) got @ replicate k x" ..
    then have "got @ [c] = trim_right_by (\<lambda>c. c = x) got @ replicate k x @ [x]"
      using True by (metis append.assoc)
    then have "got @ [c] = trim_right_by (\<lambda>c. c = x) got @ replicate (Suc k) x"
      by (simp add: replicate_append_same)
    moreover have "trim_right_by (\<lambda>c. c = x) (got @ [c]) = trim_right_by (\<lambda>c. c = x) got"
      using True by (rule trim_right_by_snoc)
    ultimately show ?thesis by metis
  next
    case False
    then have "trim_right_by (\<lambda>c. c = x) (got @ [c]) = got @ [c]" by (simp add: trim_right_by_none)
    then show ?thesis by (intro exI [of _ 0]) simp
  qed
qed simp

text \<open>The text of the fifty lines, without the last line's end.\<close>

definition tick_text :: bytes where
  "tick_text = join newline (map tick_line [1..<51])"

lemma check_ticks_exact:
  "check_ticks got = None \<Longrightarrow> \<exists>k. got = tick_text @ replicate k CHR 0x0A"
proof -
  assume c: "check_ticks got = None"
  let ?t = "trim_right_by (\<lambda>c. c = CHR 0x0A) got"
  from c have "length (split_on CHR 0x0A ?t) = 50" "check_lines 0 (split_on CHR 0x0A ?t) = None"
    by (simp_all add: check_ticks_def Let_def split: if_splits)
  then have "split_on CHR 0x0A ?t = map (\<lambda>j. ''tick '' @ dec j) [Suc 0..<Suc 0 + 50]"
    by (metis check_lines_iff)
  moreover have "(\<lambda>j. ''tick '' @ dec j) = tick_line" by (rule ext) (simp add: tick_line_def)
  ultimately have "split_on CHR 0x0A ?t = map tick_line [1..<51]" by simp
  then have "?t = tick_text" unfolding tick_text_def newline_def by (metis join_split)
  with trim_right_split [of got "CHR 0x0A"] show ?thesis by simp
qed

text \<open>And the program the test runs prints what the check accepts.\<close>

lemma concat_join: "xs \<noteq> [] \<Longrightarrow> concat (map (\<lambda>i. f i @ sep) xs) = join sep (map f xs) @ sep"
proof (induction xs)
  case (Cons x xs)
  then show ?case by (cases "xs = []") (simp_all add: join_Cons)
qed simp

lemma tick_line_plain: "CHR 0x0A \<notin> set (tick_line i)"
  using dec_digits [of _ i] digit_not_space by (auto simp: tick_line_def is_space_def)

lemma join_last: "xs \<noteq> [] \<Longrightarrow> last xs \<noteq> [] \<Longrightarrow> join sep xs \<noteq> [] \<and> last (join sep xs) = last (last xs)"
proof (induction xs)
  case (Cons x xs)
  then show ?case by (cases "xs = []") (auto simp: join_Cons)
qed simp

lemma check_ticks_accepts: "check_ticks (tick_text @ newline) = None"
proof -
  have lst: "last (map tick_line [1..<51]) = tick_line 50"
    by (simp add: last_map)
  have "\<not> is_space (last (tick_line 50))"
    using dec_digits [of "last (dec 50)" 50] digit_not_space by (simp add: tick_line_def)
  then have "last tick_text \<noteq> CHR 0x0A" "tick_text \<noteq> []"
    using join_last [of "map tick_line [1..<51]" newline] lst
    by (auto simp: tick_text_def tick_line_def is_space_def)
  then have t: "trim_right_by (\<lambda>c. c = CHR 0x0A) (tick_text @ newline) = tick_text"
    by (simp add: newline_def trim_right_by_snoc trim_right_by_none)
  have sp: "split_on CHR 0x0A tick_text = map tick_line [1..<51]"
    unfolding tick_text_def newline_def by (rule split_join) (auto simp: tick_line_plain)
  have "map tick_line [1..<51] = map (\<lambda>j. ''tick '' @ dec j) [Suc 0..<Suc 0 + length (map tick_line [1..<51])]"
    by (simp add: tick_line_def)
  then have "check_lines 0 (map tick_line [1..<51]) = None" unfolding check_lines_iff .
  then show ?thesis by (simp add: check_ticks_def t sp)
qed

lemma tickexit_accepted:
  assumes "stdout p = []" and "room p = None"
  shows "check_ticks (stdout (proc_of (cmdTickexit args w p))) = None \<and> ending_of (cmdTickexit args w p) = Exit 7"
proof -
  have "concat (map (\<lambda>i. tick_line i @ newline) [1..<51]) = tick_text @ newline"
    unfolding tick_text_def by (rule concat_join) simp
  with check_ticks_accepts show ?thesis
    using assms by (simp add: cmdTickexit_output proc_of_def ending_of_def)
qed

text \<open>
  C10. The output test passes only when the shim reported exit status 7 for the task it
  created and the captured output is the fifty numbered lines, followed by nothing but
  line ends.
\<close>

theorem testOutputThenExit_exact:
  assumes "passes (testOutputThenExit lab cfg) s x s'"
  shows "\<exists>u t t' k at. passes (bring_up lab cfg ''run'' [''/bin/tickexit''] []) s u t
    \<and> replied lab u (Wait (up_cid u) []) (WaitResp 7 at)
    \<and> lb_buffered lab (up_out u) t' = tick_text @ replicate k CHR 0x0A"
proof -
  from assms obtain u t svc t1 t2 t3 at where "passes (bring_up lab cfg ''run'' [''/bin/tickexit''] []) s u t"
    and c: "taskClientForVersion (lb_task2 lab (up_conn u)) (lb_task3 lab (up_conn u)) (up_version u) = Some svc"
    and w: "svc (Wait (up_cid u) []) t1 = ((Some (WaitResp 7 at), None), t2)"
    and k: "check_ticks (lb_buffered lab (up_out u) t3) = None"
    by (auto simp: testOutputThenExit_def passes_simps)
  with check_ticks_exact [OF k] repliedI [OF c w] show ?thesis by blast
qed

section \<open>The burst of output\<close>

text \<open>The count and the checksum, as the burst tests of both suites check them.\<close>

definition check_burst :: "bytes \<Rightarrow> err option" where
  "check_burst got =
     (if int (length got) \<noteq> burstPayloadSize
      then Some (''got '' @ dec (length got) @ '' bytes, want '' @ itoa burstPayloadSize
             @ '' (truncated by '' @ itoa (burstPayloadSize - int (length got)) @ '' bytes)'')
      else if crc32c got \<noteq> burstExpectedCRC32
      then Some (''CRC mismatch: got '' @ hex32 (crc32c got) @ '', want '' @ hex32 burstExpectedCRC32
             @ '' (data corrupted)'')
      else None)"

definition await_drained :: "'s lab \<Rightarrow> string \<Rightarrow> string \<Rightarrow> ('s, bytes) test" where
  "await_drained lab path label =
     must label (\<lambda>s. case lb_drained lab path s of (None, s1) \<Rightarrow> (Inl [], s1) | (Some got, s1) \<Rightarrow> (Inr got, s1))"

lemma passes_await_drained [passes_simps]:
  "passes (await_drained lab path label) s got s' \<longleftrightarrow> lb_drained lab path s = (Some got, s')"
  by (auto simp: await_drained_def passes_must split: prod.split option.split)

definition burst_size :: nat where
  "burst_size = nat burstPayloadSize"

definition testFastExitInit :: "'s lab \<Rightarrow> config \<Rightarrow> ('s, unit) test" where
  "testFastExitInit lab cfg =
     andThen (bring_up lab cfg ''run'' [''/bin/burstexit'', dec burst_size, ''0''] []) (\<lambda>u.
     with_client lab u (\<lambda>svc.
     andThen (start_init lab u svc) (\<lambda>x.
     andThen (rpc_drop svc (Shutdown (up_cid u) False)) (\<lambda>x.
     andThen (await_drained lab (up_out u) ''timed out waiting for stdout drain after shutdown'') (\<lambda>got.
     must_do [] (\<lambda>s. (check_burst got, s)))))))"

lemma check_burst_payload: "check_burst (tiledPayload burst_size) = None"
proof -
  have "length (tiledPayload burst_size) = burst_size" using verify_length [OF verify_tiled] by blast
  moreover have "int burst_size = burstPayloadSize" by (simp add: burst_size_def burstPayloadSize_def)
  ultimately show ?thesis
    using tiledPayloadCRC32_eq [of burst_size] by (simp add: check_burst_def burstExpectedCRC32_def)
qed

lemma check_burst_ok:
  assumes "check_burst got = None"
  shows "length got = burst_size \<and> crc32c got = crc32c (tiledPayload burst_size)"
proof -
  have b: "int burst_size = burstPayloadSize" by (simp add: burst_size_def burstPayloadSize_def)
  with assms have "length got = burst_size" "crc32c got = burstExpectedCRC32"
    by (auto simp: check_burst_def split: if_splits)
  with b tiledPayloadCRC32_eq [of burst_size] show ?thesis by (simp add: burstExpectedCRC32_def)
qed

text \<open>What the program prints is accepted; the same output with one byte changed is not.\<close>

lemma burst_accepted:
  assumes "args = [''burstexit'', dec burst_size, ''0'']" and "stdout p = []" and "room p = None"
  shows "check_burst (stdout (proc_of (cmdBurstexit args w p))) = None
    \<and> ending_of (cmdBurstexit args w p) = Exit 0"
proof -
  have zero: "atoi ''0'' = Some 0" by code_simp
  have n: "atoi (args ! 1) = Some (int burst_size)" and c: "atoi (args ! 2) = Some 0"
    using assms(1) atoi_dec [of burst_size] zero by (simp_all add: burst_size_def burstPayloadSize_def)
  have "cmdBurstexit args w p = (w, snd (put (tiledPayload burst_size) p),
      if fst (put (tiledPayload burst_size) p) then Exit 0 else Exit 1)"
    using n c assms(1) by (simp add: cmdBurstexit_def burst_stream split: prod.split bool.split)
  moreover have "put (tiledPayload burst_size) p = (True, p\<lparr>stdout := tiledPayload burst_size\<rparr>)"
    using assms(2,3) by (simp add: put_def)
  ultimately show ?thesis using check_burst_payload by (simp add: proc_of_def ending_of_def)
qed

lemma testFastExitInit_detects:
  assumes "passes (testFastExitInit lab cfg) s x s'"
  shows "\<exists>u t t1 t2 got. passes (bring_up lab cfg ''run'' [''/bin/burstexit'', dec burst_size, ''0''] []) s u t
    \<and> lb_drained lab (up_out u) t1 = (Some got, t2)
    \<and> length got = burst_size \<and> crc32c got = crc32c (tiledPayload burst_size)"
  using assms by (auto simp: testFastExitInit_def passes_simps dest!: check_burst_ok)

section \<open>The lifecycle\<close>

text \<open>
  A kill that fails because the task is gone is a benign race; \<open>lb_notFound\<close> is the test on
  the error.
\<close>

definition kill_task :: "'s lab \<Rightarrow> 's service \<Rightarrow> string \<Rightarrow> ('s, unit) test" where
  "kill_task lab svc cid =
     must_do ''failed to kill task: '' (\<lambda>s.
       case svc (Kill cid [] 9 True) s of
         ((a, None), t) \<Rightarrow> (None, t)
       | ((a, Some e), t) \<Rightarrow> (if lb_notFound lab e then None else Some e, t))"

text \<open>This test draws its container id after the spec is written.\<close>

definition bring_up_lifecycle :: "'s lab \<Rightarrow> config \<Rightarrow> ('s, up) test" where
  "bring_up_lifecycle lab cfg =
     andThen (shimSetup lab cfg) (\<lambda>(shimBin, bundleDir, rootfsMounts).
     andThen (oci_spec lab bundleDir [''/bin/forever'', ''hello''] cfg []) (\<lambda>u.
     andThen (container_id lab) (\<lambda>cid.
     andThen (io_fifos lab bundleDir) (\<lambda>(out, errp).
     andThen (unique_namespace lab ''run'') (\<lambda>ns.
     andThen (start_shim lab shimBin bundleDir cid ns cfg) (\<lambda>p.
     andThen (connect_shim lab (bp_address p)) (\<lambda>conn.
     ret \<lparr>up_conn = conn, up_version = bp_version p, up_cid = cid, up_bundle = bundleDir, up_ns = ns,
       up_mounts = rootfsMounts, up_out = out, up_err = errp\<rparr>)))))))"

definition testLifecycle :: "'s lab \<Rightarrow> config \<Rightarrow> ('s, unit) test" where
  "testLifecycle lab cfg =
     andThen (bring_up_lifecycle lab cfg) (\<lambda>u. let cid = up_cid u in
     with_client lab u (\<lambda>svc.
     andThen (drain_both lab u) (\<lambda>x.
     andThen (create_task lab u ''failed to create task: '' svc) (\<lambda>a.
     andThen (rpc ''failed to start task: '' svc (Start cid [])) (\<lambda>a.
     andThen (rpc ''failed to get state: '' svc (State cid [])) (\<lambda>a.
     andThen (task_status a) (\<lambda>st.
     andThen (demand ''expected task status RUNNING'' (st = RUNNING)) (\<lambda>x.
     andThen (poll_until ''timed out waiting for 'hello' output, got: '' (containing ''hello'')
       (lb_readings lab (up_out u))) (\<lambda>got.
     andThen (kill_task lab svc cid) (\<lambda>x.
     andThen (rpc ''failed to wait for task: '' svc (Wait cid [])) (\<lambda>a.
     andThen (rpc ''failed to delete task: '' svc (Delete cid [])) (\<lambda>a.
     shutdownTask svc cid))))))))))))"

lemma testLifecycle_contract:
  assumes "passes (testLifecycle lab cfg) s x s'"
  shows "\<exists>u t t1 t2 gots i b p si so se tm ex at e.
      passes (bring_up_lifecycle lab cfg) s u t
    \<and> replied lab u (State (up_cid u) []) (StateResp i b p RUNNING si so se tm ex at e)
    \<and> lb_readings lab (up_out u) t1 = (gots, t2) \<and> (\<exists>got \<in> set gots. str_contains got ''hello'')"
proof -
  from assms obtain u t svc t1 t2 t3 t4 gots got i b p si so se tm ex at e
    where "passes (bring_up_lifecycle lab cfg) s u t"
    and c: "taskClientForVersion (lb_task2 lab (up_conn u)) (lb_task3 lab (up_conn u)) (up_version u) = Some svc"
    and w: "svc (State (up_cid u) []) t3 = ((Some (StateResp i b p RUNNING si so se tm ex at e), None), t4)"
    and "lb_readings lab (up_out u) t1 = (gots, t2)" and f: "first_accepted (containing ''hello'') gots = Some got"
    by (auto simp: testLifecycle_def Let_def passes_simps)
  with first_accepted_Some [OF f] repliedI [OF c w] show ?thesis by (simp only: containing_Some) blast
qed

section \<open>The published events\<close>

text \<open>A wait for a topic; an envelope that is nil makes the scan panic.\<close>

definition wait_topic :: "'s lab \<Rightarrow> nat \<Rightarrow> string \<Rightarrow> ('s, envelope option) test" where
  "wait_topic lab rec topic =
     must [] (\<lambda>s. case lb_polls lab rec topic s of ((logs, n), t) \<Rightarrow>
       (case waitForTopic logs (\<lambda>i. n \<le> i) topic of None \<Rightarrow> (Inl ''does not return'', t) | Some r \<Rightarrow> (r, t)))"

definition have_topic :: "'s lab \<Rightarrow> nat \<Rightarrow> string \<Rightarrow> string \<Rightarrow> ('s, envelope) test" where
  "have_topic lab rec topic msg =
     andThen (wait_topic lab rec topic) (\<lambda>e. case e of None \<Rightarrow> fatal msg | Some env \<Rightarrow> ret env)"

definition received_topics :: "'s lab \<Rightarrow> nat \<Rightarrow> ('s, string list) test" where
  "received_topics lab rec = must [] (\<lambda>s. (topics (lb_log lab rec s), s))"

text \<open>The checks on the exit event's envelope: three mismatches are errors, decoding is fatal.\<close>

definition check_exit :: "'s lab \<Rightarrow> string \<Rightarrow> string \<Rightarrow> envelope \<Rightarrow> ('s, unit) test" where
  "check_exit lab ns cid env =
     andThen (expect (''exit envelope namespace: got '' @ quote (env_namespace env)) (env_namespace env = ns)) (\<lambda>x.
     andThen (must ''unmarshal TaskExit: '' (\<lambda>s. (lb_exitEvent lab (env_event env), s))) (\<lambda>(id1, status1).
     inOrder [expect (''exit event container id: got '' @ quote id1) (id1 = cid),
       expect (''exit event exit status: got '' @ dec status1 @ '', want 0'') (status1 = 0)]))"

definition testEvents :: "'s lab \<Rightarrow> config \<Rightarrow> ('s, unit) test" where
  "testEvents lab cfg =
     andThen (shimSetup lab cfg) (\<lambda>(shimBin, bundleDir, rootfsMounts).
     andThen (container_id lab) (\<lambda>cid.
     andThen (unique_namespace lab ''run'') (\<lambda>ns.
     andThen (oci_spec lab bundleDir [''/bin/exit'', ''0''] cfg []) (\<lambda>x.
     andThen (io_fifos lab bundleDir) (\<lambda>(out, errp).
     andThen (events_recorder lab bundleDir) (\<lambda>rec.
     andThen (start_shim lab shimBin bundleDir cid ns cfg) (\<lambda>p.
     andThen (connect_shim lab (bp_address p)) (\<lambda>conn.
     let u = \<lparr>up_conn = conn, up_version = bp_version p, up_cid = cid, up_bundle = bundleDir, up_ns = ns,
          up_mounts = rootfsMounts, up_out = out, up_err = errp\<rparr> in
     with_client lab u (\<lambda>svc.
     andThen (start_init lab u svc) (\<lambda>x.
     andThen (rpc ''wait failed: '' svc (Wait cid [])) (\<lambda>a.
     andThen (have_topic lab rec ''/tasks/exit'' ''exit event not published after task wait'') (\<lambda>e.
     andThen (rpc ''delete failed: '' svc (Delete cid [])) (\<lambda>a.
     andThen (inOrder (map (\<lambda>topic. andThen (have_topic lab rec topic (''missing event '' @ quote topic)) (\<lambda>e. ret ()))
       lifecycle_topics)) (\<lambda>x.
     andThen (shutdownTask svc cid) (\<lambda>x.
     andThen (received_topics lab rec) (\<lambda>got.
     andThen (demand ''events out of order or missing'' (in_order lifecycle_topics got)) (\<lambda>x.
     andThen (have_topic lab rec ''/tasks/exit'' ''exit envelope vanished'') (\<lambda>e.
     check_exit lab ns cid e))))))))))))))))))"

lemma passes_wait_topic:
  assumes "passes (wait_topic lab rec topic) s e s'"
  shows "\<exists>logs n i. lb_polls lab rec topic s = ((logs, n), s') \<and> first_topic topic (logs i) = Inr e"
proof -
  from assms obtain logs n where p: "lb_polls lab rec topic s = ((logs, n), s')"
    and w: "waitForTopic logs (\<lambda>i. n \<le> i) topic = Some (Inr e)"
    by (auto simp: wait_topic_def passes_must split: prod.splits option.splits)
  from wait_from_scan [OF w [unfolded waitForTopic_def]] p show ?thesis by blast
qed

lemma passes_have_topic [passes_simps]:
  "passes (have_topic lab rec topic msg) s e s' \<longleftrightarrow> passes (wait_topic lab rec topic) s (Some e) s'"
  by (auto simp: have_topic_def passes_simps split: option.splits)

lemma passes_received_topics [passes_simps]:
  "passes (received_topics lab rec) s ts s' \<longleftrightarrow> topics (lb_log lab rec s) = Inr ts \<and> s' = s"
  by (auto simp: received_topics_def passes_simps)

lemma passes_check_exit [passes_simps]:
  "passes (check_exit lab ns cid e) s x s' \<longleftrightarrow> env_namespace e = ns \<and> lb_exitEvent lab (env_event e) = Inr (cid, 0) \<and> s' = s"
  by (auto simp: check_exit_def passes_simps)

lemma first_topic_is: "first_topic t l = Inr (Some e) \<Longrightarrow> env_topic e = t"
  by (induction t l rule: first_topic.induct) (auto split: if_splits)

lemma testEvents_order:
  assumes "passes (testEvents lab cfg) s x s'"
  shows "\<exists>rec t ts ns cid (e :: envelope). topics (lb_log lab rec t) = Inr ts \<and> subseq lifecycle_topics ts
    \<and> (\<exists>s1 s2. passes (unique_namespace lab ''run'') s1 ns s2) \<and> (\<exists>s1 s2. passes (container_id lab) s1 cid s2)
    \<and> env_topic e = ''/tasks/exit'' \<and> env_namespace e = ns \<and> lb_exitEvent lab (env_event e) = Inr (cid, 0)"
proof -
  from assms obtain rec t e ns cid ts t1 s1 s2 s3 s4 where ev: "topics (lb_log lab rec t) = Inr ts" "in_order lifecycle_topics ts"
    "env_namespace e = ns" "lb_exitEvent lab (env_event e) = Inr (cid, 0)"
    "passes (unique_namespace lab ''run'') s1 ns s2" "passes (container_id lab) s3 cid s4"
    and w: "passes (wait_topic lab rec ''/tasks/exit'') t (Some e) t1"
    by (auto simp: testEvents_def Let_def passes_simps simp del: inOrder.simps)
  from passes_wait_topic [OF w] first_topic_is have "env_topic e = ''/tasks/exit''" by blast
  moreover have "subseq lifecycle_topics ts"
    using ev(2) match_from_drop [of 0 lifecycle_topics ts] by (simp add: in_order_def)
  ultimately show ?thesis using ev by blast
qed

section \<open>The suite\<close>

definition RunSuite :: "(string \<times> ('s lab \<Rightarrow> config \<Rightarrow> ('s, unit) test)) list" where
  "RunSuite = [(''Lifecycle'', testLifecycle), (''InitExitCodes'', testInitExitCodes),
     (''OutputThenExit'', testOutputThenExit), (''Events'', testEvents), (''FastExitInit'', testFastExitInit)]"

end
