(* ===== verification/Exec_Suite.thy ===== *)
theory Exec_Suite
  imports Run_Suite Hashverify
begin

text \<open>
  The exec suite (\<^verbatim>\<open>exec_suite.go\<close>): processes run inside a started container, with their
  output captured, their input fed and closed, their exit status read back; the container's
  clock; the read of the fixture file with its checksum; and the teardowns that race with
  output still on its way.
\<close>

section \<open>Common parts\<close>

definition exec_spec :: "string list \<Rightarrow> string \<Rightarrow> process" where
  "exec_spec args path = \<lparr>proc_args = args, proc_cwd = ''/'', proc_env = [''PATH='' @ path], proc_caps = None\<rparr>"

definition exec_path :: string where
  "exec_path = ''/bin:/usr/bin''"

definition new_exec ::
    "'s lab \<Rightarrow> 's service \<Rightarrow> string \<Rightarrow> string \<Rightarrow> process \<Rightarrow> string \<Rightarrow> string \<Rightarrow> string \<Rightarrow> ('s, unit) test" where
  "new_exec lab svc cid eid spec inp out errp =
     andThen (must ''marshal exec spec: '' (\<lambda>s. (lb_anyProcess lab spec, s))) (\<lambda>sp.
     andThen (rpc ''exec failed: '' svc (Exec cid eid False inp out errp sp)) (\<lambda>a. ret ()))"

definition start_exec ::
    "'s lab \<Rightarrow> 's service \<Rightarrow> string \<Rightarrow> string \<Rightarrow> process \<Rightarrow> string \<Rightarrow> string \<Rightarrow> string \<Rightarrow> ('s, unit) test" where
  "start_exec lab svc cid eid spec inp out errp =
     andThen (new_exec lab svc cid eid spec inp out errp) (\<lambda>x.
     andThen (rpc ''exec start failed: '' svc (Start cid eid)) (\<lambda>a. ret ()))"

definition wait_exec :: "'s service \<Rightarrow> string \<Rightarrow> string \<Rightarrow> ('s, nat) test" where
  "wait_exec svc cid eid = andThen (rpc ''exec wait failed: '' svc (Wait cid eid)) exit_status"

definition delete_exec :: "'s service \<Rightarrow> string \<Rightarrow> string \<Rightarrow> ('s, unit) test" where
  "delete_exec svc cid eid = andThen (rpc ''exec delete failed: '' svc (Delete cid eid)) (\<lambda>a. ret ())"

text \<open>Killing init, waiting for it, deleting the task: every error is dropped.\<close>

definition kill_init :: "'s service \<Rightarrow> string \<Rightarrow> ('s, unit) test" where
  "kill_init svc cid =
     inOrder [rpc_drop svc (Kill cid [] 9 True), rpc_drop svc (Wait cid []), rpc_drop svc (Delete cid []),
       shutdownTask svc cid]"

text \<open>A container running \<^verbatim>\<open>/bin/forever\<close>, and a client of its shim.\<close>

definition with_container ::
    "'s lab \<Rightarrow> config \<Rightarrow> spec_opt list \<Rightarrow> (up \<Rightarrow> 's service \<Rightarrow> ('s, unit) test) \<Rightarrow> ('s, unit) test" where
  "with_container lab cfg opts body =
     andThen (bring_up lab cfg ''exec'' [''/bin/forever''] opts) (\<lambda>u.
     with_client lab u (\<lambda>svc. andThen (start_init lab u svc) (\<lambda>x. body u svc)))"

text \<open>FIFOs for an exec in a fresh directory, both drained.\<close>

definition exec_pipes :: "'s lab \<Rightarrow> ('s, string \<times> string) test" where
  "exec_pipes lab =
     andThen (act (h_tempdir (lb_host lab))) (\<lambda>dir.
     andThen (io_fifos lab dir) (\<lambda>(out, errp).
     andThen (drainFifo lab out) (\<lambda>x.
     andThen (drainFifo lab errp) (\<lambda>x. ret (out, errp)))))"

definition buffered :: "'s lab \<Rightarrow> string \<Rightarrow> ('s, bytes) test" where
  "buffered lab path = act (\<lambda>s. (lb_buffered lab path s, s))"

lemma passes_buffered [passes_simps]: "passes (buffered lab path) s got s' \<longleftrightarrow> got = lb_buffered lab path s \<and> s' = s"
  by (auto simp: buffered_def passes_simps)

lemma passes_new_exec [passes_simps]:
  "passes (new_exec lab svc cid eid spec inp out errp) s x s' \<longleftrightarrow>
     (\<exists>sp a. lb_anyProcess lab spec = Inr sp \<and> svc (Exec cid eid False inp out errp sp) s = ((a, None), s'))"
  by (auto simp: new_exec_def passes_simps)

lemma passes_start_exec [passes_simps]:
  "passes (start_exec lab svc cid eid spec inp out errp) s x s' \<longleftrightarrow>
     (\<exists>sp a b t. lb_anyProcess lab spec = Inr sp \<and> svc (Exec cid eid False inp out errp sp) s = ((a, None), t)
        \<and> svc (Start cid eid) t = ((b, None), s'))"
  by (auto simp: start_exec_def passes_simps)

lemma passes_wait_exec [passes_simps]:
  "passes (wait_exec svc cid eid) s x s' \<longleftrightarrow> (\<exists>at. svc (Wait cid eid) s = ((Some (WaitResp x at), None), s'))"
  by (auto simp: wait_exec_def passes_simps)

lemma passes_delete_exec [passes_simps]:
  "passes (delete_exec svc cid eid) s x s' \<longleftrightarrow> (\<exists>a. svc (Delete cid eid) s = ((a, None), s'))"
  by (auto simp: delete_exec_def passes_simps)

section \<open>Output of an exec\<close>

definition testExec :: "'s lab \<Rightarrow> config \<Rightarrow> ('s, unit) test" where
  "testExec lab cfg = with_container lab cfg [] (\<lambda>u svc. let cid = up_cid u; eid = ''exec1'' in
     andThen (exec_pipes lab) (\<lambda>(out, errp).
     andThen (start_exec lab svc cid eid (exec_spec [''/bin/echo'', ''execworks''] exec_path) [] out errp) (\<lambda>x.
     andThen (wait_exec svc cid eid) (\<lambda>st.
     andThen (buffered lab out) (\<lambda>got.
     andThen (demand (''exec output '' @ quote got @ '' does not contain 'execworks'' @ [CHR 0x27]) (str_contains got ''execworks'')) (\<lambda>x.
     andThen (delete_exec svc cid eid) (\<lambda>x. kill_init svc cid)))))))"

section \<open>Input of an exec\<close>

definition token_of :: "'s lab \<Rightarrow> ('s, bytes) test" where
  "token_of lab = act (\<lambda>s. case randomSuffix lab s of (sfx, t) \<Rightarrow> (sfx @ newline, t))"

definition stdio_pipes :: "'s lab \<Rightarrow> ('s, string \<times> string \<times> string) test" where
  "stdio_pipes lab = andThen (act (h_tempdir (lb_host lab))) (stdio_fifos lab)"

definition testStdioRoundTrip :: "'s lab \<Rightarrow> config \<Rightarrow> ('s, unit) test" where
  "testStdioRoundTrip lab cfg = with_container lab cfg [] (\<lambda>u svc. let cid = up_cid u; eid = ''stdio-rt'' in
     andThen (stdio_pipes lab) (\<lambda>(inp, out, errp).
     andThen (inOrder [drainFifo lab out, drainFifo lab errp]) (\<lambda>x.
     andThen (must ''open stdin pipe: '' (lb_openWriter lab inp)) (\<lambda>w.
     deferred (lb_closeFile lab w) (
     andThen (start_exec lab svc cid eid (exec_spec [''/bin/cat''] exec_path) inp out errp) (\<lambda>x.
     andThen (token_of lab) (\<lambda>token.
     andThen (must_do ''write to stdin: '' (lb_write lab w token)) (\<lambda>x.
     andThen (poll_until ''timed out waiting for stdio round trip, got: '' (containing (trim_space token))
       (lb_readings lab out)) (\<lambda>got.
     andThen (act (\<lambda>s. ((), lb_closeFile lab w s))) (\<lambda>x.
     andThen (inOrder [rpc_drop svc (Kill cid eid 9 False), rpc_drop svc (Wait cid eid), rpc_drop svc (Delete cid eid)])
       (\<lambda>x. kill_init svc cid)))))))))))"

section \<open>Exit codes of execs\<close>

definition exec_exit_code :: "'s lab \<Rightarrow> 's service \<Rightarrow> string \<Rightarrow> nat \<Rightarrow> nat \<Rightarrow> ('s, unit) test" where
  "exec_exit_code lab svc cid i code = (let eid = ''exit-'' @ dec i in
     andThen (exec_pipes lab) (\<lambda>(out, errp).
     andThen (start_exec lab svc cid eid (exec_spec [''/bin/exit'', dec code] exec_path) [] out errp) (\<lambda>x.
     andThen (wait_exec svc cid eid) (\<lambda>st.
     andThen (demand (''expected exit status '' @ dec code @ '', got '' @ dec st) (st = code)) (\<lambda>x.
     delete_exec svc cid eid)))))"

definition testExitCodes :: "'s lab \<Rightarrow> config \<Rightarrow> ('s, unit) test" where
  "testExitCodes lab cfg = with_container lab cfg [] (\<lambda>u svc. let cid = up_cid u in
     andThen (inOrder (map (\<lambda>i. let name = ''Exit'' @ dec (exit_codes ! i) in
       subtest name (exec_exit_code (in_subtest lab name) svc cid i (exit_codes ! i))) [0..<length exit_codes])) (\<lambda>x.
     kill_init svc cid))"

section \<open>Input and output at size\<close>

definition large_size :: nat where
  "large_size = nat largeStdioPayloadSize"

definition close_io :: "'s service \<Rightarrow> string \<Rightarrow> string \<Rightarrow> ('s, unit) test" where
  "close_io svc cid eid = andThen (rpc ''CloseIO failed: '' svc (CloseIO cid eid True)) (\<lambda>a. ret ())"

lemma passes_close_io [passes_simps]:
  "passes (close_io svc cid eid) s x s' \<longleftrightarrow> (\<exists>a. svc (CloseIO cid eid True) s = ((a, None), s'))"
  by (auto simp: close_io_def passes_simps)

text \<open>The payload is written by a goroutine that closes the pipe; a write that does not end in time is fatal.\<close>

definition feed_stdin :: "'s lab \<Rightarrow> nat \<Rightarrow> bytes \<Rightarrow> ('s, unit) test" where
  "feed_stdin lab w data =
     must_do [] (\<lambda>s. case lb_feed lab w data s of
       (None, t) \<Rightarrow> (Some ''timed out writing stdin payload'', t)
     | (Some (Some e), t) \<Rightarrow> (Some (''write to stdin failed: '' @ e), lb_closeFile lab w t)
     | (Some None, t) \<Rightarrow> (None, lb_closeFile lab w t))"

definition testLargeStdioRoundTrip :: "'s lab \<Rightarrow> config \<Rightarrow> ('s, unit) test" where
  "testLargeStdioRoundTrip lab cfg = with_container lab cfg [] (\<lambda>u svc. let cid = up_cid u; eid = ''large-rt'' in
     andThen (stdio_pipes lab) (\<lambda>(inp, out, errp).
     andThen (must ''open stdout reader: '' (lb_openReader lab out)) (\<lambda>rd.
     andThen (on_cleanup (\<lambda>s. ([], lb_closeFile lab rd s))) (\<lambda>x.
     andThen (drainFifo lab errp) (\<lambda>x.
     andThen (must ''open stdin pipe: '' (lb_openWriter lab inp)) (\<lambda>w.
     andThen (start_exec lab svc cid eid (exec_spec [''/bin/cat''] exec_path) inp out errp) (\<lambda>x.
     andThen (feed_stdin lab w (fst (copy_limited tile_read (32 * 1024) new_tile_reader (int large_size)))) (\<lambda>x.
     andThen (close_io svc cid eid) (\<lambda>x.
     andThen (wait_exec svc cid eid) (\<lambda>st.
     andThen (demand (''cat exited with status '' @ dec st) (st = 0)) (\<lambda>x.
     andThen (await_drained lab out ''timed out waiting for stdout drain after process exit'') (\<lambda>got.
     andThen (delete_exec svc cid eid) (\<lambda>x.
     andThen (must_do [] (\<lambda>s. (verify_stdout large_size got, s))) (\<lambda>x.
     inOrder [rpc_drop svc (Kill cid [] 9 True), rpc_drop svc (Wait cid []), rpc_drop svc (Delete cid []),
       rpc_drop svc (Shutdown cid False)]))))))))))))))"

text \<open>Detaching from standard input and attaching again must not end it: only CloseIO does.\<close>

definition write_line :: "'s lab \<Rightarrow> string \<Rightarrow> nat \<Rightarrow> bytes \<Rightarrow> ('s, unit) test" where
  "write_line lab label w line =
     andThen (must_do label (lb_write lab w line)) (\<lambda>x. act (\<lambda>s. ((), lb_closeFile lab w s)))"

lemma passes_write_line [passes_simps]:
  "passes (write_line lab label w line) s x s' \<longleftrightarrow> (\<exists>t. lb_write lab w line s = (None, t) \<and> s' = lb_closeFile lab w t)"
  by (auto simp: write_line_def passes_simps)

text \<open>This test asks for a version 3 client whatever version the shim declared.\<close>

definition testStdinDetachReattach :: "'s lab \<Rightarrow> config \<Rightarrow> ('s, unit) test" where
  "testStdinDetachReattach lab cfg =
     andThen (bring_up lab cfg ''exec'' [''/bin/forever''] []) (\<lambda>u. deferred (lb_close lab (up_conn u)) (
     let svc = lb_task3 lab (up_conn u); cid = up_cid u; eid = ''detach-rt'' in
     andThen (start_init lab u svc) (\<lambda>x.
     andThen (stdio_pipes lab) (\<lambda>(inp, out, errp).
     andThen (inOrder [drainFifo lab out, drainFifo lab errp]) (\<lambda>x.
     andThen (must ''open stdin (first writer): '' (lb_openWriter lab inp)) (\<lambda>w1.
     andThen (start_exec lab svc cid eid (exec_spec [''/bin/cat''] exec_path) inp out errp) (\<lambda>x.
     andThen (write_line lab ''write first line: '' w1 (''first'' @ newline)) (\<lambda>x.
     andThen (must ''open stdin (second writer, re-attach): '' (lb_openWriter lab inp)) (\<lambda>w2.
     andThen (write_line lab ''write second line: '' w2 (''second'' @ newline)) (\<lambda>x.
     andThen (close_io svc cid eid) (\<lambda>x.
     andThen (wait_exec svc cid eid) (\<lambda>st.
     andThen (demand (''cat exited with status '' @ dec st) (st = 0)) (\<lambda>x.
     andThen (delete_exec svc cid eid) (\<lambda>x.
     andThen (buffered lab out) (\<lambda>got.
     andThen (demand (''expected output to contain both writes, got: '' @ quote got)
       (str_contains got ''first'' \<and> str_contains got ''second'')) (\<lambda>x.
     inOrder [rpc_drop svc (Kill cid [] 9 True), rpc_drop svc (Wait cid []), rpc_drop svc (Delete cid []),
       rpc_drop svc (Shutdown cid False)]))))))))))))))))"

section \<open>The clock\<close>

text \<open>
  \<^verbatim>\<open>time.Unix\<close> counts its seconds from year 1 in 64 bits, wrapping; instants are compared by
  seconds, then nanoseconds.
\<close>

definition unixToInternal :: int where
  "unixToInternal = 62135596800"

definition time_Unix :: "int \<Rightarrow> int \<times> int" where
  "time_Unix sec = (wrap64 (sec + unixToInternal), 0)"

definition time_before :: "int \<times> int \<Rightarrow> int \<times> int \<Rightarrow> bool" where
  "time_before a b \<longleftrightarrow> fst a < fst b \<or> (fst a = fst b \<and> snd a < snd b)"

definition add_secs :: "int \<Rightarrow> int \<times> int \<Rightarrow> int \<times> int" where
  "add_secs d a = (wrap64 (fst a + d), snd a)"

definition clock_ok :: "int \<times> int \<Rightarrow> int \<Rightarrow> int \<times> int \<Rightarrow> bool" where
  "clock_ok before_exec epoch after_wait \<longleftrightarrow>
     \<not> time_before (time_Unix epoch) (add_secs (- 2) before_exec)
   \<and> \<not> time_before (add_secs 2 after_wait) (time_Unix epoch)"

definition host_time :: "'s lab \<Rightarrow> ('s, int \<times> int) test" where
  "host_time lab = act (\<lambda>s. (lb_now lab s, s))"

definition testClock :: "'s lab \<Rightarrow> config \<Rightarrow> ('s, unit) test" where
  "testClock lab cfg = with_container lab cfg [] (\<lambda>u svc. let cid = up_cid u; eid = ''clock1'' in
     andThen (exec_pipes lab) (\<lambda>(out, errp).
     andThen (must ''failed to marshal exec spec: ''
       (\<lambda>s. (lb_anyProcess lab (exec_spec [''/bin/date'', ''+%s''] ''/bin:/usr/bin:/sbin:/usr/sbin''), s))) (\<lambda>sp.
     andThen (host_time lab) (\<lambda>before_exec.
     andThen (rpc ''exec failed: '' svc (Exec cid eid False [] out errp sp)) (\<lambda>a.
     andThen (rpc ''exec start failed: '' svc (Start cid eid)) (\<lambda>a.
     andThen (wait_exec svc cid eid) (\<lambda>st.
     andThen (host_time lab) (\<lambda>after_wait.
     andThen (demand (''clock exec exited with status '' @ dec st) (st = 0)) (\<lambda>x.
     andThen (buffered lab out) (\<lambda>raw. let got = trim_space raw in
     andThen (must (''failed to parse VM timestamp '' @ quote got @ '': '')
       (\<lambda>s. (case atoi got of None \<Rightarrow> Inl (num_error ''ParseInt'' got) | Some n \<Rightarrow> Inr n, s))) (\<lambda>vmEpoch.
     andThen (demand ''VM clock is not synchronized'' (clock_ok before_exec vmEpoch after_wait)) (\<lambda>x.
     andThen (delete_exec svc cid eid) (\<lambda>x. kill_init svc cid)))))))))))))"

section \<open>Reading the fixture file\<close>

definition bigFileContainerPath :: string where
  "bigFileContainerPath = ''/data/bigfile''"

definition big_hash_hex :: "'s lab \<Rightarrow> string" where
  "big_hash_hex lab = hex32 (crc32c (lb_bigfile lab))"

text \<open>
  \<^verbatim>\<open>fmt.Sscanf(out, "ok bytes=%d ns=%d cpu_bound=%d", ...)\<close> counted as three items: literal
  text, one or more spaces where the format has one, decimal numbers in range.
\<close>

definition scan_lit :: "string \<Rightarrow> string \<Rightarrow> string option" where
  "scan_lit lit s = (if has_prefix s lit then Some (drop (length lit) s) else None)"

definition blank :: "char \<Rightarrow> bool" where
  "blank c \<longleftrightarrow> is_space c \<and> c \<noteq> CHR 0x0A"

definition scan_blank :: "string \<Rightarrow> string option" where
  "scan_blank s = (if takeWhile blank s = [] then None else Some (dropWhile blank s))"

definition scan_int :: "string \<Rightarrow> (int \<times> string) option" where
  "scan_int s =
     (let r = dropWhile blank s in
      case take_number r of
        None \<Rightarrow> None
      | Some v \<Rightarrow>
          Some (v, dropWhile is_digit (if r \<noteq> [] \<and> (hd r = CHR ''-'' \<or> hd r = CHR ''+'') then tl r else r)))"

definition scan_report :: "string \<Rightarrow> (int \<times> int \<times> int) option" where
  "scan_report out =
     Option.bind (scan_lit ''ok'' out) (\<lambda>a. Option.bind (scan_blank a) (\<lambda>a.
     Option.bind (scan_lit ''bytes='' a) (\<lambda>a. Option.bind (scan_int a) (\<lambda>(nBytes, a).
     Option.bind (scan_blank a) (\<lambda>a. Option.bind (scan_lit ''ns='' a) (\<lambda>a. Option.bind (scan_int a) (\<lambda>(elapsedNS, a).
     Option.bind (scan_blank a) (\<lambda>a. Option.bind (scan_lit ''cpu_bound='' a) (\<lambda>a. Option.bind (scan_int a) (\<lambda>(cpuBound, a).
     Some (nBytes, elapsedNS, cpuBound)))))))))))"

definition runHashverify ::
    "'s lab \<Rightarrow> config \<Rightarrow> string \<Rightarrow> string \<Rightarrow> spec_mount list \<Rightarrow> ('s, unit) test" where
  "runHashverify lab cfg path hashHex1 extraMounts =
     with_container lab cfg (if extraMounts = [] then [] else [withExtraMounts extraMounts])
       (\<lambda>u svc. let cid = up_cid u; eid = ''hashv'' in
     andThen (exec_pipes lab) (\<lambda>(out, errp).
     andThen (start_exec lab svc cid eid (exec_spec [''/bin/hashverify'', path, hashHex1] exec_path) [] out errp) (\<lambda>x.
     andThen (wait_exec svc cid eid) (\<lambda>st.
     andThen (demand (''hashverify exit status '' @ dec st) (st = 0)) (\<lambda>x.
     andThen (buffered lab out) (\<lambda>raw.
     andThen (demand (''could not parse hashverify output '' @ quote (trim_space raw))
       (scan_report (trim_space raw) \<noteq> None)) (\<lambda>x.
     andThen (rpc_drop svc (Delete cid eid)) (\<lambda>x. kill_init svc cid))))))))"

definition testLargeFileRead :: "'s lab \<Rightarrow> config \<Rightarrow> ('s, unit) test" where
  "testLargeFileRead lab cfg = runHashverify lab cfg bigFileContainerPath (big_hash_hex lab) []"

definition write_big_file :: "'s lab \<Rightarrow> string \<Rightarrow> ('s, unit) test" where
  "write_big_file lab hostFile =
     andThen (must_do ''create host bigfile: '' (h_do (lb_host lab) (CreateFile hostFile))) (\<lambda>x.
     andThen (must_do [] (\<lambda>s. case h_do (lb_host lab) (CopyToFile hostFile 438 (lb_bigfile lab)) s of
         (None, t) \<Rightarrow> (None, t)
       | (Some e, t) \<Rightarrow> (Some (''write host bigfile: '' @ e), snd (h_do (lb_host lab) (CloseFile hostFile) t)))) (\<lambda>x.
     must_do ''close host bigfile: '' (h_do (lb_host lab) (CloseFile hostFile))))"

definition testBindMountRead :: "'s lab \<Rightarrow> config \<Rightarrow> ('s, unit) test" where
  "testBindMountRead lab cfg =
     andThen (act (h_tempdir (lb_host lab))) (\<lambda>dir. let hostFile = path_join [dir, ''bigfile''] in
     andThen (write_big_file lab hostFile) (\<lambda>x.
     runHashverify lab cfg ''/tmp/bigfile'' (big_hash_hex lab)
       [\<lparr>sm_destination = ''/tmp/bigfile'', sm_type = ''bind'', sm_source = hostFile, sm_options = [''rbind'']\<rparr>]))"

section \<open>Output still on its way\<close>

definition burst_exec :: "'s lab \<Rightarrow> 's service \<Rightarrow> string \<Rightarrow> string \<Rightarrow> string \<Rightarrow> string \<Rightarrow> ('s, unit) test" where
  "burst_exec lab svc cid eid out errp =
     start_exec lab svc cid eid (exec_spec [''/bin/burstexit'', dec burst_size, ''0''] exec_path) [] out errp"

definition testFastExitOutput :: "'s lab \<Rightarrow> config \<Rightarrow> ('s, unit) test" where
  "testFastExitOutput lab cfg = with_container lab cfg [] (\<lambda>u svc. let cid = up_cid u in
     andThen (exec_pipes lab) (\<lambda>(out, errp).
     andThen (burst_exec lab svc cid ''burst-0'' out errp) (\<lambda>x.
     andThen (rpc_drop svc (Shutdown cid False)) (\<lambda>x.
     andThen (await_drained lab out ''timed out waiting for stdout drain after shutdown'') (\<lambda>got.
     must_do [] (\<lambda>s. (check_burst got, s)))))))"

text \<open>A call and the time it took.\<close>

definition timed :: "'s lab \<Rightarrow> 's service \<Rightarrow> req \<Rightarrow> ('s, err option \<times> int) test" where
  "timed lab svc r = act (\<lambda>s. case svc r s of ((a, e), t) \<Rightarrow> ((e, lb_clock lab t - lb_clock lab s), t))"

lemma passes_timed [passes_simps]:
  "passes (timed lab svc r) s y s' \<longleftrightarrow>
     (\<exists>a e. svc r s = ((a, e), s') \<and> y = (e, lb_clock lab s' - lb_clock lab s))"
  by (auto simp: timed_def passes_simps split: prod.splits)

definition five_secs :: int where
  "five_secs = 5 * 10 ^ 9"

text \<open>Here init has no output of its own, so that only the exec's can hold the shutdown up.\<close>

definition testExecOutputDrainAfterExit :: "'s lab \<Rightarrow> config \<Rightarrow> ('s, unit) test" where
  "testExecOutputDrainAfterExit lab cfg =
     andThen (shimSetup lab cfg) (\<lambda>(shimBin, bundleDir, rootfsMounts).
     andThen (container_id lab) (\<lambda>cid.
     andThen (oci_spec lab bundleDir [''/bin/forever''] cfg []) (\<lambda>x.
     andThen (unique_namespace lab ''exec'') (\<lambda>ns.
     andThen (start_shim lab shimBin bundleDir cid ns cfg) (\<lambda>p.
     andThen (connect_shim lab (bp_address p)) (\<lambda>conn.
     let u = \<lparr>up_conn = conn, up_version = bp_version p, up_cid = cid, up_bundle = bundleDir, up_ns = ns,
          up_mounts = rootfsMounts, up_out = [], up_err = []\<rparr> in
     with_client lab u (\<lambda>svc.
     andThen (create_task lab u ''create failed: '' svc) (\<lambda>a.
     andThen (rpc ''start failed: '' svc (Start cid [])) (\<lambda>a.
     andThen (exec_pipes lab) (\<lambda>(out, errp).
     andThen (burst_exec lab svc cid ''drain-0'' out errp) (\<lambda>x.
     andThen (timed lab svc (Shutdown cid False)) (\<lambda>(e, elapsed).
     andThen (demand ''Shutdown blocked: shim did not propagate exec stdout close'' (elapsed \<le> five_secs)) (\<lambda>x.
     andThen (await_drained lab out ''stdout FIFO did not drain within 2s after Shutdown returned'') (\<lambda>got.
     must_do [] (\<lambda>s. (check_burst got, s))))))))))))))))"

section \<open>Execs that have no output, and execs that cannot start\<close>

definition testExecDiscardIO :: "'s lab \<Rightarrow> config \<Rightarrow> ('s, unit) test" where
  "testExecDiscardIO lab cfg = with_container lab cfg [] (\<lambda>u svc. let cid = up_cid u; eid = ''discard-io'' in
     andThen (start_exec lab svc cid eid (exec_spec [''/bin/echo'', ''discardme''] exec_path) [] [] []) (\<lambda>x.
     andThen (wait_exec svc cid eid) (\<lambda>st.
     andThen (delete_exec svc cid eid) (\<lambda>x.
     andThen (rpc ''container State after exec delete failed (shim likely crashed): '' svc (State cid [])) (\<lambda>a.
     andThen (task_status a) (\<lambda>st.
     andThen (demand ''container is not RUNNING after deleting a discarded-IO exec'' (st = RUNNING)) (\<lambda>x.
     kill_init svc cid)))))))"

definition exec_missing :: "'s lab \<Rightarrow> 's service \<Rightarrow> string \<Rightarrow> string \<Rightarrow> ('s, unit) test" where
  "exec_missing lab svc cid eid =
     andThen (exec_pipes lab) (\<lambda>(out, errp).
     andThen (new_exec lab svc cid eid (exec_spec [''/bin/this-binary-does-not-exist''] exec_path) [] out errp) (\<lambda>x.
     andThen (act (svc (Start cid eid))) (\<lambda>(a, e).
     andThen (demand ''expected exec start of a missing binary to fail, got nil error'' (e \<noteq> None)) (\<lambda>x.
     andThen (timed lab svc (Delete cid eid)) (\<lambda>(e, elapsed).
     andThen (demand ''exec Delete blocked: shim did not close the exec stream connections'' (elapsed \<le> five_secs)) (\<lambda>x.
     kill_init svc cid))))))"

definition testExecCommandNotFound :: "'s lab \<Rightarrow> config \<Rightarrow> ('s, unit) test" where
  "testExecCommandNotFound lab cfg = with_container lab cfg [] (\<lambda>u svc. exec_missing lab svc (up_cid u) ''notfound-0'')"

definition ExecSuite :: "(string \<times> ('s lab \<Rightarrow> config \<Rightarrow> ('s, unit) test)) list" where
  "ExecSuite = [(''Exec'', testExec), (''StdioRoundTrip'', testStdioRoundTrip),
     (''LargeStdioRoundTrip'', testLargeStdioRoundTrip), (''StdinDetachReattach'', testStdinDetachReattach),
     (''Clock'', testClock), (''ExitCodes'', testExitCodes), (''LargeFileRead'', testLargeFileRead),
     (''BindMountRead'', testBindMountRead), (''FastExitOutput'', testFastExitOutput),
     (''ExecOutputDrainAfterExit'', testExecOutputDrainAfterExit), (''ExecDiscardIO'', testExecDiscardIO),
     (''ExecCommandNotFound'', testExecCommandNotFound)]"

section \<open>What a passing test says\<close>

lemma with_container_passes:
  assumes "passes (with_container lab cfg opts body) s x s'"
  obtains u svc t t1 t2 where "passes (bring_up lab cfg ''exec'' [''/bin/forever''] opts) s u t"
    and "taskClientForVersion (lb_task2 lab (up_conn u)) (lb_task3 lab (up_conn u)) (up_version u) = Some svc"
    and "passes (start_init lab u svc) t () t1" and "passes (body u svc) t1 () t2"
  using assms by (auto simp: with_container_def passes_simps)

text \<open>The clock: a passing test brackets the time the container printed, whatever number it printed.\<close>

lemma wrap64_range: "- (2 ^ 63) \<le> wrap64 i \<and> wrap64 i < 2 ^ 63"
  by (simp add: wrap64_def)

lemma wrap64_over: "2 ^ 63 \<le> i \<Longrightarrow> i < 2 ^ 64 \<Longrightarrow> wrap64 i = i - 2 ^ 64"
proof -
  assume i: "2 ^ 63 \<le> i" "i < 2 ^ 64"
  have "(i + 2 ^ 63) mod 2 ^ 64 = (i + 2 ^ 63 - 2 ^ 64) mod 2 ^ 64" by (rule minus_mod_self2 [symmetric])
  also have "\<dots> = i + 2 ^ 63 - 2 ^ 64" using i by (intro mod_pos_pos_trivial) simp_all
  finally show ?thesis by (simp add: wrap64_def)
qed

lemma clock_ok_bracket:
  assumes "clock_ok b epoch a" and "in_int64 epoch"
    and "0 \<le> fst b" and "fst b < 2 ^ 62" and "0 \<le> fst a" and "fst a < 2 ^ 62" and "0 \<le> snd b" and "snd a < 10 ^ 9"
  shows "fst b - 2 \<le> epoch + unixToInternal \<and> epoch + unixToInternal \<le> fst a + 2"
proof -
  let ?v = "wrap64 (epoch + unixToInternal)"
  have ba: "wrap64 (fst b - 2) = fst b - 2" "wrap64 (fst a + 2) = fst a + 2"
    using assms(3-6) by (simp_all add: wrap64_id in_int64_def)
  from assms(1) have v: "fst b - 2 \<le> ?v" "?v \<le> fst a + 2"
    by (auto simp: clock_ok_def time_before_def time_Unix_def add_secs_def ba)
  have "?v = epoch + unixToInternal"
  proof (cases "in_int64 (epoch + unixToInternal)")
    case True
    then show ?thesis by (rule wrap64_id)
  next
    case False
    with assms(2) have "2 ^ 63 \<le> epoch + unixToInternal" "epoch + unixToInternal < 2 ^ 63 + unixToInternal"
      by (auto simp: in_int64_def unixToInternal_def)
    then have "?v = epoch + unixToInternal - 2 ^ 64"
      by (intro wrap64_over) (simp_all add: unixToInternal_def)
    with v(1) assms(3) \<open>epoch + unixToInternal < 2 ^ 63 + unixToInternal\<close> show ?thesis
      by (simp add: unixToInternal_def)
  qed
  with v show ?thesis by simp
qed

lemma atoi_in_int64: "atoi s = Some n \<Longrightarrow> in_int64 n"
  by (auto simp: atoi_def in_range64_def split: if_splits option.splits)

text \<open>What the report line of \<^verbatim>\<open>hashverify\<close> prints is what the harness scans from it.\<close>

lemma scan_lit_append: "scan_lit lit (lit @ s) = Some s"
  by (simp add: scan_lit_def has_prefix_append)

lemma scan_blank_append: "s = [] \<or> \<not> blank (hd s) \<Longrightarrow> scan_blank ('' '' @ s) = Some s"
  by (cases s) (auto simp: scan_blank_def blank_def is_space_def)

lemma takeWhile_digits: "r = [] \<or> \<not> is_digit (hd r) \<Longrightarrow> takeWhile is_digit (dec n @ r) = dec n"
  using dec_digits by (cases r) (auto simp: takeWhile_append)

lemma dropWhile_digits: "r = [] \<or> \<not> is_digit (hd r) \<Longrightarrow> dropWhile is_digit (dec n @ r) = r"
  using dec_digits by (cases r) (auto simp: dropWhile_append)

lemma scan_int_dec:
  assumes "int n < 2 ^ 63" and r: "r = [] \<or> \<not> is_digit (hd r)"
  shows "scan_int (dec n @ r) = Some (int n, r)"
proof -
  obtain c cs where d: "dec n = c # cs" by (cases "dec n") auto
  then have c: "is_digit c" using dec_digits [of c n] by simp
  then have ns: "\<not> blank c" "c \<noteq> CHR ''-''" "c \<noteq> CHR ''+''"
    using digit_not_special digit_not_space by (auto simp: blank_def)
  have "take_number (dec n @ r) = atoi (dec n)"
    using takeWhile_digits [OF r, of n] ns by (simp add: take_number_def d)
  moreover have "dropWhile blank (dec n @ r) = dec n @ r" using ns by (simp add: d)
  moreover have "hd (dec n @ r) = c" "dec n @ r \<noteq> []" by (simp_all add: d)
  ultimately show ?thesis
    using assms(1) dropWhile_digits [OF r, of n] ns by (simp add: scan_int_def Let_def atoi_dec)
qed

definition report_line :: "nat \<Rightarrow> nat \<Rightarrow> nat \<Rightarrow> string" where
  "report_line n ns cpu = ''ok'' @ '' '' @ ''bytes='' @ dec n @ '' '' @ ''ns='' @ dec ns @ '' '' @ ''cpu_bound='' @ dec cpu"

lemma scan_report_line:
  assumes "int n < 2 ^ 63" and "int ns < 2 ^ 63" and "int cpu < 2 ^ 63"
  shows "scan_report (report_line n ns cpu) = Some (int n, int ns, int cpu)"
proof -
  have b: "scan_blank ('' '' @ ''bytes='' @ s) = Some (''bytes='' @ s)"
    "scan_blank ('' '' @ ''ns='' @ s) = Some (''ns='' @ s)"
    "scan_blank ('' '' @ ''cpu_bound='' @ s) = Some (''cpu_bound='' @ s)" for s
    by (rule scan_blank_append, simp add: blank_def is_space_def)+
  have i: "scan_int (dec n @ '' '' @ s) = Some (int n, '' '' @ s)" "scan_int (dec ns @ '' '' @ s) = Some (int ns, '' '' @ s)"
    for s by (rule scan_int_dec, fact, simp add: is_digit_def)+
  have e: "scan_int (dec cpu) = Some (int cpu, [])" using scan_int_dec [of cpu "[]"] assms(3) by simp
  show ?thesis
    unfolding scan_report_def report_line_def
    by (simp only: scan_lit_append b i e Option.bind.bind_lunit prod.case)
qed

lemma trim_space_ends:
  assumes "s \<noteq> []" and "\<not> is_space (hd s)" and "\<not> is_space (last s)"
  shows "trim_space (s @ newline) = s"
proof -
  have "trim_left_by is_space (s @ newline) = s @ newline"
    using assms(1,2) by (cases s) (simp_all add: trim_left_by_def)
  moreover have "is_space CHR 0x0A" by (simp add: is_space_def)
  ultimately show ?thesis
    using assms by (simp add: trim_space_def newline_def trim_right_by_snoc trim_right_by_none)
qed

lemma report_line_trimmed: "trim_space (report_line n ns cpu @ newline) = report_line n ns cpu"
proof (rule trim_space_ends)
  show "report_line n ns cpu \<noteq> []" and "\<not> is_space (hd (report_line n ns cpu))"
    by (simp_all add: report_line_def is_space_def)
  have "last (report_line n ns cpu) = last (dec cpu)" by (simp add: report_line_def)
  then show "\<not> is_space (last (report_line n ns cpu))"
    using dec_digits [OF last_in_set [OF dec_nonempty]] digit_not_space by simp
qed

text \<open>The counter of full channels is at most the number of chunks, hence of bytes.\<close>

definition counted :: "hv \<Rightarrow> bool" where
  "counted s \<longleftrightarrow> (case pc s of
       Sending b n e \<Rightarrow> cpuBound s \<le> total s \<and> 0 < n
     | Blocked b n e \<Rightarrow> cpuBound s \<le> Suc (total s) \<and> 0 < n
     | _ \<Rightarrow> cpuBound s \<le> total s)"

interpretation hv_count: step_invariant hv_step counted
proof
  fix s t
  assume "counted s" and "hv_step s t"
  from this(2,1) show "counted t"
    by (cases rule: hv_step.cases) (auto simp: counted_def after_def split: rd_end.splits hv_pc.splits)
qed

lemma cpuBound_le_total:
  assumes "hv_step\<^sup>*\<^sup>* (hv_init file e) t" and "hv_done t"
  shows "cpuBound t \<le> total t"
  using hv_count.run_preserves [OF assms(1)] assms(2) by (auto simp: counted_def hv_init_def hv_done_def)

text \<open>
  C23. The report that hashverify prints for a file with the expected checksum, for every
  schedule of its reader and hasher, is read back by the exec suite as the file's length
  and the elapsed time, and the command exits 0.
\<close>

theorem hashverify_report_scanned:
  assumes "complete sched" and "3 \<le> length args" and "k_open k w (args ! 1) = Inr (data, None)"
    and "args ! 2 = hex32 (crc32c data)" and "stdout p = []" and "room p = None"
    and "int (length data) < 2 ^ 63" and "int ns < 2 ^ 63"
  shows "ending_of (cmdHashverify k sched (int ns) args w p) = Exit 0
    \<and> (\<exists>cpu. scan_report (trim_space (stdout (proc_of (cmdHashverify k sched (int ns) args w p))))
         = Some (int (length data), int ns, cpu))"
proof -
  let ?t = "sched data Eof"
  have run: "hv_step\<^sup>*\<^sup>* (hv_init data Eof) ?t" and fin: "hv_done ?t \<or> hv_failed ?t"
    using assms(1) by (auto simp: complete_def)
  have d: "hv_done ?t"
    using fin hv_final_failed [OF run] by (auto simp: hv_failed_def)
  note final = hv_final [OF run _ d]
  have "cmdHashverify k sched (int ns) args w p
      = (w, println (report_line (length data) ns (cpuBound ?t)) p, Exit 0)"
    using d final assms(2-4)
    by (simp add: cmdHashverify_def end_of_def Let_def hv_done_def digest_sum32_def report_line_def itoa_def)
  moreover have "int (cpuBound ?t) < 2 ^ 63"
    using cpuBound_le_total [OF run d] final(2) assms(7) by simp
  ultimately show ?thesis
    using assms(5-8) report_line_trimmed scan_report_line [of "length data" ns "cpuBound ?t"]
    by (simp add: proc_of_def ending_of_def)
qed

section \<open>The contracts the tests check\<close>

lemma testExec_output:
  assumes "passes (testExec lab cfg) s x s'"
  shows "\<exists>out t. str_contains (lb_buffered lab out t) ''execworks''"
  using assms by (auto simp: testExec_def Let_def passes_simps elim!: with_container_passes) blast

text \<open>What was written to the input of \<^verbatim>\<open>cat\<close> came out of it, as far as count and checksum tell.\<close>

lemma large_payload: "fst (copy_limited tile_read b new_tile_reader (int n)) = tiledPayload n"
  by (rule tile_copy_payload)

lemma testLargeStdioRoundTrip_intact:
  assumes "passes (testLargeStdioRoundTrip lab cfg) s x s'"
  shows "\<exists>w out t1 t2 t3 t4 got. lb_feed lab w (tiledPayload large_size) t1 = (Some None, t2)
    \<and> lb_drained lab out t3 = (Some got, t4) \<and> length got = large_size
    \<and> crc32c got = crc32c (tiledPayload large_size)"
proof -
  from assms obtain w out t1 t2 t3 t4 got where "lb_drained lab out t3 = (Some got, t4)"
    and v: "verify_stdout large_size got = None"
    and f: "passes (feed_stdin lab w (tiledPayload large_size)) t1 () t2"
    by (auto simp: testLargeStdioRoundTrip_def large_payload Let_def passes_simps elim!: with_container_passes)
  moreover from f obtain t where "lb_feed lab w (tiledPayload large_size) t1 = (Some None, t)"
    by (auto simp: feed_stdin_def passes_simps split: prod.splits option.splits)
  ultimately show ?thesis using verify_length [OF v] by blast
qed

text \<open>
  The detach test talks to the version 3 service whatever version the shim declared: a shim
  that offers only version 2 cannot pass it, though every other test of the suite runs over
  the bridge.
\<close>

lemma testStdinDetachReattach_version3:
  assumes "passes (testStdinDetachReattach lab cfg) s x s'"
  shows "\<exists>u t t1 t2 a. passes (bring_up lab cfg ''exec'' [''/bin/forever''] []) s u t
    \<and> lb_task3 lab (up_conn u) (Start (up_cid u) []) t1 = ((a, None), t2)"
  using assms by (auto simp: testStdinDetachReattach_def start_init_def Let_def passes_simps)

lemma testStdinDetachReattach_v2_only:
  assumes "\<And>c r t. snd (fst (lb_task3 lab c r t)) \<noteq> None"
  shows "\<not> passes (testStdinDetachReattach lab cfg) s x s'"
  using assms testStdinDetachReattach_version3 [of lab cfg s x s'] by (metis fst_conv snd_conv)

text \<open>The burst arrives whole although the shim is shut down while it is on its way.\<close>

lemma testFastExitOutput_intact:
  assumes "passes (testFastExitOutput lab cfg) s x s'"
  shows "\<exists>out t1 t2 got. lb_drained lab out t1 = (Some got, t2)
    \<and> length got = burst_size \<and> crc32c got = crc32c (tiledPayload burst_size)"
  using assms
  by (auto simp: testFastExitOutput_def Let_def passes_simps dest!: check_burst_ok elim!: with_container_passes) blast

text \<open>A command that is missing makes the start fail, and deleting the exec is quick.\<close>

lemma testExecCommandNotFound_fails:
  assumes "passes (testExecCommandNotFound lab cfg) s x s'"
  shows "\<exists>(u :: up) svc t1 t2 t3 t4 a e b. svc (Start (up_cid u) ''notfound-0'') t1 = ((a, Some e), t2)
    \<and> svc (Delete (up_cid u) ''notfound-0'') t3 = (b, t4) \<and> lb_clock lab t4 - lb_clock lab t3 \<le> five_secs
    \<and> taskClientForVersion (lb_task2 lab (up_conn u)) (lb_task3 lab (up_conn u)) (up_version u) = Some svc"
proof -
  from assms obtain u :: up and svc s1 s2 where
    c: "taskClientForVersion (lb_task2 lab (up_conn u)) (lb_task3 lab (up_conn u)) (up_version u) = Some svc"
    and p: "passes (exec_missing lab svc (up_cid u) ''notfound-0'') s1 () s2"
    unfolding testExecCommandNotFound_def by (rule with_container_passes) blast
  from p obtain t1 t2 t3 t4 a e b where "svc (Start (up_cid u) ''notfound-0'') t1 = ((a, Some e), t2)"
    "svc (Delete (up_cid u) ''notfound-0'') t3 = (b, t4)" "lb_clock lab t4 - lb_clock lab t3 \<le> five_secs"
    by (auto simp: exec_missing_def passes_simps)
  with c show ?thesis by blast
qed

text \<open>A container's clock accepted by the test is within two seconds of the host's.\<close>


lemma exec_exit_code_waits:
  assumes "passes (exec_exit_code lab svc cid i code) s x s'"
  shows "\<exists>t t' at. svc (Wait cid (''exit-'' @ dec i)) t = ((Some (WaitResp code at), None), t')"
  using assms by (auto simp: exec_exit_code_def Let_def passes_simps)

end
