(* ===== verification/Sandbox.thy ===== *)
theory Sandbox
  imports Exec_Suite
begin

text \<open>
  A sandbox and its member containers (\<^verbatim>\<open>helpers_sandbox.go\<close>): starting the shim through the
  sandbox API, creating, releasing and cleaning up members, the maps that track them, and
  reading their output. The tracking maps are state beside the world of the shim: a test of
  this component runs over pairs of both.
\<close>

section \<open>The sandbox service\<close>

datatype sreq =
    CreateSandbox (sr_id: string) (cs_bundle: string) (cs_netns: string)
  | StartSandbox (sr_id: string)
  | Platform (sr_id: string)
  | StopSandbox (sr_id: string)
  | WaitSandbox (sr_id: string)
  | SandboxStatus (sr_id: string) (ss_verbose: bool)
  | PingSandbox (sr_id: string)
  | ShutdownSandbox (sr_id: string)

text \<open>A time stamp is its seconds since 1970 and nanoseconds, or nil.\<close>

type_synonym stamp = "(int \<times> int) option"

datatype sresp =
    SandboxStarted nat stamp
  | SandboxPlatform "(string \<times> string \<times> string) option"
  | SandboxState nat string "(string \<times> string) list" stamp
  | SandboxDone

type_synonym 's sandbox_service = "sreq \<Rightarrow> 's \<Rightarrow> (sresp option \<times> err option) \<times> 's"

text \<open>What goes on between two polls of a loop with a deadline and a context.\<close>

datatype tick = Again | Late | ContextDone err

record 's sandlab =
  sl_lab :: "'s lab"
  sl_sandbox :: "nat \<Rightarrow> 's sandbox_service"
  sl_json :: "string \<Rightarrow> (string \<times> string) list \<Rightarrow> bytes result"
  sl_mountinfo :: "int \<Rightarrow> 's \<Rightarrow> bytes result"
  sl_ticks :: "'s \<Rightarrow> tick list"
  sl_both :: "string \<Rightarrow> string \<Rightarrow> 's \<Rightarrow> bytes"

section \<open>The environment\<close>

record 's sandbox =
  sb_id :: string
  sb_address :: string
  sb_sc :: "'s sandbox_service"
  sb_tc :: "'s service"

text \<open>
  \<open>containers\<close> in creation order, the captured output of a member by the FIFO whose buffer it
  is, and the FIFO a member with an input reads from.
\<close>

record senv =
  containers :: "string list"
  stdoutBufs :: "string \<Rightarrow> string option"
  stdinPaths :: "string \<Rightarrow> string option"

definition no_members :: senv where
  "no_members = \<lparr>containers = [], stdoutBufs = Map.empty, stdinPaths = Map.empty\<rparr>"

definition track :: "string \<Rightarrow> string \<Rightarrow> string option \<Rightarrow> senv \<Rightarrow> senv" where
  "track cid out inp e =
     e\<lparr>containers := containers e @ [cid], stdoutBufs := (stdoutBufs e)(cid \<mapsto> out),
       stdinPaths := (case inp of None \<Rightarrow> stdinPaths e | Some p \<Rightarrow> (stdinPaths e)(cid \<mapsto> p))\<rparr>"

definition track_fast :: "string \<Rightarrow> senv \<Rightarrow> senv" where
  "track_fast cid e = e\<lparr>containers := containers e @ [cid]\<rparr>"

text \<open>The first occurrence goes, and the captured output with it.\<close>

definition untrack :: "string \<Rightarrow> senv \<Rightarrow> senv" where
  "untrack cid e = e\<lparr>containers := remove1 cid (containers e), stdoutBufs := (stdoutBufs e)(cid := None)\<rparr>"

text \<open>A test of the shim's world as one of the pair, and an operation on the maps.\<close>

definition inner :: "('s, 'a) test \<Rightarrow> ('s \<times> 'e, 'a) test" where
  "inner m se =
     (case m (fst se) of (r, es, cs, s1) \<Rightarrow>
       (r, es, map (\<lambda>c se. case c (fst se) of (out, s2) \<Rightarrow> (out, (s2, snd se))) cs, (s1, snd se)))"

definition on_env :: "('e \<Rightarrow> 'e) \<Rightarrow> ('s \<times> 'e, unit) test" where
  "on_env f = act (\<lambda>(s, e). ((), (s, f e)))"

lemma passes_inner [passes_simps]:
  "passes (inner m) se a se' \<longleftrightarrow> passes m (fst se) a (fst se') \<and> snd se' = snd se"
  by (cases se; cases se') (auto simp: passes_def inner_def split: prod.splits)

lemma passes_on_env [passes_simps]:
  "passes (on_env f) se u se' \<longleftrightarrow> se' = (fst se, f (snd se))"
  by (cases se) (auto simp: on_env_def passes_act)

section \<open>The maps\<close>

text \<open>
  What tracking promises: members are listed once, and only members have captured output. The
  operations are used on fresh ids, which the random suffix of an id provides.
\<close>

locale registry =
  fixes add :: "'k \<Rightarrow> 'e \<Rightarrow> 'e" and remove :: "'k \<Rightarrow> 'e \<Rightarrow> 'e" and members :: "'e \<Rightarrow> 'k list"
    and well :: "'e \<Rightarrow> bool"
  assumes add_members: "members (add k e) = members e @ [k]"
    and remove_members: "well e \<Longrightarrow> members (remove k e) = filter (\<lambda>x. x \<noteq> k) (members e)"
    and well_add: "well e \<Longrightarrow> k \<notin> set (members e) \<Longrightarrow> well (add k e)"
    and well_remove: "well e \<Longrightarrow> well (remove k e)"
    and well_distinct: "well e \<Longrightarrow> distinct (members e)"
begin

lemma remove_gone: "well e \<Longrightarrow> k \<notin> set (members (remove k e))"
  by (simp add: remove_members)

lemma remove_twice: "well e \<Longrightarrow> members (remove k (remove k e)) = members (remove k e)"
  by (simp add: remove_members well_remove)

lemma add_remove: "well e \<Longrightarrow> k \<notin> set (members e) \<Longrightarrow> members (remove k (add k e)) = members e"
  by (simp add: remove_members well_add add_members filter_remove_absent)

text \<open>Removing all that was added, in any order of removal, leaves no member.\<close>

lemma remove_all: "well e \<Longrightarrow> set (members e) \<subseteq> set ks \<Longrightarrow> members (fold remove ks e) = []"
proof (induction ks arbitrary: e)
  case (Cons k ks)
  then have "set (members (remove k e)) \<subseteq> set ks" by (auto simp: remove_members)
  with Cons show ?case by (simp add: well_remove)
qed simp

end

definition senv_wf :: "senv \<Rightarrow> bool" where
  "senv_wf e \<longleftrightarrow> distinct (containers e) \<and> dom (stdoutBufs e) \<subseteq> set (containers e)"

lemma senv_wf_untrack: "senv_wf e \<Longrightarrow> senv_wf (untrack cid e)"
  by (auto simp: senv_wf_def untrack_def split: if_splits)

interpretation members: registry "\<lambda>cid. track cid (out cid) (inp cid)" untrack containers senv_wf for out inp
  by unfold_locales (auto simp: senv_wf_def track_def untrack_def distinct_remove1_filter split: if_splits)

interpretation fast_members: registry track_fast untrack containers senv_wf
  by unfold_locales (auto simp: senv_wf_def track_fast_def untrack_def distinct_remove1_filter split: if_splits)

text \<open>A cleanup that runs after a release finds nothing left to do.\<close>

lemma untrack_idem:
  assumes "senv_wf e"
  shows "untrack cid (untrack cid e) = untrack cid e"
proof -
  have "cid \<notin> set (containers (untrack cid e))" by (rule fast_members.remove_gone [OF assms])
  then show ?thesis by (simp add: untrack_def remove1_idem)
qed

text \<open>But the input path of a member is never forgotten.\<close>

lemma untrack_keeps_stdin: "stdinPaths (untrack cid (track cid out (Some p) e)) cid = Some p"
  by (simp add: untrack_def track_def)

section \<open>Starting and stopping a sandbox\<close>

definition sandbox_annotations :: "(string \<times> string) list" where
  "sandbox_annotations =
     [(''io.containerd.nerdbox.resources.cpu'', ''2''), (''io.containerd.nerdbox.resources.memory'', ''2048'')]"

definition writeSandboxOCISpec :: "'s sandlab \<Rightarrow> string \<Rightarrow> ('s, unit) test" where
  "writeSandboxOCISpec sl bundleDir =
     andThen (must ''marshal sandbox OCI spec: '' (\<lambda>s. (sl_json sl ''1.0.2'' sandbox_annotations, s))) (\<lambda>data.
     must_do ''write sandbox config.json: ''
       (h_do (lb_host (sl_lab sl)) (WriteFile (path_join [bundleDir, ''config.json'']) 420 data)))"

definition src :: "string \<Rightarrow> 's sandbox_service \<Rightarrow> sreq \<Rightarrow> ('s, sresp option) test" where
  "src label sc r = must label (\<lambda>s. case sc r s of ((a, Some e), t) \<Rightarrow> (Inl e, t) | ((a, None), t) \<Rightarrow> (Inr a, t))"

definition src_drop :: "'s sandbox_service \<Rightarrow> sreq \<Rightarrow> ('s, unit) test" where
  "src_drop sc r = act (\<lambda>s. ((), snd (sc r s)))"

lemma passes_src [passes_simps]: "passes (src label sc r) s a s' \<longleftrightarrow> sc r s = ((a, None), s')"
  by (auto simp: src_def passes_must split: prod.split option.split)

lemma passes_src_drop [passes_simps]: "passes (src_drop sc r) s a s' \<longleftrightarrow> s' = snd (sc r s)"
  by (auto simp: src_drop_def passes_act)

text \<open>\<^verbatim>\<open>GetPid\<close>, \<^verbatim>\<open>GetCreatedAt\<close> and the zero time: year 1, not 1970.\<close>

definition started_pid :: "sresp option \<Rightarrow> nat" where
  "started_pid a = (case a of Some (SandboxStarted p t) \<Rightarrow> p | _ \<Rightarrow> 0)"

definition started_at :: "sresp option \<Rightarrow> stamp" where
  "started_at a = (case a of Some (SandboxStarted p t) \<Rightarrow> t | _ \<Rightarrow> None)"

definition is_zero :: "int \<times> int \<Rightarrow> bool" where
  "is_zero t \<longleftrightarrow> wrap64 (fst t + unixToInternal) = 0 \<and> snd t = 0"

definition stamp_set :: "stamp \<Rightarrow> bool" where
  "stamp_set t = (case t of None \<Rightarrow> False | Some x \<Rightarrow> \<not> is_zero x)"

text \<open>The calls that take one member down; every error is dropped.\<close>

definition drop_member :: "'s service \<Rightarrow> string \<Rightarrow> ('s, unit) test" where
  "drop_member tc cid = inOrder [rpc_drop tc (Kill cid [] 9 True), rpc_drop tc (Wait cid []), rpc_drop tc (Delete cid [])]"

definition shutdownSandboxShim :: "'s sandbox \<Rightarrow> ('s \<times> senv, unit) test" where
  "shutdownSandboxShim sb =
     andThen (act (\<lambda>(s, e). (containers e, (s, e)))) (\<lambda>ctrs. inner (
     andThen (inOrder (map (drop_member (sb_tc sb)) ctrs)) (\<lambda>u.
     inOrder [src_drop (sb_sc sb) (StopSandbox (sb_id sb)), src_drop (sb_sc sb) (ShutdownSandbox (sb_id sb))])))"

text \<open>A cleanup made of a test that records nothing.\<close>

definition closing_of :: "('s, unit) test \<Rightarrow> 's closing" where
  "closing_of m s = (case m s of (r, es, cs, t) \<Rightarrow> (es, t))"

definition start_sandbox ::
    "'s sandbox_service \<Rightarrow> string \<Rightarrow> string \<Rightarrow> string \<Rightarrow> ('s, unit) test" where
  "start_sandbox sc sandboxID bundleDir netns =
     andThen (src ''CreateSandbox: '' sc (CreateSandbox sandboxID bundleDir netns)) (\<lambda>a.
     andThen (src ''StartSandbox: '' sc (StartSandbox sandboxID)) (\<lambda>a.
     inOrder [expect ''StartSandbox returned pid=0; shim must report a non-zero pid'' (started_pid a \<noteq> 0),
       expect ''StartSandbox returned zero createdAt'' (stamp_set (started_at a))]))"

definition startSandboxShimInner ::
    "'s sandlab \<Rightarrow> config \<Rightarrow> string \<Rightarrow> string \<Rightarrow> ('s \<times> senv, 's sandbox) test" where
  "startSandboxShimInner sl cfg sandboxID netns = (let lab = sl_lab sl in
     andThen (inner (
       andThen (must (''shim binary '' @ quote (shimBinary cfg) @ '' not found in PATH: '')
         (\<lambda>s. (lb_lookPath lab (shimBinary cfg) s, s))) (\<lambda>shimBin.
       andThen (ensure_path lab (path_dir shimBin)) (\<lambda>u.
       andThen (act (h_tempdir (lb_host lab))) (\<lambda>tmp.
       andThen (must ''evalSymlinks bundleDir: '' (\<lambda>s. (lb_evalSymlinks lab tmp s, s))) (\<lambda>bundleDir.
       andThen (writeSandboxOCISpec sl bundleDir) (\<lambda>u.
       andThen (events_recorder lab bundleDir) (\<lambda>rec.
       andThen (unique_namespace lab ''sandbox'') (\<lambda>ns.
       andThen (start_shim lab shimBin bundleDir sandboxID ns cfg) (\<lambda>p.
       andThen (demand (''sandbox API requires bootstrap version >= 3, shim returned '' @ itoa (bp_version p))
         (3 \<le> bp_version p)) (\<lambda>u.
       andThen (connect_shim lab (bp_address p)) (\<lambda>conn.
       andThen (on_cleanup (\<lambda>s. ([], lb_close lab conn s))) (\<lambda>u.
       ret (bundleDir, \<lparr>sb_id = sandboxID, sb_address = bp_address p, sb_sc = sl_sandbox sl conn,
         sb_tc = lb_task3 lab conn\<rparr>)))))))))))))) (\<lambda>(bundleDir, sb).
     andThen (on_env (\<lambda>e. no_members)) (\<lambda>u.
     andThen (inner (start_sandbox (sb_sc sb) sandboxID bundleDir netns)) (\<lambda>u.
     andThen (on_cleanup (closing_of (shutdownSandboxShim sb))) (\<lambda>u.
     ret sb)))))"

definition startSandboxShim :: "'s sandlab \<Rightarrow> config \<Rightarrow> string \<Rightarrow> ('s \<times> senv, 's sandbox) test" where
  "startSandboxShim sl cfg sandboxID = startSandboxShimInner sl cfg sandboxID []"

definition startSandboxShimWithNetworkSandbox ::
    "'s sandlab \<Rightarrow> config \<Rightarrow> string \<Rightarrow> string \<Rightarrow> ('s \<times> senv, 's sandbox) test" where
  "startSandboxShimWithNetworkSandbox sl cfg sandboxID path = startSandboxShimInner sl cfg sandboxID path"

section \<open>Creating members\<close>

record sandboxCtrSpec =
  noStart :: bool
  with_stdin :: bool
  extraMounts :: "spec_mount list"
  ociOpts :: "spec_opt list"

definition plain_member :: sandboxCtrSpec where
  "plain_member = \<lparr>noStart = False, with_stdin = False, extraMounts = [], ociOpts = []\<rparr>"

definition withSandboxCtrStdin :: "sandboxCtrSpec \<Rightarrow> sandboxCtrSpec" where
  "withSandboxCtrStdin o1 = o1\<lparr>with_stdin := True\<rparr>"

definition withSandboxCtrNoStart :: "sandboxCtrSpec \<Rightarrow> sandboxCtrSpec" where
  "withSandboxCtrNoStart o1 = o1\<lparr>noStart := True\<rparr>"

definition withSandboxCtrExtraMounts :: "spec_mount list \<Rightarrow> sandboxCtrSpec \<Rightarrow> sandboxCtrSpec" where
  "withSandboxCtrExtraMounts ms o1 = o1\<lparr>extraMounts := extraMounts o1 @ ms\<rparr>"

definition withSandboxCtrNamespace :: "nstype \<Rightarrow> string \<Rightarrow> sandboxCtrSpec \<Rightarrow> sandboxCtrSpec" where
  "withSandboxCtrNamespace t path o1 = o1\<lparr>ociOpts := ociOpts o1 @ [withHostPathNamespace t path]\<rparr>"

definition withSandboxCtrOCIOpts :: "spec_opt list \<Rightarrow> sandboxCtrSpec \<Rightarrow> sandboxCtrSpec" where
  "withSandboxCtrOCIOpts opts o1 = o1\<lparr>ociOpts := ociOpts o1 @ opts\<rparr>"

definition member_opts :: "sandboxCtrSpec \<Rightarrow> spec_opt list" where
  "member_opts so = (if extraMounts so = [] then [] else [withExtraMounts (extraMounts so)]) @ ociOpts so"

definition bind_rootfs :: "string \<Rightarrow> mount list" where
  "bind_rootfs dir = [\<lparr>m_type = ''bind'', m_source = dir, m_options = [''ro'', ''rbind'']\<rparr>]"

text \<open>The bundle of a member: its rootfs mounts, never empty, its spec and its FIFOs.\<close>

definition member_bundle ::
    "'s lab \<Rightarrow> sandboxCtrSpec \<Rightarrow> string list \<Rightarrow> ('s, string \<times> mount list \<times> string option \<times> string \<times> string) test" where
  "member_bundle lab so args = (let fm = (lb_uid lab = 0); cfg = \<lparr>shimBinary = [], formatMounts = fm, cfg_env = [],
       cfg_debug = False, provideNetwork = False\<rparr> in
     andThen (act (h_tempdir (lb_host lab))) (\<lambda>tmp.
     andThen (must ''evalSymlinks member bundleDir: '' (\<lambda>s. (lb_evalSymlinks lab tmp s, s))) (\<lambda>bundleDir.
     andThen (must [] (buildEmbeddedRootfs (lb_host lab) (lb_bigfile lab) bundleDir fm)) (\<lambda>ms.
     andThen (oci_spec lab bundleDir args cfg (member_opts so)) (\<lambda>u.
     andThen (if with_stdin so
       then andThen (stdio_fifos lab bundleDir) (\<lambda>(inp, out, errp). ret (Some inp, out, errp))
       else andThen (io_fifos lab bundleDir) (\<lambda>(out, errp). ret (None, out, errp))) (\<lambda>(inp, out, errp).
     ret (bundleDir, if ms = [] then bind_rootfs (path_join [bundleDir, ''rootfs'']) else ms, inp, out, errp)))))))"

definition member_cleanup :: "'s service \<Rightarrow> string \<Rightarrow> ('s \<times> senv, unit) test" where
  "member_cleanup tc cid = andThen (inner (drop_member tc cid)) (\<lambda>u. on_env (untrack cid))"

text \<open>Everything up to the point where the member is tracked; an error on the way is fatal.\<close>

definition prepare_member ::
    "'s sandlab \<Rightarrow> 's sandbox \<Rightarrow> string list \<Rightarrow> sandboxCtrSpec \<Rightarrow> ('s, string \<times> string \<times> string option) test" where
  "prepare_member sl sb args so = (let lab = sl_lab sl in
     andThen (container_id lab) (\<lambda>cid.
     andThen (member_bundle lab so args) (\<lambda>(bundleDir, ms, inp, out, errp).
     andThen (inOrder [drainFifo lab out, drainFifo lab errp]) (\<lambda>u.
     andThen (create_request lab cid bundleDir (case inp of None \<Rightarrow> [] | Some p \<Rightarrow> p) out errp ms) (\<lambda>r.
     andThen (rpc (''Task.Create member '' @ cid @ '': '') (sb_tc sb) r) (\<lambda>a.
     andThen (if noStart so then ret None else rpc (''Task.Start member '' @ cid @ '': '') (sb_tc sb) (Start cid [])) (\<lambda>a.
     ret (cid, out, inp))))))))"

definition createContainerInSandbox ::
    "'s sandlab \<Rightarrow> 's sandbox \<Rightarrow> string list \<Rightarrow> (sandboxCtrSpec \<Rightarrow> sandboxCtrSpec) list \<Rightarrow> ('s \<times> senv, string) test" where
  "createContainerInSandbox sl sb args specOpts =
     andThen (inner (prepare_member sl sb args (foldl (\<lambda>o1 f. f o1) plain_member specOpts))) (\<lambda>(cid, out, inp).
     andThen (on_env (track cid out inp)) (\<lambda>u.
     andThen (on_cleanup (closing_of (member_cleanup (sb_tc sb) cid))) (\<lambda>u.
     ret cid)))"

text \<open>
  The variant of the stress loop: an error is returned, nothing is captured and no cleanup is
  registered; the mounts are made from images built once.
\<close>

definition buildSandboxMemberMountsFromImages ::
    "'s host \<Rightarrow> bool \<Rightarrow> shimImages \<Rightarrow> string \<Rightarrow> string \<Rightarrow> 's \<Rightarrow> mount list result \<times> 's" where
  "buildSandboxMemberMountsFromImages h fm imgs rootfsDir preExtracted s =
     (if fm \<and> h_uid h = 0 then buildRootfsMountsFromImages h fm imgs rootfsDir s
      else if preExtracted = [] then
        (case extractErofsIntoDir h (erofsImg imgs) rootfsDir s of
           (Some e, t) \<Rightarrow> (Inl e, t)
         | (None, t) \<Rightarrow> (Inr (bind_rootfs rootfsDir), t))
      else (Inr (bind_rootfs preExtracted), s))"

text \<open>\<open>Inl\<close> is the error returned; a fatal failure inside the helpers still ends the test.\<close>

definition returning :: "string \<Rightarrow> ('s \<Rightarrow> 'a result \<times> 's) \<Rightarrow> ('s, 'a result) test" where
  "returning label f = act (\<lambda>s. case f s of (Inl e, t) \<Rightarrow> (Inl (label @ e), t) | (Inr a, t) \<Rightarrow> (Inr a, t))"

definition orElse :: "('s, 'a result) test \<Rightarrow> ('a \<Rightarrow> ('s, 'b result) test) \<Rightarrow> ('s, 'b result) test" where
  "orElse m f = andThen m (\<lambda>r. case r of Inl e \<Rightarrow> ret (Inl e) | Inr a \<Rightarrow> f a)"

definition call_result :: "'s service \<Rightarrow> req \<Rightarrow> 's \<Rightarrow> resp option result \<times> 's" where
  "call_result svc r s = (case svc r s of ((a, Some e), t) \<Rightarrow> (Inl e, t) | ((a, None), t) \<Rightarrow> (Inr a, t))"

definition createSandboxContainerFast ::
    "'s sandlab \<Rightarrow> 's sandbox \<Rightarrow> config \<Rightarrow> shimImages \<Rightarrow> string \<Rightarrow> string list \<Rightarrow> ('s \<times> senv, string result) test" where
  "createSandboxContainerFast sl sb cfg imgs preExtracted args = (let lab = sl_lab sl; h = lb_host lab in
     andThen (inner (container_id lab)) (\<lambda>cid.
     andThen (inner (
       andThen (act (h_tempdir h)) (\<lambda>tmp.
       orElse (returning ''evalSymlinks: '' (\<lambda>s. (lb_evalSymlinks lab tmp s, s))) (\<lambda>bundleDir.
       let rootfsDir = path_join [bundleDir, ''rootfs''] in
       orElse (returning ''mkdir rootfs: '' (\<lambda>s. case h_do h (MkdirAll rootfsDir) s of
          (Some e, t) \<Rightarrow> (Inl e, t) | (None, t) \<Rightarrow> (Inr (), t))) (\<lambda>u.
       andThen (must [] (buildSandboxMemberMountsFromImages h (formatMounts cfg) imgs rootfsDir preExtracted)) (\<lambda>ms.
       andThen (oci_spec lab bundleDir args cfg []) (\<lambda>u.
       andThen (newCreateTaskRequest lab cid bundleDir [] [] ms) (\<lambda>r.
       orElse (returning ''Task.Create: '' (call_result (sb_tc sb) r)) (\<lambda>a.
       orElse (returning ''Task.Start: '' (call_result (sb_tc sb) (Start cid []))) (\<lambda>a.
       ret (Inr ())))))))))) ) (\<lambda>r.
     case r of Inl e \<Rightarrow> ret (Inl e) | Inr u \<Rightarrow> andThen (on_env (track_fast cid)) (\<lambda>u. ret (Inr cid)))))"

definition releaseSandboxContainer :: "'s service \<Rightarrow> string \<Rightarrow> ('s \<times> senv, err option) test" where
  "releaseSandboxContainer tc cid =
     andThen (inner (act (\<lambda>s. case tc (Delete cid []) s of ((a, e), t) \<Rightarrow> (e, t)))) (\<lambda>e.
     andThen (on_env (untrack cid)) (\<lambda>u. ret e))"

section \<open>Reading a member\<close>

definition captured :: "string \<Rightarrow> string \<Rightarrow> ('s \<times> senv, string) test" where
  "captured label cid =
     andThen (act (\<lambda>(s, e). (stdoutBufs e cid, (s, e)))) (\<lambda>co.
     case co of None \<Rightarrow> fatal (label @ ''no captured stdout for container '' @ cid) | Some path \<Rightarrow> ret path)"

definition readContainerOutput :: "'s sandlab \<Rightarrow> string \<Rightarrow> string \<Rightarrow> ('s \<times> senv, bytes) test" where
  "readContainerOutput sl cid want =
     andThen (captured [] cid) (\<lambda>path.
     inner (poll_until (''timed out waiting for '' @ quote want @ '' in stdout of '' @ cid @ '', got: '')
       (containing want) (lb_readings (sl_lab sl) path)))"

definition containerOutputSnapshot :: "'s sandlab \<Rightarrow> string \<Rightarrow> ('s \<times> senv, bytes) test" where
  "containerOutputSnapshot sl cid = andThen (captured [] cid) (\<lambda>path. inner (buffered (sl_lab sl) path))"

text \<open>\<^verbatim>\<open>readSandboxOutput\<close>: the same wait on a FIFO that no member owns.\<close>

definition readSandboxOutput :: "'s sandlab \<Rightarrow> string \<Rightarrow> string \<Rightarrow> ('s, bytes) test" where
  "readSandboxOutput sl path want =
     andThen (drainFifo (sl_lab sl) path) (\<lambda>u.
     poll_until (''timed out waiting for '' @ quote want @ '' in stdout, got: '') (containing want)
       (lb_readings (sl_lab sl) path))"

definition writeContainerStdin :: "'s sandlab \<Rightarrow> 's sandbox \<Rightarrow> string \<Rightarrow> bytes \<Rightarrow> ('s \<times> senv, unit) test" where
  "writeContainerStdin sl sb cid data = (let lab = sl_lab sl in
     andThen (act (\<lambda>(s, e). (case stdinPaths e cid of None \<Rightarrow> [] | Some p \<Rightarrow> p, (s, e)))) (\<lambda>p.
     andThen (demand (''no stdin FIFO for container '' @ cid @ '' (was it created with withSandboxCtrStdin?)'') (p \<noteq> [])) (\<lambda>u.
     inner (
       andThen (must (''open stdin fifo for '' @ cid @ '': '') (lb_openWriter lab p)) (\<lambda>w.
       andThen (must_do (''write stdin for '' @ cid @ '': '') (lb_write lab w data)) (\<lambda>u.
       andThen (act (\<lambda>s. ((), lb_closeFile lab w s))) (\<lambda>u.
       andThen (rpc (''close stdin for '' @ cid @ '': '') (sb_tc sb) (CloseIO cid [] True)) (\<lambda>a. ret ()))))))))"

text \<open>The port a listener printed: the first line, once it is complete.\<close>

definition port_line :: "bytes \<Rightarrow> string option" where
  "port_line out = (if CHR 0x0A \<in> set out then Some (trim_space (takeWhile (\<lambda>c. c \<noteq> CHR 0x0A) out)) else None)"

definition waitForContainerPort :: "'s sandlab \<Rightarrow> string \<Rightarrow> ('s \<times> senv, string) test" where
  "waitForContainerPort sl cid =
     andThen (captured ''waitForContainerPort: '' cid) (\<lambda>path.
     inner (poll_until (''timed out waiting for port line from container '' @ cid @ ''; got: '') port_line
       (lb_readings (sl_lab sl) path)))"

section \<open>Looking at the shim\<close>

definition sandboxShimPID :: "'s sandlab \<Rightarrow> 's sandbox \<Rightarrow> string \<Rightarrow> 's \<Rightarrow> int" where
  "sandboxShimPID sl sb cid s =
     (case lb_connects (sl_lab sl) (sb_address sb) cid 3 s of (att, n) \<Rightarrow>
       (case shimPidViaConnect att (\<lambda>i. n \<le> i) of Some (Inr pid) \<Rightarrow> int pid | _ \<Rightarrow> 0))"

text \<open>
  \<^verbatim>\<open>bufio.Scanner\<close>: lines without their ends, a carriage return before the end dropped too;
  a line that does not fit the scanner's buffer ends the scan.
\<close>

definition drop_cr :: "string \<Rightarrow> string" where
  "drop_cr l = (if l \<noteq> [] \<and> last l = CHR 0x0D then butlast l else l)"

definition scanner_lines :: "string \<Rightarrow> string list" where
  "scanner_lines text1 =
     (let ls = split_on CHR 0x0A text1 in
      map drop_cr (takeWhile (\<lambda>l. length l < 64 * 1024) (if last ls = [] then butlast ls else ls)))"

definition mount_targets :: "string \<Rightarrow> string list" where
  "mount_targets text1 =
     map (\<lambda>l. str_fields l ! 4) (filter (\<lambda>l. 5 \<le> length (str_fields l)) (scanner_lines text1))"

definition sandboxMountTargets :: "'s sandlab \<Rightarrow> int \<Rightarrow> 's \<Rightarrow> string list" where
  "sandboxMountTargets sl pid s =
     (if pid = 0 then [] else case sl_mountinfo sl pid s of Inl e \<Rightarrow> [] | Inr text1 \<Rightarrow> mount_targets text1)"

definition sandboxContainersMounts :: "'s sandlab \<Rightarrow> int \<Rightarrow> 's \<Rightarrow> string list" where
  "sandboxContainersMounts sl pid s = filter (\<lambda>t. str_contains t ''/containers/'') (sandboxMountTargets sl pid s)"

text \<open>Polling the status; what happens after each unsuccessful poll is given, at last the deadline.\<close>

definition state_of :: "sresp option \<Rightarrow> string" where
  "state_of a = (case a of Some (SandboxState p st info t) \<Rightarrow> st | _ \<Rightarrow> [])"

definition info_of :: "sresp option \<Rightarrow> (string \<times> string) list" where
  "info_of a = (case a of Some (SandboxState p st info t) \<Rightarrow> info | _ \<Rightarrow> [])"

fun status_loop :: "'s sandbox_service \<Rightarrow> string \<Rightarrow> string \<Rightarrow> tick list \<Rightarrow> 's \<Rightarrow> err option \<times> 's" where
  "status_loop sc sid want ticks s =
     (case sc (SandboxStatus sid False) s of
        ((a, e), t) \<Rightarrow>
          if e = None \<and> state_of a = want then (None, t)
          else case ticks of
            Again # more_ticks \<Rightarrow> status_loop sc sid want more_ticks t
          | ContextDone x # _ \<Rightarrow> (Some x, t)
          | _ \<Rightarrow> (Some (''timed out waiting for state '' @ quote want @ '', last state ''
                   @ quote (if e = None then state_of a else ''unknown'')), t))"

declare status_loop.simps [simp del]

definition waitForSandboxStatus :: "'s sandlab \<Rightarrow> 's sandbox_service \<Rightarrow> string \<Rightarrow> string \<Rightarrow> 's \<Rightarrow> err option \<times> 's" where
  "waitForSandboxStatus sl sc sid want s = status_loop sc sid want (sl_ticks sl s) s"

definition sandboxStatusInfo :: "'s sandbox \<Rightarrow> ('s, string \<times> (string \<times> string) list) test" where
  "sandboxStatusInfo sb =
     andThen (src ''SandboxStatus: '' (sb_sc sb) (SandboxStatus (sb_id sb) True)) (\<lambda>a. ret (state_of a, info_of a))"

section \<open>Executing in a member\<close>

text \<open>Output and error output go to one buffer.\<close>

definition execInSandboxContainer :: "'s sandlab \<Rightarrow> 's sandbox \<Rightarrow> string \<Rightarrow> string list \<Rightarrow> ('s, bytes \<times> nat) test" where
  "execInSandboxContainer sl sb cid args = (let lab = sl_lab sl; tc = sb_tc sb in
     andThen (container_id lab) (\<lambda>eid.
     andThen (exec_pipes lab) (\<lambda>(out, errp).
     andThen (must ''marshal exec process spec: ''
       (\<lambda>s. (lb_anyProcess lab (exec_spec args ''/usr/local/sbin:/usr/local/bin:/usr/sbin:/usr/bin:/sbin:/bin''), s))) (\<lambda>sp.
     andThen (rpc (''Task.Exec in '' @ cid @ '': '') tc (Exec cid eid False [] out errp sp)) (\<lambda>a.
     andThen (rpc (''Task.Start exec '' @ cid @ ''/'' @ eid @ '': '') tc (Start cid eid)) (\<lambda>a.
     andThen (rpc (''Task.Wait exec '' @ cid @ ''/'' @ eid @ '': '') tc (Wait cid eid)) (\<lambda>a.
     act (\<lambda>s. ((sl_both sl out errp s, case a of Some (WaitResp x at) \<Rightarrow> x | _ \<Rightarrow> 0), s)))))))))"

section \<open>What a started sandbox is\<close>

lemma start_shim_version:
  "passes (start_shim lab shimBin bdlDir cid ns cfg) s p s' \<Longrightarrow> bp_version p \<in> {2, 3} \<and> bp_address p \<noteq> []"
  by (auto simp: start_shim_def Let_def passes_simps decode_start_ok dest!: check_params_ok)

lemma passes_start_sandbox:
  "passes (start_sandbox sc sid bdl netns) s u s' \<longleftrightarrow>
     (\<exists>a b t. sc (CreateSandbox sid bdl netns) s = ((a, None), t) \<and> sc (StartSandbox sid) t = ((b, None), s')
        \<and> started_pid b \<noteq> 0 \<and> stamp_set (started_at b))"
  by (auto simp: start_sandbox_def passes_simps)

text \<open>
  A sandbox is handed out only for a version 3 shim that created it for this bundle and
  network path and started it, reporting a pid and a creation time; it has no members yet.
\<close>

lemma startSandboxShimInner_contract:
  assumes "passes (startSandboxShimInner sl cfg sid netns) (s, e) sb (s', e')"
  shows "sb_id sb = sid \<and> e' = no_members
    \<and> (\<exists>conn bdl a pid at t t1. sb_sc sb = sl_sandbox sl conn \<and> sb_tc sb = lb_task3 (sl_lab sl) conn
        \<and> sb_sc sb (CreateSandbox sid bdl netns) t = ((a, None), t1)
        \<and> sb_sc sb (StartSandbox sid) t1 = ((Some (SandboxStarted pid (Some at)), None), s')
        \<and> pid \<noteq> 0 \<and> \<not> is_zero at)"
proof -
  from assms obtain conn bdl a b t t1 where
    "sb_id sb = sid" "e' = no_members" "sb_sc sb = sl_sandbox sl conn" "sb_tc sb = lb_task3 (sl_lab sl) conn"
    "sb_sc sb (CreateSandbox sid bdl netns) t = ((a, None), t1)"
    and b: "sb_sc sb (StartSandbox sid) t1 = ((b, None), s')" "started_pid b \<noteq> 0" "stamp_set (started_at b)"
    by (auto simp: startSandboxShimInner_def Let_def passes_simps passes_start_sandbox)
  moreover from b(2,3) obtain pid at where "b = Some (SandboxStarted pid (Some at))" "pid \<noteq> 0" "\<not> is_zero at"
    by (auto simp: started_pid_def started_at_def stamp_set_def split: option.splits sresp.splits)
  ultimately show ?thesis using b(1) by blast
qed

text \<open>A time stamp whose fields are all zero is 1970 and counts as set.\<close>

lemma stamp_default_set: "stamp_set (Some (0, 0))"
  by (simp add: stamp_set_def is_zero_def unixToInternal_def wrap64_id in_int64_def)

section \<open>Members come and go\<close>

definition keeps_env :: "('s \<times> 'e, 'a) test \<Rightarrow> bool" where
  "keeps_env m \<longleftrightarrow> (\<forall>se r es cs se'. m se = (r, es, cs, se') \<longrightarrow> snd se' = snd se)"

lemma keeps_env_inner: "keeps_env (inner m)"
  by (auto simp: keeps_env_def inner_def split: prod.splits)

text \<open>
  Creating a member changes the tracking only when all its calls have succeeded, and then by
  the one entry; on any failure, also of the start of a task already created, nothing is
  tracked and no cleanup is registered for the member.
\<close>

text \<open>
  C20. Creating a member changes the tracking only when the id is returned, and then by
  that member's one entry; when a call on the way fails, also the start of a task already
  created, nothing is tracked.
\<close>

theorem create_member_tracked:
  assumes "createContainerInSandbox sl sb args opts (s, e) = (r, es, cs, (s', e'))"
  shows "(\<exists>cid out inp. r = Returned cid \<and> e' = track cid out inp e) \<or> ((\<forall>cid. r \<noteq> Returned cid) \<and> e' = e)"
proof -
  obtain r1 es1 cs1 s1 where p: "prepare_member sl sb args (foldl (\<lambda>o1 f. f o1) plain_member opts) s = (r1, es1, cs1, s1)"
    by (rule test_result)
  show ?thesis
  proof (cases r1)
    case (Returned x)
    obtain cid out inp where x: "x = (cid, out, inp)" by (cases x)
    from assms p Returned x have "r = Returned cid" "e' = track cid out inp e"
      by (simp_all add: createContainerInSandbox_def andThen_def inner_def on_env_def act_def on_cleanup_def ret_def)
    then show ?thesis by blast
  qed (use assms p in \<open>auto simp: createContainerInSandbox_def andThen_def inner_def\<close>)
qed

lemma create_failed_start_untracked:
  assumes "prepare_member sl sb args (foldl (\<lambda>o1 f. f o1) plain_member opts) s = (FatalStop msg, es, cs, s')"
  shows "\<exists>cs'. createContainerInSandbox sl sb args opts (s, e) = (FatalStop msg, es, cs', (s', e)) \<and> length cs' = length cs"
  using assms by (simp add: createContainerInSandbox_def andThen_def inner_def)

lemma create_member_runs:
  assumes "passes (createContainerInSandbox sl sb args opts) (s, e) cid (s', e')"
  shows "(\<exists>bdl ms inp out errp opts1 t a t1. sb_tc sb (Create cid bdl ms False inp out errp [] [] opts1) t = ((a, None), t1)
      \<and> ms \<noteq> [])
    \<and> (\<exists>out inp. e' = track cid out inp e)"
proof -
  let ?so = "foldl (\<lambda>o1 f. f o1) plain_member opts"
  from assms obtain out inp where p: "passes (prepare_member sl sb args ?so) s (cid, out, inp) s'"
    and e: "e' = track cid out inp e"
    by (auto simp: createContainerInSandbox_def passes_simps)
  from p obtain bdl ms errp r t a t1 t2 t3 where mb: "passes (member_bundle (sl_lab sl) ?so args) t2 (bdl, ms, inp, out, errp) t3"
    and cr: "\<exists>s0 s00. passes (create_request (sl_lab sl) cid bdl (case inp of None \<Rightarrow> [] | Some p \<Rightarrow> p) out errp ms) s0 r s00"
    and c: "sb_tc sb r t = ((a, None), t1)"
    by (auto simp: prepare_member_def Let_def passes_simps) blast
  from mb have "ms \<noteq> []" by (auto simp: member_bundle_def Let_def bind_rootfs_def passes_simps split: if_splits)
  moreover from cr obtain o1 where "r = Create cid bdl ms False (case inp of None \<Rightarrow> [] | Some p \<Rightarrow> p) out errp [] [] o1"
    using passes_create_request by metis
  ultimately show ?thesis using c e by blast
qed

text \<open>A release takes the member off the maps whatever the shim answered, and keeps them well formed.\<close>

lemma release_untracks:
  "releaseSandboxContainer tc cid (s, e) = (Returned (snd (fst (tc (Delete cid []) s))), [], [], (snd (tc (Delete cid []) s), untrack cid e))"
  by (simp add: releaseSandboxContainer_def andThen_def inner_def on_env_def act_def ret_def split: prod.split)

text \<open>The maps under every sequence of operations on fresh ids.\<close>

inductive senv_step :: "senv \<Rightarrow> senv \<Rightarrow> bool" where
  create: "cid \<notin> set (containers e) \<Longrightarrow> senv_step e (track cid out inp e)"
| create_fast: "cid \<notin> set (containers e) \<Longrightarrow> senv_step e (track_fast cid e)"
| release: "senv_step e (untrack cid e)"

interpretation senv: step_invariant senv_step senv_wf
proof
  fix e f
  assume "senv_wf e" and "senv_step e f"
  from this(2,1) show "senv_wf f"
    by cases (auto intro: members.well_add fast_members.well_add senv_wf_untrack)
qed

text \<open>
  C16. Under every sequence of creations and releases of members on fresh ids, a sandbox's
  tracking lists each member once and keeps captured output only for members.
\<close>

theorem senv_reachable_wf: "senv_step\<^sup>*\<^sup>* no_members e \<Longrightarrow> senv_wf e"
  by (erule senv.run_preserves) (simp add: senv_wf_def no_members_def)

lemma stale_stdin_reachable:
  "\<exists>e. senv_step\<^sup>*\<^sup>* no_members e \<and> cid \<notin> set (containers e) \<and> stdoutBufs e cid = None \<and> stdinPaths e cid = Some p"
proof -
  let ?a = "track cid [] (Some p) no_members"
  have "senv_step no_members ?a" by (rule senv_step.create) (simp add: no_members_def)
  moreover have "senv_step ?a (untrack cid ?a)" by (rule senv_step.release)
  ultimately have "senv_step\<^sup>*\<^sup>* no_members (untrack cid ?a)" by (meson converse_rtranclp_into_rtranclp rtranclp.rtrancl_refl)
  then show ?thesis by (intro exI [of _ "untrack cid ?a"]) (simp add: untrack_def track_def no_members_def)
qed

section \<open>Shutting down\<close>

definition member_calls :: "string \<Rightarrow> req list" where
  "member_calls cid = [Kill cid [] 9 True, Wait cid [], Delete cid []]"

lemma passes_drop_member [passes_simps]:
  "passes (drop_member tc cid) s u s' \<longleftrightarrow> s' = snd (calls tc (member_calls cid) s)"
  by (auto simp: drop_member_def member_calls_def passes_simps split_beta)

lemma calls_append_state: "snd (calls svc (as @ bs) s) = snd (calls svc bs (snd (calls svc as s)))"
  by (induction as arbitrary: s) (simp_all add: split_beta)

lemma passes_drop_members:
  "passes (inOrder (map (drop_member tc) cids)) s u s' \<longleftrightarrow> s' = snd (calls tc (concat (map member_calls cids)) s)"
proof (induction cids arbitrary: s)
  case (Cons c cs)
  then show ?case by (simp add: passes_simps calls_append_state)
qed (simp add: passes_simps)

text \<open>
  Shutting down takes down every member tracked, in creation order, then stops the sandbox
  and shuts it down: no error on the way stops the sequence, and the maps are left alone.
\<close>


section \<open>Reading ports and mounts\<close>

text \<open>A port is read only from a complete line, and later output does not change it.\<close>

lemma port_line_stable: "port_line out = Some p \<Longrightarrow> port_line (out @ more_out) = Some p"
  by (auto simp: port_line_def takeWhile_append split: if_splits)

lemma port_line_printed: "port_line (dec n @ newline @ more_out) = Some (dec n)"
proof -
  have nl: "CHR 0x0A \<notin> set (dec n)" using dec_digits digit_not_space by (auto simp: is_space_def)
  have "takeWhile (\<lambda>c. c \<noteq> CHR 0x0A) (dec n @ CHR 0x0A # more_out) = dec n" using nl by (rule takeWhile_stop)
  moreover have "trim_space (dec n) = dec n"
    using dec_digits digit_not_space by (intro trim_space_plain) auto
  ultimately show ?thesis by (simp add: port_line_def newline_def)
qed

lemma waitForContainerPort_reads:
  assumes "passes (waitForContainerPort sl cid) (s, e) port (s', e')"
  shows "\<exists>path gots out. stdoutBufs e cid = Some path \<and> lb_readings (sl_lab sl) path s = (gots, s')
    \<and> out \<in> set gots \<and> port_line out = Some port \<and> e' = e"
proof -
  from assms obtain path gots where "stdoutBufs e cid = Some path" "lb_readings (sl_lab sl) path s = (gots, s')"
    "e' = e" and f: "first_accepted port_line gots = Some port"
    by (auto simp: waitForContainerPort_def captured_def passes_simps split: option.splits)
  with first_accepted_Some [OF f] show ?thesis by blast
qed

text \<open>The status poll succeeds only on an answer with the state asked for.\<close>

lemma status_loop_ok:
  "status_loop sc sid want ticks s = (None, s') \<Longrightarrow>
     \<exists>t a. sc (SandboxStatus sid False) t = ((a, None), s') \<and> state_of a = want"
proof (induction sc sid want ticks s rule: status_loop.induct)
  case (1 sc sid want ticks s)
  obtain a e t where c: "sc (SandboxStatus sid False) s = ((a, e), t)" by (metis prod.collapse)
  show ?case
  proof (cases "e = None \<and> state_of a = want")
    case True
    with c 1(2) show ?thesis by (subst (asm) status_loop.simps) auto
  next
    case False
    with c 1(2) obtain more_ticks where "ticks = Again # more_ticks" "status_loop sc sid want more_ticks t = (None, s')"
      by (subst (asm) status_loop.simps) (auto split: list.splits tick.splits)
    with 1(1) [OF c [symmetric] refl _ _] False show ?thesis by blast
  qed
qed

end
