(* ===== verification/Hostnet.thy ===== *)
theory Hostnet
  imports Run_Suite "HOL-Library.Signed_Division"
begin

text \<open>
  The host side of the network tests: choosing a free port, the peers that answer a container,
  the slirp4netns process that connects a container's network namespace
  (\<^verbatim>\<open>helpers_netns_linux.go\<close>), real namespaces with a veth pair (\<^verbatim>\<open>helpers_realnetns_linux.go\<close>)
  and the file that stands for a namespace (\<^verbatim>\<open>helpers_networksandbox_linux.go\<close>). Sockets,
  processes and commands are operations on the world; files, listeners and connections are
  handles.
\<close>

record 's netlab =
  nl_lab :: "'s lab"
  nl_intN :: "nat \<Rightarrow> 's \<Rightarrow> nat \<times> 's"
  nl_listen :: "string \<Rightarrow> string \<Rightarrow> 's \<Rightarrow> (nat \<times> string) result \<times> 's"
  nl_accept :: "nat \<Rightarrow> 's \<Rightarrow> nat result \<times> 's"
  nl_dial :: "string \<Rightarrow> string \<Rightarrow> 's \<Rightarrow> nat result \<times> 's"
  nl_read :: "nat \<Rightarrow> nat \<Rightarrow> 's \<Rightarrow> (bytes \<times> err option) \<times> 's"
  nl_write :: "nat \<Rightarrow> bytes \<Rightarrow> 's \<Rightarrow> err option \<times> 's"
  nl_readFrom :: "nat \<Rightarrow> nat \<Rightarrow> 's \<Rightarrow> (bytes \<times> string) result \<times> 's"
  nl_writeTo :: "nat \<Rightarrow> bytes \<Rightarrow> string \<Rightarrow> 's \<Rightarrow> err option \<times> 's"
  nl_closeWrite :: "nat \<Rightarrow> 's \<Rightarrow> err option \<times> 's"
  nl_readAll :: "nat \<Rightarrow> 's \<Rightarrow> bytes result \<times> 's"
  nl_close :: "nat \<Rightarrow> 's \<Rightarrow> 's"
  nl_inTime :: "'s \<Rightarrow> bool"
  nl_pipe :: "'s \<Rightarrow> (nat \<times> nat) result \<times> 's"
  nl_spawn :: "string \<Rightarrow> string list \<Rightarrow> nat \<Rightarrow> 's \<Rightarrow> nat result \<times> 's"
  nl_ready :: "nat \<Rightarrow> 's \<Rightarrow> err option option \<times> 's"
  nl_kill :: "nat \<Rightarrow> 's \<Rightarrow> 's"
  nl_reap :: "nat \<Rightarrow> 's \<Rightarrow> 's"
  nl_run :: "string list \<Rightarrow> 's \<Rightarrow> err option \<times> 's"
  nl_getpid :: nat
  nl_counts :: "'s \<Rightarrow> 32 word \<times> 32 word"
  nl_set_counts :: "32 word \<times> 32 word \<Rightarrow> 's \<Rightarrow> 's"
  nl_setns :: "string \<Rightarrow> 's \<Rightarrow> err option \<times> 's"
  nl_replyError :: "bytes \<Rightarrow> string option result"
  nl_createExcl :: "string \<Rightarrow> 's \<Rightarrow> err option \<times> 's"
  nl_stat :: "string \<Rightarrow> 's \<Rightarrow> bool"
  nl_mktemp :: "string \<Rightarrow> string \<Rightarrow> 's \<Rightarrow> string result \<times> 's"
  nl_parseIP :: "string \<Rightarrow> bool"

section \<open>A free port\<close>

definition networkSuitePortRangeStart :: nat where
  "networkSuitePortRangeStart = 20000"

definition networkSuitePortRangeEnd :: nat where
  "networkSuitePortRangeEnd = 29999"

definition networkSuitePortAttempts :: nat where
  "networkSuitePortAttempts = 20"

definition loopback :: string where
  "loopback = ''127.0.0.1''"

fun pick_port :: "'s netlab \<Rightarrow> nat \<Rightarrow> 's \<Rightarrow> nat option \<times> 's" where
  "pick_port nl 0 s = (None, s)"
| "pick_port nl (Suc k) s =
     (case nl_intN nl (networkSuitePortRangeEnd - networkSuitePortRangeStart + 1) s of
        (i, s1) \<Rightarrow>
          let port = networkSuitePortRangeStart + i in
          case nl_listen nl ''tcp'' (join_host_port loopback (dec port)) s1 of
            (Inl e, s2) \<Rightarrow> pick_port nl k s2
          | (Inr (ln, addr), s2) \<Rightarrow> (Some port, nl_close nl ln s2))"

definition pickHostPort :: "'s netlab \<Rightarrow> ('s, nat) test" where
  "pickHostPort nl =
     must (''pickHostPort: no free port in '' @ dec networkSuitePortRangeStart @ ''-'' @ dec networkSuitePortRangeEnd
         @ '' after '' @ dec networkSuitePortAttempts @ '' attempts'')
       (\<lambda>s. case pick_port nl networkSuitePortAttempts s of (None, t) \<Rightarrow> (Inl [], t) | (Some p, t) \<Rightarrow> (Inr p, t))"

text \<open>The port is in the range, and was free at the moment of the call.\<close>

lemma pick_port_free:
  assumes "\<And>n s. 0 < n \<Longrightarrow> fst (nl_intN nl n s) < n" and "pick_port nl k s = (Some p, s')"
  shows "networkSuitePortRangeStart \<le> p \<and> p \<le> networkSuitePortRangeEnd
    \<and> (\<exists>t ln addr t1. nl_listen nl ''tcp'' (''127.0.0.1:'' @ dec p) t = (Inr (ln, addr), t1) \<and> s' = nl_close nl ln t1)"
  using assms(2)
proof (induction k arbitrary: s)
  case (Suc k)
  obtain i s1 where i: "nl_intN nl (networkSuitePortRangeEnd - networkSuitePortRangeStart + 1) s = (i, s1)" by fastforce
  with assms(1) [of "networkSuitePortRangeEnd - networkSuitePortRangeStart + 1" s]
  have r: "i < 10000" by (simp add: networkSuitePortRangeEnd_def networkSuitePortRangeStart_def)
  have addr: "join_host_port loopback (dec q) = ''127.0.0.1:'' @ dec q" for q
    by (simp add: join_host_port_def loopback_def colon_def)
  obtain x s2 where l: "nl_listen nl ''tcp'' (''127.0.0.1:'' @ dec (networkSuitePortRangeStart + i)) s1 = (x, s2)" by fastforce
  show ?case
  proof (cases x)
    case (Inl e)
    with Suc i l show ?thesis by (simp add: Let_def addr)
  next
    case (Inr la)
    obtain ln a where la: "la = (ln, a)" by (cases la)
    with Suc.prems i l Inr have "p = networkSuitePortRangeStart + i" "s' = nl_close nl ln s2"
      by (simp_all add: Let_def addr)
    with l la Inr r show ?thesis
      by (auto simp: networkSuitePortRangeEnd_def networkSuitePortRangeStart_def)
  qed
qed simp

lemma pickHostPort_free:
  assumes "\<And>n s. 0 < n \<Longrightarrow> fst (nl_intN nl n s) < n" and "passes (pickHostPort nl) s p s'"
  shows "20000 \<le> p \<and> p \<le> 29999
    \<and> (\<exists>t ln addr t1. nl_listen nl ''tcp'' (''127.0.0.1:'' @ dec p) t = (Inr (ln, addr), t1) \<and> s' = nl_close nl ln t1)"
proof -
  from assms(2) have "pick_port nl networkSuitePortAttempts s = (Some p, s')"
    by (auto simp: pickHostPort_def passes_simps split: prod.splits option.splits)
  from pick_port_free [OF assms(1) this] show ?thesis
    by (simp add: networkSuitePortRangeStart_def networkSuitePortRangeEnd_def)
qed

section \<open>Peers on the host\<close>

text \<open>
  What the goroutines of the tests do with the one connection or datagram they get. The token
  is compared after trimming; the reply of the TCP peer ends with a newline.
\<close>

definition tcp_peer :: "'s netlab \<Rightarrow> nat \<Rightarrow> string \<Rightarrow> 's \<Rightarrow> err option \<times> 's" where
  "tcp_peer nl ln token s =
     (case nl_accept nl ln s of
        (Inl e, s1) \<Rightarrow> (Some e, s1)
      | (Inr conn, s1) \<Rightarrow>
          (case nl_read nl conn 256 s1 of
             ((data, re), s2) \<Rightarrow>
               if re \<noteq> None \<and> data = [] then (re, nl_close nl conn s2)
               else let got = trim_space data in
                 if got \<noteq> token then (Some (''host received '' @ quote got @ '', want '' @ quote token), nl_close nl conn s2)
                 else case nl_write nl conn (token @ newline) s2 of
                   (Some e, s3) \<Rightarrow> (Some e, nl_close nl conn s3)
                 | (None, s3) \<Rightarrow> (None, nl_close nl conn (nl_close nl conn s3))))"

definition udp_peer :: "'s netlab \<Rightarrow> nat \<Rightarrow> string \<Rightarrow> 's \<Rightarrow> err option \<times> 's" where
  "udp_peer nl sock token s =
     (case nl_readFrom nl sock 256 s of
        (Inl e, s1) \<Rightarrow> (Some e, s1)
      | (Inr (data, addr), s1) \<Rightarrow>
          let got = trim_space data in
          if got \<noteq> token then (Some (''host received '' @ quote got @ '', want '' @ quote token), s1)
          else nl_writeTo nl sock token addr s1)"

text \<open>The test waits for the goroutine's result.\<close>

definition peer_result :: "'s netlab \<Rightarrow> string \<Rightarrow> ('s \<Rightarrow> err option \<times> 's) \<Rightarrow> ('s, unit) test" where
  "peer_result nl label peer =
     andThen (act (\<lambda>s. (nl_inTime nl s, s))) (\<lambda>now.
     if now then must_do label peer else fatal (label @ ''not observed within 5s''))"

lemma passes_peer_result [passes_simps]:
  "passes (peer_result nl label peer) s u s' \<longleftrightarrow> nl_inTime nl s \<and> peer s = (None, s')"
  by (auto simp: peer_result_def passes_simps)

lemma tcp_peer_ok:
  assumes "tcp_peer nl ln token s = (None, s')"
  shows "\<exists>conn s1 data re s2 s3. nl_accept nl ln s = (Inr conn, s1) \<and> nl_read nl conn 256 s1 = ((data, re), s2)
    \<and> trim_space data = token \<and> nl_write nl conn (token @ newline) s2 = (None, s3)"
  using assms by (auto simp: tcp_peer_def Let_def split: prod.splits sum.splits option.splits if_splits)

lemma udp_peer_ok:
  assumes "udp_peer nl sock token s = (None, s')"
  shows "\<exists>data addr s1. nl_readFrom nl sock 256 s = (Inr (data, addr), s1)
    \<and> trim_space data = token \<and> nl_writeTo nl sock token addr s1 = (None, s')"
  using assms by (auto simp: udp_peer_def Let_def split: prod.splits sum.splits if_splits)

section \<open>A network for one container\<close>

definition slirpGuestAddr :: string where
  "slirpGuestAddr = ''10.0.2.100''"

definition slirpHostAddr :: string where
  "slirpHostAddr = ''10.0.2.2''"

definition slirpDNSAddr :: string where
  "slirpDNSAddr = ''10.0.2.3''"

record containerNetwork =
  cn_cmd :: nat
  cn_api :: string

definition slirp_args :: "int \<Rightarrow> string \<Rightarrow> nat \<Rightarrow> string list" where
  "slirp_args uid apiSocket initPID =
     [''--configure'', ''--api-socket'', apiSocket, ''--ready-fd'', ''3'']
     @ (if uid \<noteq> 0 then [''--userns-path'', ''/proc/'' @ dec initPID @ ''/ns/user''] else [])
     @ [dec initPID, ''tap0'']"

text \<open>
  The process inherits the write end of a pipe; the test waits until a byte arrives on it, it
  is closed, or ten seconds are over (\<open>None\<close>), and kills the process unless a byte arrived.
\<close>

definition await_slirp :: "'s netlab \<Rightarrow> nat \<Rightarrow> nat \<Rightarrow> ('s, unit) test" where
  "await_slirp nl cmd r =
     andThen (act (nl_ready nl r)) (\<lambda>ready.
     case ready of
       Some None \<Rightarrow> ret ()
     | Some (Some e) \<Rightarrow> andThen (act (\<lambda>s. ((), nl_kill nl cmd s)))
         (\<lambda>u. fatal (''attachContainerNetwork: waiting for slirp4netns readiness: '' @ e))
     | None \<Rightarrow> andThen (act (\<lambda>s. ((), nl_kill nl cmd s)))
         (\<lambda>u. fatal ''attachContainerNetwork: slirp4netns did not become ready within 10s''))"

definition spawn_slirp :: "'s netlab \<Rightarrow> string \<Rightarrow> string \<Rightarrow> nat \<Rightarrow> nat \<Rightarrow> nat \<Rightarrow> ('s, containerNetwork) test" where
  "spawn_slirp nl path apiSocket initPID r w =
     andThen (must ''attachContainerNetwork: start slirp4netns: ''
       (nl_spawn nl path (slirp_args (lb_uid (nl_lab nl)) apiSocket initPID) w)) (\<lambda>cmd.
     andThen (act (\<lambda>s. ((), nl_close nl w s))) (\<lambda>u.
     andThen (await_slirp nl cmd r) (\<lambda>u.
     andThen (act (\<lambda>s. ((), nl_close nl r s))) (\<lambda>u.
     andThen (on_cleanup (\<lambda>s. ([], nl_reap nl cmd (nl_kill nl cmd s)))) (\<lambda>u.
     ret \<lparr>cn_cmd = cmd, cn_api = apiSocket\<rparr>)))))"

definition attachContainerNetwork :: "'s netlab \<Rightarrow> nat \<Rightarrow> ('s, containerNetwork) test" where
  "attachContainerNetwork nl initPID =
     andThen (act (\<lambda>s. (lb_lookPath (nl_lab nl) ''slirp4netns'' s, s))) (\<lambda>found.
     case found of
       Inl e \<Rightarrow> skip ''net tests require slirp4netns (not found on PATH) to provide container networking''
     | Inr path \<Rightarrow>
         andThen (act (h_tempdir (lb_host (nl_lab nl)))) (\<lambda>tmp.
         andThen (must ''attachContainerNetwork: pipe: '' (nl_pipe nl)) (\<lambda>(r, w).
         deferred (nl_close nl w) (spawn_slirp nl path (path_join [tmp, ''slirp-api.sock'']) initPID r w))))"

text \<open>
  The request body as \<^verbatim>\<open>json.Marshal\<close> writes a map: keys in order, no spaces.
\<close>

definition json_str :: "string \<Rightarrow> string" where
  "json_str s = CHR 0x22 # s @ [CHR 0x22]"

definition json_obj :: "(string \<times> string) list \<Rightarrow> string" where
  "json_obj fs = CHR 0x7B # join '','' (map (\<lambda>(k, v). json_str k @ CHR 0x3A # v) fs) @ [CHR 0x7D]"

definition forward_request :: "int \<Rightarrow> int \<Rightarrow> string" where
  "forward_request hostPort guestPort =
     json_obj
       [(''arguments'', json_obj
          [(''guest_addr'', json_str slirpGuestAddr), (''guest_port'', itoa guestPort),
           (''host_addr'', json_str loopback), (''host_port'', itoa hostPort), (''proto'', json_str ''tcp'')]),
        (''execute'', json_str ''add_hostfwd'')]"

definition AddInboundForward :: "'s netlab \<Rightarrow> containerNetwork \<Rightarrow> int \<Rightarrow> int \<Rightarrow> ('s, unit) test" where
  "AddInboundForward nl n hostPort guestPort =
     andThen (must ''AddInboundForward: dial slirp4netns API socket: '' (nl_dial nl ''unix'' (cn_api n))) (\<lambda>conn.
     deferred (nl_close nl conn) (
       andThen (must_do ''AddInboundForward: write request: '' (nl_write nl conn (forward_request hostPort guestPort))) (\<lambda>u.
       andThen (must_do ''AddInboundForward: close write side: '' (nl_closeWrite nl conn)) (\<lambda>u.
       andThen (must ''AddInboundForward: read response: '' (nl_readAll nl conn)) (\<lambda>reply.
       andThen (must ''AddInboundForward: unmarshal response: '' (\<lambda>s. (nl_replyError nl reply, s))) (\<lambda>e.
       demand ''AddInboundForward: slirp4netns error: '' (e = None)))))))"

text \<open>A network that was attached has been ready, and is killed and reaped at the end of the test.\<close>

lemma attach_ready:
  assumes "passes (attachContainerNetwork nl pid) s n s'"
  shows "\<exists>path r w t t1 t2 t3. lb_lookPath (nl_lab nl) ''slirp4netns'' s = Inr path
    \<and> nl_spawn nl path (slirp_args (lb_uid (nl_lab nl)) (cn_api n) pid) w t = (Inr (cn_cmd n), t1)
    \<and> nl_ready nl r t2 = (Some None, t3)"
  using assms
  by (auto simp: attachContainerNetwork_def spawn_slirp_def await_slirp_def passes_simps
      split: sum.splits option.splits prod.splits)

text \<open>
  C29. Once slirp4netns has been started it is never left behind: either the network is
  handed out with a cleanup that kills and reaps it, or the test ends by a failure after
  the process was killed.
\<close>

theorem spawn_slirp_never_leaks:
  assumes "spawn_slirp nl path api pid r w s = (x, es, cs, s')"
    and "nl_spawn nl path (slirp_args (lb_uid (nl_lab nl)) api pid) w s = (Inr cmd, s1)"
  shows "(\<exists>n. x = Returned n \<and> cs = [\<lambda>s. ([], nl_reap nl cmd (nl_kill nl cmd s))])
    \<or> (\<exists>e t. x = FatalStop e \<and> s' = nl_kill nl cmd t)"
proof -
  obtain ready s2 where r: "nl_ready nl r (nl_close nl w s1) = (ready, s2)" by fastforce
  note steps = spawn_slirp_def await_slirp_def andThen_def must_def act_def on_cleanup_def ret_def fatal_def
  consider "ready = Some None" | e where "ready = Some (Some e)" | "ready = None" by (cases ready) auto
  then show ?thesis
  proof cases
    case 1
    with assms r show ?thesis by (simp add: steps) blast
  qed (use assms r in \<open>simp add: steps; blast\<close>)+
qed

section \<open>Real namespaces\<close>

record realNetworkSandbox =
  rs_name :: string
  rs_path :: string

definition createRealNetworkSandbox :: "'s netlab \<Rightarrow> ('s, realNetworkSandbox) test" where
  "createRealNetworkSandbox nl =
     (if lb_uid (nl_lab nl) \<noteq> 0 then skip ''createRealNetworkSandbox requires root (CAP_SYS_ADMIN)''
      else andThen (act (\<lambda>s. (lb_lookPath (nl_lab nl) ''ip'' s, s))) (\<lambda>found.
        case found of
          Inl e \<Rightarrow> skip ''createRealNetworkSandbox requires the ip (iproute2) command''
        | Inr path \<Rightarrow>
            andThen (act (\<lambda>s. case nl_counts nl s of (c, v) \<Rightarrow> (c + 1, nl_set_counts nl (c + 1, v) s))) (\<lambda>c.
            let name = ''shimtest-'' @ dec (nl_getpid nl) @ ''-'' @ itoa (sint c) in
            andThen (must_do (''ip netns add '' @ name @ '': '') (nl_run nl [''ip'', ''netns'', ''add'', name])) (\<lambda>u.
            andThen (on_cleanup (\<lambda>s. ([], snd (nl_run nl [''ip'', ''netns'', ''delete'', name] s)))) (\<lambda>u.
            ret \<lparr>rs_name = name, rs_path = ''/var/run/netns/'' @ name\<rparr>)))))"

definition veth_slot :: "32 word \<Rightarrow> int" where
  "veth_slot c = sint c smod 250"

definition runIP :: "'s netlab \<Rightarrow> string list \<Rightarrow> ('s, unit) test" where
  "runIP nl args = must_do (''ip '' @ join '' '' args @ '': '') (nl_run nl (''ip'' # args))"

definition runIPNetns :: "'s netlab \<Rightarrow> string \<Rightarrow> string list \<Rightarrow> ('s, unit) test" where
  "runIPNetns nl name args =
     must_do (''ip netns exec '' @ name @ '' ip '' @ join '' '' args @ '': '')
       (nl_run nl ([''ip'', ''netns'', ''exec'', name, ''ip''] @ args))"

definition attachVeth :: "'s netlab \<Rightarrow> realNetworkSandbox \<Rightarrow> ('s, string) test" where
  "attachVeth nl n =
     andThen (act (\<lambda>s. case nl_counts nl s of (c, v) \<Rightarrow> (v + 1, nl_set_counts nl (c, v + 1) s))) (\<lambda>v.
     let slot = veth_slot v; addr = ''10.244.'' @ itoa slot @ ''.1''; hostIf = ''vh'' @ itoa slot; peerIf = ''vp'' @ itoa slot in
     andThen (inOrder
       [runIP nl [''link'', ''add'', hostIf, ''type'', ''veth'', ''peer'', ''name'', peerIf],
        runIP nl [''link'', ''set'', hostIf, ''netns'', rs_name n],
        runIP nl [''link'', ''set'', peerIf, ''netns'', rs_name n],
        runIPNetns nl (rs_name n) [''addr'', ''add'', addr @ ''/30'', ''dev'', hostIf],
        runIPNetns nl (rs_name n) [''link'', ''set'', hostIf, ''up''],
        runIPNetns nl (rs_name n) [''link'', ''set'', peerIf, ''up''],
        runIPNetns nl (rs_name n) [''link'', ''set'', ''lo'', ''up'']]) (\<lambda>u. ret addr))"

definition probeUnreachableFromCurrentNamespace :: "'s netlab \<Rightarrow> string \<Rightarrow> ('s, unit) test" where
  "probeUnreachableFromCurrentNamespace nl addr =
     andThen (act (nl_dial nl ''tcp'' addr)) (\<lambda>r.
     case r of
       Inl e \<Rightarrow> ret ()
     | Inr conn \<Rightarrow> andThen (act (\<lambda>s. ((), nl_close nl conn s)))
         (\<lambda>u. fatal (''test setup error: '' @ addr @ '' is reachable from the current namespace'')))"

text \<open>
  The goroutine of \<^verbatim>\<open>listenAndEchoOnceInNetns\<close> on its own thread: up to the listener the test
  waits for it; then it accepts one connection and writes back what one read gave.
\<close>

definition listen_in_netns :: "'s netlab \<Rightarrow> string \<Rightarrow> string \<Rightarrow> 's \<Rightarrow> nat result \<times> 's" where
  "listen_in_netns nl nsPath addr s =
     (case nl_setns nl nsPath s of
        (Some e, s1) \<Rightarrow> (Inl e, s1)
      | (None, s1) \<Rightarrow>
          (case nl_listen nl ''tcp'' addr s1 of
             (Inl e, s2) \<Rightarrow> (Inl (''listen '' @ addr @ '' in netns: '' @ e), s2)
           | (Inr (ln, a), s2) \<Rightarrow> (Inr ln, s2)))"

definition echo_once :: "'s netlab \<Rightarrow> nat \<Rightarrow> 's \<Rightarrow> err option \<times> 's" where
  "echo_once nl ln s =
     (case nl_accept nl ln s of
        (Inl e, s1) \<Rightarrow> (Some (''accept: '' @ e), nl_close nl ln s1)
      | (Inr conn, s1) \<Rightarrow>
          (case nl_read nl conn 256 (nl_close nl ln s1) of
             ((data, re), s2) \<Rightarrow>
               if data = [] \<and> re \<noteq> None then (Some (''read: '' @ the re), nl_close nl conn s2)
               else case nl_write nl conn data s2 of
                 (Some e, s3) \<Rightarrow> (Some (''write: '' @ e), nl_close nl conn s3)
               | (None, s3) \<Rightarrow> (None, nl_close nl conn s3)))"

definition listenAndEchoOnceInNetns :: "'s netlab \<Rightarrow> string \<Rightarrow> string \<Rightarrow> ('s, nat) test" where
  "listenAndEchoOnceInNetns nl nsPath addr = must ''listenAndEchoOnceInNetns: '' (listen_in_netns nl nsPath addr)"

text \<open>The goroutine of \<^verbatim>\<open>dialInNetnsRoundTrip\<close>.\<close>

definition dialInNetnsRoundTrip :: "'s netlab \<Rightarrow> string \<Rightarrow> string \<Rightarrow> string \<Rightarrow> 's \<Rightarrow> err option \<times> 's" where
  "dialInNetnsRoundTrip nl nsPath addr token s =
     (case nl_setns nl nsPath s of
        (Some e, s1) \<Rightarrow> (Some e, s1)
      | (None, s1) \<Rightarrow>
          (case nl_dial nl ''tcp'' addr s1 of
             (Inl e, s2) \<Rightarrow> (Some (''dial '' @ addr @ '' in netns: '' @ e), s2)
           | (Inr conn, s2) \<Rightarrow>
               (case nl_write nl conn token s2 of
                  (Some e, s3) \<Rightarrow> (Some (''write: '' @ e), nl_close nl conn s3)
                | (None, s3) \<Rightarrow>
                    (case nl_read nl conn 256 s3 of
                       ((data, re), s4) \<Rightarrow>
                         (if data = [] \<and> re \<noteq> None then Some (''read: '' @ the re)
                          else if data \<noteq> token then Some (''echo mismatch: got '' @ quote data @ '', want '' @ quote token)
                          else None, nl_close nl conn s4)))))"

section \<open>A file that stands for a namespace\<close>

definition createNetworkSandbox :: "'s netlab \<Rightarrow> ('s, string) test" where
  "createNetworkSandbox nl =
     andThen (act (h_tempdir (lb_host (nl_lab nl)))) (\<lambda>tmp.
     let nsPath = path_join [tmp, ''network-sandbox''] in
     andThen (must_do ''createNetworkSandbox: create resource file: '' (nl_createExcl nl nsPath)) (\<lambda>u. ret nsPath))"

definition networkSandboxIsOpen :: "'s netlab \<Rightarrow> string \<Rightarrow> 's \<Rightarrow> bool" where
  "networkSandboxIsOpen nl path s \<longleftrightarrow> path \<noteq> [] \<and> nl_stat nl path s"

section \<open>What the namespaces are for\<close>

text \<open>
  The slots of sandboxes that are used together differ as long as there are at most 250 of
  them and the counter has not passed the end of its 32 bits.
\<close>

lemma veth_slot_nonneg:
  assumes "n < 2 ^ 31"
  shows "veth_slot (word_of_nat n) = int (n mod 250)"
proof -
  have "sint (word_of_nat n :: 32 word) = int n"
    using assms by (simp add: signed_of_nat signed_take_bit_int_eq_self)
  then show ?thesis by (simp add: veth_slot_def smod_int_alt_def zmod_int sgn_if)
qed

lemma veth_slots_distinct:
  assumes "a < b" and "b < 2 ^ 31" and "b - a < 250"
  shows "veth_slot (word_of_nat a) \<noteq> veth_slot (word_of_nat b)"
proof -
  have "a mod 250 \<noteq> b mod 250"
  proof
    assume "a mod 250 = b mod 250"
    then have "250 dvd b - a" using assms(1) by (metis mod_eq_dvd_iff_nat less_imp_le)
    with assms show False by (auto dest: dvd_imp_le)
  qed
  then show ?thesis using assms veth_slot_nonneg [of a] veth_slot_nonneg [of b] by simp
qed

text \<open>One step further the counter is negative, and so is the slot: the address is none.\<close>

lemma veth_slot_wraps: "veth_slot (word_of_nat (2 ^ 31 - 1) + 1) = - 148"
  by (simp add: veth_slot_def smod_int_alt_def)

text \<open>The round trip succeeds only if the peer sent back what it got.\<close>

lemma dialInNetns_echoed:
  assumes "dialInNetnsRoundTrip nl nsPath addr token s = (None, s')"
  shows "\<exists>s1 s2 s3 s4 conn re. nl_setns nl nsPath s = (None, s1) \<and> nl_dial nl ''tcp'' addr s1 = (Inr conn, s2)
    \<and> nl_write nl conn token s2 = (None, s3) \<and> nl_read nl conn 256 s3 = ((token, re), s4)"
  using assms by (auto simp: dialInNetnsRoundTrip_def split: prod.splits sum.splits option.splits if_splits)

lemma attachVeth_runs:
  assumes "passes (attachVeth nl n) s addr s'"
  shows "\<exists>slot t t'. addr = ''10.244.'' @ itoa slot @ ''.1''
    \<and> nl_run nl ([''ip'', ''netns'', ''exec'', rs_name n, ''ip'', ''addr'', ''add'', addr @ ''/30'', ''dev'', ''vh'' @ itoa slot]) t = (None, t')"
  using assms by (auto simp: attachVeth_def runIP_def runIPNetns_def Let_def passes_simps) blast

end
