(* ===== verification/Sandbox_Suite.thy ===== *)
theory Sandbox_Suite
  imports Sandbox Hostnet
begin

text \<open>
  The tests of the sandbox API contract (\<^verbatim>\<open>sandbox_suite.go\<close>): the states a sandbox goes
  through, its platform, ping and wait calls, the order of create and start, and members that
  run, end and are deleted beside one another. The theorems say which answers of the shim let
  a test pass.
\<close>

section \<open>A sandbox under test\<close>

text \<open>
  Beside the sandbox laboratory: when the reply of a wait that runs in a goroutine is there, and
  the host's side of the network.
\<close>

datatype waiting = ReplyBeforeStop | ReplyAfterStop | NoReply

record 's podlab =
  pd_sand :: "'s sandlab"
  pd_waiting :: "'s \<Rightarrow> waiting"
  pd_net :: "'s netlab"

abbreviation pd_lab :: "'s podlab \<Rightarrow> 's lab" where
  "pd_lab pl \<equiv> sl_lab (pd_sand pl)"

definition sandboxStateReady :: string where
  "sandboxStateReady = ''SANDBOX_READY''"

definition sandboxStateNotReady :: string where
  "sandboxStateNotReady = ''SANDBOX_NOTREADY''"

definition with_sandbox ::
    "'s podlab \<Rightarrow> config \<Rightarrow> string \<Rightarrow> ('s sandbox \<Rightarrow> ('s \<times> senv, unit) test) \<Rightarrow> ('s \<times> senv, unit) test" where
  "with_sandbox pl cfg netns body =
     andThen (inner (container_id (pd_lab pl))) (\<lambda>sid.
     andThen (startSandboxShimInner (pd_sand pl) cfg sid netns) body)"

text \<open>A call on the sandbox or on a member: fatal on an error, or with its error dropped.\<close>

definition ask :: "string \<Rightarrow> 's sandbox \<Rightarrow> sreq \<Rightarrow> ('s \<times> senv, sresp option) test" where
  "ask label sb r = inner (src label (sb_sc sb) r)"

definition tell :: "'s sandbox \<Rightarrow> sreq \<Rightarrow> ('s \<times> senv, unit) test" where
  "tell sb r = inner (src_drop (sb_sc sb) r)"

definition mcall :: "string \<Rightarrow> 's sandbox \<Rightarrow> req \<Rightarrow> ('s \<times> senv, resp option) test" where
  "mcall label sb r = inner (rpc label (sb_tc sb) r)"

definition try_call :: "'s sandbox \<Rightarrow> req \<Rightarrow> ('s \<times> senv, unit) test" where
  "try_call sb r = inner (rpc_drop (sb_tc sb) r)"

text \<open>A sandbox call whose error the test looks at.\<close>

definition attempt_call :: "'s sandbox \<Rightarrow> sreq \<Rightarrow> ('s \<times> senv, sresp option \<times> err option) test" where
  "attempt_call sb r = inner (act (sb_sc sb r))"

text \<open>The getters of a response, which read a nil response as zero.\<close>

definition got_exit :: "resp option \<Rightarrow> nat" where
  "got_exit a = (case a of Some (WaitResp x at) \<Rightarrow> x | _ \<Rightarrow> 0)"

definition got_status :: "resp option \<Rightarrow> status" where
  "got_status a = (case a of Some (StateResp i b p st si so se t x at e) \<Rightarrow> st | _ \<Rightarrow> UNKNOWN)"

definition pid_of :: "sresp option \<Rightarrow> nat" where
  "pid_of a = (case a of Some (SandboxState p st info t) \<Rightarrow> p | _ \<Rightarrow> 0)"

definition reap :: "'s sandbox \<Rightarrow> string \<Rightarrow> ('s \<times> senv, unit) test" where
  "reap sb cid = inOrder [try_call sb (Wait cid []), try_call sb (Delete cid [])]"

definition kill_and_reap :: "'s sandbox \<Rightarrow> string \<Rightarrow> ('s \<times> senv, unit) test" where
  "kill_and_reap sb cid = inOrder [try_call sb (Kill cid [] 9 True), try_call sb (Wait cid []), try_call sb (Delete cid [])]"

definition await_state :: "'s podlab \<Rightarrow> 's sandbox \<Rightarrow> string \<Rightarrow> ('s \<times> senv, unit) test" where
  "await_state pl sb want =
     andThen (inner (act (waitForSandboxStatus (pd_sand pl) (sb_sc sb) (sb_id sb) want))) (\<lambda>e.
     expect (''SandboxStatus state after stop: '') (e = None))"

definition still_ready :: "string \<Rightarrow> 's sandbox \<Rightarrow> ('s \<times> senv, unit) test" where
  "still_ready label sb =
     andThen (ask label sb (SandboxStatus (sb_id sb) False)) (\<lambda>a.
     expect (''sandbox state: got '' @ quote (state_of a)) (state_of a = sandboxStateReady))"

definition still_running :: "string \<Rightarrow> 's sandbox \<Rightarrow> string \<Rightarrow> ('s \<times> senv, unit) test" where
  "still_running label sb cid =
     andThen (mcall label sb (State cid [])) (\<lambda>a.
     expect (''container status: want RUNNING'') (got_status a = RUNNING))"

text \<open>What a clean run of these says.\<close>

lemma passes_calls [passes_simps]:
  "passes (ask label sb r) se a se' \<longleftrightarrow> sb_sc sb r (fst se) = ((a, None), fst se') \<and> snd se' = snd se"
  "passes (tell sb r) se u se' \<longleftrightarrow> se' = (snd (sb_sc sb r (fst se)), snd se)"
  "passes (mcall label sb q) se b se' \<longleftrightarrow> sb_tc sb q (fst se) = ((b, None), fst se') \<and> snd se' = snd se"
  "passes (try_call sb q) se u se' \<longleftrightarrow> se' = (snd (sb_tc sb q (fst se)), snd se)"
  "passes (attempt_call sb r) se p se' \<longleftrightarrow> sb_sc sb r (fst se) = (p, fst se') \<and> snd se' = snd se"
  by (cases se; cases se'; auto simp: ask_def tell_def mcall_def try_call_def attempt_call_def passes_simps)+

text \<open>An answer without an error that the sandbox or the tasks of a sandbox gave at some point.\<close>

definition answered :: "'s sandbox \<Rightarrow> sreq \<Rightarrow> sresp option \<Rightarrow> bool" where
  "answered sb r a \<longleftrightarrow> (\<exists>t t'. sb_sc sb r t = ((a, None), t'))"

definition replied_to :: "'s sandbox \<Rightarrow> req \<Rightarrow> resp option \<Rightarrow> bool" where
  "replied_to sb r a \<longleftrightarrow> (\<exists>t t'. sb_tc sb r t = ((a, None), t'))"

lemma answeredI: "sb_sc sb r t = ((a, None), t') \<Longrightarrow> answered sb r a"
  by (auto simp: answered_def)

lemma replied_toI: "sb_tc sb r t = ((a, None), t') \<Longrightarrow> replied_to sb r a"
  by (auto simp: replied_to_def)

lemma passes_still_ready [passes_simps]:
  "passes (still_ready label sb) se u se' \<longleftrightarrow>
     (\<exists>a. sb_sc sb (SandboxStatus (sb_id sb) False) (fst se) = ((a, None), fst se')
        \<and> state_of a = sandboxStateReady \<and> snd se' = snd se)"
  by (cases se; cases se') (auto simp: still_ready_def passes_simps)

lemma passes_still_running [passes_simps]:
  "passes (still_running label sb cid) se u se' \<longleftrightarrow>
     (\<exists>a. sb_tc sb (State cid []) (fst se) = ((a, None), fst se') \<and> got_status a = RUNNING \<and> snd se' = snd se)"
  by (cases se; cases se') (auto simp: still_running_def passes_simps)

lemma passes_with_sandbox [passes_simps]:
  "passes (with_sandbox pl cfg netns body) se u se' \<longleftrightarrow>
     (\<exists>sid s1 sb se1. passes (container_id (pd_lab pl)) (fst se) sid s1
        \<and> passes (startSandboxShimInner (pd_sand pl) cfg sid netns) (s1, snd se) sb se1 \<and> passes (body sb) se1 u se')"
  by (auto simp: with_sandbox_def passes_simps)

section \<open>The life of a sandbox\<close>

definition sandboxLifecycle :: "'s podlab \<Rightarrow> config \<Rightarrow> ('s \<times> senv, unit) test" where
  "sandboxLifecycle pl cfg = with_sandbox pl cfg [] (\<lambda>sb.
     andThen (ask ''SandboxStatus: '' sb (SandboxStatus (sb_id sb) False)) (\<lambda>a.
     andThen (expect (''SandboxStatus state after start: got '' @ quote (state_of a)) (state_of a = sandboxStateReady)) (\<lambda>u.
     andThen (expect ''SandboxStatus Pid must be > 0 after start'' (pid_of a \<noteq> 0)) (\<lambda>u.
     andThen (ask ''StopSandbox: '' sb (StopSandbox (sb_id sb))) (\<lambda>b.
     andThen (await_state pl sb sandboxStateNotReady) (\<lambda>u.
     andThen (ask ''ShutdownSandbox: '' sb (ShutdownSandbox (sb_id sb))) (\<lambda>b. ret ())))))))"

definition platform_of :: "sresp option \<Rightarrow> (string \<times> string \<times> string) option" where
  "platform_of a = (case a of Some (SandboxPlatform p) \<Rightarrow> p | _ \<Rightarrow> None)"

definition testPlatform :: "'s podlab \<Rightarrow> config \<Rightarrow> ('s \<times> senv, unit) test" where
  "testPlatform pl cfg = with_sandbox pl cfg [] (\<lambda>sb.
     andThen (ask ''Platform: '' sb (Platform (sb_id sb))) (\<lambda>a.
     case platform_of a of
       None \<Rightarrow> fatal ''Platform response missing platform field''
     | Some (os, arch, variant) \<Rightarrow> inOrder
         [expect ''Platform response: OS must not be empty'' (os \<noteq> []),
          expect ''Platform response: Architecture must not be empty'' (arch \<noteq> [])]))"

definition testPing :: "'s podlab \<Rightarrow> config \<Rightarrow> ('s \<times> senv, unit) test" where
  "testPing pl cfg = with_sandbox pl cfg [] (\<lambda>sb.
     andThen (ask ''PingSandbox: '' sb (PingSandbox (sb_id sb))) (\<lambda>a. ret ()))"

text \<open>The status after a stop may be an error; a second stop must succeed.\<close>

definition testStatusAfterStop :: "'s podlab \<Rightarrow> config \<Rightarrow> ('s \<times> senv, unit) test" where
  "testStatusAfterStop pl cfg = with_sandbox pl cfg [] (\<lambda>sb.
     andThen (ask ''StopSandbox (first): '' sb (StopSandbox (sb_id sb))) (\<lambda>a.
     andThen (attempt_call sb (SandboxStatus (sb_id sb) False)) (\<lambda>(b, e).
     andThen (expect ''SandboxStatus after stop: the state is still ready'' (e \<noteq> None \<or> state_of b \<noteq> sandboxStateReady)) (\<lambda>u.
     andThen (attempt_call sb (StopSandbox (sb_id sb))) (\<lambda>(b, e).
     expect ''StopSandbox (second, idempotency check): '' (e = None))))))"

text \<open>
  The wait runs in a goroutine beside the stop: its call takes effect before the stop or after
  it, or its reply is not there fifteen seconds after. Any reply will do.
\<close>

definition wait_stop :: "'s podlab \<Rightarrow> 's sandbox \<Rightarrow> ('s \<times> senv, unit) test" where
  "wait_stop pl sb =
     andThen (inner (act (\<lambda>s. (pd_waiting pl s, s)))) (\<lambda>when.
     andThen (if when = ReplyBeforeStop then tell sb (WaitSandbox (sb_id sb)) else ret ()) (\<lambda>u.
     andThen (ask ''StopSandbox: '' sb (StopSandbox (sb_id sb))) (\<lambda>a.
     case when of
       ReplyBeforeStop \<Rightarrow> ret ()
     | ReplyAfterStop \<Rightarrow> tell sb (WaitSandbox (sb_id sb))
     | NoReply \<Rightarrow> fatal ''WaitSandbox did not return within 15s after StopSandbox'')))"

definition testWaitUnblocksOnStop :: "'s podlab \<Rightarrow> config \<Rightarrow> ('s \<times> senv, unit) test" where
  "testWaitUnblocksOnStop pl cfg = with_sandbox pl cfg [] (wait_stop pl)"

section \<open>Calls out of order\<close>

text \<open>
  \<^verbatim>\<open>strings.ToLower\<close> for a search of ASCII text: the capital letters, and the two other
  characters (the Kelvin sign and the dotted capital i) whose lower case is an ASCII letter.
\<close>

fun str_lower :: "string \<Rightarrow> string" where
  "str_lower [] = []"
| "str_lower (c # cs) =
     (if c = CHR 0xE2 \<and> take 2 cs = [CHR 0x84, CHR 0xAA] then CHR ''k'' # str_lower (drop 2 cs)
      else if c = CHR 0xC4 \<and> take 1 cs = [CHR 0xB0] then CHR ''i'' # str_lower (drop 1 cs)
      else lower_char c # str_lower cs)"

definition says_already_exists :: "err \<Rightarrow> bool" where
  "says_already_exists e \<longleftrightarrow> str_contains (str_lower e) ''already exists'' \<or> str_contains (str_lower e) ''alreadyexists''"

definition says_precondition :: "err \<Rightarrow> bool" where
  "says_precondition e \<longleftrightarrow> str_contains (str_lower e) ''precondition'' \<or> str_contains (str_lower e) ''failed_precondition''"

definition rejected :: "string \<Rightarrow> (err \<Rightarrow> bool) \<Rightarrow> err option \<Rightarrow> ('s, unit) test" where
  "rejected label good e =
     (case e of None \<Rightarrow> fatal (label @ '' must fail; got nil error'')
      | Some x \<Rightarrow> expect (label @ '': unexpected error, got: '' @ x) (good x))"

lemma passes_rejected [passes_simps]:
  "passes (rejected label good e) s u s' \<longleftrightarrow> (\<exists>x. e = Some x \<and> good x) \<and> s' = s"
  by (auto simp: rejected_def passes_simps split: option.split)

definition testCreateTwiceRejected :: "'s podlab \<Rightarrow> config \<Rightarrow> ('s \<times> senv, unit) test" where
  "testCreateTwiceRejected pl cfg = with_sandbox pl cfg [] (\<lambda>sb.
     andThen (attempt_call sb (CreateSandbox (sb_id sb @ ''-dup'') ''.'' [])) (\<lambda>(a, e).
     rejected ''second CreateSandbox'' says_already_exists e))"

text \<open>No sandbox is created here: a shim alone, with version 3 of the tasks whatever it declares.\<close>

definition testStartWithoutCreateRejected :: "'s podlab \<Rightarrow> config \<Rightarrow> ('s \<times> senv, unit) test" where
  "testStartWithoutCreateRejected pl cfg = (let lab = pd_lab pl in inner (
     andThen (shimSetup lab cfg) (\<lambda>(shimBin, bundleDir, ms).
     andThen (container_id lab) (\<lambda>sid.
     andThen (unique_namespace lab ''sandbox'') (\<lambda>ns.
     andThen (writeSandboxOCISpec (pd_sand pl) bundleDir) (\<lambda>u.
     andThen (start_shim lab shimBin bundleDir sid ns cfg) (\<lambda>p.
     andThen (connect_shim lab (bp_address p)) (\<lambda>conn.
     deferred (lb_close lab conn) (
       andThen (act (sl_sandbox (pd_sand pl) conn (StartSandbox sid))) (\<lambda>(a, e).
       andThen (rejected ''StartSandbox without CreateSandbox'' says_precondition e) (\<lambda>u.
       shutdownTask (lb_task3 lab conn) sid)))))))))))"

section \<open>Members side by side\<close>

definition testSingleContainer :: "'s podlab \<Rightarrow> config \<Rightarrow> ('s \<times> senv, unit) test" where
  "testSingleContainer pl cfg = with_sandbox pl cfg [] (\<lambda>sb.
     andThen (createContainerInSandbox (pd_sand pl) sb [''/bin/echo'', ''hello-sandbox''] []) (\<lambda>cid.
     andThen (readContainerOutput (pd_sand pl) cid ''hello-sandbox'') (\<lambda>out.
     andThen (mcall ''Task.Wait: '' sb (Wait cid [])) (\<lambda>w.
     andThen (expect (''expected exit status 0, got '' @ dec (got_exit w)) (got_exit w = 0)) (\<lambda>u.
     andThen (mcall ''Task.Delete: '' sb (Delete cid [])) (\<lambda>a. ret ()))))))"

text \<open>Three members, each with a token of its own; the goroutines that read them end one by one.\<close>

definition create_echo :: "'s podlab \<Rightarrow> 's sandbox \<Rightarrow> nat \<Rightarrow> ('s \<times> senv, string \<times> string) test" where
  "create_echo pl sb i =
     andThen (inner (act (randomSuffix (pd_lab pl)))) (\<lambda>sfx.
     let token = ''ctr'' @ dec i @ ''-token-'' @ sfx in
     andThen (createContainerInSandbox (pd_sand pl) sb [''/bin/echo'', token] []) (\<lambda>cid. ret (cid, token)))"

fun collect_all :: "('s, 'a) test list \<Rightarrow> ('s, 'a list) test" where
  "collect_all [] = ret []"
| "collect_all (m # ms) = andThen m (\<lambda>a. andThen (collect_all ms) (\<lambda>as. ret (a # as)))"

definition finish_member :: "'s sandbox \<Rightarrow> string \<times> string \<Rightarrow> ('s \<times> senv, unit) test" where
  "finish_member sb ct = (let cid = fst ct in
     andThen (inner (act (sb_tc sb (Wait cid [])))) (\<lambda>(w, e).
     if e \<noteq> None then errorf (''Task.Wait '' @ cid @ '': '')
     else inOrder [expect (''container '' @ cid @ '' exit status: want 0'') (got_exit w = 0), try_call sb (Delete cid [])]))"

definition testMultipleContainers :: "'s podlab \<Rightarrow> config \<Rightarrow> ('s \<times> senv, unit) test" where
  "testMultipleContainers pl cfg = with_sandbox pl cfg [] (\<lambda>sb.
     andThen (collect_all (map (create_echo pl sb) [0..<3])) (\<lambda>ctrs.
     andThen (inOrder (map (\<lambda>(cid, token). goroutine (readContainerOutput (pd_sand pl) cid token)) ctrs)) (\<lambda>u.
     inOrder (map (finish_member sb) ctrs))))"

definition testContainerLifecycleIndependence :: "'s podlab \<Rightarrow> config \<Rightarrow> ('s \<times> senv, unit) test" where
  "testContainerLifecycleIndependence pl cfg = with_sandbox pl cfg [] (\<lambda>sb.
     andThen (createContainerInSandbox (pd_sand pl) sb [''/bin/forever'', ''observer''] []) (\<lambda>observer.
     andThen (createContainerInSandbox (pd_sand pl) sb [''/bin/echo'', ''short-lived''] []) (\<lambda>short1.
     andThen (readContainerOutput (pd_sand pl) short1 ''short-lived'') (\<lambda>out.
     andThen (try_call sb (Wait short1 [])) (\<lambda>u.
     andThen (mcall ''Delete short container: '' sb (Delete short1 [])) (\<lambda>a.
     inOrder [still_running ''State for observer after short-container delete: '' sb observer,
       still_ready ''SandboxStatus after peer delete: '' sb,
       kill_and_reap sb observer]))))))"

text \<open>The mounts left are looked up by a pid that may be unknown; the ones before are only logged.\<close>

definition testResourceReleaseOnShutdown :: "'s podlab \<Rightarrow> config \<Rightarrow> ('s \<times> senv, unit) test" where
  "testResourceReleaseOnShutdown pl cfg = (let sl = pd_sand pl in with_sandbox pl cfg [] (\<lambda>sb.
     andThen (createContainerInSandbox sl sb [''/bin/echo'', ''ctr1''] []) (\<lambda>cid1.
     andThen (createContainerInSandbox sl sb [''/bin/echo'', ''ctr2''] []) (\<lambda>cid2.
     andThen (readContainerOutput sl cid1 ''ctr1'') (\<lambda>out.
     andThen (readContainerOutput sl cid2 ''ctr2'') (\<lambda>out.
     andThen (inOrder [try_call sb (Wait cid1 []), try_call sb (Wait cid2 []),
       try_call sb (Delete cid1 []), try_call sb (Delete cid2 [])]) (\<lambda>u.
     andThen (inner (act (\<lambda>s. (sandboxShimPID sl sb cid1 s, s)))) (\<lambda>pid.
     andThen (inOrder [tell sb (StopSandbox (sb_id sb)), tell sb (ShutdownSandbox (sb_id sb))]) (\<lambda>u.
     andThen (inner (act (\<lambda>s. (sandboxContainersMounts sl pid s, s)))) (\<lambda>left.
     expect (''shim left '' @ dec (length left) @ '' per-container mount(s) after ShutdownSandbox'') (left = [])))))))))))"

section \<open>What a passing test has seen\<close>

text \<open>Steps over a list: each of them ran clean at some point.\<close>

lemma passes_inOrder_map:
  assumes "passes (inOrder (map f xs)) s u s'" and "x \<in> set xs"
  shows "\<exists>t t'. passes (f x) t () t'"
  using assms by (induction xs arbitrary: s) (auto simp: passes_simps)

lemma passes_collect_all:
  "passes (collect_all ms) s as s' \<Longrightarrow> list_all2 (\<lambda>m a. \<exists>t t'. passes m t a t') ms as"
  by (induction ms arbitrary: s as) (auto simp: passes_simps)

lemma passes_finish_member:
  "passes (finish_member sb (cid, token)) se u se' \<Longrightarrow>
     \<exists>w. replied_to sb (Wait cid []) w \<and> got_exit w = 0"
  by (auto simp: finish_member_def passes_simps split: if_splits intro: replied_toI)

lemma read_output_contains:
  "passes (readContainerOutput sl cid want) se out se' \<Longrightarrow>
     \<exists>path gots. stdoutBufs (snd se) cid = Some path \<and> lb_readings (sl_lab sl) path (fst se) = (gots, fst se')
       \<and> out \<in> set gots \<and> str_contains out want"
  by (cases se) (auto simp: readContainerOutput_def captured_def passes_simps split: option.splits
      dest!: first_accepted_Some)

lemma read_output_never_skips: "fst (readContainerOutput sl cid want se) \<noteq> SkipStop e"
  by (cases se) (auto simp: readContainerOutput_def captured_def andThen_def act_def inner_def fatal_def ret_def
      poll_until_def must_def split: option.splits prod.splits sum.splits)


text \<open>Any reply of the wait lets the test pass, also one given before the sandbox is stopped.\<close>

lemma early_wait_accepted:
  assumes "pd_waiting pl s = ReplyBeforeStop"
    and "sb_sc sb (WaitSandbox (sb_id sb)) s = (any, s1)" and "sb_sc sb (StopSandbox (sb_id sb)) s1 = ((a, None), s2)"
  shows "passes (wait_stop pl sb) (s, e) () (s2, e)"
  using assms by (simp add: wait_stop_def passes_simps)

lemma wait_stop_needs:
  assumes "passes (wait_stop pl sb) (s, e) () se'"
  shows "pd_waiting pl s \<noteq> NoReply \<and> (\<exists>a. answered sb (StopSandbox (sb_id sb)) a)"
  using assms by (cases "pd_waiting pl s") (auto simp: wait_stop_def passes_simps intro: answeredI)

text \<open>The second spelling the code accepts contains the first.\<close>

lemma precondition_spellings: "says_precondition e \<longleftrightarrow> str_contains (str_lower e) ''precondition''"
proof -
  have "''failed_precondition'' = ''failed_'' @ ''precondition''" by simp
  then show ?thesis unfolding says_precondition_def str_contains_conv by (metis append.assoc)
qed

lemma createTwice_contract:
  fixes pl :: "'s podlab"
  assumes "passes (testCreateTwiceRejected pl cfg) se u se'"
  shows "\<exists>(sb :: 's sandbox) t a x t'. sb_sc sb (CreateSandbox (sb_id sb @ ''-dup'') ''.'' []) t = ((a, Some x), t') \<and> says_already_exists x"
  using assms by (auto simp: testCreateTwiceRejected_def passes_simps) blast

lemma startWithoutCreate_contract:
  assumes "passes (testStartWithoutCreateRejected pl cfg) se u se'"
  shows "\<exists>sid conn t a x t'. sl_sandbox (pd_sand pl) conn (StartSandbox sid) t = ((a, Some x), t')
    \<and> str_contains (str_lower x) ''precondition''"
  using assms by (auto simp: testStartWithoutCreateRejected_def Let_def passes_simps precondition_spellings) blast

lemma independence_contract:
  fixes pl :: "'s podlab"
  assumes "passes (testContainerLifecycleIndependence pl cfg) se u se'"
  shows "\<exists>(sb :: 's sandbox) observer short1 t t1 t2 t3 a b c.
    sb_tc sb (Delete short1 []) t = ((a, None), t1)
    \<and> sb_tc sb (State observer []) t1 = ((b, None), t2) \<and> got_status b = RUNNING
    \<and> sb_sc sb (SandboxStatus (sb_id sb) False) t2 = ((c, None), t3) \<and> state_of c = sandboxStateReady"
  using assms by (auto simp: testContainerLifecycleIndependence_def passes_simps) blast

text \<open>
  Three members passed: each printed its own token and ended with status zero.
\<close>

lemma multiple_contract:
  fixes pl :: "'s podlab"
  assumes "passes (testMultipleContainers pl cfg) se u se'"
  shows "\<exists>(sb :: 's sandbox) ctrs. length ctrs = 3
    \<and> (\<forall>i < 3. \<exists>sfx. snd (ctrs ! i) = ''ctr'' @ dec i @ ''-token-'' @ sfx)
    \<and> (\<forall>(cid, token) \<in> set ctrs.
         (\<exists>path t gots t' out. lb_readings (pd_lab pl) path t = (gots, t') \<and> out \<in> set gots \<and> str_contains out token)
         \<and> (\<exists>w. replied_to sb (Wait cid []) w \<and> got_exit w = 0))"
proof -
  from assms obtain sb :: "'s sandbox" and ctrs se1 se2 se3 where
    c: "passes (collect_all (map (create_echo pl sb) [0..<3])) se1 ctrs se2"
    and r: "passes (inOrder (map (\<lambda>(cid, token). goroutine (readContainerOutput (pd_sand pl) cid token)) ctrs)) se2 () se3"
    and f: "passes (inOrder (map (finish_member sb) ctrs)) se3 () se'"
    by (auto simp: testMultipleContainers_def passes_simps)
  from passes_collect_all [OF c] have l: "list_all2 (\<lambda>m a. \<exists>t t'. passes m t a t') (map (create_echo pl sb) [0..<3]) ctrs" .
  then have "length ctrs = 3" by (auto dest: list_all2_lengthD)
  moreover have "\<exists>sfx. snd (ctrs ! i) = ''ctr'' @ dec i @ ''-token-'' @ sfx" if "i < 3" for i
  proof -
    from list_all2_nthD [OF l, of i] that obtain t t' where "passes (create_echo pl sb i) t (ctrs ! i) t'" by auto
    then show ?thesis by (auto simp: create_echo_def Let_def passes_simps)
  qed
  moreover have "(\<exists>path t gots t' out. lb_readings (pd_lab pl) path t = (gots, t') \<and> out \<in> set gots \<and> str_contains out token)
      \<and> (\<exists>w. replied_to sb (Wait cid []) w \<and> got_exit w = 0)" if "(cid, token) \<in> set ctrs" for cid token
  proof
    from passes_inOrder_map [OF r that] obtain t t' where
      "passes (goroutine (readContainerOutput (pd_sand pl) cid token)) t () t'" by auto
    then obtain out where "passes (readContainerOutput (pd_sand pl) cid token) t out t'"
      using read_output_never_skips [of "pd_sand pl" cid token t] by (cases "readContainerOutput (pd_sand pl) cid token t") (auto simp: passes_goroutine)
    from read_output_contains [OF this] show "\<exists>path t gots t' out. lb_readings (pd_lab pl) path t = (gots, t')
        \<and> out \<in> set gots \<and> str_contains out token" by blast
    from passes_inOrder_map [OF f that] show "\<exists>w. replied_to sb (Wait cid []) w \<and> got_exit w = 0"
      using passes_finish_member by blast
  qed
  ultimately show ?thesis by blast
qed

text \<open>The tokens keep the outputs apart: what one member echoes does not satisfy the wait for another.\<close>

lemma dec_single: "i < 10 \<Longrightarrow> dec i = [digit_char i]"
  by (subst dec.simps) simp

lemma outputs_not_swapped:
  assumes "i < 10" and "j < 10" and "i \<noteq> j" and "length a = length b"
  shows "\<not> str_contains ((''ctr'' @ dec i @ ''-token-'' @ a) @ newline) (''ctr'' @ dec j @ ''-token-'' @ b)"
proof
  assume "str_contains ((''ctr'' @ dec i @ ''-token-'' @ a) @ newline) (''ctr'' @ dec j @ ''-token-'' @ b)"
  then obtain l r where e: "(''ctr'' @ dec i @ ''-token-'' @ a) @ newline = l @ (''ctr'' @ dec j @ ''-token-'' @ b) @ r"
    unfolding str_contains_conv by blast
  have "length l + length r = 1"
    using arg_cong [OF e, of length] assms by (simp add: dec_single newline_def)
  then consider "l = []" | c where "l = [c]" by (cases l) auto
  then show False
  proof cases
    case 1
    with e have "digit_char i = digit_char j" using assms(1,2) by (simp add: dec_single)
    then have "dec i = dec j" using assms(1,2) by (simp add: dec_single)
    with assms(3) show False by simp
  next
    case 2
    with e show False by simp
  qed
qed

text \<open>A pid that cannot be found out makes the leak check of the mounts pass, whatever is left.\<close>

lemma unknown_pid_no_mounts: "sandboxContainersMounts sl 0 s = []"
  by (simp add: sandboxContainersMounts_def sandboxMountTargets_def)

end
