(* ===== verification/Network_Suite.thy ===== *)
theory Network_Suite
  imports Hostnet Exec_Suite
begin

text \<open>
  The network suite (\<^verbatim>\<open>network_suite.go\<close>): a container that reaches a peer on the host over TCP
  and UDP, resolves a name, is reached on a port it listens on, and talks to itself. The
  theorems connect the checks with what \<^verbatim>\<open>nc\<close>, \<^verbatim>\<open>host\<close> and \<^verbatim>\<open>looptest\<close> print.
\<close>

section \<open>Reading the output of host\<close>

text \<open>What follows the first occurrence of a marker (\<^verbatim>\<open>strings.Index\<close>).\<close>

fun cut_after :: "string \<Rightarrow> string \<Rightarrow> string option" where
  "cut_after marker [] = (if marker = [] then Some [] else None)"
| "cut_after marker (c # cs) =
     (if has_prefix (c # cs) marker then Some (drop (length marker) (c # cs)) else cut_after marker cs)"

definition dnsTestHostname :: string where
  "dnsTestHostname = ''example.com''"

text \<open>The errors recorded and the addresses found, line by line.\<close>

fun scan_hosts :: "(string \<Rightarrow> bool) \<Rightarrow> string list \<Rightarrow> err list \<times> string list" where
  "scan_hosts parseIP [] = ([], [])"
| "scan_hosts parseIP (l # ls) =
     (case scan_hosts parseIP ls of (es, ips) \<Rightarrow>
        let line = trim_space l in
        if line = [] then (es, ips)
        else case cut_after '' has address '' line of
          None \<Rightarrow> ((''host '' @ dnsTestHostname @ '': unexpected output line '' @ quote line) # es, ips)
        | Some ip \<Rightarrow>
            if parseIP ip then (es, ip # ips)
            else ((''host '' @ dnsTestHostname @ '': '' @ quote ip @ '' is not a valid IP address'') # es, ips))"

definition host_lines :: "string \<Rightarrow> string list" where
  "host_lines out = split_on CHR 0x0A (trim_space out)"

definition check_hosts :: "(string \<Rightarrow> bool) \<Rightarrow> bytes \<Rightarrow> ('s, unit) test" where
  "check_hosts parseIP out = (case scan_hosts parseIP (host_lines out) of (es, ips) \<Rightarrow>
     andThen (inOrder (map errorf es)) (\<lambda>u.
     demand (''host '' @ dnsTestHostname @ '' produced no addresses'') (ips \<noteq> [])))"

lemma passes_check_hosts [passes_simps]:
  "passes (check_hosts parseIP out) s u s' \<longleftrightarrow>
     fst (scan_hosts parseIP (host_lines out)) = [] \<and> snd (scan_hosts parseIP (host_lines out)) \<noteq> [] \<and> s' = s"
proof -
  have "passes (inOrder (map errorf es)) s u t \<longleftrightarrow> es = [] \<and> t = s" for es :: "err list" and u t
    by (cases es) (auto simp: passes_simps)
  then show ?thesis by (auto simp: check_hosts_def passes_simps split: prod.splits)
qed

text \<open>
  Lines that neither are empty nor begin or end with a space, printed one after another, are
  found again by trimming the output and splitting it.
\<close>

definition tidy :: "string \<Rightarrow> bool" where
  "tidy l \<longleftrightarrow> l \<noteq> [] \<and> \<not> is_space (hd l) \<and> \<not> is_space (last l) \<and> CHR 0x0A \<notin> set l"

lemma trim_tidy: "tidy s \<Longrightarrow> trim_space s = s"
  by (cases s) (auto simp: tidy_def trim_space_def trim_left_by_def intro: trim_right_by_none)

lemma tidy_word: "w \<noteq> [] \<Longrightarrow> \<forall>c \<in> set w. \<not> is_space c \<Longrightarrow> tidy w"
  by (auto simp: tidy_def is_space_def)

lemma trim_lines:
  assumes "ls \<noteq> []" and "\<forall>l \<in> set ls. tidy l"
  shows "trim_space (concat (map (\<lambda>l. l @ newline) ls)) = join newline ls"
proof -
  have ends: "join newline ls \<noteq> [] \<and> \<not> is_space (hd (join newline ls)) \<and> \<not> is_space (last (join newline ls))"
    using assms
  proof (induction ls)
    case (Cons l ls)
    then show ?case by (cases "ls = []") (auto simp: join_Cons_if hd_append tidy_def)
  qed simp
  have "concat (map (\<lambda>l. l @ newline) ls) = join newline ls @ newline"
    using concat_join [OF assms(1), of "\<lambda>l. l" newline] by simp
  with ends show ?thesis by (simp add: trim_space_ends)
qed

lemma printed_lines:
  assumes "ls \<noteq> []" and "\<forall>l \<in> set ls. tidy l"
  shows "split_on CHR 0x0A (trim_space (concat (map (\<lambda>l. l @ newline) ls))) = ls"
  using split_join [OF assms(1), of "CHR 0x0A"] trim_lines [OF assms] assms(2) by (simp add: newline_def tidy_def)

text \<open>The lines that \<^verbatim>\<open>host\<close> prints are read back as the addresses it resolved.\<close>

lemma cut_after_word:
  assumes "m \<noteq> []" and "hd m \<notin> set name"
  shows "cut_after m (name @ m @ s) = Some s"
  using assms(2)
proof (induction name)
  case Nil
  from assms(1) obtain c cs where "m = c # cs" by (cases m) auto
  then show ?case by (simp add: has_prefix_def)
next
  case (Cons c name)
  then have "\<not> has_prefix ((c # name) @ m @ s) m" using assms(1) by (cases m) (auto simp: has_prefix_def)
  with Cons show ?case by simp
qed

definition address_like :: "string \<Rightarrow> bool" where
  "address_like a \<longleftrightarrow> a \<noteq> [] \<and> (\<forall>c \<in> set a. \<not> is_space c)"

lemma host_line_tidy: "address_like a \<Longrightarrow> tidy (host_line dnsTestHostname a)"
  by (auto simp: tidy_def host_line_def dnsTestHostname_def address_like_def is_space_def)

lemma scan_hosts_lines:
  "\<forall>a \<in> set addrs. address_like a \<and> parseIP a \<Longrightarrow>
     scan_hosts parseIP (map (host_line dnsTestHostname) addrs) = ([], addrs)"
proof (induction addrs)
  case (Cons a as)
  have t: "tidy (host_line dnsTestHostname a)" using host_line_tidy Cons.prems by simp
  then have "host_line dnsTestHostname a \<noteq> []" by (simp add: tidy_def)
  moreover have "cut_after '' has address '' (host_line dnsTestHostname a) = Some a"
    unfolding host_line_def by (rule cut_after_word) (simp_all add: dnsTestHostname_def)
  ultimately show ?case using Cons trim_tidy [OF t] by (simp add: Let_def)
qed simp

lemma host_output_read:
  assumes "args = [''host'', dnsTestHostname]" and "k_lookup_host k w dnsTestHostname = Inr addrs"
    and "stdout p = []" and "room p = None"
    and "\<forall>a \<in> set addrs. address_like a \<and> parseIP a"
  shows "scan_hosts parseIP (host_lines (stdout (proc_of (cmdHost k args w p)))) = ([], addrs)"
proof -
  let ?out = "concat (map (\<lambda>a. host_line dnsTestHostname a @ newline) addrs)"
  have "cmdHost k args w p = (w, p\<lparr>stdout := stdout p @ concat (map (\<lambda>a. host_line (args ! 1) a @ newline) addrs)\<rparr>, Exit 0)"
    using assms(1,2) by (intro cmdHost_output [OF assms(4)]) simp_all
  then have out: "stdout (proc_of (cmdHost k args w p)) = ?out"
    using assms(1,3) by (simp add: proc_of_def)
  show ?thesis
  proof (cases "addrs = []")
    case True
    then show ?thesis unfolding out by (simp add: host_lines_def trim_space_def trim_left_by_def)
  next
    case False
    have "split_on CHR 0x0A (trim_space (concat (map (\<lambda>l. l @ newline) (map (host_line dnsTestHostname) addrs))))
        = map (host_line dnsTestHostname) addrs"
      by (rule printed_lines) (use False assms(5) host_line_tidy in auto)
    then have "host_lines ?out = map (host_line dnsTestHostname) addrs" by (simp add: host_lines_def comp_def)
    then show ?thesis unfolding out using scan_hosts_lines assms(5) by simp
  qed
qed

section \<open>Reading the port nc reports\<close>

definition listeningNotice :: string where
  "listeningNotice = ''Listening on ''"

definition listening_line :: "string \<Rightarrow> string option" where
  "listening_line l =
     (let line = trim_space l in
      if has_prefix line listeningNotice \<and> 2 \<le> length (str_fields line) then Some (last (str_fields line)) else None)"

fun first_listening :: "string list \<Rightarrow> string option" where
  "first_listening [] = None"
| "first_listening (l # ls) = (case listening_line l of Some port \<Rightarrow> Some port | None \<Rightarrow> first_listening ls)"

text \<open>Only what comes before the last newline is looked at.\<close>

definition complete_part :: "bytes \<Rightarrow> bytes option" where
  "complete_part out =
     (if CHR 0x0A \<in> set out then Some (rev (tl (dropWhile (\<lambda>c. c \<noteq> CHR 0x0A) (rev out)))) else None)"

definition listening_port :: "bytes \<Rightarrow> string option" where
  "listening_port out =
     (case complete_part out of None \<Rightarrow> None | Some text1 \<Rightarrow> first_listening (split_on CHR 0x0A text1))"

definition waitForListeningPort :: "'s netlab \<Rightarrow> string \<Rightarrow> ('s, string) test" where
  "waitForListeningPort nl errPath =
     poll_until ''timed out waiting for the listening notice of nc; stderr so far: '' listening_port
       (lb_readings (nl_lab nl) errPath)"

text \<open>
  However much of the output has arrived when the buffer is read, the port is either not seen
  yet or seen as a whole.
\<close>

lemma fields_last:
  assumes "p \<noteq> []" and "\<forall>c \<in> set p. \<not> is_space c"
  shows "fields_acc w (x @ CHR '' '' # p) \<noteq> [] \<and> last (fields_acc w (x @ CHR '' '' # p)) = p"
proof (induction x arbitrary: w)
  case Nil
  have "fields_acc [] p = [p]" using fields_acc_word [of p "[]" "[]"] assms by simp
  then show ?case by (simp add: is_space_def)
next
  case (Cons c x)
  then show ?case by simp
qed

lemma notice_line_read:
  assumes "port \<noteq> []" and "\<forall>c \<in> set port. \<not> is_space c" and "CHR 0x0A \<notin> set host"
  shows "listening_line (listeningNotice @ host @ '' '' @ port) = Some port"
proof -
  let ?l = "listeningNotice @ host @ '' '' @ port"
  have "\<not> is_space (last port)" using assms by auto
  moreover have l: "hd ?l = CHR ''L''" "?l \<noteq> []" "last ?l = last port" using assms(1) by (simp_all add: listeningNotice_def)
  moreover have "\<not> is_space (hd ?l)" unfolding l(1) by (simp add: is_space_def)
  moreover have "CHR 0x0A \<notin> set ?l" using assms(2,3) by (auto simp: listeningNotice_def is_space_def)
  ultimately have "tidy ?l" unfolding tidy_def by metis
  then have t: "trim_space ?l = ?l" by (rule trim_tidy)
  have "str_fields ?l = ''Listening'' # fields_acc [] (''on '' @ host @ '' '' @ port)"
    by (simp add: str_fields_def listeningNotice_def is_space_def)
  moreover have "fields_acc [] ((''on '' @ host) @ CHR '' '' # port) \<noteq> []
      \<and> last (fields_acc [] ((''on '' @ host) @ CHR '' '' # port)) = port"
    by (rule fields_last [OF assms(1,2)])
  ultimately have "2 \<le> length (str_fields ?l)" "last (str_fields ?l) = port"
    by (simp_all add: Suc_le_eq)
  moreover have "has_prefix ?l listeningNotice" by simp
  ultimately show ?thesis unfolding listening_line_def Let_def t by simp
qed

lemma complete_part_snoc: "CHR 0x0A \<notin> set b \<Longrightarrow> complete_part (a @ CHR 0x0A # b) = Some a"
  by (simp add: complete_part_def)

lemma complete_part_starts:
  assumes "CHR 0x0A \<in> set r"
  shows "\<exists>a. complete_part r = Some a \<and> (\<exists>b. r = a @ CHR 0x0A # b)"
proof -
  from split_list_last [OF assms] obtain a b where "r = a @ CHR 0x0A # b" "CHR 0x0A \<notin> set b" by blast
  then show ?thesis using complete_part_snoc by blast
qed

lemma listening_port_first:
  assumes "CHR 0x0A \<notin> set line" and "listening_line line = Some port"
  shows "listening_port (line @ newline @ r) = Some port"
proof (cases "CHR 0x0A \<in> set r")
  case True
  from complete_part_starts [OF this] obtain a b where ab: "r = a @ CHR 0x0A # b" "complete_part r = Some a" by blast
  from split_list_last [OF True] obtain a' b' where r: "r = a' @ CHR 0x0A # b'" "CHR 0x0A \<notin> set b'" by blast
  then have "complete_part ((line @ newline @ a') @ CHR 0x0A # b') = Some (line @ newline @ a')"
    by (intro complete_part_snoc)
  moreover have "split_on CHR 0x0A (line @ newline @ a') = line # split_on CHR 0x0A a'"
    using assms(1) by (simp add: newline_def split_on_append)
  ultimately show ?thesis using r(1) assms(2) by (simp add: listening_port_def)
next
  case False
  then have "complete_part (line @ newline @ r) = Some line" by (simp add: newline_def complete_part_snoc)
  then show ?thesis using assms by (simp add: listening_port_def split_on_no_sep)
qed

text \<open>
  C26. Reading the announcement of a listening nc from any prefix of its output gives no
  port or the port it announced, never a part of it, and the whole line always gives the
  port.
\<close>

theorem listening_port_partial:
  assumes "split_host_port addr = Inr (host, port)" and "nc_announce True addr p = Inr p1" and "stderr p = []"
    and "CHR 0x0A \<notin> set host" and "port \<noteq> []" and "\<forall>c \<in> set port. \<not> is_space c"
  shows "listening_port (take n (stderr p1 @ later)) \<in> {None, Some port}
    \<and> (length (stderr p1) \<le> n \<longrightarrow> listening_port (take n (stderr p1 @ later)) = Some port)"
proof -
  let ?line = "listeningNotice @ host @ '' '' @ port"
  have e: "stderr p1 = ?line @ newline"
    using assms(1-3) by (auto simp: nc_announce_def eprintln_def eprint_def listeningNotice_def)
  have plain: "CHR 0x0A \<notin> set ?line" using assms(4,6) by (auto simp: listeningNotice_def is_space_def)
  have full: "listening_port (?line @ newline @ r) = Some port" for r
    using listening_port_first [OF plain notice_line_read [OF assms(5,6,4)]] .
  show ?thesis
  proof (cases "length (stderr p1) \<le> n")
    case True
    then have "take n (stderr p1 @ later) = ?line @ newline @ take (n - length (stderr p1)) later"
      unfolding take_append by (simp add: e)
    then have "listening_port (take n (stderr p1 @ later)) = Some port" using full by (simp only:)
    then show ?thesis by blast
  next
    case False
    then have "n \<le> length ?line" by (simp add: e newline_def)
    then have "take n (?line @ newline @ later) = take n ?line" unfolding take_append by simp
    then have "take n (stderr p1 @ later) = take n ?line" by (simp only: e append_assoc)
    moreover have "CHR 0x0A \<notin> set (take n ?line)" using plain by (auto dest: in_set_takeD)
    ultimately have "listening_port (take n (stderr p1 @ later)) = None"
      by (simp add: listening_port_def complete_part_def)
    with False show ?thesis by simp
  qed
qed

section \<open>The tests\<close>

definition containerHostAddr :: "config \<Rightarrow> string" where
  "containerHostAddr cfg = (if provideNetwork cfg then slirpHostAddr else loopback)"

definition networkSpecOpts :: "config \<Rightarrow> spec_opt list" where
  "networkSpecOpts cfg = (if provideNetwork cfg then [withNewNetworkNamespace] else [])"

definition attachIfProvided :: "'s netlab \<Rightarrow> config \<Rightarrow> nat \<Rightarrow> ('s, containerNetwork option) test" where
  "attachIfProvided nl cfg pid =
     (if provideNetwork cfg then andThen (attachContainerNetwork nl pid) (\<lambda>n. ret (Some n)) else ret None)"

definition got_pid :: "resp option \<Rightarrow> nat" where
  "got_pid a = (case a of Some (CreateResp p) \<Rightarrow> p | _ \<Rightarrow> 0)"

text \<open>
  The opening of the tests: \<open>prep\<close> is what is done on the host before the spec is written, and
  its result decides the arguments and options; \<open>fifos\<close> makes the FIFOs.
\<close>

definition open_net ::
    "'s netlab \<Rightarrow> config \<Rightarrow> ('s, 'p) test \<Rightarrow> ('p \<Rightarrow> string list) \<Rightarrow> ('p \<Rightarrow> spec_opt list)
       \<Rightarrow> ('s lab \<Rightarrow> string \<Rightarrow> ('s, string \<times> string \<times> string) test) \<Rightarrow> ('s, up \<times> string \<times> 'p) test" where
  "open_net nl cfg prep args opts fifos = (let lab = nl_lab nl in
     andThen (shimSetup lab cfg) (\<lambda>(shimBin, bundleDir, ms).
     andThen (container_id lab) (\<lambda>cid.
     andThen prep (\<lambda>p.
     andThen (oci_spec lab bundleDir (args p) cfg (opts p)) (\<lambda>u.
     andThen (fifos lab bundleDir) (\<lambda>(inp, out, errp).
     andThen (unique_namespace lab ''net'') (\<lambda>ns.
     andThen (start_shim lab shimBin bundleDir cid ns cfg) (\<lambda>b.
     andThen (connect_shim lab (bp_address b)) (\<lambda>conn.
     ret (\<lparr>up_conn = conn, up_version = bp_version b, up_cid = cid, up_bundle = bundleDir, up_ns = ns,
       up_mounts = ms, up_out = out, up_err = errp\<rparr>, inp, p))))))))))"

definition no_stdin :: "'s lab \<Rightarrow> string \<Rightarrow> ('s, string \<times> string \<times> string) test" where
  "no_stdin lab bundleDir = andThen (io_fifos lab bundleDir) (\<lambda>(out, errp). ret ([], out, errp))"

text \<open>Networking is attached after the create, which makes the namespace, and before the start.\<close>

definition create_attach_start ::
    "'s netlab \<Rightarrow> config \<Rightarrow> up \<Rightarrow> string \<Rightarrow> 's service \<Rightarrow> (containerNetwork option \<Rightarrow> ('s, unit) test) \<Rightarrow> ('s, unit) test" where
  "create_attach_start nl cfg u inp svc forward =
     andThen (newCreateTaskRequestStdin (nl_lab nl) (up_cid u) (up_bundle u) inp (up_out u) (up_err u) (up_mounts u)) (\<lambda>r.
     andThen (rpc ''create failed: '' svc r) (\<lambda>a.
     andThen (attachIfProvided nl cfg (got_pid a)) (\<lambda>n.
     andThen (forward n) (\<lambda>x.
     andThen (rpc ''start failed: '' svc (Start (up_cid u) [])) (\<lambda>a. ret ())))))"

text \<open>The exit status is looked at once the output is complete; a reader that never ends hangs the test.\<close>

definition wait_output :: "'s netlab \<Rightarrow> up \<Rightarrow> 's service \<Rightarrow> ('s, bytes) test" where
  "wait_output nl u svc =
     andThen (rpc ''wait failed: '' svc (Wait (up_cid u) [])) (\<lambda>w.
     andThen (await_drained (nl_lab nl) (up_out u) ''stdout never ended'') (\<lambda>out.
     andThen (exit_status w) (\<lambda>st.
     andThen (demand (''container exit status: got '' @ dec st @ '', want 0; stdout: '' @ quote out) (st = 0)) (\<lambda>x.
     ret out))))"

definition end_task :: "up \<Rightarrow> 's service \<Rightarrow> ('s, unit) test" where
  "end_task u svc = inOrder [rpc_drop svc (Delete (up_cid u) []), shutdownTask svc (up_cid u)]"

definition close_stdin :: "'s netlab \<Rightarrow> up \<Rightarrow> 's service \<Rightarrow> nat \<Rightarrow> ('s, unit) test" where
  "close_stdin nl u svc w =
     andThen (act (\<lambda>s. ((), lb_closeFile (nl_lab nl) w s))) (\<lambda>x.
     andThen (rpc ''close stdin failed: '' svc (CloseIO (up_cid u) [] True)) (\<lambda>a. ret ()))"

text \<open>A listener of the host, closed at the end of the test, and its port.\<close>

definition host_listener :: "'s netlab \<Rightarrow> string \<Rightarrow> ('s, nat \<times> string) test" where
  "host_listener nl proto =
     andThen (must (''host '' @ proto @ '' listen: '') (nl_listen nl proto (loopback @ '':0''))) (\<lambda>(ln, addr).
     andThen (on_cleanup (\<lambda>s. ([], nl_close nl ln s))) (\<lambda>u.
     andThen (must ''split addr: '' (\<lambda>s. (split_host_port addr, s))) (\<lambda>(h, port). ret (ln, port))))"

text \<open>
  The two outbound tests differ in the protocol, the arguments of \<^verbatim>\<open>nc\<close>, what is written to
  its input, and the peer.
\<close>

definition outbound ::
    "'s netlab \<Rightarrow> config \<Rightarrow> string \<Rightarrow> string list \<Rightarrow> string \<Rightarrow> bytes \<Rightarrow> (nat \<Rightarrow> 's \<Rightarrow> err option \<times> 's) \<Rightarrow> ('s, unit) test" where
  "outbound nl cfg proto flags token payload peer =
     andThen (open_net nl cfg (host_listener nl proto) (\<lambda>p. [''/bin/nc''] @ flags @ [containerHostAddr cfg, snd p])
       (\<lambda>p. networkSpecOpts cfg) (stdio_fifos)) (\<lambda>(u, inp, ln, port).
     with_client (nl_lab nl) u (\<lambda>svc.
     andThen (drain_both (nl_lab nl) u) (\<lambda>x.
     andThen (must ''open stdin fifo: '' (lb_openWriter (nl_lab nl) inp)) (\<lambda>w.
     andThen (create_attach_start nl cfg u inp svc (\<lambda>n. ret ())) (\<lambda>x.
     andThen (must_do ''write token to stdin: '' (lb_write (nl_lab nl) w payload)) (\<lambda>x.
     andThen (close_stdin nl u svc w) (\<lambda>x.
     andThen (wait_output nl u svc) (\<lambda>out.
     andThen (expect (''container stdout: want '' @ quote token) (str_contains out token)) (\<lambda>x.
     andThen (peer_result nl ''host peer: '' (peer ln)) (\<lambda>x.
     end_task u svc))))))))))"

definition testOutboundTCP :: "'s netlab \<Rightarrow> config \<Rightarrow> ('s, unit) test" where
  "testOutboundTCP nl cfg = (let token = ''network-suite-tcp-ok'' in
     outbound nl cfg ''tcp'' [] token (token @ newline) (\<lambda>ln. tcp_peer nl ln token))"

definition testOutboundUDP :: "'s netlab \<Rightarrow> config \<Rightarrow> ('s, unit) test" where
  "testOutboundUDP nl cfg = (let token = ''network-suite-udp-ok'' in
     outbound nl cfg ''udp'' [''-u''] token token (\<lambda>sock. udp_peer nl sock token))"

definition resolv_conf :: "'s netlab \<Rightarrow> config \<Rightarrow> ('s, spec_opt list) test" where
  "resolv_conf nl cfg =
     (if provideNetwork cfg then
        andThen (act (h_tempdir (lb_host (nl_lab nl)))) (\<lambda>tmp. let p = path_join [tmp, ''resolv.conf''] in
        andThen (must_do ''write resolv.conf: '' (h_do (lb_host (nl_lab nl))
          (WriteFile p 420 (''nameserver '' @ slirpDNSAddr @ newline)))) (\<lambda>u.
        ret (networkSpecOpts cfg @ [withExtraMounts
          [\<lparr>sm_destination = ''/etc/resolv.conf'', sm_type = ''bind'', sm_source = p, sm_options = [''rbind'']\<rparr>]])))
      else ret (networkSpecOpts cfg))"

definition testDNSResolve :: "'s netlab \<Rightarrow> config \<Rightarrow> ('s, unit) test" where
  "testDNSResolve nl cfg =
     andThen (open_net nl cfg (resolv_conf nl cfg) (\<lambda>p. [''/bin/host'', dnsTestHostname]) (\<lambda>p. p) no_stdin) (\<lambda>(u, inp, p).
     with_client (nl_lab nl) u (\<lambda>svc.
     andThen (drain_both (nl_lab nl) u) (\<lambda>x.
     andThen (create_attach_start nl cfg u [] svc (\<lambda>n. ret ())) (\<lambda>x.
     andThen (wait_output nl u svc) (\<lambda>out.
     andThen (check_hosts (nl_parseIP nl) out) (\<lambda>x.
     end_task u svc))))))"

definition testInboundTCPListen :: "'s netlab \<Rightarrow> config \<Rightarrow> ('s, unit) test" where
  "testInboundTCPListen nl cfg = (let lab = nl_lab nl; token = ''network-suite-inbound-ok'' in
     andThen (open_net nl cfg (pickHostPort nl) (\<lambda>port. [''/bin/nc'', ''-v'', ''-l'', dec port])
       (\<lambda>p. networkSpecOpts cfg) stdio_fifos) (\<lambda>(u, inp, port).
     with_client lab u (\<lambda>svc.
     andThen (drain_both lab u) (\<lambda>x.
     andThen (create_attach_start nl cfg u inp svc (\<lambda>n. case n of None \<Rightarrow> ret ()
       | Some cn \<Rightarrow> AddInboundForward nl cn (int port) (int port))) (\<lambda>x.
     andThen (waitForListeningPort nl (up_err u)) (\<lambda>boundPort.
     andThen (demand (''container reported port '' @ quote boundPort @ '', want '' @ quote (dec port)) (boundPort = dec port)) (\<lambda>x.
     andThen (must ''host could not connect to container listener: ''
       (nl_dial nl ''tcp'' (join_host_port loopback boundPort))) (\<lambda>conn.
     andThen (must_do ''host write to container: '' (nl_write nl conn (token @ newline))) (\<lambda>x.
     andThen (poll_until (''container did not report receiving '' @ quote token @ '' within 10s; stdout so far: '')
       (containing token) (lb_readings lab (up_out u))) (\<lambda>out.
     andThen (act (\<lambda>s. ((), nl_close nl conn s))) (\<lambda>x.
     andThen (must ''open stdin fifo: '' (lb_openWriter lab inp)) (\<lambda>w.
     andThen (close_stdin nl u svc w) (\<lambda>x.
     andThen (wait_output nl u svc) (\<lambda>out.
     end_task u svc))))))))))))))"

definition testLoopbackWithinContainer :: "'s netlab \<Rightarrow> config \<Rightarrow> ('s, unit) test" where
  "testLoopbackWithinContainer nl cfg = (let token = ''network-suite-loopback-ok'' in
     andThen (open_net nl cfg (ret ()) (\<lambda>p. [''/bin/looptest'', token]) (\<lambda>p. networkSpecOpts cfg) no_stdin) (\<lambda>(u, inp, p).
     with_client (nl_lab nl) u (\<lambda>svc.
     andThen (drain_both (nl_lab nl) u) (\<lambda>x.
     andThen (create_attach_start nl cfg u [] svc (\<lambda>n. ret ())) (\<lambda>x.
     andThen (wait_output nl u svc) (\<lambda>out.
     andThen (demand (''loopback echo not found in stdout: want '' @ quote token) (str_contains out token)) (\<lambda>x.
     end_task u svc)))))))"

definition NetworkSuite :: "'s netlab \<Rightarrow> (string \<times> ('s lab \<Rightarrow> config \<Rightarrow> ('s, unit) test)) list" where
  "NetworkSuite nl = map (\<lambda>(name, test). (name, \<lambda>lab cfg. test (nl\<lparr>nl_lab := lab\<rparr>) cfg))
     [(''OutboundTCP'', testOutboundTCP), (''OutboundUDP'', testOutboundUDP), (''DNSResolve'', testDNSResolve),
      (''InboundTCPListen'', testInboundTCPListen), (''LoopbackWithinContainer'', testLoopbackWithinContainer)]"

section \<open>What a passing test has seen\<close>

lemma passes_create_attach_start:
  "passes (create_attach_start nl cfg u inp svc forward) s x s' \<Longrightarrow>
     \<exists>n t t1 b t2. passes (forward n) t () t1 \<and> svc (Start (up_cid u) []) t1 = ((b, None), s')
       \<and> (provideNetwork cfg \<longrightarrow> n \<noteq> None)"
  by (auto simp: create_attach_start_def attachIfProvided_def passes_simps split: if_splits)

lemma passes_wait_output [passes_simps]:
  "passes (wait_output nl u svc) s out s' \<longleftrightarrow>
     (\<exists>at t. svc (Wait (up_cid u) []) s = ((Some (WaitResp 0 at), None), t)
        \<and> lb_drained (nl_lab nl) (up_out u) t = (Some out, s'))"
  by (auto simp: wait_output_def passes_simps)

text \<open>
  An outbound test passes only if the program in the container ended with status zero, its
  whole output holds the token, and the peer on the host received the token.
\<close>

lemma outbound_seen:
  assumes "passes (outbound nl cfg proto flags token payload peer) s x s'"
  shows "\<exists>(u :: up) ln t1 t2 out t3 t4 at. replied (nl_lab nl) u (Wait (up_cid u) []) (WaitResp 0 at)
    \<and> lb_drained (nl_lab nl) (up_out u) t1 = (Some out, t2) \<and> str_contains out token
    \<and> nl_inTime nl t3 \<and> peer ln t3 = (None, t4)"
  using assms unfolding outbound_def
  by (simp only: passes_simps split_paired_Ex prod.case) (blast intro: repliedI)

lemma testOutboundTCP_contract:
  assumes "passes (testOutboundTCP nl cfg) s x s'"
  shows "\<exists>(u :: up) at t out t' ln conn s1 s2 data re s3 s4.
    replied (nl_lab nl) u (Wait (up_cid u) []) (WaitResp 0 at)
    \<and> lb_drained (nl_lab nl) (up_out u) t = (Some out, t') \<and> str_contains out ''network-suite-tcp-ok''
    \<and> nl_accept nl ln s1 = (Inr conn, s2) \<and> nl_read nl conn 256 s2 = ((data, re), s3)
    \<and> trim_space data = ''network-suite-tcp-ok'' \<and> nl_write nl conn (''network-suite-tcp-ok'' @ newline) s3 = (None, s4)"
proof -
  from outbound_seen [OF assms [unfolded testOutboundTCP_def Let_def]]
  obtain u :: up and ln t1 t2 out t3 t4 at where o: "replied (nl_lab nl) u (Wait (up_cid u) []) (WaitResp 0 at)"
    "lb_drained (nl_lab nl) (up_out u) t1 = (Some out, t2)" "str_contains out ''network-suite-tcp-ok''"
    and p: "tcp_peer nl ln ''network-suite-tcp-ok'' t3 = (None, t4)" by blast
  from tcp_peer_ok [OF p] o show ?thesis by blast
qed

lemma testOutboundUDP_contract:
  assumes "passes (testOutboundUDP nl cfg) s x s'"
  shows "\<exists>(u :: up) at t out t' sock data addr s1 s2 s3.
    replied (nl_lab nl) u (Wait (up_cid u) []) (WaitResp 0 at)
    \<and> lb_drained (nl_lab nl) (up_out u) t = (Some out, t') \<and> str_contains out ''network-suite-udp-ok''
    \<and> nl_readFrom nl sock 256 s1 = (Inr (data, addr), s2)
    \<and> trim_space data = ''network-suite-udp-ok'' \<and> nl_writeTo nl sock ''network-suite-udp-ok'' addr s2 = (None, s3)"
proof -
  from outbound_seen [OF assms [unfolded testOutboundUDP_def Let_def]]
  obtain u :: up and sock t1 t2 out t3 t4 at where o: "replied (nl_lab nl) u (Wait (up_cid u) []) (WaitResp 0 at)"
    "lb_drained (nl_lab nl) (up_out u) t1 = (Some out, t2)" "str_contains out ''network-suite-udp-ok''"
    and p: "udp_peer nl sock ''network-suite-udp-ok'' t3 = (None, t4)" by blast
  from udp_peer_ok [OF p] o show ?thesis by blast
qed

text \<open>
  The listening test dials the very port it chose, which the container reported as bound, and
  passes only if what it wrote there came out of the container's standard output.
\<close>

lemma testInbound_contract:
  assumes "passes (testInboundTCPListen nl cfg) s x s'"
  shows "\<exists>(u :: up) port t gots t' err1 conn t1 t2 t3 outs t4 out.
    lb_readings (nl_lab nl) (up_err u) t = (gots, t') \<and> err1 \<in> set gots \<and> listening_port err1 = Some (dec port)
    \<and> nl_dial nl ''tcp'' (''127.0.0.1:'' @ dec port) t' = (Inr conn, t1)
    \<and> nl_write nl conn (''network-suite-inbound-ok'' @ newline) t1 = (None, t2)
    \<and> lb_readings (nl_lab nl) (up_out u) t2 = (outs, t4) \<and> out \<in> set outs \<and> str_contains out ''network-suite-inbound-ok''"
proof -
  have a: "join_host_port loopback (dec q) = ''127.0.0.1:'' @ dec q" for q
    by (simp add: join_host_port_def loopback_def colon_def)
  from assms obtain u :: up and port t gots t' conn t1 t2 outs t4 out where
    p: "lb_readings (nl_lab nl) (up_err u) t = (gots, t')" "first_accepted listening_port gots = Some (dec port)"
      "nl_dial nl ''tcp'' (join_host_port loopback (dec port)) t' = (Inr conn, t1)"
      "nl_write nl conn (''network-suite-inbound-ok'' @ newline) t1 = (None, t2)"
      "lb_readings (nl_lab nl) (up_out u) t2 = (outs, t4)"
      "first_accepted (containing ''network-suite-inbound-ok'') outs = Some out"
    unfolding testInboundTCPListen_def Let_def waitForListeningPort_def
    by (simp only: passes_simps split_paired_Ex prod.case) blast
  from first_accepted_Some [OF p(2)] obtain err1 where "err1 \<in> set gots" "listening_port err1 = Some (dec port)" by blast
  moreover from first_accepted_Some [OF p(6)] have "out \<in> set outs" "str_contains out ''network-suite-inbound-ok''" by auto
  ultimately show ?thesis using p unfolding a by blast
qed

text \<open>What looptest prints when it succeeds satisfies the loopback test's check.\<close>

lemma looptest_accepted:
  assumes "ending_of (cmdLooptest k intN args w p) = Exit 0" and "room p = None"
  shows "str_contains (stdout (proc_of (cmdLooptest k intN args w p))) (args ! 1)"
  using assms cmdLooptest_ok [OF assms(1)] by (simp add: str_contains_append_left str_contains_append_right)

end
