(* ===== verification/Sandbox_Members.thy ===== *)
theory Sandbox_Members
  imports Sandbox_Suite Network_Suite
begin

text \<open>
  The workload contracts of member containers (\<^verbatim>\<open>sandbox_suite_member.go\<close> and the Linux files
  beside it): exec, shared sockets, volumes, shared PID, IPC, UTS and network namespaces,
  \<^verbatim>\<open>/dev/shm\<close>, and isolation of an out-of-memory kill. The theorems connect the checks with the
  programs of testbin that the members run.
\<close>

section \<open>Steps of the tests\<close>

abbreviation member :: "'s podlab \<Rightarrow> 's sandbox \<Rightarrow> string list \<Rightarrow> (sandboxCtrSpec \<Rightarrow> sandboxCtrSpec) list \<Rightarrow> ('s \<times> senv, string) test" where
  "member pl \<equiv> createContainerInSandbox (pd_sand pl)"

text \<open>The exit status of a member: an error of the wait is fatal, and here so is another status.\<close>

definition ends_zero :: "string \<Rightarrow> 's sandbox \<Rightarrow> string \<Rightarrow> ('s \<times> senv, unit) test" where
  "ends_zero who sb cid =
     andThen (mcall (''Task.Wait '' @ who @ '': '') sb (Wait cid [])) (\<lambda>w.
     andThen (demand (who @ '' container exit status: got '' @ dec (got_exit w) @ '', want 0'') (got_exit w = 0)) (\<lambda>u.
     try_call sb (Delete cid [])))"

definition exec_in :: "'s podlab \<Rightarrow> 's sandbox \<Rightarrow> string \<Rightarrow> string list \<Rightarrow> ('s \<times> senv, bytes \<times> nat) test" where
  "exec_in pl sb cid args = inner (execInSandboxContainer (pd_sand pl) sb cid args)"

definition output_of :: "'s podlab \<Rightarrow> string \<Rightarrow> string \<Rightarrow> ('s \<times> senv, bytes) test" where
  "output_of pl cid want = readContainerOutput (pd_sand pl) cid want"

lemma passes_ends_zero [passes_simps]:
  "passes (ends_zero who sb cid) se u se' \<longleftrightarrow>
     (\<exists>w t. sb_tc sb (Wait cid []) (fst se) = ((w, None), t) \<and> got_exit w = 0
        \<and> se' = (snd (sb_tc sb (Delete cid []) t), snd se))"
  by (cases se) (auto simp: ends_zero_def passes_simps)

lemma passes_exec_in [passes_simps]:
  "passes (exec_in pl sb cid args) se r se' \<longleftrightarrow>
     passes (execInSandboxContainer (pd_sand pl) sb cid args) (fst se) r (fst se') \<and> snd se' = snd se"
  by (simp add: exec_in_def passes_simps)

lemma passes_output_of [passes_simps]:
  "passes (output_of pl cid want) se out se' \<longleftrightarrow>
     (\<exists>path gots. stdoutBufs (snd se) cid = Some path \<and> lb_readings (pd_lab pl) path (fst se) = (gots, fst se')
        \<and> first_accepted (containing want) gots = Some out \<and> snd se' = snd se)"
  by (cases se) (auto simp: output_of_def readContainerOutput_def captured_def passes_simps split: option.splits)

section \<open>Status, host network, exec\<close>

definition created_of :: "sresp option \<Rightarrow> stamp" where
  "created_of a = (case a of Some (SandboxState p st info t) \<Rightarrow> t | _ \<Rightarrow> None)"

definition info_value :: "(string \<times> string) list \<Rightarrow> string \<Rightarrow> string" where
  "info_value info k = (case map_of info k of None \<Rightarrow> [] | Some v \<Rightarrow> v)"

definition testStatusReportsPidAndCreatedAt :: "'s podlab \<Rightarrow> config \<Rightarrow> ('s \<times> senv, unit) test" where
  "testStatusReportsPidAndCreatedAt pl cfg = with_sandbox pl cfg [] (\<lambda>sb.
     andThen (inner (sandboxStatusInfo sb)) (\<lambda>(st, info).
     andThen (ask ''SandboxStatus: '' sb (SandboxStatus (sb_id sb) False)) (\<lambda>a.
     inOrder
       [expect ''SandboxStatus.Pid must be non-zero after StartSandbox'' (pid_of a \<noteq> 0),
        expect ''SandboxStatus.CreatedAt must be non-zero after StartSandbox'' (stamp_set (created_of a)),
        expect ''SandboxStatus.Info[pid] must be a non-zero pid string'' (info_value info ''pid'' \<notin> {[], ''0''}),
        expect ''SandboxStatus.Info[state] must not be empty'' (info_value info ''state'' \<noteq> [])])))"

definition testHostNetworkNoNetworkSandbox :: "'s podlab \<Rightarrow> config \<Rightarrow> ('s \<times> senv, unit) test" where
  "testHostNetworkNoNetworkSandbox pl cfg = with_sandbox pl cfg [] (\<lambda>sb.
     andThen (member pl sb [''/bin/echo'', ''host-network-ok''] []) (\<lambda>cid.
     andThen (output_of pl cid ''host-network-ok'') (\<lambda>out.
     andThen (mcall ''Task.Wait: '' sb (Wait cid [])) (\<lambda>w.
     inOrder [expect (''container exit status: got '' @ dec (got_exit w) @ '', want 0'') (got_exit w = 0),
       try_call sb (Delete cid [])]))))"

definition testMemberContainerExec :: "'s podlab \<Rightarrow> config \<Rightarrow> ('s \<times> senv, unit) test" where
  "testMemberContainerExec pl cfg = (let token = ''exec-probe-ok'' in with_sandbox pl cfg [] (\<lambda>sb.
     andThen (member pl sb [''/bin/forever'', ''exec-target''] []) (\<lambda>observer.
     andThen (exec_in pl sb observer [''/bin/echo'', token]) (\<lambda>(out, st).
     andThen (inOrder [expect (''exec output: want '' @ quote token) (str_contains out token),
       expect (''exec exit status: got '' @ dec st @ '', want 0'') (st = 0)]) (\<lambda>u.
     andThen (exec_in pl sb observer [''/bin/exit'', ''42'']) (\<lambda>(out, st).
     inOrder [expect (''exec exit-code propagation: got '' @ dec st @ '', want 42'') (st = 42),
       kill_and_reap sb observer]))))))"

section \<open>A socket of the host\<close>

definition makeUnixSockPath :: "'s netlab \<Rightarrow> ('s, string) test" where
  "makeUnixSockPath nl =
     andThen (must ''create host sock path: '' (nl_mktemp nl (unixSafeDir (lb_tmpdir (nl_lab nl))) ''nb-uds-'')) (\<lambda>dir.
     andThen (on_cleanup (\<lambda>s. ([], lb_removeAll (nl_lab nl) dir s))) (\<lambda>u. ret (dir @ ''/shared.sock'')))"

text \<open>The peer accepts one connection and closes it.\<close>

definition accept_and_close :: "'s netlab \<Rightarrow> nat \<Rightarrow> 's \<Rightarrow> err option \<times> 's" where
  "accept_and_close nl ln s =
     (case nl_accept nl ln s of (Inl e, s1) \<Rightarrow> (Some e, s1) | (Inr conn, s1) \<Rightarrow> (None, nl_close nl conn s1))"

definition reach_socket :: "'s podlab \<Rightarrow> 's sandbox \<Rightarrow> string \<Rightarrow> nat \<Rightarrow> nat \<Rightarrow> ('s \<times> senv, unit) test" where
  "reach_socket pl sb cid ln i =
     andThen (exec_in pl sb cid [''/bin/nc'', ''-U'', ''/run/shared.sock'']) (\<lambda>(out, st).
     andThen (expect (''nc exec '' @ dec (Suc i) @ '': exit code '' @ dec st) (st = 0)) (\<lambda>u.
     inner (peer_result (pd_net pl) (''host accept connection '' @ dec (Suc i) @ '': '') (accept_and_close (pd_net pl) ln))))"

definition testCrossContainerViaUDS :: "'s podlab \<Rightarrow> config \<Rightarrow> ('s \<times> senv, unit) test" where
  "testCrossContainerViaUDS pl cfg = with_sandbox pl cfg [] (\<lambda>sb.
     andThen (inner (makeUnixSockPath (pd_net pl))) (\<lambda>path.
     andThen (inner (must ''host unix listen: '' (nl_listen (pd_net pl) ''unix'' path))) (\<lambda>(ln, addr).
     andThen (inner (on_cleanup (\<lambda>s. ([], nl_close (pd_net pl) ln s)))) (\<lambda>u.
     andThen (member pl sb [''/bin/forever'', ''uds-shared-container'']
       [withSandboxCtrExtraMounts [\<lparr>sm_destination = ''/run/shared.sock'', sm_type = ''uds'', sm_source = path, sm_options = []\<rparr>]]) (\<lambda>cid.
     andThen (inOrder (map (reach_socket pl sb cid ln) [0..<2])) (\<lambda>u.
     kill_and_reap sb cid))))))"

text \<open>The name resolution of the network suite, by exec in a member.\<close>

definition testContainerOutboundTCP :: "'s podlab \<Rightarrow> config \<Rightarrow> ('s \<times> senv, unit) test" where
  "testContainerOutboundTCP pl cfg = with_sandbox pl cfg [] (\<lambda>sb.
     andThen (member pl sb [''/bin/forever'', ''outbound-container''] []) (\<lambda>cid.
     andThen (exec_in pl sb cid [''/bin/host'', dnsTestHostname]) (\<lambda>(out, st).
     andThen (demand (''host exec exit status: got '' @ dec st @ '', want 0; output: '' @ quote out) (st = 0)) (\<lambda>u.
     check_hosts (nl_parseIP (pd_net pl)) out))))"

section \<open>Volumes\<close>

definition cat_has :: "'s podlab \<Rightarrow> 's sandbox \<Rightarrow> string \<Rightarrow> string \<Rightarrow> ('s \<times> senv, unit) test" where
  "cat_has pl sb cid start1 =
     andThen (exec_in pl sb cid [''/bin/cat'', ''/data/data.txt'']) (\<lambda>(out, st).
     andThen (demand (''cat host file from container: exit code '' @ dec st @ '', output '' @ quote out) (st = 0)) (\<lambda>u.
     expect (''container read of host file: got '' @ quote out) (has_prefix out start1)))"

definition write_host :: "'s podlab \<Rightarrow> string \<Rightarrow> bytes \<Rightarrow> ('s \<times> senv, unit) test" where
  "write_host pl path data = inner (must_do ''write host file: '' (h_do (lb_host (pd_lab pl)) (WriteFile path 420 data)))"

definition testMemberContainerHostVolume :: "'s podlab \<Rightarrow> config \<Rightarrow> ('s \<times> senv, unit) test" where
  "testMemberContainerHostVolume pl cfg = with_sandbox pl cfg [] (\<lambda>sb.
     andThen (inner (act (h_tempdir (lb_host (pd_lab pl))))) (\<lambda>hostDir.
     let hostFile = path_join [hostDir, ''data.txt''] in
     andThen (write_host pl hostFile (''AAA-initial'' @ newline)) (\<lambda>u.
     andThen (member pl sb [''/bin/forever'', ''volume-container'']
       [withSandboxCtrExtraMounts [\<lparr>sm_destination = ''/data'', sm_type = ''bind'', sm_source = hostDir, sm_options = [''rbind'', ''rw'']\<rparr>]]) (\<lambda>cid.
     andThen (cat_has pl sb cid ''AAA'') (\<lambda>u.
     andThen (write_host pl hostFile (''BBB-updated'' @ newline)) (\<lambda>u.
     cat_has pl sb cid ''BBB''))))))"

section \<open>Shared namespaces\<close>

definition sharing :: "nstype \<Rightarrow> string \<Rightarrow> sandboxCtrSpec \<Rightarrow> sandboxCtrSpec" where
  "sharing t name = withSandboxCtrNamespace t (''/proc/1/ns/'' @ name)"

definition shares_pid :: "sandboxCtrSpec \<Rightarrow> sandboxCtrSpec" where
  "shares_pid = sharing PIDNamespace ''pid''"

definition shares_ipc :: "sandboxCtrSpec \<Rightarrow> sandboxCtrSpec" where
  "shares_ipc = sharing IPCNamespace ''ipc''"

definition shares_uts :: "sandboxCtrSpec \<Rightarrow> sandboxCtrSpec" where
  "shares_uts = sharing UTSNamespace ''uts''"

text \<open>A member whose output must hold a text, twice checked as the code has it.\<close>

definition must_print :: "'s podlab \<Rightarrow> string \<Rightarrow> string \<Rightarrow> ('s \<times> senv, unit) test" where
  "must_print pl cid marker =
     andThen (output_of pl cid marker) (\<lambda>out.
     demand (''output did not contain '' @ quote marker @ '': '' @ quote out) (str_contains out marker))"

definition kill_hard :: "string \<Rightarrow> 's sandbox \<Rightarrow> string \<Rightarrow> ('s \<times> senv, unit) test" where
  "kill_hard who sb cid =
     andThen (mcall (''Task.Kill '' @ who @ '': '') sb (Kill cid [] 9 True)) (\<lambda>a. reap sb cid)"

definition testMemberContainersSharePID :: "'s podlab \<Rightarrow> config \<Rightarrow> ('s \<times> senv, unit) test" where
  "testMemberContainersSharePID pl cfg = (let marker = ''pid-share-marker-forever'' in with_sandbox pl cfg [] (\<lambda>sb.
     andThen (member pl sb [''/bin/forever'', marker] [shares_pid]) (\<lambda>sentinel.
     andThen (member pl sb [''/bin/pidscan''] [shares_pid]) (\<lambda>scanner.
     inOrder [must_print pl scanner marker, ends_zero ''scanner'' sb scanner, kill_hard ''sentinel'' sb sentinel]))))"

text \<open>The processes of a member, encoded one entry after another: none exactly when empty.\<close>

definition got_processes :: "resp option \<Rightarrow> bytes" where
  "got_processes a = (case a of Some (PidsResp ps) \<Rightarrow> ps | _ \<Rightarrow> [])"

definition testMemberContainersSharePIDKillScopedToOwnContainer :: "'s podlab \<Rightarrow> config \<Rightarrow> ('s \<times> senv, unit) test" where
  "testMemberContainersSharePIDKillScopedToOwnContainer pl cfg = with_sandbox pl cfg [] (\<lambda>sb.
     andThen (member pl sb [''/bin/forever'', ''pid-kill-scope-victim''] [shares_pid]) (\<lambda>victim.
     andThen (member pl sb [''/bin/forever'', ''pid-kill-scope-peer''] [shares_pid]) (\<lambda>peer.
     andThen (member pl sb [''/bin/pidscan''] [shares_pid]) (\<lambda>scanner.
     andThen (inOrder [must_print pl scanner ''pid-kill-scope-peer'', reap sb scanner, kill_hard ''victim'' sb victim]) (\<lambda>u.
     andThen (mcall ''Task.Pids peer: '' sb (Pids peer)) (\<lambda>a.
     andThen (demand ''peer container reports no processes after killing the victim'' (got_processes a \<noteq> [])) (\<lambda>u.
     kill_hard ''peer'' sb peer)))))))"

text \<open>A writer that must end well, then a reader that must print what was written.\<close>

definition write_then_read ::
    "'s podlab \<Rightarrow> string list \<Rightarrow> string list \<Rightarrow> (sandboxCtrSpec \<Rightarrow> sandboxCtrSpec) list \<Rightarrow> string \<Rightarrow> 's sandbox \<Rightarrow> ('s \<times> senv, unit) test" where
  "write_then_read pl writer reader opts marker sb =
     andThen (member pl sb writer opts) (\<lambda>w.
     andThen (ends_zero ''writer'' sb w) (\<lambda>u.
     andThen (member pl sb reader opts) (\<lambda>r.
     inOrder [must_print pl r marker, ends_zero ''reader'' sb r])))"

definition testMemberContainersShareIPC :: "'s podlab \<Rightarrow> config \<Rightarrow> ('s \<times> senv, unit) test" where
  "testMemberContainersShareIPC pl cfg = (let shmKey = ''424242''; marker = ''shared-ipcns-ok'' in
     with_sandbox pl cfg [] (write_then_read pl [''/bin/shmwrite'', shmKey, marker] [''/bin/shmread'', shmKey] [shares_ipc] marker))"

definition devShmMount :: spec_mount where
  "devShmMount = \<lparr>sm_destination = ''/dev/shm'', sm_type = ''tmpfs'', sm_source = ''shm'',
     sm_options = [''nosuid'', ''noexec'', ''nodev'', ''mode=1777'', ''size=65536k'']\<rparr>"

definition shmPath :: string where
  "shmPath = ''/dev/shm/testfile''"

definition testMemberContainersShareDevShm :: "'s podlab \<Rightarrow> config \<Rightarrow> ('s \<times> senv, unit) test" where
  "testMemberContainersShareDevShm pl cfg = (let marker = ''shared-devshm-ok'' in
     with_sandbox pl cfg [] (write_then_read pl [''/bin/shmmapwrite'', shmPath, marker] [''/bin/shmmapread'', shmPath]
       [shares_ipc, withSandboxCtrExtraMounts [devShmMount]] marker))"

definition testMemberContainersDevShmNotSharedWithoutIPC :: "'s podlab \<Rightarrow> config \<Rightarrow> ('s \<times> senv, unit) test" where
  "testMemberContainersDevShmNotSharedWithoutIPC pl cfg =
     (let marker = ''should-not-be-visible''; opts = [withSandboxCtrExtraMounts [devShmMount]] in with_sandbox pl cfg [] (\<lambda>sb.
     andThen (member pl sb [''/bin/shmmapwrite'', shmPath, marker] opts) (\<lambda>w.
     andThen (ends_zero ''writer'' sb w) (\<lambda>u.
     andThen (member pl sb [''/bin/shmmapread'', shmPath] opts) (\<lambda>r.
     andThen (output_of pl r ''NOTFOUND'') (\<lambda>out.
     andThen (demand (''reader saw the marker despite neither container sharing IPC: '' @ quote out) (\<not> str_contains out marker)) (\<lambda>u.
     andThen (mcall ''Task.Wait reader: '' sb (Wait r [])) (\<lambda>x.
     andThen (demand ''reader container exit status: got 0, want non-zero'' (got_exit x \<noteq> 0)) (\<lambda>u.
     try_call sb (Delete r []))))))))))"

section \<open>Host names\<close>

definition sys_admin :: "sandboxCtrSpec \<Rightarrow> sandboxCtrSpec" where
  "sys_admin = withSandboxCtrOCIOpts [withCapabilities [''CAP_SYS_ADMIN'']]"

definition requireSandboxHostnameCapability :: "'s podlab \<Rightarrow> 's sandbox \<Rightarrow> ('s \<times> senv, unit) test" where
  "requireSandboxHostnameCapability pl sb =
     andThen (inner (act (randomSuffix (pd_lab pl)))) (\<lambda>sfx.
     andThen (member pl sb [''/bin/hostname'', ''cap-probe-'' @ sfx] [sys_admin]) (\<lambda>cid.
     andThen (mcall ''Task.Wait capability probe: '' sb (Wait cid [])) (\<lambda>w.
     andThen (try_call sb (Delete cid [])) (\<lambda>u.
     if got_exit w \<noteq> 0 then skip ''shim did not grant the requested CAP_SYS_ADMIN to the container'' else ret ()))))"

definition setSandboxHostname ::
    "'s podlab \<Rightarrow> 's sandbox \<Rightarrow> string \<Rightarrow> (sandboxCtrSpec \<Rightarrow> sandboxCtrSpec) list \<Rightarrow> ('s \<times> senv, unit) test" where
  "setSandboxHostname pl sb name opts =
     andThen (member pl sb [''/bin/hostname'', name] (opts @ [sys_admin])) (\<lambda>cid. ends_zero ''hostname setter'' sb cid)"

text \<open>The output is what the buffer holds fifty milliseconds after the exit, complete or not.\<close>

definition readSandboxHostname ::
    "'s podlab \<Rightarrow> 's sandbox \<Rightarrow> (sandboxCtrSpec \<Rightarrow> sandboxCtrSpec) list \<Rightarrow> ('s \<times> senv, string) test" where
  "readSandboxHostname pl sb opts =
     andThen (member pl sb [''/bin/hostname''] opts) (\<lambda>cid.
     andThen (mcall ''Task.Wait hostname reader: '' sb (Wait cid [])) (\<lambda>w.
     andThen (demand (''hostname reader exit status: got '' @ dec (got_exit w) @ '', want 0'') (got_exit w = 0)) (\<lambda>u.
     andThen (containerOutputSnapshot (pd_sand pl) cid) (\<lambda>out.
     andThen (try_call sb (Delete cid [])) (\<lambda>u. ret (trim_space out))))))"

definition testMemberContainersShareUTS :: "'s podlab \<Rightarrow> config \<Rightarrow> ('s \<times> senv, unit) test" where
  "testMemberContainersShareUTS pl cfg = with_sandbox pl cfg [] (\<lambda>sb.
     andThen (requireSandboxHostnameCapability pl sb) (\<lambda>u.
     andThen (inner (act (randomSuffix (pd_lab pl)))) (\<lambda>sfx.
     let name = ''shared-uts-'' @ sfx in
     andThen (setSandboxHostname pl sb name [shares_uts]) (\<lambda>u.
     andThen (readSandboxHostname pl sb [shares_uts]) (\<lambda>got.
     demand (''reader hostname: got '' @ quote got @ '', want '' @ quote name) (got = name))))))"

definition testMemberContainersUTSNotShared :: "'s podlab \<Rightarrow> config \<Rightarrow> ('s \<times> senv, unit) test" where
  "testMemberContainersUTSNotShared pl cfg = with_sandbox pl cfg [] (\<lambda>sb.
     andThen (requireSandboxHostnameCapability pl sb) (\<lambda>u.
     andThen (inner (act (randomSuffix (pd_lab pl)))) (\<lambda>sfx.
     let name = ''should-not-be-visible-'' @ sfx in
     andThen (setSandboxHostname pl sb name [shares_uts]) (\<lambda>u.
     andThen (readSandboxHostname pl sb []) (\<lambda>got.
     demand (''reader saw the hostname of the writer: '' @ quote name) (got \<noteq> name))))))"

section \<open>An out-of-memory kill\<close>

definition sigkillExit :: nat where
  "sigkillExit = 128 + 9"

definition testMemberContainerOOMIsolation :: "'s podlab \<Rightarrow> config \<Rightarrow> ('s \<times> senv, unit) test" where
  "testMemberContainerOOMIsolation pl cfg = with_sandbox pl cfg [] (\<lambda>sb.
     andThen (member pl sb [''/bin/forever'', ''oom-peer''] []) (\<lambda>peer.
     andThen (member pl sb [''/bin/memhog''] [withSandboxCtrOCIOpts [withMemoryLimit (128 * 1024 * 1024)]]) (\<lambda>victim.
     andThen (mcall ''Task.Wait victim: '' sb (Wait victim [])) (\<lambda>w.
     andThen (demand (''victim container exit status: got '' @ dec (got_exit w)) (got_exit w = sigkillExit)) (\<lambda>u.
     andThen (try_call sb (Delete victim [])) (\<lambda>u.
     inOrder [still_running ''State for peer after victim OOM kill: '' sb peer,
       still_ready ''SandboxStatus after OOM kill: '' sb,
       kill_and_reap sb peer]))))))"

text \<open>The same kill for a container without a sandbox (\<^verbatim>\<open>oom_suite.go\<close>).\<close>

definition testOOM :: "'s lab \<Rightarrow> config \<Rightarrow> ('s, unit) test" where
  "testOOM lab cfg =
     andThen (bring_up lab cfg ''oom'' [''/bin/memhog''] [withMemoryLimit (128 * 1024 * 1024)]) (\<lambda>u.
     with_client lab u (\<lambda>svc.
     andThen (start_init lab u svc) (\<lambda>x.
     andThen (rpc ''wait failed: '' svc (Wait (up_cid u) [])) (\<lambda>w.
     andThen (exit_status w) (\<lambda>st.
     andThen (demand (''expected exit status 137 (SIGKILL from OOM killer), got '' @ dec st) (st = sigkillExit)) (\<lambda>x.
     inOrder [rpc_drop svc (Delete (up_cid u) []), shutdownTask svc (up_cid u)]))))))"

definition OOMSuite :: "(string \<times> ('s lab \<Rightarrow> config \<Rightarrow> ('s, unit) test)) list" where
  "OOMSuite = [(''OOM'', testOOM)]"

section \<open>Networks of a sandbox\<close>

definition testNetworkSandboxHeldOpen :: "'s podlab \<Rightarrow> config \<Rightarrow> ('s \<times> senv, unit) test" where
  "testNetworkSandboxHeldOpen pl cfg =
     andThen (inner (createNetworkSandbox (pd_net pl))) (\<lambda>nsPath. with_sandbox pl cfg nsPath (\<lambda>sb.
     andThen (inner (act (\<lambda>s. (networkSandboxIsOpen (pd_net pl) nsPath s, s)))) (\<lambda>held.
     andThen (demand ''network sandbox disappeared while sandbox is running; shim must hold it open'' held) (\<lambda>u.
     andThen (member pl sb [''/bin/echo'', ''netns-ok''] []) (\<lambda>cid.
     andThen (output_of pl cid ''netns-ok'') (\<lambda>out.
     andThen (reap sb cid) (\<lambda>u.
     andThen (ask ''StopSandbox: '' sb (StopSandbox (sb_id sb))) (\<lambda>a.
     await_state pl sb sandboxStateNotReady))))))))"

text \<open>The path in the status is optional.\<close>

definition testNetworkSandboxPathInStatus :: "'s podlab \<Rightarrow> config \<Rightarrow> ('s \<times> senv, unit) test" where
  "testNetworkSandboxPathInStatus pl cfg =
     andThen (inner (createNetworkSandbox (pd_net pl))) (\<lambda>nsPath. with_sandbox pl cfg nsPath (\<lambda>sb.
     andThen (inner (sandboxStatusInfo sb)) (\<lambda>(st, info).
     let reported = info_value info ''networkSandboxPath'' in
     expect (''SandboxStatus.Info[networkSandboxPath]: got '' @ quote reported) (reported \<in> {[], nsPath}))))"

definition testContainerTrafficScopedToNetworkSandbox :: "'s podlab \<Rightarrow> config \<Rightarrow> ('s \<times> senv, unit) test" where
  "testContainerTrafficScopedToNetworkSandbox pl cfg = (let nl = pd_net pl; token = ''netns-scoped-ok'' in
     andThen (inner (createRealNetworkSandbox nl)) (\<lambda>netns.
     andThen (inner (attachVeth nl netns)) (\<lambda>addr.
     andThen (inner (probeUnreachableFromCurrentNamespace nl (addr @ '':9191''))) (\<lambda>u.
     andThen (inner (listenAndEchoOnceInNetns nl (rs_path netns) (addr @ '':9191''))) (\<lambda>ln.
     with_sandbox pl cfg (rs_path netns) (\<lambda>sb.
     andThen (member pl sb [''/bin/nc'', addr, ''9191''] [withSandboxCtrStdin]) (\<lambda>cid.
     andThen (writeContainerStdin (pd_sand pl) sb cid (token @ newline)) (\<lambda>u.
     andThen (output_of pl cid token) (\<lambda>out.
     andThen (ends_zero ''netns'' sb cid) (\<lambda>u.
     inner (peer_result nl ''network-sandbox-scoped endpoint: '' (echo_once nl ln))))))))))))"

definition testInboundToNetnsScopedListener :: "'s podlab \<Rightarrow> config \<Rightarrow> ('s \<times> senv, unit) test" where
  "testInboundToNetnsScopedListener pl cfg = (let nl = pd_net pl in
     andThen (inner (createRealNetworkSandbox nl)) (\<lambda>netns.
     andThen (inner (attachVeth nl netns)) (\<lambda>addr.
     andThen (inner (probeUnreachableFromCurrentNamespace nl (join_host_port addr ''1''))) (\<lambda>u.
     with_sandbox pl cfg (rs_path netns) (\<lambda>sb.
     andThen (member pl sb [''/bin/echosrv'', ''0''] []) (\<lambda>listener.
     andThen (waitForContainerPort (pd_sand pl) listener) (\<lambda>port.
     andThen (inner (peer_result nl ''dial from inside sandbox namespace to container listener: ''
       (dialInNetnsRoundTrip nl (rs_path netns) (join_host_port addr port) ''netns-inbound-ok''))) (\<lambda>u.
     ends_zero ''listener'' sb listener))))))))"

definition testMemberContainersShareNetwork :: "'s podlab \<Rightarrow> config \<Rightarrow> ('s \<times> senv, unit) test" where
  "testMemberContainersShareNetwork pl cfg = (let token = ''shared-netns-ok'' in with_sandbox pl cfg [] (\<lambda>sb.
     andThen (member pl sb [''/bin/echosrv'', ''0''] []) (\<lambda>listener.
     andThen (waitForContainerPort (pd_sand pl) listener) (\<lambda>port.
     andThen (member pl sb [''/bin/nc'', ''127.0.0.1'', port] [withSandboxCtrStdin]) (\<lambda>client.
     andThen (writeContainerStdin (pd_sand pl) sb client token) (\<lambda>u.
     andThen (output_of pl client token) (\<lambda>out.
     inOrder [ends_zero ''client'' sb client, ends_zero ''listener'' sb listener])))))))"

section \<open>The suite\<close>

definition SandboxSuite :: "(string \<times> ('s podlab \<Rightarrow> config \<Rightarrow> ('s \<times> senv, unit) test)) list" where
  "SandboxSuite =
     [(''Lifecycle'', sandboxLifecycle), (''Platform'', testPlatform), (''Ping'', testPing),
      (''SingleContainer'', testSingleContainer), (''MultipleContainers'', testMultipleContainers),
      (''ContainerLifecycleIndependence'', testContainerLifecycleIndependence), (''StatusAfterStop'', testStatusAfterStop),
      (''WaitUnblocksOnStop'', testWaitUnblocksOnStop), (''CreateTwiceRejected'', testCreateTwiceRejected),
      (''StartWithoutCreateRejected'', testStartWithoutCreateRejected), (''ResourceReleaseOnShutdown'', testResourceReleaseOnShutdown),
      (''StatusReportsPidAndCreatedAt'', testStatusReportsPidAndCreatedAt), (''HostNetworkNoNetworkSandbox'', testHostNetworkNoNetworkSandbox),
      (''MemberContainerExec'', testMemberContainerExec), (''CrossContainerViaUDS'', testCrossContainerViaUDS),
      (''NetworkSandboxHeldOpen'', testNetworkSandboxHeldOpen), (''NetworkSandboxPathInStatus'', testNetworkSandboxPathInStatus),
      (''ContainerOutboundTCP'', testContainerOutboundTCP),
      (''ContainerTrafficScopedToNetworkSandbox'', testContainerTrafficScopedToNetworkSandbox),
      (''InboundToNetnsScopedListener'', testInboundToNetnsScopedListener),
      (''MemberContainersShareNetwork'', testMemberContainersShareNetwork),
      (''MemberContainerHostVolume'', testMemberContainerHostVolume), (''MemberContainersSharePID'', testMemberContainersSharePID),
      (''MemberContainersSharePIDKillScopedToOwnContainer'', testMemberContainersSharePIDKillScopedToOwnContainer),
      (''MemberContainersShareIPC'', testMemberContainersShareIPC), (''MemberContainersShareDevShm'', testMemberContainersShareDevShm),
      (''MemberContainersDevShmNotSharedWithoutIPC'', testMemberContainersDevShmNotSharedWithoutIPC),
      (''MemberContainerOOMIsolation'', testMemberContainerOOMIsolation), (''MemberContainersShareUTS'', testMemberContainersShareUTS),
      (''MemberContainersUTSNotShared'', testMemberContainersUTSNotShared)]"

section \<open>The programs and the checks on them\<close>

text \<open>
  In one PID namespace the scanner's output passes the check for the sentinel's marker.
\<close>

lemma sentinel_seen:
  assumes "room p = None" and "k_readdir k w ''/proc'' = Inr entries" and "pid \<in> set entries" and "atoi pid \<noteq> None"
    and "k_readfile k w (path_join [''/proc'', pid, ''cmdline'']) = Inr (proc_cmdline [''/bin/forever'', marker])"
    and "marker \<noteq> []" and "nul \<notin> set marker"
  shows "\<exists>out. containing marker (stdout (proc_of (cmdPidscan k args w p))) = Some out
    \<and> ending_of (cmdPidscan k args w p) = Exit 0"
proof -
  have n: "\<forall>a \<in> set [''/bin/forever'', marker]. nul \<notin> set a" using assms(7) by (simp add: nul_def)
  have "str_contains (stdout (proc_of (cmdPidscan k args w p))) (pid @ '' '' @ join '' '' [''/bin/forever'', marker] @ newline)
      \<and> ending_of (cmdPidscan k args w p) = Exit 0"
    by (rule cmdPidscan_sees [OF assms(1-5) _ _ n]) (use assms(6) in simp_all)
  moreover have "pid @ '' '' @ join '' '' [''/bin/forever'', marker] @ newline = (pid @ '' /bin/forever '') @ marker @ newline"
    by simp
  ultimately have "str_contains (stdout (proc_of (cmdPidscan k args w p))) marker"
    unfolding str_contains_conv by (metis append.assoc)
  then show ?thesis using \<open>_ \<and> ending_of _ = _\<close> by (simp add: containing_def)
qed

text \<open>
  A key written in a shared IPC namespace is read back and accepted; in a namespace without
  it the reader's output is refused, and so is its exit status.
\<close>

definition ipc_marker :: string where
  "ipc_marker = ''shared-ipcns-ok''"

lemma ipc_check_decides:
  assumes "sysv_laws k v" and "room q = None" and "stdout q = []"
    and "cmdShmWrite k [''shmwrite'', ''424242'', ipc_marker] w p = (w1, p1, Exit 0)"
  shows "(cmdShmRead k [''shmread'', ''424242''] w1 q = (w2, q1, Exit 0) \<longrightarrow>
      containing ipc_marker (stdout q1) = Some (ipc_marker @ newline))
    \<and> (seg_text v w3 424242 = None \<longrightarrow>
      containing ipc_marker (stdout (proc_of (cmdShmRead k [''shmread'', ''424242''] w3 q))) = None
      \<and> ending_of (cmdShmRead k [''shmread'', ''424242''] w3 q) = Exit 1)"
proof (intro conjI impI)
  have "atoi (dec 424242) = Some (int 424242)" by (rule atoi_dec) simp
  moreover have "dec 424242 = ''424242''" by (simp add: dec.simps digit_char_def char_of_def bit_0)
  ultimately have key: "atoi ''424242'' = Some 424242" "shared_key 424242" by (simp_all add: shared_key_def)
  have nn: "nul \<notin> set ipc_marker" by (simp add: nul_def ipc_marker_def)
  have t: "seg_text v w1 424242 = Some ipc_marker"
    using cmdShmWrite_stores [OF assms(1) _ _ key(2) assms(4)] nn key(1) by simp
  show "containing ipc_marker (stdout q1) = Some (ipc_marker @ newline)"
    if r: "cmdShmRead k [''shmread'', ''424242''] w1 q = (w2, q1, Exit 0)"
  proof -
    have "q1 = println ipc_marker q" using cmdShmRead_ok [OF assms(1) _ key(2) r] key(1) t by simp
    then show ?thesis using assms(2,3) by (simp add: str_contains_append_right)
  qed
  let ?r = "cmdShmRead k [''shmread'', ''424242''] w3 q"
  have out: "?r = (w3, println ''shmread: NOTFOUND'' q, Exit 1)" if "seg_text v w3 424242 = None"
    using cmdShmRead_missing [OF assms(1) _ _ key(2) that, of "[''shmread'', ''424242'']" q] key(1) by simp
  have "\<not> str_contains (''shmread: NOTFOUND'' @ newline) ipc_marker" by code_simp
  then show "containing ipc_marker (stdout (proc_of ?r)) = None" if "seg_text v w3 424242 = None"
    unfolding out [OF that] using assms(2,3) by (simp add: containing_def)
  show "ending_of ?r = Exit 1" if "seg_text v w3 424242 = None" unfolding out [OF that] by simp
qed

text \<open>
  The private \<^verbatim>\<open>/dev/shm\<close>: a reader whose file system lacks the file passes the negative test,
  one that shares it with the writer does not.
\<close>

definition devshm_marker :: string where
  "devshm_marker = ''should-not-be-visible''"

lemma devshm_private_accepted:
  assumes "k_openro k w shmPath = Inl e" and "room q = None" and "stdout q = []"
  shows "containing ''NOTFOUND'' (stdout (proc_of (cmdShmMapRead k [''shmmapread'', shmPath] w q))) \<noteq> None
    \<and> \<not> str_contains (stdout (proc_of (cmdShmMapRead k [''shmmapread'', shmPath] w q))) devshm_marker
    \<and> ending_of (cmdShmMapRead k [''shmmapread'', shmPath] w q) = Exit 1"
proof -
  have r: "cmdShmMapRead k [''shmmapread'', shmPath] w q = (w, println ''shmmapread: NOTFOUND'' q, Exit 1)"
    using assms(1) by (simp add: cmdShmMapRead_def)
  have "str_contains (''shmmapread: NOTFOUND'' @ newline) ''NOTFOUND''"
    "\<not> str_contains (''shmmapread: NOTFOUND'' @ newline) devshm_marker" by code_simp+
  then show ?thesis unfolding r using assms(2,3) by (simp add: containing_def)
qed

lemma devshm_shared_refused:
  assumes "mmap_laws k v" and "room q = None" and "stdout q = []"
    and "cmdShmMapWrite k [''shmmapwrite'', shmPath, devshm_marker] w p = (w1, p1, Exit 0)"
    and "cmdShmMapRead k [''shmmapread'', shmPath] w1 q = (w2, q1, Exit 0)"
  shows "containing ''NOTFOUND'' (stdout q1) = None"
proof -
  have nn: "nul \<notin> set devshm_marker" by (simp add: nul_def devshm_marker_def)
  have "until_nul (take shmMapSize (file_bytes v w1 shmPath)) = devshm_marker"
    "shmMapSize \<le> length (file_bytes v w1 shmPath)"
    using cmdShmMapWrite_stores [OF assms(1) _ assms(4)] nn by simp_all
  then have "q1 = println devshm_marker q" using cmdShmMapRead_ok(2) [OF assms(1,5)] by simp
  moreover have "\<not> str_contains (devshm_marker @ newline) ''NOTFOUND''" by code_simp
  ultimately show ?thesis using assms(2,3) by (simp add: containing_def)
qed

text \<open>What \<^verbatim>\<open>cat\<close> prints of the file decides the volume test: each content passes its own check only.\<close>

lemma volume_check_decides:
  assumes "k_open k w ''/data/data.txt'' = Inr (data, None)" and "room p = None" and "stdout p = []"
    and "data \<in> {''AAA-initial'' @ newline, ''BBB-updated'' @ newline}"
  shows "has_prefix (stdout (proc_of (cmdCat k [''cat'', ''/data/data.txt''] w p))) ''AAA'' = (data = ''AAA-initial'' @ newline)
    \<and> has_prefix (stdout (proc_of (cmdCat k [''cat'', ''/data/data.txt''] w p))) ''BBB'' = (data = ''BBB-updated'' @ newline)"
proof -
  have out: "stdout (proc_of (cmdCat k [''cat'', ''/data/data.txt''] w p)) = data"
    using assms by (simp add: cmdCat_def proc_of_def)
  show ?thesis unfolding out using assms(4) by (auto simp: has_prefix_def)
qed

section \<open>What a passing test has seen\<close>

lemma kill_scope_contract:
  fixes pl :: "'s podlab"
  assumes "passes (testMemberContainersSharePIDKillScopedToOwnContainer pl cfg) se u se'"
  shows "\<exists>(sb :: 's sandbox) victim peer path t gots out a t1 b.
    lb_readings (pd_lab pl) path t = (gots, t1) \<and> out \<in> set gots \<and> str_contains out ''pid-kill-scope-peer''
    \<and> replied_to sb (Kill victim [] 9 True) a \<and> replied_to sb (Pids peer) b \<and> got_processes b \<noteq> []"
proof -
  from assms obtain sb :: "'s sandbox" and victim peer path t gots t1 out t2 t3 t4 t5 a b where
    k: "lb_readings (pd_lab pl) path t = (gots, t1)" "first_accepted (containing ''pid-kill-scope-peer'') gots = Some out"
      "sb_tc sb (Kill victim [] 9 True) t2 = ((a, None), t3)" "sb_tc sb (Pids peer) t4 = ((b, None), t5)"
      "got_processes b \<noteq> []"
    by (auto simp: testMemberContainersSharePIDKillScopedToOwnContainer_def must_print_def kill_hard_def passes_simps)
  from first_accepted_Some [OF k(2)] k show ?thesis by (auto intro!: exI replied_toI)
qed

lemma oom_isolation_contract:
  fixes pl :: "'s podlab"
  assumes "passes (testMemberContainerOOMIsolation pl cfg) se u se'"
  shows "\<exists>(sb :: 's sandbox) peer victim w t1 t2 t3 a b.
    replied_to sb (Wait victim []) w \<and> got_exit w = 137
    \<and> sb_tc sb (State peer []) t1 = ((a, None), t2) \<and> got_status a = RUNNING
    \<and> sb_sc sb (SandboxStatus (sb_id sb) False) t2 = ((b, None), t3) \<and> state_of b = sandboxStateReady"
  using assms by (auto simp: testMemberContainerOOMIsolation_def sigkillExit_def passes_simps) (blast intro: replied_toI)

lemma testOOM_contract:
  assumes "passes (testOOM lab cfg) s x s'"
  shows "\<exists>(u :: up) at. replied lab u (Wait (up_cid u) []) (WaitResp 137 at)"
  using assms by (auto simp: testOOM_def sigkillExit_def passes_simps intro: repliedI)

text \<open>
  The traffic test passes only if an address no dial from outside reaches was bound inside the
  namespace, the member printed the token it was given, and the listener there saw a connection
  and sent back what it read.
\<close>

lemma passes_probe [passes_simps]:
  "passes (probeUnreachableFromCurrentNamespace nl addr) s u s' \<longleftrightarrow> (\<exists>e. nl_dial nl ''tcp'' addr s = (Inl e, s'))"
  by (cases "nl_dial nl ''tcp'' addr s"; cases "fst (nl_dial nl ''tcp'' addr s)")
    (auto simp: probeUnreachableFromCurrentNamespace_def passes_simps)

lemma traffic_scoped_contract:
  fixes pl :: "'s podlab"
  assumes "passes (testContainerTrafficScopedToNetworkSandbox pl cfg) se u se'"
  shows "\<exists>(netns :: realNetworkSandbox) addr e t t' ln t1 t2 path gots t3 t4 out conn t5 t6.
    nl_dial (pd_net pl) ''tcp'' (addr @ '':9191'') t = (Inl e, t')
    \<and> listen_in_netns (pd_net pl) (rs_path netns) (addr @ '':9191'') t1 = (Inr ln, t2)
    \<and> lb_readings (pd_lab pl) path t3 = (gots, t4) \<and> out \<in> set gots \<and> str_contains out ''netns-scoped-ok''
    \<and> nl_accept (pd_net pl) ln t5 = (Inr conn, t6)"
proof -
  from assms obtain netns :: realNetworkSandbox and addr e t t' ln t1 t2 path gots t3 t4 out t5 t6 where
    k: "nl_dial (pd_net pl) ''tcp'' (addr @ '':9191'') t = (Inl e, t')"
      "listen_in_netns (pd_net pl) (rs_path netns) (addr @ '':9191'') t1 = (Inr ln, t2)"
      "lb_readings (pd_lab pl) path t3 = (gots, t4)" "first_accepted (containing ''netns-scoped-ok'') gots = Some out"
      "echo_once (pd_net pl) ln t5 = (None, t6)"
    by (auto simp: testContainerTrafficScopedToNetworkSandbox_def Let_def
        listenAndEchoOnceInNetns_def passes_simps)
  from k(5) obtain conn t7 where "nl_accept (pd_net pl) ln t5 = (Inr conn, t7)"
    by (auto simp: echo_once_def split: prod.splits sum.splits)
  moreover from first_accepted_Some [OF k(4)] have "out \<in> set gots" "str_contains out ''netns-scoped-ok''" by auto
  ultimately show ?thesis using k(1-3) by blast
qed

lemma inbound_scoped_contract:
  fixes pl :: "'s podlab"
  assumes "passes (testInboundToNetnsScopedListener pl cfg) se u se'"
  shows "\<exists>(sb :: 's sandbox) (netns :: realNetworkSandbox) listener addr path gots t t1 out port t2 t3 w.
    lb_readings (pd_lab pl) path t = (gots, t1) \<and> out \<in> set gots \<and> port_line out = Some port
    \<and> dialInNetnsRoundTrip (pd_net pl) (rs_path netns) (join_host_port addr port) ''netns-inbound-ok'' t2 = (None, t3)
    \<and> replied_to sb (Wait listener []) w \<and> got_exit w = 0"
proof -
  from assms obtain sb :: "'s sandbox" and netns :: realNetworkSandbox and listener addr port t2 t3 t4 t5 w
      and a a' :: "'s \<times> senv" where
    k: "passes (waitForContainerPort (pd_sand pl) listener) a port a'"
      "dialInNetnsRoundTrip (pd_net pl) (rs_path netns) (join_host_port addr port) ''netns-inbound-ok'' t2 = (None, t3)"
      "sb_tc sb (Wait listener []) t4 = ((w, None), t5)" "got_exit w = 0"
    by (auto simp: testInboundToNetnsScopedListener_def Let_def passes_simps)
  obtain s1 e1 s2 e2 where "a = (s1, e1)" "a' = (s2, e2)" by fastforce
  with waitForContainerPort_reads [of "pd_sand pl" listener s1 e1 port s2 e2] k(1) obtain path gots out where
    "lb_readings (pd_lab pl) path s1 = (gots, s2)" "out \<in> set gots" "port_line out = Some port" by auto
  with k(2-4) show ?thesis by (auto intro!: exI replied_toI)
qed

end
