(* ===== verification/Layers_Suite.thy ===== *)
theory Layers_Suite
  imports Network_Suite Layers
begin

text \<open>
  The layers suite (\<^verbatim>\<open>layers_suite.go\<close>), a rootfs of a hundred layers listed from inside the
  container, and the socket suite (\<^verbatim>\<open>uds_suite.go\<close>). The listing checks are connected with the
  model of the merged layers: \<^verbatim>\<open>ls\<close> on the overlay prints what they accept, and what they accept
  has every file in it.
\<close>

section \<open>Listings\<close>

text \<open>The names in a trimmed listing.\<close>

definition listed :: "string \<Rightarrow> string list" where
  "listed out = filter (\<lambda>name. name \<noteq> []) (map trim_space (split_on CHR 0x0A out))"

definition file_name :: "nat \<Rightarrow> string" where
  "file_name i = ''file_'' @ dec i"

definition missing_files :: "nat \<Rightarrow> string \<Rightarrow> string list" where
  "missing_files n out = filter (\<lambda>name. name \<notin> set (listed out)) (map file_name [1..<Suc n])"

definition numLayers :: nat where
  "numLayers = 100"

definition trimmed :: "'s lab \<Rightarrow> string \<Rightarrow> ('s, string) test" where
  "trimmed lab path = andThen (buffered lab path) (\<lambda>out. ret (trim_space out))"

text \<open>\<^verbatim>\<open>runLs\<close>: the two outputs as the buffers hold them shortly after the exit, and the status.\<close>

definition runLs :: "'s lab \<Rightarrow> 's service \<Rightarrow> string \<Rightarrow> string \<Rightarrow> string \<Rightarrow> ('s, string \<times> string \<times> nat) test" where
  "runLs lab svc cid dir eid =
     andThen (exec_pipes lab) (\<lambda>(out, errp).
     andThen (start_exec lab svc cid eid (exec_spec [''/bin/ls'', dir] exec_path) [] out errp) (\<lambda>x.
     andThen (rpc ''exec wait failed: '' svc (Wait cid eid)) (\<lambda>w.
     andThen (trimmed lab out) (\<lambda>o1.
     andThen (trimmed lab errp) (\<lambda>e1.
     andThen (exit_status w) (\<lambda>st. ret (o1, e1, st)))))))"

definition ls_in :: "'s lab \<Rightarrow> 's service \<Rightarrow> string \<Rightarrow> string \<Rightarrow> string \<Rightarrow> ('s, string) test" where
  "ls_in lab svc cid dir eid =
     andThen (runLs lab svc cid dir eid) (\<lambda>(out, errp, st).
     andThen (rpc_drop svc (Delete cid eid)) (\<lambda>x.
     andThen (demand (''ls '' @ dir @ '' exited '' @ dec st @ ''; stdout: '' @ out @ ''; stderr: '' @ errp) (st = 0)) (\<lambda>x.
     ret out)))"

definition check_layers_listed :: "'s lab \<Rightarrow> 's service \<Rightarrow> string \<Rightarrow> ('s, unit) test" where
  "check_layers_listed lab svc cid =
     andThen (ls_in lab svc cid ''/added'' ''ls-added'') (\<lambda>added.
     andThen (demand (''ls /added missing files; stdout: '' @ added) (missing_files numLayers added = [])) (\<lambda>x.
     andThen (ls_in lab svc cid ''/base'' ''ls-base'') (\<lambda>base.
     demand (''ls /base: expected empty, got '' @ base) (listed base = []))))"

section \<open>The layers test\<close>

text \<open>The opening makes the bundle itself: no event recorder, and mounts of all the layers.\<close>

definition layer_bundle :: "'s lab \<Rightarrow> config \<Rightarrow> ('s, string \<times> string \<times> mount list) test" where
  "layer_bundle lab cfg = (let h = lb_host lab in
     andThen (must (''shim binary '' @ quote (shimBinary cfg) @ '' not found in PATH: '')
       (\<lambda>s. (lb_lookPath lab (shimBinary cfg) s, s))) (\<lambda>shimBin.
     andThen (ensure_path lab (path_dir shimBin)) (\<lambda>u.
     andThen (act (h_tempdir h)) (\<lambda>tmp.
     andThen (must ''resolve bundle dir: '' (\<lambda>s. (lb_evalSymlinks lab tmp s, s))) (\<lambda>bundleDir.
     let rootfsDir = path_join [bundleDir, ''rootfs''] in
     andThen (must_do ''mkdir rootfs: '' (h_do h (MkdirAll rootfsDir))) (\<lambda>u.
     andThen (on_cleanup (\<lambda>s. ([], lb_unmount lab rootfsDir s))) (\<lambda>u.
     andThen (must [] (writeLayersErofs h (int numLayers))) (\<lambda>layerImgs.
     andThen (must [] (writeRootfsErofs h)) (\<lambda>rootfsImg.
     andThen (must [] (buildErofsMounts h (layerImgs @ [rootfsImg]))) (\<lambda>ms.
     ret (shimBin, bundleDir, ms)))))))))))"

definition bring_up_layers :: "'s lab \<Rightarrow> config \<Rightarrow> ('s, up) test" where
  "bring_up_layers lab cfg =
     andThen (layer_bundle lab cfg) (\<lambda>(shimBin, bundleDir, ms).
     andThen (container_id lab) (\<lambda>cid.
     andThen (oci_spec lab bundleDir [''/bin/forever''] cfg []) (\<lambda>u.
     andThen (io_fifos lab bundleDir) (\<lambda>(out, errp).
     andThen (unique_namespace lab ''layers'') (\<lambda>ns.
     andThen (start_shim lab shimBin bundleDir cid ns cfg) (\<lambda>p.
     andThen (connect_shim lab (bp_address p)) (\<lambda>conn.
     ret \<lparr>up_conn = conn, up_version = bp_version p, up_cid = cid, up_bundle = bundleDir, up_ns = ns,
       up_mounts = ms, up_out = out, up_err = errp\<rparr>)))))))"

definition testHundredLayers :: "'s lab \<Rightarrow> config \<Rightarrow> ('s, unit) test" where
  "testHundredLayers lab cfg =
     (if \<not> formatMounts cfg then skip ''layers test requires FormatMounts mode (multi-layer rootfs descriptor)''
      else andThen (bring_up_layers lab cfg) (\<lambda>u.
        with_client lab u (\<lambda>svc.
        andThen (start_init lab u svc) (\<lambda>x.
        andThen (check_layers_listed lab svc (up_cid u)) (\<lambda>x.
        kill_init svc (up_cid u))))))"

definition LayersSuite :: "(string \<times> ('s lab \<Rightarrow> config \<Rightarrow> ('s, unit) test)) list" where
  "LayersSuite = [(''HundredLayers'', testHundredLayers)]"

section \<open>The socket test\<close>

definition host_socket :: "'s netlab \<Rightarrow> ('s, nat \<times> string) test" where
  "host_socket nl =
     andThen (must ''create uds dir: '' (nl_mktemp nl (unixSafeDir (lb_tmpdir (nl_lab nl))) ''nb-uds-'')) (\<lambda>dir.
     andThen (on_cleanup (\<lambda>s. ([], lb_removeAll (nl_lab nl) dir s))) (\<lambda>u.
     let path = path_join [dir, ''test.sock''] in
     andThen (must ''listen: '' (nl_listen nl ''unix'' path)) (\<lambda>(ln, addr). ret (ln, path))))"

definition uds_exchange :: "'s netlab \<Rightarrow> 's service \<Rightarrow> string \<Rightarrow> nat \<Rightarrow> ('s, unit) test" where
  "uds_exchange nl svc cid ln = (let lab = nl_lab nl; eid = ''uds-rt'' in
     andThen (act (h_tempdir (lb_host lab))) (\<lambda>dir.
     andThen (stdio_fifos lab dir) (\<lambda>(inp, out, errp).
     andThen (inOrder [drainFifo lab out, drainFifo lab errp]) (\<lambda>x.
     andThen (start_exec lab svc cid eid \<lparr>proc_args = [''/bin/nc'', ''-U'', ''/run/test.sock''], proc_cwd = ''/'', proc_env = [],
       proc_caps = None\<rparr> [] out errp) (\<lambda>x.
     andThen (must ''accept: '' (nl_accept nl ln)) (\<lambda>conn.
     deferred (nl_close nl conn) (
       andThen (act (randomSuffix lab)) (\<lambda>sfx.
       andThen (must_do ''host write: '' (nl_write nl conn (sfx @ newline))) (\<lambda>x.
       andThen (poll_until ''timed out waiting for UDS round trip, got: '' (containing (sfx @ newline)) (lb_readings lab out)) (\<lambda>got.
       andThen (act (\<lambda>s. ((), nl_close nl conn s))) (\<lambda>x.
       inOrder [rpc_drop svc (Kill cid eid 9 False), rpc_drop svc (Wait cid eid), rpc_drop svc (Delete cid eid),
         kill_init svc cid])))))))))))"

definition testRoundTrip :: "'s netlab \<Rightarrow> config \<Rightarrow> ('s, unit) test" where
  "testRoundTrip nl cfg = (let lab = nl_lab nl in
     andThen (shimSetup lab cfg) (\<lambda>(shimBin, bundleDir, ms).
     andThen (container_id lab) (\<lambda>cid.
     andThen (host_socket nl) (\<lambda>(ln, path).
     deferred (nl_close nl ln) (
       andThen (oci_spec lab bundleDir [''/bin/forever''] cfg [withExtraMounts
         [\<lparr>sm_destination = ''/run/test.sock'', sm_type = ''uds'', sm_source = path, sm_options = []\<rparr>]]) (\<lambda>x.
       andThen (io_fifos lab bundleDir) (\<lambda>(out, errp).
       andThen (unique_namespace lab ''uds'') (\<lambda>ns.
       andThen (start_shim lab shimBin bundleDir cid ns cfg) (\<lambda>p.
       andThen (connect_shim lab (bp_address p)) (\<lambda>conn.
       let u = \<lparr>up_conn = conn, up_version = bp_version p, up_cid = cid, up_bundle = bundleDir, up_ns = ns,
         up_mounts = ms, up_out = out, up_err = errp\<rparr> in
       with_client lab u (\<lambda>svc.
       andThen (start_init lab u svc) (\<lambda>x. uds_exchange nl svc cid ln))))))))))))"

definition UDSSuite :: "'s netlab \<Rightarrow> (string \<times> ('s lab \<Rightarrow> config \<Rightarrow> ('s, unit) test)) list" where
  "UDSSuite nl = [(''UDSRoundTrip'', \<lambda>lab cfg. testRoundTrip (nl\<lparr>nl_lab := lab\<rparr>) cfg)]"

section \<open>What ls prints of the merged layers\<close>

lemma listed_lines:
  assumes "\<forall>l \<in> set ls. tidy l"
  shows "listed (trim_space (concat (map (\<lambda>l. l @ newline) ls))) = ls"
proof (cases "ls = []")
  case True
  then show ?thesis by (simp add: listed_def trim_space_def trim_left_by_def)
next
  case False
  have "map trim_space ls = ls" using assms by (simp add: trim_tidy map_idI)
  moreover have "filter (\<lambda>l. l \<noteq> []) ls = ls" using assms by (auto simp: tidy_def filter_id_conv)
  ultimately show ?thesis using printed_lines [OF False assms] by (simp add: listed_def)
qed

lemma file_name_tidy: "tidy (file_name i)"
  using dec_digits digit_not_space by (intro tidy_word) (auto simp: file_name_def is_space_def)

lemma cmdLs_prints:
  assumes "k_readdir k w dir = Inr names" and "room p = None" and "stdout p = []"
  shows "stdout (proc_of (cmdLs k [''ls'', dir] w p)) = concat (map (\<lambda>l. l @ newline) names)
    \<and> ending_of (cmdLs k [''ls'', dir] w p) = Exit 0"
  using assms fold_println_of [OF assms(2), of "\<lambda>l. l" names] by (simp add: cmdLs_def proc_of_def ending_of_def)

text \<open>In the merged view nothing but the files of the layers is in \<^verbatim>\<open>/added\<close>.\<close>

lemma layer_added_only:
  assumes "1 \<le> k" and "layer_entries n k (''added/'' @ x) \<noteq> None"
  shows "x = file_name k"
proof (cases "k = 1")
  case True
  show ?thesis
  proof (rule ccontr)
    assume "x \<noteq> file_name k"
    then have "layer_entries n 1 (''added/'' @ x) = None"
      using True by (intro layer_1_other) (simp_all add: added_name_def base_name_def file_name_def)
    with assms(2) True show False by simp
  qed
next
  case False
  with assms(2) show ?thesis
    by (auto simp: layer_upper_entries added_name_def base_name_def file_name_def split: if_splits)
qed

lemma visible_source: "visible ls p \<noteq> None \<Longrightarrow> \<exists>l \<in> set ls. l p \<noteq> None"
  by (auto simp: visible_def find_Some_iff split: option.splits if_splits)

lemma added_listing:
  assumes "root_clear root" and "visible (stack n root) (''added/'' @ x) \<noteq> None"
  shows "\<exists>i. x = file_name i"
proof -
  from visible_source [OF assms(2)] obtain l where l: "l \<in> set (stack n root)" "l (''added/'' @ x) \<noteq> None" by blast
  moreover have "root (''added/'' @ x) = None" using assms(1) by (simp add: root_clear_def)
  ultimately obtain k where "1 \<le> k" "l = layer_entries n k" using stack_cases by fastforce
  with layer_added_only l(2) show ?thesis by blast
qed

text \<open>
  In a container whose root is the overlay of the hundred layers, and whose directories list
  every name present, the listings the test takes are accepted: no file is missing, nothing is
  left under \<^verbatim>\<open>/base\<close>, and both commands end with status zero.
\<close>

definition lists_all :: "'w kernel \<Rightarrow> 'w \<Rightarrow> (string \<Rightarrow> entry option) \<Rightarrow> bool" where
  "lists_all k w t \<longleftrightarrow>
     (\<forall>d ns f. k_readdir k w (CHR ''/'' # d) = Inr ns \<longrightarrow> plain_elem f \<longrightarrow> t (d @ CHR ''/'' # f) \<noteq> None \<longrightarrow> f \<in> set ns)"

lemma merged_listing_accepted:
  assumes ov: "overlay_laws ov" and n: "2 \<le> n" and root: "root_clear root"
    and view: "shows_tree k w (ov (stack n root))" and all: "lists_all k w (ov (stack n root))"
    and p: "room p = None" "stdout p = []"
  shows "missing_files n (trim_space (stdout (proc_of (cmdLs k [''ls'', ''/added''] w p)))) = []
    \<and> listed (trim_space (stdout (proc_of (cmdLs k [''ls'', ''/base''] w p)))) = []
    \<and> ending_of (cmdLs k [''ls'', ''/added''] w p) = Exit 0 \<and> ending_of (cmdLs k [''ls'', ''/base''] w p) = Exit 0"
proof -
  let ?t = "ov (stack n root)"
  have dirs: "plain_elem ''added''" "plain_elem ''base''" by (simp_all add: plain_elem_def)
  have at: "?t d = visible (stack n root) d" "?t (d @ CHR ''/'' # f) = visible (stack n root) (d @ CHR ''/'' # f)"
    if "d \<in> {''added'', ''base''}" "plain_elem f" for d f
    using ov dirs that stack_dirs(1) [OF n root that(1)] unfolding overlay_laws_def by blast+
  have dir: "?t d = Some Directory" if "d \<in> {''added'', ''base''}" for d
    using at(1) [OF that dirs(1)] stack_dirs(2) [OF n root that] by simp
  obtain as where as: "k_readdir k w ''/added'' = Inr as"
    "\<forall>x \<in> set as. plain_elem x \<and> ?t (''added'' @ CHR ''/'' # x) \<noteq> None"
    using shows_dir [OF view dir, of "''added''"] by auto
  obtain bs where bs: "k_readdir k w ''/base'' = Inr bs"
    "\<forall>x \<in> set bs. plain_elem x \<and> ?t (''base'' @ CHR ''/'' # x) \<noteq> None"
    using shows_dir [OF view dir, of "''base''"] by auto
  have "bs = []"
    using bs(2) at(2) [of "''base''"] base_hidden [OF n root] by (cases bs) auto
  moreover have tidy: "\<forall>x \<in> set as. tidy x"
    using as(2) at(2) [of "''added''"] added_listing [OF root, of n] file_name_tidy by fastforce
  moreover have "file_name i \<in> set as" if "i \<in> {1..n}" for i
  proof -
    have f: "plain_elem (file_name i)" using dec_digits digit_not_special(1) by (auto simp: plain_elem_def file_name_def)
    have "visible (stack n root) (added_name i) \<noteq> None" using added_visible [OF _ _ root, of i n] that by simp
    then have "?t (''added'' @ CHR ''/'' # file_name i) \<noteq> None"
      using at(2) [of "''added''" "file_name i"] f by (simp add: added_name_def file_name_def)
    with all as(1) f show ?thesis unfolding lists_all_def by (metis append_Cons append_Nil)
  qed
  ultimately show ?thesis
    using cmdLs_prints [OF as(1) p] cmdLs_prints [OF bs(1) p] listed_lines [OF tidy] listed_lines [of "[]"]
    by (auto simp: missing_files_def filter_empty_conv)
qed

text \<open>What a passing test has seen: complete listings, whatever is printed beside them.\<close>

lemma passes_ls_in:
  "passes (ls_in lab svc cid dir eid) s out s' \<Longrightarrow> \<exists>path t. out = trim_space (lb_buffered lab path t)"
  by (auto simp: ls_in_def runLs_def trimmed_def passes_simps)

lemma no_missing_files: "missing_files n out = [] \<longleftrightarrow> (\<forall>i \<in> {1..n}. file_name i \<in> set (listed out))"
  by (auto simp: missing_files_def filter_empty_conv)

lemma layers_test_seen:
  assumes "passes (check_layers_listed lab svc cid) s x s'"
  shows "\<exists>out1 out2 t1 t2. (\<forall>i \<in> {1..100}. file_name i \<in> set (listed (trim_space (lb_buffered lab out1 t1))))
    \<and> listed (trim_space (lb_buffered lab out2 t2)) = []"
proof -
  from assms obtain added base t t1 t2 t3 where
    a: "passes (ls_in lab svc cid ''/added'' ''ls-added'') t added t1" "missing_files numLayers added = []"
    and b: "passes (ls_in lab svc cid ''/base'' ''ls-base'') t2 base t3" "listed base = []"
    by (auto simp: check_layers_listed_def passes_simps)
  from passes_ls_in [OF a(1)] passes_ls_in [OF b(1)] a(2) b(2) show ?thesis
    unfolding no_missing_files numLayers_def by blast
qed

lemma uds_seen:
  assumes "passes (uds_exchange nl svc cid ln) s x s'"
  shows "\<exists>conn sfx t t1 t2 t3 t4 gots out got t5. nl_accept nl ln t = (Inr conn, t1) \<and> randomSuffix (nl_lab nl) t1 = (sfx, t2)
    \<and> nl_write nl conn (sfx @ newline) t2 = (None, t3) \<and> lb_readings (nl_lab nl) out t3 = (gots, t4)
    \<and> got \<in> set gots \<and> str_contains got (sfx @ newline)"
proof -
  from assms obtain conn sfx t t1 t2 t3 t4 gots out got where
    k: "nl_accept nl ln t = (Inr conn, t1)" "randomSuffix (nl_lab nl) t1 = (sfx, t2)"
      "nl_write nl conn (sfx @ newline) t2 = (None, t3)" "lb_readings (nl_lab nl) out t3 = (gots, t4)"
      "first_accepted (containing (sfx @ newline)) gots = Some got"
    by (auto simp: uds_exchange_def Let_def passes_simps)
  from first_accepted_Some [OF k(5)] have "got \<in> set gots" "str_contains got (sfx @ newline)" by auto
  with k show ?thesis by blast
qed

end
