(* ===== verification/Examples_Suites.thy ===== *)
theory Examples_Suites
  imports Examples_Testbin Examples_Harness Sandbox_Members Layers_Suite
begin

text \<open>
  A machine on which the suites run to their end: nothing fails on the host, a shim answers
  every call, and every captured output is a given text. The theorems about passing tests are
  applied to runs on it.
\<close>

section \<open>The machine\<close>

record world =
  w_ev :: ev_state
  w_socks :: sock_cache
  w_ready :: bool

definition world0 :: world where
  "world0 = \<lparr>w_ev = \<lparr>recorders = Map.empty, next_rec = 0, bound = {}\<rparr>, w_socks = Map.empty, w_ready = False\<rparr>"

definition demo_host :: "world host" where
  "demo_host =
     \<lparr>h_do = (\<lambda>c f. (None, f)), h_tempdir = (\<lambda>f. (''/t'', f)), h_getenv = (\<lambda>f v. ''/bin''),
      h_readfile = (\<lambda>f p. Inr ''bin''), h_http = (\<lambda>f u. Inl ''no route''), h_walk = (\<lambda>f p. Inl ''ENOENT''),
      h_has_readlink = True, h_uid = 0, h_goarch = ''amd64'', h_testbinVersion = ''v0.1.7''\<rparr>"

definition demo_starter :: "world starter" where
  "demo_starter = \<lparr>s_mkdirtemp = (\<lambda>f d. (Inr (d @ ''/nb-1''), f)), s_mkfifo = (\<lambda>p f. (None, f)),
     s_openfifo = (\<lambda>p f. (None, f)), s_marshal = (\<lambda>r. Inr ''boot''),
     s_run = (\<lambda>c f. (Inr start_answer, f)), s_environ = (\<lambda>f. []), s_wire = proto_wire, s_json = (\<lambda>d p. (Some ''EOF'', p))\<rparr>"

text \<open>Tasks that are running until they end with the given status.\<close>

fun demo_task :: "nat \<Rightarrow> world service" where
  "demo_task x (State i e) s = ((Some (StateResp i [] 7 RUNNING [] [] [] False 0 [] e), None), s)"
| "demo_task x (Create i b r t si so se c p opts) s = ((Some (CreateResp 7), None), s)"
| "demo_task x (Wait i e) s = ((Some (WaitResp x []), None), s)"
| "demo_task x (Pids i) s = ((Some (PidsResp ''7''), None), s)"
| "demo_task x r s = ((Some Empty, None), s)"

text \<open>A sandbox that is ready from its start to its stop, and then refuses to be created again.\<close>

fun demo_sandbox :: "world sandbox_service" where
  "demo_sandbox (CreateSandbox i b n) s =
     (if w_ready s then ((None, Some ''already exists''), s) else ((Some SandboxDone, None), s))"
| "demo_sandbox (Platform i) s = ((Some (SandboxPlatform (Some (''linux'', ''amd64'', []))), None), s)"
| "demo_sandbox (StartSandbox i) s = ((Some (SandboxStarted 7 (Some (1700000000, 0))), None), s\<lparr>w_ready := True\<rparr>)"
| "demo_sandbox (StopSandbox i) s = ((Some SandboxDone, None), s\<lparr>w_ready := False\<rparr>)"
| "demo_sandbox (SandboxStatus i v) s =
     ((Some (SandboxState 7 (if w_ready s then sandboxStateReady else sandboxStateNotReady) [] None), None), s)"
| "demo_sandbox r s = ((Some SandboxDone, None), s)"

definition demo_lab :: "nat \<Rightarrow> bytes \<Rightarrow> world lab" where
  "demo_lab x out =
     \<lparr>lb_host = demo_host, lb_starter = demo_starter, lb_name = ''Test'', lb_isBench = False, lb_uid = 0, lb_gid = 0,
      lb_tmpdir = ''/tmp'', lb_specVersion = ''1.0.2'', lb_bigfile = ''big'', lb_lookPath = (\<lambda>b f. Inr (''/bin/'' @ b)),
      lb_setenv = (\<lambda>v x f. f), lb_evalSymlinks = (\<lambda>p f. Inr p), lb_removeAll = (\<lambda>p f. f), lb_closeLog = (\<lambda>p f. f),
      lb_unmount = (\<lambda>p f. f), lb_urandom = (\<lambda>f. (Some ''abcd'', f)), lb_sockdir = (\<lambda>f. (Inr ''/tmp/s'', f)),
      lb_socks = w_socks, lb_set_socks = (\<lambda>c f. f\<lparr>w_socks := c\<rparr>), lb_ev = w_ev, lb_set_ev = (\<lambda>e f. f\<lparr>w_ev := e\<rparr>),
      lb_serve = (\<lambda>f. None), lb_json = (\<lambda>s. Inr ''spec''), lb_anyOptions = (\<lambda>r. Inr ''opts''), lb_anyProcess = (\<lambda>p. Inr ''proc''),
      lb_dial = (\<lambda>f a. (Inr 3, f)), lb_close = (\<lambda>c f. f), lb_task2 = (\<lambda>c. as_v2 (demo_task x)), lb_task3 = (\<lambda>c. demo_task x),
      lb_notFound = (\<lambda>e. False), lb_readings = (\<lambda>p f. ([out], f)), lb_drained = (\<lambda>p f. (Some out, f)), lb_buffered = (\<lambda>p f. out),
      lb_polls = (\<lambda>r t f. ((\<lambda>i. [], 0), f)), lb_log = (\<lambda>r f. []), lb_exitEvent = (\<lambda>b. Inl ''no event''),
      lb_openWriter = (\<lambda>p f. (Inr 4, f)), lb_openReader = (\<lambda>p f. (Inr 5, f)), lb_write = (\<lambda>h b f. (None, f)),
      lb_feed = (\<lambda>h b f. (Some None, f)), lb_closeFile = (\<lambda>h f. f), lb_now = (\<lambda>f. (63835596800, 0)), lb_clock = (\<lambda>f. 0),
      lb_procfs = (\<lambda>f. one_proc ''/bin/sh'' []), lb_connects = (\<lambda>a c v f. (\<lambda>i. Pid 12, 1))\<rparr>"

lemmas demo_defs = demo_lab_def demo_host_def demo_starter_def

lemma demo_laws: "lab_laws (demo_lab x out)"
  by (simp add: lab_laws_def demo_defs)

lemma demo_calls: "run_calls demo_host cs f = (None, f)"
  by (induction cs rule: list.induct) (auto simp: demo_host_def)

section \<open>A run up to the connected client\<close>

lemma demo_host_simps:
  "h_do demo_host = (\<lambda>c f. (None, f))" "h_tempdir demo_host = (\<lambda>f. (''/t'', f))" "h_getenv demo_host = (\<lambda>f v. ''/bin'')"
  "h_readfile demo_host = (\<lambda>f p. Inr ''bin'')" "h_uid demo_host = 0"
  by (simp_all add: demo_host_def)

lemma demo_rootfs: "\<exists>ms. \<forall>s. buildEmbeddedRootfs demo_host b dir True s = (Inr ms, s)"
  by (simp add: buildEmbeddedRootfs_def writeRootfsErofs_def writeBigFileErofs_def buildErofsMounts_def openTestbin_def
      demo_calls demo_host_simps Let_def)

lemma demo_spec: "createOCISpec demo_host (\<lambda>s. Inr ''spec'') v u g d args fm [] s = (None, s)"
  by (simp add: createOCISpec_def demo_host_simps)

lemma demo_lab_simps:
  "lb_host (demo_lab x out) = demo_host" "lb_starter (demo_lab x out) = demo_starter"
  "lb_lookPath (demo_lab x out) = (\<lambda>b f. Inr (''/bin/'' @ b))"  "lb_evalSymlinks (demo_lab x out) = (\<lambda>p f. Inr p)"
  "lb_json (demo_lab x out) = (\<lambda>s. Inr ''spec'')" "lb_dial (demo_lab x out) = (\<lambda>f a. (Inr 3, f))"
  "lb_close (demo_lab x out) = (\<lambda>c f. f)" "lb_anyOptions (demo_lab x out) = (\<lambda>r. Inr ''opts'')"
  "lb_task2 (demo_lab x out) = (\<lambda>c. as_v2 (demo_task x))" "lb_task3 (demo_lab x out) = (\<lambda>c. demo_task x)" "lb_uid (demo_lab x out) = 0"
  "lb_readings (demo_lab x out) = (\<lambda>p f. ([out], f))" "lb_drained (demo_lab x out) = (\<lambda>p f. (Some out, f))" "lb_buffered (demo_lab x out) = (\<lambda>p f. out)"
  "lb_serve (demo_lab x out) = (\<lambda>f. None)" "lb_ev (demo_lab x out) = w_ev" "lb_set_ev (demo_lab x out) = (\<lambda>e f. f\<lparr>w_ev := e\<rparr>)"
  "lb_isBench (demo_lab x out) = False" "lb_tmpdir (demo_lab x out) = ''/tmp''"
  "lb_anyProcess (demo_lab x out) = (\<lambda>r. Inr ''proc'')" "lb_now (demo_lab x out) = (\<lambda>f. (63835596800, 0))"
  by (simp_all add: demo_lab_def)

lemma demo_path: "path_join [''/t'', ''c.sock''] = ''/t/c.sock''"
  by code_simp

definition world1 :: world where
  "world1 = world0\<lparr>w_ev := \<lparr>recorders = [''/t'' \<mapsto> 0], next_rec = 1, bound = {''/t/c.sock''}\<rparr>\<rparr>"

lemma demo_sock: "sock_path (demo_lab x out) ''/t'' = ret ''/t/c.sock''"
  using sock_path_short [OF demo_laws, of "''/t''" x out] by (simp add: demo_path)

lemma demo_recorder: "passes (events_recorder (demo_lab x out) ''/t'') world0 0 world1"
  by (simp add: events_recorder_def passes_simps demo_lab_simps demo_sock bind_recorder_def startEventsRecorder_def
     ev_bind_def world0_def world1_def)

lemma demo_ensure: "passes (ensure_path (demo_lab x out) (path_dir ''/bin/shim'')) s u s"
proof -
  have e: "path_dir ''/bin/shim'' = ''/bin''" by code_simp
  show ?thesis by (simp add: ensure_path_def Let_def passes_simps demo_lab_simps demo_host_simps e)
qed

lemma demo_setup: "\<exists>ms. passes (shimSetup (demo_lab x out) plain_config) world0 (''/bin/shim'', ''/t'', ms) world1"
proof -
  obtain ms where ms: "\<And>s. buildEmbeddedRootfs demo_host ''big'' ''/t'' True s = (Inr ms, s)"
    using demo_rootfs by blast
  have b: "lb_bigfile (demo_lab x out) = ''big''" by (simp add: demo_lab_def)
  have c: "shimBinary plain_config = ''shim''" "formatMounts plain_config = True" by (simp_all add: plain_config_def)
  from demo_recorder [of x out] demo_ensure [of x out world0] ms show ?thesis
    by (auto simp: shimSetup_def Let_def passes_simps demo_lab_simps demo_host_simps b c)
qed

lemma demo_start:
  "\<exists>p. passes (start_shim (demo_lab x out) ''/bin/shim'' ''/t'' cid ns plain_config) s p s \<and> bp_version p = 3"
  by (auto simp: start_shim_def Let_def passes_simps demo_lab_simps demo_starter_def demo_sock setupLogPipe_def
      run_start_def decode_start_def start_answer_parsed check_params_def)

lemma demo_bring_up:
  assumes "args \<noteq> []"
  shows "\<exists>u. passes (bring_up (demo_lab x out) plain_config suite args []) world0 u world1 \<and> up_version u = 3"
proof -
  obtain ms where m: "passes (shimSetup (demo_lab x out) plain_config) world0 (''/bin/shim'', ''/t'', ms) world1"
    using demo_setup by blast
  obtain cid where cid: "passes (container_id (demo_lab x out)) world1 cid world1"
    by (simp add: container_id_def passes_simps randomSuffix_def demo_lab_def)
  obtain ns where ns: "passes (unique_namespace (demo_lab x out) suite) world1 ns world1"
    by (simp add: unique_namespace_def passes_simps randomSuffix_def demo_lab_def)
  obtain p where p: "passes (start_shim (demo_lab x out) ''/bin/shim'' ''/t'' cid ns plain_config) world1 p world1"
    and v: "bp_version p = 3" using demo_start by blast
  have o: "passes (oci_spec (demo_lab x out) ''/t'' args plain_config []) world1 () world1"
    by (simp add: oci_spec_def passes_simps demo_lab_simps demo_spec)
  obtain f1 f2 where f: "passes (io_fifos (demo_lab x out) ''/t'') world1 (f1, f2) world1"
    by (simp add: io_fifos_def passes_simps demo_lab_simps createIOFifos_def demo_starter_def Let_def)
  have k: "passes (connect_shim (demo_lab x out) (bp_address p)) world1 3 world1"
    by (simp add: connect_shim_def passes_simps demo_lab_simps connectShim_def)
  from m cid ns p o f k v show ?thesis
    unfolding bring_up_def by (simp only: passes_simps split_paired_Ex prod.case) force
qed

lemma demo_client: "up_version u = 3 \<Longrightarrow> taskClientForVersion c2 c3 (up_version u) = Some c3"
  by (simp add: taskClientForVersion_def)

lemma demo_drain: "passes (drainFifo (demo_lab x out) path) s u t \<longleftrightarrow> t = s"
  by (auto simp: drainFifo_def passes_simps demo_lab_simps demo_starter_def)

lemma demo_create: "passes (create_request (demo_lab x out) cid b i o1 e ms) s r t \<longleftrightarrow>
    r = Create cid b ms False i o1 e [] [] ''opts'' \<and> t = s"
  by (auto simp: create_request_def passes_simps demo_lab_simps)

lemma demo_start_init: "passes (start_init (demo_lab x out) u (demo_task x)) s () s"
  by (simp add: start_init_def drain_both_def create_task_def newCreateTaskRequest_def passes_simps demo_drain demo_create)

lemma testOutputThenExit_exact_witness:
  "\<exists>u t t' k at. passes (bring_up (demo_lab 7 (tick_text @ newline)) plain_config ''run'' [''/bin/tickexit''] []) world0 u t
    \<and> replied (demo_lab 7 (tick_text @ newline)) u (Wait (up_cid u) []) (WaitResp 7 at)
    \<and> lb_buffered (demo_lab 7 (tick_text @ newline)) (up_out u) t' = tick_text @ replicate k CHR 0x0A"
proof -
  let ?out = "tick_text @ newline"
  obtain u where u: "passes (bring_up (demo_lab 7 ?out) plain_config ''run'' [''/bin/tickexit''] []) world0 u world1"
    and v: "up_version u = 3" using demo_bring_up [of "[''/bin/tickexit'']" 7 ?out "''run''"] by blast
  have c: "str_contains ?out (''tick 50'' @ newline)"
  proof -
    have "[1..<51] = [1..<50] @ [50 :: nat]" using upt_Suc_append [of 1 50] by simp
    then have "map tick_line [1..<51] = map tick_line [1..<50] @ [tick_line 50]" by simp
    then have "tick_text = join newline (map tick_line [1..<50]) @ newline @ tick_line 50"
      unfolding tick_text_def by (simp only:) (subst join_append, simp_all)
    moreover have "tick_line 50 = ''tick 50''" by (simp add: tick_line_def dec.simps digit_char_def char_of_def bit_0)
    ultimately show ?thesis unfolding str_contains_conv by (metis append.assoc append_Nil2)
  qed
  have "passes (testOutputThenExit (demo_lab 7 ?out) plain_config) world0 () world1"
    unfolding testOutputThenExit_def passes_andThen passes_with_client
    by (rule exI, rule exI, rule conjI, rule u)
      (use c in \<open>simp add: passes_simps demo_client [OF v] demo_start_init check_ticks_accepts demo_lab_simps
         shutdownTask_def containing_def\<close>)
  from testOutputThenExit_exact [OF this] show ?thesis .
qed

lemma demo_exec_pipes: "passes (exec_pipes (demo_lab x out)) s io s' \<longleftrightarrow>
    io = (path_join [''/t'', ''stdout''], path_join [''/t'', ''stderr'']) \<and> s' = s"
  by (auto simp: exec_pipes_def io_fifos_def passes_simps demo_lab_simps demo_host_simps createIOFifos_def demo_starter_def
      demo_drain Let_def)

lemma demo_testClock:
  assumes "atoi (trim_space out) = Some 1700000000"
  shows "passes (testClock (demo_lab 0 out) plain_config) world0 () world1"
proof -
  obtain u where u: "passes (bring_up (demo_lab 0 out) plain_config ''exec'' [''/bin/forever''] []) world0 u world1"
    and v: "up_version u = 3" using demo_bring_up [of "[''/bin/forever'']" 0 out "''exec''"] by blast
  have ok: "clock_ok (63835596800, 0) 1700000000 (63835596800, 0)" by code_simp
  show ?thesis
    unfolding testClock_def with_container_def passes_andThen passes_with_client Let_def
    by (rule exI, rule exI, rule conjI, rule u)
      (simp add: passes_simps demo_client [OF v] demo_start_init demo_lab_simps demo_exec_pipes assms ok wait_exec_def
         delete_exec_def kill_init_def host_time_def shutdownTask_def)
qed




lemma senv_reachable_wf_witness: "senv_wf (untrack ''a'' (track ''b'' ''/o'' None (track_fast ''a'' no_members)))"
proof (rule senv_reachable_wf)
  have "senv_step no_members (track_fast ''a'' no_members)" by (rule senv_step.create_fast) (simp add: no_members_def)
  moreover have "senv_step (track_fast ''a'' no_members) (track ''b'' ''/o'' None (track_fast ''a'' no_members))"
    by (rule senv_step.create) (simp add: no_members_def track_fast_def)
  ultimately show "senv_step\<^sup>*\<^sup>* no_members (untrack ''a'' (track ''b'' ''/o'' None (track_fast ''a'' no_members)))"
    using senv_step.release by (meson rtranclp.rtrancl_into_rtrancl rtranclp.rtrancl_refl)
qed

lemma hashverify_report_scanned_witness:
  "\<exists>sched cpu. complete sched \<and> scan_report (trim_space (stdout (proc_of (cmdHashverify file_kernel sched 5
      [''hashverify'', ''/f'', hex32 (crc32c ''abc'')] () (new_proc []))))) = Some (3, 5, cpu)"
proof -
  obtain sched where s: "complete sched" using complete_exists by blast
  have "k_open file_kernel () ([''hashverify'', ''/f'', hex32 (crc32c ''abc'')] ! 1) = Inr (''abc'', None)"
    by (simp add: file_kernel_def)
  from hashverify_report_scanned [OF s _ this, of "new_proc []" 5] s show ?thesis by (auto simp: new_proc_def)
qed

lemma listening_port_partial_witness:
  "\<exists>p1. nc_announce True ''0.0.0.0:8080'' (new_proc []) = Inr p1
     \<and> (\<forall>n. listening_port (take n (stderr p1 @ ''more'')) \<in> {None, Some ''8080''})"
proof -
  have s: "split_host_port ''0.0.0.0:8080'' = Inr (''0.0.0.0'', ''8080'')" by code_simp
  then obtain p1 where p: "nc_announce True ''0.0.0.0:8080'' (new_proc []) = Inr p1" by (simp add: nc_announce_def)
  have "\<forall>c \<in> set ''8080''. \<not> is_space c" by code_simp
  then have "listening_port (take n (stderr p1 @ ''more'')) \<in> {None, Some ''8080''}" for n
    using listening_port_partial [OF s p, of n "''more''"] by (simp add: new_proc_def)
  with p show ?thesis by blast
qed

section \<open>A sandbox\<close>

definition demo_sand :: "world sandlab" where
  "demo_sand = \<lparr>sl_lab = demo_lab 0 [], sl_sandbox = (\<lambda>c. demo_sandbox), sl_json = (\<lambda>v a. Inr ''spec''),
     sl_mountinfo = (\<lambda>p f. Inl ''ENOENT''), sl_ticks = (\<lambda>f. [Late]), sl_both = (\<lambda>o1 e f. [])\<rparr>"

definition demo_net :: "world netlab" where
  "demo_net = \<lparr>nl_lab = demo_lab 0 [], nl_intN = (\<lambda>n f. (0, f)), nl_listen = (\<lambda>n a f. (Inr (9, a), f)),
     nl_accept = (\<lambda>l f. (Inr 10, f)), nl_dial = (\<lambda>n a f. (Inr 11, f)), nl_read = (\<lambda>c n f. (([], Some ''EOF''), f)),
     nl_write = (\<lambda>c b f. (None, f)), nl_readFrom = (\<lambda>c n f. (Inl ''timeout'', f)), nl_writeTo = (\<lambda>c b a f. (None, f)),
     nl_closeWrite = (\<lambda>c f. (None, f)), nl_readAll = (\<lambda>c f. (Inr [], f)), nl_close = (\<lambda>c f. f), nl_inTime = (\<lambda>f. True),
     nl_pipe = (\<lambda>f. (Inr (12, 13), f)), nl_spawn = (\<lambda>p a w f. (Inr 14, f)), nl_ready = (\<lambda>r f. (None, f)),
     nl_kill = (\<lambda>c f. f\<lparr>w_ready := False\<rparr>), nl_reap = (\<lambda>c f. f), nl_run = (\<lambda>a f. (None, f)), nl_getpid = 1,
     nl_counts = (\<lambda>f. (0, 0)), nl_set_counts = (\<lambda>c f. f), nl_setns = (\<lambda>p f. (None, f)), nl_replyError = (\<lambda>b. Inr None),
     nl_createExcl = (\<lambda>p f. (None, f)), nl_stat = (\<lambda>p f. True), nl_mktemp = (\<lambda>d p f. (Inr ''/t/x'', f)), nl_parseIP = (\<lambda>s. True)\<rparr>"

definition demo_pod :: "world podlab" where
  "demo_pod = \<lparr>pd_sand = demo_sand, pd_waiting = (\<lambda>f. ReplyAfterStop), pd_net = demo_net\<rparr>"

definition ready_world :: "bool \<Rightarrow> world" where
  "ready_world b = world1\<lparr>w_ready := b\<rparr>"

text \<open>slirp4netns does not become ready in time, and is killed.\<close>

lemma spawn_slirp_never_leaks_witness:
  "\<exists>x es cs s'. spawn_slirp demo_net ''/bin/slirp4netns'' ''/t/api'' 7 12 13 world1 = (x, es, cs, s')
     \<and> (\<exists>e t. x = FatalStop e \<and> s' = nl_kill demo_net 14 t)"
proof -
  obtain x es cs s' where r: "spawn_slirp demo_net ''/bin/slirp4netns'' ''/t/api'' 7 12 13 world1 = (x, es, cs, s')"
    by (rule test_result)
  have s: "nl_spawn demo_net ''/bin/slirp4netns'' (slirp_args (lb_uid (nl_lab demo_net)) ''/t/api'' 7) 13 world1 = (Inr 14, world1)"
    by (simp add: demo_net_def)
  have "x \<noteq> Returned n" for n
    using r by (auto simp: spawn_slirp_def await_slirp_def andThen_def must_def act_def fatal_def demo_net_def)
  with spawn_slirp_never_leaks [OF r s] r show ?thesis by blast
qed

lemma demo_sand_simps:
  "sl_lab demo_sand = demo_lab 0 []" "sl_sandbox demo_sand = (\<lambda>c. demo_sandbox)" "sl_json demo_sand = (\<lambda>v a. Inr ''spec'')"
  "sl_ticks demo_sand = (\<lambda>f. [Late])" "pd_sand demo_pod = demo_sand"
  by (simp_all add: demo_sand_def demo_pod_def)

lemma demo_start_sandbox:
  "\<exists>sb. passes (startSandboxShimInner demo_sand plain_config sid []) (world0, no_members) sb (ready_world True, no_members)
     \<and> sb_sc sb = demo_sandbox \<and> sb_id sb = sid \<and> sb_tc sb = demo_task 0"
proof -
  obtain ns where ns: "passes (unique_namespace (demo_lab 0 []) ''sandbox'') world1 ns world1"
    by (simp add: unique_namespace_def passes_simps randomSuffix_def demo_lab_def)
  obtain p where p: "passes (start_shim (demo_lab 0 []) ''/bin/shim'' ''/t'' sid ns plain_config) world1 p world1"
    and v: "bp_version p = 3" using demo_start by blast
  have k: "passes (connect_shim (demo_lab 0 []) (bp_address p)) world1 3 world1"
    by (simp add: connect_shim_def passes_simps demo_lab_simps connectShim_def)
  have st: "passes (start_sandbox demo_sandbox sid ''/t'' []) world1 () (ready_world True)"
    by (simp add: passes_start_sandbox started_pid_def started_at_def stamp_set_def is_zero_def unixToInternal_def
        wrap64_id in_int64_def ready_world_def world1_def world0_def)
  have b: "shimBinary plain_config = ''shim''" by (simp add: plain_config_def)
  let ?sb = "\<lparr>sb_id = sid, sb_address = bp_address p, sb_sc = demo_sandbox, sb_tc = demo_task 0\<rparr>"
  from v have v3: "3 \<le> bp_version p" by simp
  from ns p v3 k st demo_recorder [of 0 "[]"] demo_ensure [of 0 "[]" world0] show ?thesis
    unfolding startSandboxShimInner_def Let_def
    by (intro exI [of _ ?sb])
      (simp add: passes_simps demo_sand_simps demo_lab_simps demo_host_simps b writeSandboxOCISpec_def, blast)
qed

lemma demo_id: "\<exists>cid. passes (container_id (demo_lab x out)) s cid s"
  by (simp add: container_id_def passes_simps randomSuffix_def demo_lab_def)

lemma create_member_tracked_witness:
  "\<exists>r es cs s' e'. createContainerInSandbox demo_sand \<lparr>sb_id = ''s1'', sb_address = ''/s'', sb_sc = demo_sandbox, sb_tc = demo_task 0\<rparr>
       [''/bin/forever''] [withSandboxCtrNoStart] (ready_world True, no_members) = (r, es, cs, (s', e'))
     \<and> ((\<exists>cid out inp. r = Returned cid \<and> e' = track cid out inp no_members) \<or> ((\<forall>cid. r \<noteq> Returned cid) \<and> e' = no_members))"
proof -
  let ?c = "createContainerInSandbox demo_sand \<lparr>sb_id = ''s1'', sb_address = ''/s'', sb_sc = demo_sandbox, sb_tc = demo_task 0\<rparr>
       [''/bin/forever''] [withSandboxCtrNoStart] (ready_world True, no_members)"
  obtain r es cs s' e' where c: "?c = (r, es, cs, (s', e'))" by (metis prod.collapse)
  from create_member_tracked [OF c] c show ?thesis by blast
qed

lemma demo_status: "waitForSandboxStatus demo_sand demo_sandbox sid sandboxStateNotReady (ready_world False)
    = (None, ready_world False)"
  by (simp add: waitForSandboxStatus_def status_loop.simps demo_sand_simps ready_world_def state_of_def)

lemma demo_lifecycle: "passes (sandboxLifecycle demo_pod plain_config) (world0, no_members) () (ready_world False, no_members)"
proof -
  obtain sid where sid: "passes (container_id (demo_lab 0 [])) world0 sid world0" using demo_id by blast
  obtain sb where sb: "passes (startSandboxShimInner demo_sand plain_config sid []) (world0, no_members) sb (ready_world True, no_members)"
    and f: "sb_sc sb = demo_sandbox" "sb_id sb = sid" using demo_start_sandbox by blast
  have off: "(ready_world b)\<lparr>w_ready := False\<rparr> = ready_world False" "w_ready (ready_world b) = b" for b
    by (simp_all add: ready_world_def)
  show ?thesis
    unfolding sandboxLifecycle_def passes_with_sandbox
    by (rule exI [of _ sid], rule exI [of _ world0], rule exI [of _ sb], rule exI [of _ "(ready_world True, no_members)"])
      (use sid sb in \<open>simp add: passes_simps demo_sand_simps f off state_of_def pid_of_def await_state_def demo_status\<close>)
qed


section \<open>The hundred layers\<close>

lemma finite_entries: "finite (dom (entries cs))"
proof (rule finite_subset)
  show "dom (entries cs) \<subseteq> (\<lambda>c. the (img_name c)) ` set cs"
  proof
    fix p
    assume "p \<in> dom (entries cs)"
    with entries_other [of cs p] obtain c where "c \<in> set cs" "img_name c = Some p" by blast
    then show "p \<in> (\<lambda>c. the (img_name c)) ` set cs" by force
  qed
qed simp

lemma visible_names: "dom (visible ls) \<subseteq> (\<Union>l \<in> set ls. dom l)"
proof
  fix p
  assume "p \<in> dom (visible ls)"
  then obtain l where "find (\<lambda>l. l p \<noteq> None) ls = Some l" by (auto simp: visible_def split: option.splits if_splits)
  then have "l \<in> set ls" "l p \<noteq> None" by (auto simp: find_Some_iff)
  then show "p \<in> (\<Union>l \<in> set ls. dom l)" by blast
qed

lemma finite_stack: "finite (dom (visible (stack n (entries cs))))"
proof (rule finite_subset [OF visible_names], rule finite_UN_I)
  fix l
  assume "l \<in> set (stack n (entries cs))"
  then obtain ds where "l = entries ds" unfolding stack_def layer_entries_def by force
  then show "finite (dom l)" using finite_entries by simp
qed simp

lemma tree_kernel_lists:
  assumes "finite (dom t)"
  shows "\<exists>names. lists_all (tree_kernel t names) () t"
proof -
  let ?F = "(\<lambda>p. rev (takeWhile (\<lambda>c. c \<noteq> CHR ''/'') (rev p))) ` dom t"
  have "finite ?F" using assms by (rule finite_imageI)
  then obtain names where n: "set names = ?F" by (auto dest: finite_list)
  have f: "f \<in> ?F" if "t (d @ CHR ''/'' # f) \<noteq> None" "plain_elem f" for d f
  proof (rule image_eqI)
    have "CHR ''/'' \<notin> set f" using that(2) by (simp add: plain_elem_def)
    then show "f = rev (takeWhile (\<lambda>c. c \<noteq> CHR ''/'') (rev (d @ CHR ''/'' # f)))" by (simp add: takeWhile_append)
    from that(1) show "d @ CHR ''/'' # f \<in> dom t" by blast
  qed
  have "lists_all (tree_kernel t names) () t"
    unfolding lists_all_def
  proof (intro allI impI)
    fix d ns f
    assume "k_readdir (tree_kernel t names) () (CHR ''/'' # d) = Inr ns" and p: "plain_elem f"
      and v: "t (d @ CHR ''/'' # f) \<noteq> None"
    then have "ns = filter (\<lambda>x. plain_elem x \<and> t (d @ CHR ''/'' # x) \<noteq> None) names"
      by (simp add: tree_kernel_def split: if_splits)
    with f [OF v p] n p v show "f \<in> set ns" by simp
  qed
  then show ?thesis by blast
qed

lemma merged_listing_accepted_witness:
  "\<exists>names. let k = tree_kernel (visible (stack 3 (entries (rootfs_body ''i'' ''bin'')))) names in
     missing_files 3 (trim_space (stdout (proc_of (cmdLs k [''ls'', ''/added''] () (new_proc []))))) = []
     \<and> listed (trim_space (stdout (proc_of (cmdLs k [''ls'', ''/base''] () (new_proc []))))) = []"
proof -
  let ?t = "visible (stack 3 (entries (rootfs_body ''i'' ''bin'')))"
  obtain names where all: "lists_all (tree_kernel ?t names) () ?t" using tree_kernel_lists [OF finite_stack] by blast
  from merged_listing_accepted [OF visible_overlay _ rootfs_clear tree_kernel_shows all, of "new_proc []"]
  show ?thesis by (intro exI [of _ names]) (simp add: new_proc_def Let_def)
qed

end
