(* ===== verification/Transfer_Suite.thy ===== *)
theory Transfer_Suite
  imports Exec_Suite
begin

text \<open>
  The transfer suite (\<^verbatim>\<open>transfer_suite.go\<close>) on a started shim: the three tests, the fuzz
  target, and the transfers of the stress suite (\<^verbatim>\<open>stress_suite.go\<close>), which give the pools
  of \<^verbatim>\<open>Workloads\<close> their three operations.
\<close>

section \<open>The transfer service of a connection\<close>

text \<open>\<open>xl_probe\<close> is the Transfer call with an empty request.\<close>

record 's xferlab =
  xl_lab :: "'s lab"
  xl_transfer :: "nat \<Rightarrow> 's transfer"
  xl_probe :: "nat \<Rightarrow> 's \<Rightarrow> goerr option \<times> 's"

definition skip_if_no_transfer :: "'s xferlab \<Rightarrow> 's shimEnv \<Rightarrow> ('s, unit) test" where
  "skip_if_no_transfer xl env =
     andThen (act (skipIfNoTransfer (xl_probe xl (env_conn env)))) (\<lambda>why.
     case why of None \<Rightarrow> ret () | Some msg \<Rightarrow> skip msg)"

definition copy_to :: "'s xferlab \<Rightarrow> 's shimEnv \<Rightarrow> bytes \<Rightarrow> string \<Rightarrow> ('s, unit) test" where
  "copy_to xl env content path =
     must_do [] (copyToContainer (xl_transfer xl (env_conn env)) (env_cid env) content path)"

definition copy_from :: "'s xferlab \<Rightarrow> 's shimEnv \<Rightarrow> string \<Rightarrow> ('s, bytes) test" where
  "copy_from xl env path = must [] (copyFromContainer (xl_transfer xl (env_conn env)) (env_cid env) path)"

definition transfer_env :: "'s xferlab \<Rightarrow> config \<Rightarrow> ('s, 's shimEnv) test" where
  "transfer_env xl cfg =
     andThen (newShimEnv (xl_lab xl) cfg ''transfer'') (\<lambda>env.
     andThen (skip_if_no_transfer xl env) (\<lambda>u. ret env))"

section \<open>The tests\<close>

definition testCopyTo :: "'s xferlab \<Rightarrow> config \<Rightarrow> ('s, unit) test" where
  "testCopyTo xl cfg =
     andThen (transfer_env xl cfg) (\<lambda>env.
     andThen (copy_to xl env testContent ''/tmp'') (\<lambda>u. shutdownShim env))"

definition copy_to_and_from :: "'s xferlab \<Rightarrow> config \<Rightarrow> ('s, unit) test" where
  "copy_to_and_from xl cfg =
     andThen (transfer_env xl cfg) (\<lambda>env.
     andThen (copy_to xl env testContent ''/tmp'') (\<lambda>u.
     andThen (copy_from xl env ''/tmp/transferred.txt'') (\<lambda>received.
     andThen (demand (''copy-from content mismatch: got '' @ quote received @ '', want '' @ quote testContent)
       (received = testContent)) (\<lambda>u. shutdownShim env))))"

text \<open>
  \<^verbatim>\<open>shimExec\<close>. The pause before the delete, which lets the last output arrive, does nothing
  to the world; what is returned is what the buffer holds after the delete.
\<close>

definition shimExec :: "'s lab \<Rightarrow> 's shimEnv \<Rightarrow> string \<Rightarrow> string list \<Rightarrow> ('s, bytes) test" where
  "shimExec lab env eid args = (let tc = env_tc env; cid = env_cid env in
     andThen (exec_pipes lab) (\<lambda>(out, errp).
     andThen (must ''failed to marshal exec spec: '' (\<lambda>s. (lb_anyProcess lab
       (exec_spec args ''/usr/local/sbin:/usr/local/bin:/usr/sbin:/usr/bin:/sbin:/bin''), s))) (\<lambda>sp.
     andThen (rpc ''exec failed: '' tc (Exec cid eid False [] out errp sp)) (\<lambda>a.
     andThen (rpc ''exec start failed: '' tc (Start cid eid)) (\<lambda>a.
     andThen (wait_exec tc cid eid) (\<lambda>st.
     andThen (demand (''exec exited with status '' @ dec st) (st = 0)) (\<lambda>u.
     andThen (delete_exec tc cid eid) (\<lambda>u. buffered lab out))))))))"

definition testExecVerify :: "'s xferlab \<Rightarrow> config \<Rightarrow> ('s, unit) test" where
  "testExecVerify xl cfg =
     andThen (transfer_env xl cfg) (\<lambda>env.
     andThen (copy_to xl env testContent ''/tmp'') (\<lambda>u.
     andThen (shimExec (xl_lab xl) env ''verify'' [''/bin/cat'', ''/tmp/transferred.txt'']) (\<lambda>output.
     andThen (demand (''exec output '' @ quote output @ '' does not contain expected content '' @ quote testContent)
       (str_contains output (trim_right_by (\<lambda>c. c = CHR 0x0A) testContent))) (\<lambda>u. shutdownShim env))))"

definition transfer_tests :: "(nat \<Rightarrow> 's transfer) \<Rightarrow> (nat \<Rightarrow> 's \<Rightarrow> goerr option \<times> 's)
    \<Rightarrow> (string \<times> ('s lab \<Rightarrow> config \<Rightarrow> ('s, unit) test)) list" where
  "transfer_tests tr probe = (let on_lab = (\<lambda>test lab. test \<lparr>xl_lab = lab, xl_transfer = tr, xl_probe = probe\<rparr>) in
     [(''TransferCopyTo'', on_lab testCopyTo), (''TransferCopyToAndFrom'', on_lab copy_to_and_from),
      (''TransferExecVerify'', on_lab testExecVerify)])"

definition transfer_suite :: "'s xferlab \<Rightarrow> config \<Rightarrow> ('s, unit) test" where
  "transfer_suite xl cfg = suite_run (xl_lab xl) cfg (transfer_tests (xl_transfer xl) (xl_probe xl))"

section \<open>The transfers of the stress suite\<close>

text \<open>
  One Transfer call with marshalled endpoints. \<open>call\<close> is the call itself: an import is given
  the bytes of the archive, an export gives back what the stream received.
\<close>

definition stressDoTransfer ::
    "'s transfer \<Rightarrow> endpoint \<Rightarrow> endpoint \<Rightarrow> (any \<Rightarrow> any \<Rightarrow> 's \<Rightarrow> goerr option \<times> 's) \<Rightarrow> 's \<Rightarrow> goerr option \<times> 's" where
  "stressDoTransfer t source dest do_call s =
     (case marshalTransferAny (t_streams t) (t_marshal_err t) source s of
        (Inl e, s1) \<Rightarrow> (Some (Wrapped ''marshal source'' e), s1)
      | (Inr (srcAny, x), s1) \<Rightarrow>
         (case marshalTransferAny (t_streams t) (t_marshal_err t) dest s1 of
            (Inl e, s2) \<Rightarrow> (Some (Wrapped ''marshal destination'' e), s2)
          | (Inr (dstAny, y), s2) \<Rightarrow> do_call srcAny dstAny s2))"

definition stressTransferStat :: "'s transfer \<Rightarrow> string \<Rightarrow> string \<Rightarrow> 's \<Rightarrow> goerr option \<times> 's" where
  "stressTransferStat t cid path s =
     (case stressDoTransfer t (PathEnd ((plain_path cid path)\<lparr>cp_noWalk := True\<rparr>)) (WriteEnd tar_media (t_sid t s))
         (t_export t) s of
        (Some e, s1) \<Rightarrow> (Some e, s1)
      | (None, s1) \<Rightarrow> t_wait t s1)"

definition stressTransferWriteFile ::
    "'s transfer \<Rightarrow> string \<Rightarrow> string \<Rightarrow> string \<Rightarrow> bytes \<Rightarrow> 's \<Rightarrow> goerr option \<times> 's" where
  "stressTransferWriteFile t cid dir name content s =
     (case tar_write (t_tar t) name 420 content of
        Inl e \<Rightarrow> (Some (OtherErr e), s)
      | Inr archive \<Rightarrow>
         (case stressDoTransfer t (ReadEnd tar_media (t_sid t s)) (PathEnd (plain_path cid dir))
             (\<lambda>a b. t_import t a b archive) s of
            (Some e, s1) \<Rightarrow> (Some e, s1)
          | (None, s1) \<Rightarrow> t_wait t s1))"

definition receive_file ::
    "'s transfer \<Rightarrow> string \<Rightarrow> string \<Rightarrow> 's \<Rightarrow> (goerr + (string \<times> bytes result) list \<times> err option) \<times> 's" where
  "receive_file t cid path s =
     (case stressDoTransfer t (PathEnd (plain_path cid path)) (WriteEnd tar_media (t_sid t s)) (t_export t) s of
        (Some e, s1) \<Rightarrow> (Inl e, s1)
      | (None, s1) \<Rightarrow>
         (case t_wait t s1 of
            (Some e, s2) \<Rightarrow> (Inl (Wrapped ''receive stream'' e), s2)
          | (None, s2) \<Rightarrow> (Inr (tar_read (t_tar t) (t_received t s2)), s2)))"

definition loads_of :: "'s transfer \<Rightarrow> string \<Rightarrow> 's loads" where
  "loads_of t cid = \<lparr>l_stat = stressTransferStat t cid, l_write = stressTransferWriteFile t cid,
     l_read = receive_file t cid\<rparr>"

text \<open>The fuzz target: a never-created path must be answered by an error of the service itself.\<close>

definition fuzz_seeds :: "string list" where
  "fuzz_seeds = [''missing.txt'', ''a/b/c/d.txt'', ''does-not-exist'', replicate 200 CHR ''a'', ''.hidden'']"

definition fuzz_input :: "'s xferlab \<Rightarrow> 's shimEnv \<Rightarrow> string \<Rightarrow> ('s, unit) test" where
  "fuzz_input xl env suffix1 =
     (if \<not> validFuzzSuffix suffix1 then skip ''rejected fuzz suffix''
      else andThen (act (stressTransferStat (xl_transfer xl (env_conn env)) (env_cid env) (fuzz_path suffix1))) (\<lambda>e.
        case fuzz_one (\<lambda>p. e) suffix1 of FuzzError msg \<Rightarrow> errorf msg | _ \<Rightarrow> ret ()))"

definition transfer_fuzz :: "'s xferlab \<Rightarrow> config \<Rightarrow> string list \<Rightarrow> ('s, unit) test" where
  "transfer_fuzz xl cfg inputs =
     andThen (transfer_env xl cfg) (\<lambda>env.
     deferred (\<lambda>s. case shutdownShim env s of (r, es, cs, t) \<Rightarrow> t)
       (inOrder (map (\<lambda>i. subtest ''fuzz'' (fuzz_input xl env i)) (fuzz_seeds @ inputs))))"

section \<open>What the tests say\<close>

lemma passes_skip_if_no_transfer [passes_simps]:
  "passes (skip_if_no_transfer xl env) s u s' \<longleftrightarrow> skipIfNoTransfer (xl_probe xl (env_conn env)) s = (None, s')"
  by (auto simp: skip_if_no_transfer_def passes_simps split: option.splits)

lemma passes_copies [passes_simps]:
  "passes (copy_to xl env content path) s u s' \<longleftrightarrow>
     copyToContainer (xl_transfer xl (env_conn env)) (env_cid env) content path s = (None, s')"
  "passes (copy_from xl env path) s got s' \<longleftrightarrow>
     copyFromContainer (xl_transfer xl (env_conn env)) (env_cid env) path s = (Inr got, s')"
  by (auto simp: copy_to_def copy_from_def passes_simps)

text \<open>The test on a shim is the copy round trip on its connection, between start and shutdown.\<close>

lemma copy_to_and_from_passes:
  fixes xl :: "'s xferlab"
  assumes "passes (copy_to_and_from xl cfg) s u s'"
  shows "\<exists>(env :: 's shimEnv) s1 s2. passes (transfer_env xl cfg) s env s1
    \<and> testCopyToAndFrom (xl_transfer xl (env_conn env)) (env_cid env) s1 = (None, s2)
    \<and> passes (shutdownShim env) s2 u s'"
proof -
  from assms obtain env :: "'s shimEnv" and s1 s2 s3 where
    "passes (transfer_env xl cfg) s env s1"
    "copyToContainer (xl_transfer xl (env_conn env)) (env_cid env) testContent ''/tmp'' s1 = (None, s2)"
    "copyFromContainer (xl_transfer xl (env_conn env)) (env_cid env) ''/tmp/transferred.txt'' s2 = (Inr testContent, s3)"
    "passes (shutdownShim env) s3 u s'"
    unfolding copy_to_and_from_def passes_simps by blast
  moreover from this have "testCopyToAndFrom (xl_transfer xl (env_conn env)) (env_cid env) s1 = (None, s3)"
    by (simp add: testCopyToAndFrom_def)
  ultimately show ?thesis by blast
qed

text \<open>
  The exec test passes only when the copy was accepted and then \<^verbatim>\<open>/bin/cat\<close> of the copied
  file, run in the same container, exited with zero and printed the line copied.
\<close>

definition content_line :: bytes where "content_line = trim_right_by (\<lambda>c. c = CHR 0x0A) testContent"

lemma passes_shimExec:
  assumes "passes (shimExec lab env eid args) s got s'"
  shows "\<exists>out errp sp at t0 t1 t2 t3 a b. lb_anyProcess lab
      (exec_spec args ''/usr/local/sbin:/usr/local/bin:/usr/sbin:/usr/bin:/sbin:/bin'') = Inr sp
    \<and> env_tc env (Exec (env_cid env) eid False [] out errp sp) t0 = ((a, None), t1)
    \<and> env_tc env (Start (env_cid env) eid) t1 = ((b, None), t2)
    \<and> env_tc env (Wait (env_cid env) eid) t2 = ((Some (WaitResp 0 at), None), t3)
    \<and> got = lb_buffered lab out s'"
  using assms by (auto simp: shimExec_def Let_def wait_exec_def delete_exec_def passes_simps) blast

lemma testExecVerify_contract:
  fixes xl :: "'s xferlab"
  assumes "passes (testExecVerify xl cfg) s u s'"
  shows "\<exists>(env :: 's shimEnv) s1 s2 out errp sp at t0 t1 t2 t3 t4 a b.
    copyToContainer (xl_transfer xl (env_conn env)) (env_cid env) testContent ''/tmp'' s1 = (None, s2)
    \<and> lb_anyProcess (xl_lab xl) (exec_spec [''/bin/cat'', ''/tmp/transferred.txt'']
        ''/usr/local/sbin:/usr/local/bin:/usr/sbin:/usr/bin:/sbin:/bin'') = Inr sp
    \<and> env_tc env (Exec (env_cid env) ''verify'' False [] out errp sp) t0 = ((a, None), t1)
    \<and> env_tc env (Start (env_cid env) ''verify'') t1 = ((b, None), t2)
    \<and> env_tc env (Wait (env_cid env) ''verify'') t2 = ((Some (WaitResp 0 at), None), t3)
    \<and> str_contains (lb_buffered (xl_lab xl) out t4) content_line"
proof -
  from assms obtain env :: "'s shimEnv" and s1 s2 printed s3 where
    c: "copyToContainer (xl_transfer xl (env_conn env)) (env_cid env) testContent ''/tmp'' s1 = (None, s2)"
    and e: "passes (shimExec (xl_lab xl) env ''verify'' [''/bin/cat'', ''/tmp/transferred.txt'']) s2 printed s3"
    and o: "str_contains printed content_line"
    unfolding testExecVerify_def passes_simps content_line_def by blast
  from passes_shimExec [OF e] o c show ?thesis by metis
qed

text \<open>And the program it runs prints what the check accepts.\<close>

lemma content_line_prefix: "\<exists>r. testContent = content_line @ r"
  using trim_right_split [of testContent "CHR 0x0A"] by (auto simp: content_line_def)

lemma copied_file_accepted:
  assumes "k_open k w ''/tmp/transferred.txt'' = Inr (testContent, None)" and "stdout p = []" and "room p = None"
  shows "str_contains (stdout (proc_of (cmdCat k [name, ''/tmp/transferred.txt''] w p))) content_line
    \<and> ending_of (cmdCat k [name, ''/tmp/transferred.txt''] w p) = Exit 0"
proof -
  have "put testContent p = (True, p\<lparr>stdout := testContent\<rparr>)" using assms(2,3) by (simp add: put_def)
  then have "cmdCat k [name, ''/tmp/transferred.txt''] w p = (w, p\<lparr>stdout := testContent\<rparr>, Exit 0)"
    using assms(1) by (simp add: cmdCat_def)
  moreover have "str_contains testContent content_line"
    using content_line_prefix by (metis str_contains_append_right str_contains_refl)
  ultimately show ?thesis by (simp add: proc_of_def ending_of_def)
qed

section \<open>Pools over the transfer service\<close>

text \<open>
  A read operation over the service passes only if the archive the stream had received by the
  end of its Wait held the pool file's own content; a stat, only if the export was accepted.
\<close>

lemma receive_file_ok:
  "receive_file t cid path s = (Inr (es, bad), s') \<Longrightarrow>
     tar_read (t_tar t) (t_received t s') = (es, bad) \<and> (\<exists>s1. t_wait t s1 = (None, s'))"
  by (auto simp: receive_file_def split: prod.splits option.splits)

lemma transfer_read_op:
  assumes "read_op (loads_of t cid) i s = (None, s')"
  shows "\<exists>es bad n. tar_read (t_tar t) (t_received t s') = (es, bad)
    \<and> (n, Inr (stressFileContent (read_index i))) \<in> set es \<and> has_suffix n (pool_file (read_index i))"
proof -
  from assms obtain es bad where r:
    "receive_file t cid (read_pool_path (read_index i)) s = (Inr (es, bad), s')"
    and c: "scan_tar (pool_file (read_index i)) es bad = Inr (stressFileContent (read_index i))"
    by (auto simp: read_op_def stressTransferReadFile_def loads_of_def Let_def split: prod.splits sum.splits if_splits)
  from receive_file_ok [OF r] scan_tar_found [OF c] show ?thesis by blast
qed

text \<open>A context error of a stream keeps its identity through the wrapping.\<close>

lemma stressDoTransfer_deadline:
  assumes "marshalTransferAny (t_streams t) (t_marshal_err t) source s = (Inl e, s1)" and "err_is e DeadlineExceeded"
  shows "\<exists>x. stressDoTransfer t source dest do_call s = (Some x, s1) \<and> err_is x DeadlineExceeded"
  using assms by (simp add: stressDoTransfer_def)

text \<open>An input of the fuzz target fails only when an accepted path was found or not answered in time.\<close>

lemma fuzz_input_passes:
  assumes "validFuzzSuffix i"
  shows "passes (fuzz_input xl env i) s u s' \<longleftrightarrow>
     (\<exists>e. stressTransferStat (xl_transfer xl (env_conn env)) (env_cid env) (fuzz_path i) s = (Some e, s')
        \<and> \<not> err_is e DeadlineExceeded \<and> \<not> err_is e Canceled)"
  using assms by (auto simp: fuzz_input_def fuzz_one_def Let_def passes_simps split: option.splits fuzz_verdict.splits if_splits)

end
