(* ===== verification/Load_Race.thy ===== *)
theory Load_Race
  imports Workloads
begin

text \<open>
  The goroutines of the transfer stress test (\<^verbatim>\<open>testTransfer\<close> in \<^verbatim>\<open>stress_suite.go\<close>): each
  repeats its operation with runStress, the first error cancels the context of all of them,
  and each delivers one result. One step of one goroutine is a function of its index, so that
  a schedule is a list of indices and every interleaving is the run of some schedule.
\<close>

section \<open>Goroutines and steps\<close>

text \<open>
  Before the test of the context, in the operation, with its error before the second test of
  the context, with an error runStress returned and the cancellation still to be called, with
  a result still to be sent, and done.
\<close>

datatype phase =
    At_check | In_op | Got goerr | Cancelling goerr | Ended "goerr option" | Sent "goerr option"

record load =
  ld_name :: string
  ld_calls :: nat
  ld_iters :: nat
  ld_phase :: phase

record 's race =
  rc_world :: 's
  rc_cancelled :: bool
  rc_loads :: "load list"
  rc_results :: "load_result list"

type_synonym 's op = "nat \<Rightarrow> 's \<Rightarrow> goerr option \<times> 's"

definition stopped :: "('s \<Rightarrow> bool) \<Rightarrow> 's race \<Rightarrow> bool" where
  "stopped dead st \<longleftrightarrow> rc_cancelled st \<or> dead (rc_world st)"

definition put_load :: "nat \<Rightarrow> load \<Rightarrow> 's race \<Rightarrow> 's race" where
  "put_load k l st = st\<lparr>rc_loads := (rc_loads st)[k := l]\<rparr>"

definition load_step :: "('s \<Rightarrow> bool) \<Rightarrow> 's op list \<Rightarrow> nat \<Rightarrow> 's race \<Rightarrow> 's race" where
  "load_step dead ops k st =
     (if length (rc_loads st) \<le> k then st
      else let l = rc_loads st ! k in
        case ld_phase l of
          At_check \<Rightarrow>
            put_load k (l\<lparr>ld_phase := if stopped dead st then Ended None else In_op\<rparr>) st
        | In_op \<Rightarrow>
            (case (ops ! k) (Suc (ld_calls l)) (rc_world st) of
               (None, w) \<Rightarrow> put_load k (l\<lparr>ld_calls := Suc (ld_calls l), ld_iters := Suc (ld_iters l), ld_phase := At_check\<rparr>)
                              (st\<lparr>rc_world := w\<rparr>)
             | (Some e, w) \<Rightarrow> put_load k (l\<lparr>ld_calls := Suc (ld_calls l), ld_phase := Got e\<rparr>) (st\<lparr>rc_world := w\<rparr>))
        | Got e \<Rightarrow> put_load k (l\<lparr>ld_phase := if stopped dead st then Ended None else Cancelling e\<rparr>) st
        | Cancelling e \<Rightarrow> put_load k (l\<lparr>ld_phase := Ended (Some e)\<rparr>) (st\<lparr>rc_cancelled := True\<rparr>)
        | Ended r \<Rightarrow> put_load k (l\<lparr>ld_phase := Sent r\<rparr>)
            (st\<lparr>rc_results := rc_results st @ [\<lparr>lr_name = ld_name l, lr_iters = ld_iters l, lr_err = r\<rparr>]\<rparr>)
        | Sent r \<Rightarrow> st)"

definition race_init :: "string list \<Rightarrow> 's \<Rightarrow> 's race" where
  "race_init names s = \<lparr>rc_world = s, rc_cancelled = False,
     rc_loads = map (\<lambda>n. \<lparr>ld_name = n, ld_calls = 0, ld_iters = 0, ld_phase = At_check\<rparr>) names, rc_results = []\<rparr>"

definition race_run :: "('s \<Rightarrow> bool) \<Rightarrow> 's op list \<Rightarrow> nat list \<Rightarrow> 's race \<Rightarrow> 's race" where
  "race_run dead ops sched st = fold (load_step dead ops) sched st"

fun is_sent :: "phase \<Rightarrow> bool" where
  "is_sent (Sent r) = True"
| "is_sent p = False"

definition all_sent :: "'s race \<Rightarrow> bool" where
  "all_sent st \<longleftrightarrow> (\<forall>l \<in> set (rc_loads st). is_sent (ld_phase l))"

lemma is_sent_iff: "is_sent p \<longleftrightarrow> (\<exists>r. p = Sent r)"
  by (cases p) auto

lemma all_sent_iff: "all_sent st \<longleftrightarrow> (\<forall>l \<in> set (rc_loads st). \<exists>r. ld_phase l = Sent r)"
  by (simp add: all_sent_def is_sent_iff)

section \<open>Results\<close>

text \<open>
  What holds in every state a schedule reaches: an error a goroutine carries is one its
  operation gave at a state where nothing had stopped the run yet; the results are those of
  the goroutines that are done, in the order of their sending.
\<close>

fun carried :: "phase \<Rightarrow> goerr option" where
  "carried (Got e) = Some e"
| "carried (Cancelling e) = Some e"
| "carried (Ended r) = r"
| "carried (Sent r) = r"
| "carried p = None"

definition op_gave :: "'s op \<Rightarrow> goerr \<Rightarrow> bool" where
  "op_gave op1 e \<longleftrightarrow> (\<exists>i s w. op1 i s = (Some e, w))"

definition failed :: "phase \<Rightarrow> bool" where
  "failed p \<longleftrightarrow> (\<exists>e. p = Ended (Some e) \<or> p = Sent (Some e))"

definition race_inv :: "'s op list \<Rightarrow> 's race \<Rightarrow> bool" where
  "race_inv ops st \<longleftrightarrow>
     (\<forall>k < length (rc_loads st). \<forall>e. carried (ld_phase (rc_loads st ! k)) = Some e \<longrightarrow> op_gave (ops ! k) e)
   \<and> (\<forall>r \<in> set (rc_results st). \<exists>k < length (rc_loads st). ld_name (rc_loads st ! k) = lr_name r
        \<and> ld_phase (rc_loads st ! k) = Sent (lr_err r))
   \<and> (\<forall>l \<in> set (rc_loads st). \<forall>e. ld_phase l = Sent e \<longrightarrow> (\<exists>r \<in> set (rc_results st). lr_name r = ld_name l \<and> lr_err r = e))
   \<and> (rc_cancelled st \<longleftrightarrow> (\<exists>l \<in> set (rc_loads st). failed (ld_phase l)))"

lemma put_load_sel [simp]:
  "rc_loads (put_load k l st) = (rc_loads st)[k := l]" "rc_world (put_load k l st) = rc_world st"
  "rc_cancelled (put_load k l st) = rc_cancelled st" "rc_results (put_load k l st) = rc_results st"
  by (simp_all add: put_load_def)

lemma ex_set_conv_ex_nth: "(\<exists>x \<in> set xs. P x) \<longleftrightarrow> (\<exists>i < length xs. P (xs ! i))"
  by (metis in_set_conv_nth)

lemma load_step_length [simp]: "length (rc_loads (load_step dead ops k st)) = length (rc_loads st)"
  by (auto simp: load_step_def Let_def split: phase.split prod.split option.split)

text \<open>A step changes one goroutine, at most the cancellation, and appends at most one result.\<close>

lemma load_step_other: "j \<noteq> k \<Longrightarrow> rc_loads (load_step dead ops k st) ! j = rc_loads st ! j"
  by (auto simp: load_step_def Let_def split: phase.split prod.split option.split)

lemma load_step_sent: "ld_phase (rc_loads st ! k) = Sent r \<Longrightarrow> load_step dead ops k st = st"
  by (simp add: load_step_def Let_def)

lemma load_step_name: "ld_name (rc_loads (load_step dead ops k st) ! j) = ld_name (rc_loads st ! j)"
  by (cases "j = k"; cases "k < length (rc_loads st)")
    (auto simp: load_step_other load_step_def Let_def split: phase.split prod.split option.split)

lemma load_step_carried:
  assumes "k < length (rc_loads st)" and "carried (ld_phase (rc_loads (load_step dead ops k st) ! k)) = Some e"
  shows "carried (ld_phase (rc_loads st ! k)) = Some e \<or> op_gave (ops ! k) e"
  using assms by (auto simp: load_step_def Let_def op_gave_def split: phase.splits prod.splits option.splits if_splits)

lemma load_step_results:
  assumes "k < length (rc_loads st)"
  shows "rc_results (load_step dead ops k st) = rc_results st
      \<and> (is_sent (ld_phase (rc_loads (load_step dead ops k st) ! k)) \<longrightarrow> load_step dead ops k st = st)
    \<or> (\<exists>r. rc_results (load_step dead ops k st) = rc_results st @ [r] \<and> lr_name r = ld_name (rc_loads st ! k)
        \<and> ld_phase (rc_loads (load_step dead ops k st) ! k) = Sent (lr_err r) \<and> \<not> is_sent (ld_phase (rc_loads st ! k)))"
  using assms by (auto simp: load_step_def Let_def split: phase.split prod.split option.split)

lemma load_step_cancelled:
  assumes "k < length (rc_loads st)"
  shows "rc_cancelled (load_step dead ops k st) \<longleftrightarrow> rc_cancelled st \<or> (\<exists>e. ld_phase (rc_loads st ! k) = Cancelling e)"
    and "failed (ld_phase (rc_loads (load_step dead ops k st) ! k)) \<longleftrightarrow>
      failed (ld_phase (rc_loads st ! k)) \<or> (\<exists>e. ld_phase (rc_loads st ! k) = Cancelling e)"
  using assms by (auto simp: load_step_def Let_def failed_def split: phase.split prod.split option.split)

lemma load_step_inv:
  assumes inv: "race_inv ops st"
  shows "race_inv ops (load_step dead ops k st)"
proof (cases "k < length (rc_loads st)")
  case False
  then show ?thesis using inv by (simp add: load_step_def)
next
  case k: True
  let ?st = "load_step dead ops k st"
  have c: "carried (ld_phase (rc_loads ?st ! j)) = Some e \<longrightarrow> op_gave (ops ! j) e" if "j < length (rc_loads st)" for j e
    using inv that load_step_carried [OF k, of dead ops e] load_step_other [of j k dead ops st]
    unfolding race_inv_def by (cases "j = k") metis+
  have r: "\<exists>j < length (rc_loads st). ld_name (rc_loads ?st ! j) = lr_name r \<and> ld_phase (rc_loads ?st ! j) = Sent (lr_err r)"
    if r: "r \<in> set (rc_results ?st)" for r
  proof (cases "r \<in> set (rc_results st)")
    case True
    with inv obtain j where j: "j < length (rc_loads st)" "ld_name (rc_loads st ! j) = lr_name r"
      "ld_phase (rc_loads st ! j) = Sent (lr_err r)" unfolding race_inv_def by blast
    then have "rc_loads ?st ! j = rc_loads st ! j" by (metis load_step_other load_step_sent)
    with j show ?thesis by metis
  next
    case False
    with r load_step_results [OF k, of dead ops] have "lr_name r = ld_name (rc_loads st ! k)"
      "ld_phase (rc_loads ?st ! k) = Sent (lr_err r)" by auto
    with k show ?thesis using load_step_name by metis
  qed
  have s: "\<exists>r \<in> set (rc_results ?st). lr_name r = ld_name (rc_loads ?st ! j) \<and> lr_err r = e"
    if j: "j < length (rc_loads st)" and e: "ld_phase (rc_loads ?st ! j) = Sent e" for j e
  proof (cases "ld_phase (rc_loads st ! j) = Sent e")
    case True
    with inv j obtain r where "r \<in> set (rc_results st)" "lr_name r = ld_name (rc_loads st ! j)" "lr_err r = e"
      unfolding race_inv_def by (metis nth_mem)
    moreover have "set (rc_results st) \<subseteq> set (rc_results ?st)" using load_step_results [OF k, of dead ops] by auto
    ultimately show ?thesis using load_step_name by (metis subsetD)
  next
    case False
    with e have "j = k" using load_step_other by metis
    with e False load_step_results [OF k, of dead ops] have "\<exists>r. rc_results ?st = rc_results st @ [r]
        \<and> lr_name r = ld_name (rc_loads st ! k) \<and> Sent (lr_err r) = Sent e" by auto
    with \<open>j = k\<close> show ?thesis by (auto simp: load_step_name)
  qed
  have f: "rc_cancelled ?st \<longleftrightarrow> (\<exists>j < length (rc_loads st). failed (ld_phase (rc_loads ?st ! j)))"
  proof -
    have "rc_cancelled st \<longleftrightarrow> (\<exists>j < length (rc_loads st). failed (ld_phase (rc_loads st ! j)))"
      using inv unfolding race_inv_def by (metis in_set_conv_nth)
    with load_step_cancelled [OF k, of dead ops] load_step_other [of _ k dead ops st] k show ?thesis by metis
  qed
  show ?thesis
    unfolding race_inv_def
    using c r s f by (simp add: all_set_conv_all_nth ex_set_conv_ex_nth)
qed

lemma race_init_inv: "race_inv ops (race_init names s)"
  by (auto simp: race_inv_def race_init_def failed_def)

lemma race_run_inv: "race_inv ops st \<Longrightarrow> race_inv ops (race_run dead ops sched st)"
  unfolding race_run_def by (induction sched arbitrary: st) (simp_all add: load_step_inv)

lemma race_run_length [simp]: "length (rc_loads (race_run dead ops sched st)) = length (rc_loads st)"
  unfolding race_run_def by (induction sched arbitrary: st) simp_all

lemma race_run_name: "ld_name (rc_loads (race_run dead ops sched st) ! j) = ld_name (rc_loads st ! j)"
  unfolding race_run_def by (induction sched arbitrary: st) (simp_all add: load_step_name)

text \<open>
  The verdict once every goroutine has sent its result: the test passes exactly when nothing
  was cancelled, and the error it reports is one the named goroutine's operation gave.
\<close>

lemma collect_named:
  "collect rs None = Some (name, e) \<Longrightarrow> \<exists>r \<in> set rs. lr_name r = name \<and> lr_err r = Some e"
  by (induction rs) (auto simp: collect_Some split: option.splits)

lemma race_verdict:
  assumes inv: "race_inv ops st" and "all_sent st"
  shows "transfer_verdict (rc_results st) = None \<longleftrightarrow> \<not> rc_cancelled st"
proof -
  have "rc_cancelled st \<longleftrightarrow> (\<exists>l \<in> set (rc_loads st). \<exists>e. ld_phase l = Sent (Some e))"
    using inv assms(2) unfolding race_inv_def all_sent_iff failed_def by (metis phase.distinct(29))
  also have "\<dots> \<longleftrightarrow> (\<exists>r \<in> set (rc_results st). lr_err r \<noteq> None)"
  proof
    assume "\<exists>l \<in> set (rc_loads st). \<exists>e. ld_phase l = Sent (Some e)"
    with inv show "\<exists>r \<in> set (rc_results st). lr_err r \<noteq> None" unfolding race_inv_def by (metis option.distinct(1))
  next
    assume "\<exists>r \<in> set (rc_results st). lr_err r \<noteq> None"
    with inv show "\<exists>l \<in> set (rc_loads st). \<exists>e. ld_phase l = Sent (Some e)"
      unfolding race_inv_def by (metis nth_mem option.exhaust)
  qed
  finally show ?thesis by (auto simp: transfer_verdict_iff)
qed

lemma race_reports:
  assumes inv: "race_inv ops st" and c: "collect (rc_results st) None = Some (name, e)"
  shows "\<exists>k < length (rc_loads st). ld_name (rc_loads st ! k) = name \<and> op_gave (ops ! k) e"
proof -
  from collect_named [OF c] inv obtain k where "k < length (rc_loads st)" "ld_name (rc_loads st ! k) = name"
    "ld_phase (rc_loads st ! k) = Sent (Some e)" unfolding race_inv_def by metis
  moreover from this inv have "op_gave (ops ! k) e" unfolding race_inv_def by (metis carried.simps(4))
  ultimately show ?thesis by blast
qed

section \<open>Ending\<close>

text \<open>
  Once the run is stopped, by the context's end or by an error, a goroutine that takes a step
  comes nearer its end: three steps of each deliver all results.
\<close>

fun rank :: "phase \<Rightarrow> nat" where
  "rank In_op = 3"
| "rank At_check = 2"
| "rank (Got e) = 2"
| "rank (Cancelling e) = 2"
| "rank (Ended r) = 1"
| "rank (Sent r) = 0"

definition dead_stays :: "('s \<Rightarrow> bool) \<Rightarrow> 's op list \<Rightarrow> bool" where
  "dead_stays dead ops \<longleftrightarrow> (\<forall>op1 \<in> set ops. \<forall>i s. dead s \<longrightarrow> dead (snd (op1 i s)))"

definition race_wf :: "'s op list \<Rightarrow> 's race \<Rightarrow> bool" where
  "race_wf ops st \<longleftrightarrow> length (rc_loads st) = length ops"

lemma load_step_stopped:
  assumes "dead_stays dead ops" and "race_wf ops st" and "stopped dead st"
  shows "stopped dead (load_step dead ops k st)" and "race_wf ops (load_step dead ops k st)"
proof -
  have "dead (snd ((ops ! k) i (rc_world st)))" if "dead (rc_world st)" "k < length (rc_loads st)" for i
    using assms(1,2) that unfolding dead_stays_def race_wf_def by simp
  then show "stopped dead (load_step dead ops k st)"
    using assms(3) by (auto simp: stopped_def load_step_def put_load_def Let_def split: phase.splits prod.splits option.splits)
      (metis snd_conv)+
  show "race_wf ops (load_step dead ops k st)" using assms(2) by (simp add: race_wf_def)
qed

lemma load_step_rank:
  assumes "k < length (rc_loads st)" and "stopped dead st"
  shows "rank (ld_phase (rc_loads (load_step dead ops k st) ! k)) \<le> rank (ld_phase (rc_loads st ! k)) - 1"
  using assms by (auto simp: load_step_def Let_def split: phase.split prod.split option.split)

lemma load_step_rank_le:
  assumes "stopped dead st"
  shows "rank (ld_phase (rc_loads (load_step dead ops k st) ! j)) \<le> rank (ld_phase (rc_loads st ! j))"
proof (cases "j = k \<and> k < length (rc_loads st)")
  case True
  with load_step_rank [of k st dead ops] assms show ?thesis by simp
next
  case False
  then have "rc_loads (load_step dead ops k st) ! j = rc_loads st ! j"
    by (cases "j = k") (simp_all add: load_step_other, simp add: load_step_def)
  then show ?thesis by simp
qed

lemma race_run_stopped:
  assumes "dead_stays dead ops" and "race_wf ops st" and "stopped dead st"
  shows "stopped dead (race_run dead ops sched st) \<and> race_wf ops (race_run dead ops sched st)"
  using assms(2,3) unfolding race_run_def
  by (induction sched arbitrary: st) (simp_all add: load_step_stopped [OF assms(1)])

text \<open>A schedule brings a goroutine down by as many ranks as it gives it steps.\<close>

lemma race_run_rank:
  assumes "dead_stays dead ops" and "race_wf ops st" and "stopped dead st" and "j < length (rc_loads st)"
  shows "rank (ld_phase (rc_loads (race_run dead ops sched st) ! j))
    \<le> rank (ld_phase (rc_loads st ! j)) - length (filter (\<lambda>k. k = j) sched)"
  using assms(2-4)
proof (induction sched arbitrary: st)
  case (Cons k sched)
  let ?st = "load_step dead ops k st"
  note step = load_step_stopped [OF assms(1) Cons.prems(1,2), of k]
  have "rank (ld_phase (rc_loads (race_run dead ops sched ?st) ! j))
      \<le> rank (ld_phase (rc_loads ?st ! j)) - length (filter (\<lambda>k. k = j) sched)"
    using Cons.IH [OF step(2,1)] Cons.prems(3) by simp
  moreover have "rank (ld_phase (rc_loads ?st ! j)) \<le> rank (ld_phase (rc_loads st ! j)) - (if k = j then 1 else 0)"
    using load_step_rank [OF _ Cons.prems(2), of k ops] load_step_rank_le [OF Cons.prems(2), of ops k j] Cons.prems(3) by auto
  ultimately show ?case by (simp add: race_run_def split: if_splits)
qed (simp add: race_run_def)

lemma rank_0: "rank p = 0 \<longleftrightarrow> (\<exists>r. p = Sent r)"
  by (cases p) auto

lemma rank_le_3: "rank p \<le> 3"
  by (cases p) auto

lemma race_ends:
  assumes "dead_stays dead ops" and "race_wf ops st" and "stopped dead st"
    and fair: "\<forall>j < length (rc_loads st). 3 \<le> length (filter (\<lambda>k. k = j) sched)"
  shows "all_sent (race_run dead ops sched st)"
proof -
  have "rank (ld_phase (rc_loads (race_run dead ops sched st) ! j)) = 0" if "j < length (rc_loads st)" for j
    using race_run_rank [OF assms(1-3) that, of sched] rank_le_3 [of "ld_phase (rc_loads st ! j)"] fair that by fastforce
  then show ?thesis
    unfolding all_sent_iff all_set_conv_all_nth by (simp add: rank_0)
qed

text \<open>One result per goroutine that is done.\<close>

definition done_loads :: "'s race \<Rightarrow> nat set" where
  "done_loads st = {k. k < length (rc_loads st) \<and> is_sent (ld_phase (rc_loads st ! k))}"

lemma load_step_done:
  assumes "length (rc_results st) = card (done_loads st)"
  shows "length (rc_results (load_step dead ops k st)) = card (done_loads (load_step dead ops k st))"
proof (cases "k < length (rc_loads st)")
  case False
  then show ?thesis using assms by (simp add: load_step_def)
next
  case k: True
  let ?st = "load_step dead ops k st"
  have others: "j \<in> done_loads ?st \<longleftrightarrow> j \<in> done_loads st" if "j \<noteq> k" for j
    using that by (simp add: done_loads_def load_step_other)
  from load_step_results [OF k, of dead ops] show ?thesis
  proof (elim disjE exE conjE)
    assume same: "rc_results ?st = rc_results st" and s: "is_sent (ld_phase (rc_loads ?st ! k)) \<longrightarrow> ?st = st"
    have "k \<in> done_loads st \<Longrightarrow> ?st = st"
      by (auto simp: done_loads_def elim!: is_sent.elims intro: load_step_sent)
    with s have "k \<in> done_loads ?st \<longleftrightarrow> k \<in> done_loads st" by (auto simp: done_loads_def)
    with others have "done_loads ?st = done_loads st" by (metis set_eqI)
    with assms same show ?thesis by simp
  next
    fix r
    assume add: "rc_results ?st = rc_results st @ [r]" and p: "ld_phase (rc_loads ?st ! k) = Sent (lr_err r)"
      and n: "\<not> is_sent (ld_phase (rc_loads st ! k))"
    from p k have "k \<in> done_loads ?st" by (simp add: done_loads_def)
    with others have "done_loads ?st = insert k (done_loads st)" by (metis insert_iff set_eqI)
    moreover have "k \<notin> done_loads st" "finite (done_loads st)" using n by (simp_all add: done_loads_def)
    ultimately show ?thesis using assms add by simp
  qed
qed

lemma race_run_done:
  "length (rc_results st) = card (done_loads st)
    \<Longrightarrow> length (rc_results (race_run dead ops sched st)) = card (done_loads (race_run dead ops sched st))"
  unfolding race_run_def by (induction sched arbitrary: st) (simp_all add: load_step_done)

section \<open>The test's verdict\<close>

text \<open>
  Whatever the interleaving, once every goroutine has delivered its result the test passes
  exactly when no goroutine cancelled the run; and an error it reports under a name is one
  that the operation of the goroutine of this name gave.
\<close>

text \<open>
  C32. Whatever the interleaving of the transfer goroutines, once each has delivered its
  result the test passes exactly when no error cancelled the run, and an error it reports
  under a name is one that the operation of that goroutine gave.
\<close>

theorem transfer_race_verdict:
  assumes "all_sent (race_run dead ops sched (race_init names s))"
  shows "(transfer_verdict (rc_results (race_run dead ops sched (race_init names s))) = None
      \<longleftrightarrow> \<not> rc_cancelled (race_run dead ops sched (race_init names s)))
    \<and> (\<forall>name e. collect (rc_results (race_run dead ops sched (race_init names s))) None = Some (name, e) \<longrightarrow>
        (\<exists>k < length names. names ! k = name \<and> op_gave (ops ! k) e))"
proof -
  let ?st = "race_run dead ops sched (race_init names s)"
  have inv: "race_inv ops ?st" by (rule race_run_inv [OF race_init_inv])
  have "length (rc_loads ?st) = length names" by (simp add: race_init_def)
  moreover have "ld_name (rc_loads ?st ! k) = names ! k" if "k < length names" for k
    using that by (simp add: race_run_name) (simp add: race_init_def)
  ultimately have "\<exists>k < length names. names ! k = name \<and> op_gave (ops ! k) e"
    if "collect (rc_results ?st) None = Some (name, e)" for name e
    using race_reports [OF inv that] by metis
  with race_verdict [OF inv assms] show ?thesis by blast
qed

text \<open>
  Once the context has ended, or an error has cancelled the run, all results are delivered by
  every continuation that gives each goroutine three steps.
\<close>

text \<open>
  C33. Once the context of the transfer stress has ended or an error has cancelled it,
  every continuation that gives each goroutine three steps delivers exactly one result per
  goroutine: the collecting loop is never left waiting.
\<close>

theorem transfer_race_ends:
  assumes "dead_stays dead ops" and "length ops = length names"
    and "stopped dead (race_run dead ops sched (race_init names s))"
    and "\<forall>j < length names. 3 \<le> length (filter (\<lambda>k. k = j) sched')"
  shows "all_sent (race_run dead ops (sched @ sched') (race_init names s))
    \<and> length (rc_results (race_run dead ops (sched @ sched') (race_init names s))) = length names"
proof -
  let ?start = "race_init names s"
  let ?mid = "race_run dead ops sched ?start"
  let ?final = "race_run dead ops (sched @ sched') ?start"
  have l: "length (rc_loads ?start) = length names" by (simp add: race_init_def)
  have app: "?final = race_run dead ops sched' ?mid" by (simp add: race_run_def)
  have "race_wf ops ?mid" using assms(2) l by (simp add: race_wf_def)
  from race_ends [OF assms(1) this assms(3)] assms(4) l have a: "all_sent ?final" by (simp add: app)
  then have "done_loads ?final = {..<length names}"
    using l by (auto simp: done_loads_def all_sent_def all_set_conv_all_nth)
  moreover have "length (rc_results ?start) = card (done_loads ?start)" by (simp add: race_init_def done_loads_def)
  ultimately show ?thesis using a race_run_done [of ?start dead ops "sched @ sched'"] by simp
qed

end
