(* ===== verification/Stress_Suite.thy ===== *)
theory Stress_Suite
  imports Transfer_Suite Load_Race Sandbox_Suite
begin

text \<open>
  The tests of the stress suite (\<^verbatim>\<open>stress_suite.go\<close>, \<^verbatim>\<open>stress_sandbox_linux.go\<close>) on Linux: the
  run loop inside a test, one shim lifecycle per iteration, concurrent execs against one shim
  with its memory watched, the transfer workloads, and churn of member containers in one
  sandbox with its memory and its mounts watched.
\<close>

section \<open>The machine and the options\<close>

text \<open>
  \<open>ss_deadline\<close> is the test binary's own deadline on the monotonic clock, if it has one.
  \<open>ss_order i\<close> is the order in which the execs of iteration \<open>i\<close> run and finish, \<open>ss_ticks i\<close>
  the number of times the memory sampler fires before it, \<open>ss_sched\<close> the interleaving of the
  transfer goroutines.
\<close>

record 's stresslab =
  ss_sand :: "'s sandlab"
  ss_transfer :: "nat \<Rightarrow> 's transfer"
  ss_probe :: "nat \<Rightarrow> 's \<Rightarrow> goerr option \<times> 's"
  ss_rig :: "'s exec_rig"
  ss_short :: bool
  ss_deadline :: "int option"
  ss_cancelled :: "'s \<Rightarrow> bool"
  ss_intN :: "nat \<Rightarrow> nat \<Rightarrow> nat"
  ss_order :: "nat \<Rightarrow> nat list"
  ss_ticks :: "nat \<Rightarrow> nat"
  ss_sched :: "'s \<Rightarrow> nat list"

abbreviation ss_lab :: "'s stresslab \<Rightarrow> 's lab" where
  "ss_lab sx \<equiv> sl_lab (ss_sand sx)"

definition on_stress_lab :: "'s stresslab \<Rightarrow> 's lab \<Rightarrow> 's stresslab" where
  "on_stress_lab sx lab = sx\<lparr>ss_sand := (ss_sand sx)\<lparr>sl_lab := lab\<rparr>\<rparr>"

record stressOptions =
  so_transfer :: bool
  so_sandbox :: bool
  so_execRSS :: int
  so_sandboxRSS :: int

section \<open>Bounded runs\<close>

definition stressSoakBuffer :: int where
  "stressSoakBuffer = 60 * 10 ^ 9"

definition stressCtx :: "'s stresslab \<Rightarrow> ('s, unit) test" where
  "stressCtx sx =
     (case ss_deadline sx of
        None \<Rightarrow> ret ()
      | Some d \<Rightarrow> andThen (act (\<lambda>s. (d - lb_clock (ss_lab sx) s, s))) (\<lambda>remaining.
          if remaining < stressSoakBuffer
          then skip (''skipping: stress needs at least 1m0s before -test.timeout, only '' @ itoa remaining @ ''ns left'')
          else ret ()))"

text \<open>The context it derives has ended when its parent has, or a minute before the deadline.\<close>

definition stress_done :: "'s stresslab \<Rightarrow> 's \<Rightarrow> bool" where
  "stress_done sx s \<longleftrightarrow> ss_cancelled sx s
     \<or> (case ss_deadline sx of None \<Rightarrow> False | Some d \<Rightarrow> d - stressSoakBuffer \<le> lb_clock (ss_lab sx) s)"

text \<open>
  runStress with an operation that may itself end the test: the loop's state carries what the
  operations recorded and registered, and the fatal failure or the skip that ended it. A run that never returns is
  ended by the test binary's own timeout.
\<close>

record 'u stress_run =
  sr_calls :: nat
  sr_world :: 'u
  sr_stop :: "(bool \<times> string) option"
  sr_errs :: "string list"
  sr_cleanups :: "'u closing list"

definition stress_op :: "(nat \<Rightarrow> ('u, goerr option) test) \<Rightarrow> 'u stress_run \<Rightarrow> goerr option \<times> 'u stress_run" where
  "stress_op fn r = (let i = Suc (sr_calls r) in
     case fn i (sr_world r) of (x, es, cs, u) \<Rightarrow>
       let next1 = (\<lambda>st. \<lparr>sr_calls = i, sr_world = u, sr_stop = st, sr_errs = sr_errs r @ es, sr_cleanups = cs @ sr_cleanups r\<rparr>)
       in case x of
         Returned e \<Rightarrow> (e, next1 (sr_stop r))
       | FatalStop m \<Rightarrow> (Some (OtherErr m), next1 (Some (True, m)))
       | SkipStop m \<Rightarrow> (Some (OtherErr m), next1 (Some (False, m))))"

definition run_stress ::
    "('u \<Rightarrow> bool) \<Rightarrow> (nat \<Rightarrow> ('u, goerr option) test) \<Rightarrow> ('u, nat \<times> goerr option) test" where
  "run_stress dead fn s =
     (case runStress False (\<lambda>r. dead (sr_world r)) (stress_op fn)
         \<lparr>sr_calls = 0, sr_world = s, sr_stop = None, sr_errs = [], sr_cleanups = []\<rparr> of
        None \<Rightarrow> (FatalStop ''panic: test timed out'', [], [], s)
      | Some (iters, e, r) \<Rightarrow>
          (case sr_stop r of None \<Rightarrow> Returned (iters, e)
             | Some (isFatal, m) \<Rightarrow> if isFatal then FatalStop m else SkipStop m, sr_errs r, sr_cleanups r, sr_world r))"

text \<open>A test over a pair, run beside a state of its own that starts as given.\<close>

definition beside :: "'e \<Rightarrow> ('s \<times> 'e, 'a) test \<Rightarrow> ('s, 'a) test" where
  "beside e m s =
     (case m (s, e) of (r, es, cs, (s1, e1)) \<Rightarrow>
       (r, es, [\<lambda>s. case run_closings cs (s, e1) of (out, (s2, e2)) \<Rightarrow> (out, s2)], s1))"

section \<open>Lifecycles\<close>

text \<open>
  \<^verbatim>\<open>t.Run\<close> of a body that gives an error: the subtest fails with it, and the error is what the
  iteration returns, unless a helper ended the subtest first, when it returns none.
\<close>

definition reported_subtest :: "string \<Rightarrow> ('s, goerr option) test \<Rightarrow> ('s, goerr option) test" where
  "reported_subtest name m s =
     (case finish (andThen m (\<lambda>e. case e of None \<Rightarrow> ret () | Some x \<Rightarrow> fatal (err_text x))) s of
        (v, s2) \<Rightarrow>
          (Returned (if v = Failed then (case m s of (Returned e, es, cs, t) \<Rightarrow> e | _ \<Rightarrow> None) else None),
           if v = Failed then [name] else [], [], s2))"

definition full_lifecycle :: "'s lab \<Rightarrow> config \<Rightarrow> ('s, goerr option) test" where
  "full_lifecycle lab cfg =
     andThen (bring_up lab cfg ''stress'' [''/bin/echo'', ''hello''] []) (\<lambda>u.
     deferred (lb_close lab (up_conn u)) (
       andThen (newTaskClient lab (up_conn u) (up_version u)) (\<lambda>tc.
       andThen (drain_both lab u) (\<lambda>x.
       andThen (newCreateTaskRequest lab (up_cid u) (up_bundle u) (up_out u) (up_err u) (up_mounts u)) (\<lambda>r.
       act (\<lambda>s. let res = doFullLifecycle tc r (\<lambda>t. map Shows (fst (lb_readings lab (up_out u) t))) 0 s in
         (map_option OtherErr (fst res), snd (snd res))))))))"

definition iter_name :: "string \<Rightarrow> nat \<Rightarrow> string" where
  "iter_name label i = label @ dec_pad 5 i"

definition lifecycle_op :: "'s stresslab \<Rightarrow> config \<Rightarrow> nat \<Rightarrow> ('s, goerr option) test" where
  "lifecycle_op sx cfg i = (let name = iter_name ''iter'' i in
     reported_subtest name (full_lifecycle (in_subtest (ss_lab sx) name) cfg))"

definition testLifecycleStress :: "'s stresslab \<Rightarrow> config \<Rightarrow> ('s, unit) test" where
  "testLifecycleStress sx cfg =
     andThen (stressCtx sx) (\<lambda>u.
     andThen (run_stress (stress_done sx) (lifecycle_op sx cfg)) (\<lambda>(iters, e).
     case e of None \<Rightarrow> ret () | Some x \<Rightarrow> fatal (''lifecycle: '' @ err_text x)))"

section \<open>Execs\<close>

text \<open>The rig of the exec helpers on the environment's client and container.\<close>

definition env_rig :: "'s stresslab \<Rightarrow> 's shimEnv \<Rightarrow> 's exec_rig" where
  "env_rig sx env = (ss_rig sx)\<lparr>x_svc := env_tc env, x_cid := env_cid env\<rparr>"

definition run_kind :: "'s exec_rig \<Rightarrow> exec_kind \<Rightarrow> bytes \<Rightarrow> string \<Rightarrow> nat \<Rightarrow> 's \<Rightarrow> err option \<times> 's" where
  "run_kind x kind echoSpec eid size1 s =
     (case kind of
        KindEcho \<Rightarrow> runOneExec x eid echoSpec s
      | KindBurstexit \<Rightarrow> runExecBurstexit x eid size1 s
      | KindRoundTrip \<Rightarrow> runExecRoundTrip x eid size1 s)"

text \<open>The execs of an iteration, one goroutine each, in the order they run and finish.\<close>

fun run_execs :: "(nat \<Rightarrow> 's \<Rightarrow> err option \<times> 's) \<Rightarrow> nat list \<Rightarrow> 's \<Rightarrow> goerr option list \<times> 's" where
  "run_execs exec1 [] s = ([], s)"
| "run_execs exec1 (j # js) s =
     (case exec1 j s of (e, s1) \<Rightarrow>
       (case run_execs exec1 js s1 of (es, s2) \<Rightarrow> (map_option OtherErr e # es, s2)))"

definition exec_iteration :: "'s stresslab \<Rightarrow> 's exec_rig \<Rightarrow> bytes \<Rightarrow> nat \<Rightarrow> 's \<Rightarrow> goerr option \<times> 's" where
  "exec_iteration sx x echoSpec i s =
     (let sizes = iteration_sizes (ss_intN sx) i in
      case run_execs (\<lambda>j. run_kind x (kind_of i) echoSpec (exec_id i j) (sizes ! j)) (ss_order sx i) s of
        (finished, s1) \<Rightarrow> (first_error finished, s1))"

text \<open>
  The readings of guest memory, by the test and by the sampler beside it, each under the next
  number; their results are only logged.
\<close>

definition guest_reading :: "'s exec_rig \<Rightarrow> ('s \<times> nat, int result) test" where
  "guest_reading x =
     andThen (on_env Suc) (\<lambda>u.
     act (\<lambda>(s, n). case readGuestMem x (''guestmem-'' @ dec n) s of (r, s1) \<Rightarrow> (r, (s1, n))))"

definition sampled_iteration ::
    "'s stresslab \<Rightarrow> 's exec_rig \<Rightarrow> bytes \<Rightarrow> nat \<Rightarrow> ('s \<times> nat, goerr option) test" where
  "sampled_iteration sx x echoSpec i =
     andThen (inOrder (replicate (ss_ticks sx i) (andThen (guest_reading x) (\<lambda>r. ret ())))) (\<lambda>u.
     inner (act (exec_iteration sx x echoSpec i)))"

definition host_rss :: "'s lab \<Rightarrow> int \<Rightarrow> ('s, int result) test" where
  "host_rss lab pid = act (\<lambda>s. (readRSS (lb_procfs lab s) pid, s))"

definition exec_churn :: "'s stresslab \<Rightarrow> stressOptions \<Rightarrow> 's shimEnv \<Rightarrow> int \<Rightarrow> ('s \<times> nat, unit) test" where
  "exec_churn sx opts env rssBefore = (let x = env_rig sx env in
     andThen (guest_reading x) (\<lambda>guestBefore.
     andThen (inner (must ''marshal exec spec: '' (\<lambda>s. (x_spec x [''/bin/echo'', ''execstress''], s)))) (\<lambda>echoSpec.
     andThen (inner (stressCtx sx)) (\<lambda>u.
     andThen (run_stress (\<lambda>se. stress_done sx (fst se)) (sampled_iteration sx x echoSpec)) (\<lambda>(iters, runErr).
     andThen (inner (host_rss (ss_lab sx) (env_shimPID env))) (\<lambda>rssAfter.
     andThen (guest_reading x) (\<lambda>guestAfter.
     case runErr of
       Some e \<Rightarrow> fatal (''exec stress: '' @ err_text e)
     | None \<Rightarrow> (case rss_verdict ''linux'' (so_execRSS opts) rssBefore rssAfter of
         None \<Rightarrow> ret () | Some m \<Rightarrow> errorf m))))))))"

definition shutdown_deferred :: "'s shimEnv \<Rightarrow> ('s, 'a) test \<Rightarrow> ('s, 'a) test" where
  "shutdown_deferred env = deferred (\<lambda>s. case shutdownShim env s of (r, es, cs, t) \<Rightarrow> t)"

definition testExecStress :: "'s stresslab \<Rightarrow> stressOptions \<Rightarrow> config \<Rightarrow> ('s, unit) test" where
  "testExecStress sx opts cfg =
     andThen (newShimEnv (ss_lab sx) cfg ''stress'') (\<lambda>env. shutdown_deferred env (
       andThen (if env_shimPID env = 0
         then skip ''skipping: shim pid not available, RSS monitoring unavailable'' else ret ()) (\<lambda>u.
       andThen (host_rss (ss_lab sx) (env_shimPID env)) (\<lambda>r.
       case r of
         Inl e \<Rightarrow> skip (''cannot read shim RSS: '' @ e)
       | Inr rssBefore \<Rightarrow> beside 0 (exec_churn sx opts env rssBefore)))))"

section \<open>Transfers\<close>

definition race_ops :: "'s loads \<Rightarrow> 's op list" where
  "race_ops l = [\<lambda>i. stat_op l, write_op l, read_op l]"

definition race_names :: "string list" where
  "race_names = [''stat'', ''write'', ''read'']"

definition run_race :: "'s stresslab \<Rightarrow> 's loads \<Rightarrow> ('s, load_result list) test" where
  "run_race sx l s =
     (let st = race_run (stress_done sx) (race_ops l) (ss_sched sx s) (race_init race_names s) in
      if all_sent st then (Returned (rc_results st), [], [], rc_world st)
      else (FatalStop ''panic: test timed out'', [], [], rc_world st))"

definition testTransferStress :: "'s stresslab \<Rightarrow> config \<Rightarrow> ('s, unit) test" where
  "testTransferStress sx cfg =
     andThen (newShimEnv (ss_lab sx) cfg ''stress'') (\<lambda>env.
     andThen (skip_if_no_transfer \<lparr>xl_lab = ss_lab sx, xl_transfer = ss_transfer sx, xl_probe = ss_probe sx\<rparr> env) (\<lambda>u.
     shutdown_deferred env (let l = loads_of (ss_transfer sx (env_conn env)) (env_cid env) in
       andThen (stressCtx sx) (\<lambda>u.
       andThen (must_do [] (setup_read_pool l)) (\<lambda>u.
       andThen (run_race sx l) (\<lambda>rs.
       case transfer_verdict rs of None \<Rightarrow> ret () | Some m \<Rightarrow> fatal m))))))"

section \<open>Sandbox churn\<close>

definition stressSandboxConcurrency :: nat where
  "stressSandboxConcurrency = 3"

definition stressSandboxMaxRSSGrowth :: int where
  "stressSandboxMaxRSSGrowth = 512 * 1024 * 1024"

text \<open>
  A burst of members. The first creation that fails ends the iteration and leaves the earlier
  members of the burst tracked; the waits, one goroutine each, are taken in creation order.
\<close>

fun create_burst ::
    "'s sandlab \<Rightarrow> 's sandbox \<Rightarrow> config \<Rightarrow> shimImages \<Rightarrow> string \<Rightarrow> string \<Rightarrow> nat list
      \<Rightarrow> ('s \<times> senv, goerr + string list) test" where
  "create_burst sl sb cfg imgs pre name [] = ret (Inr [])"
| "create_burst sl sb cfg imgs pre name (j # js) =
     andThen (createSandboxContainerFast sl sb cfg imgs pre [''/bin/echo'', name @ ''-j'' @ dec j]) (\<lambda>r.
     case r of
       Inl e \<Rightarrow> ret (Inl (OtherErr (''create '' @ dec j @ '': '' @ e)))
     | Inr cid \<Rightarrow>
         andThen (create_burst sl sb cfg imgs pre name js) (\<lambda>rs.
         ret (case rs of Inl e \<Rightarrow> Inl e | Inr cids \<Rightarrow> Inr (cid # cids))))"

definition wait_result :: "string \<Rightarrow> resp option result \<Rightarrow> goerr option" where
  "wait_result cid r =
     (case r of
        Inl e \<Rightarrow> Some (OtherErr (''wait '' @ cid @ '': '' @ e))
      | Inr a \<Rightarrow> if got_exit a \<noteq> 0
          then Some (OtherErr (''container '' @ cid @ '' exited with status '' @ dec (got_exit a))) else None)"

fun wait_burst :: "'s service \<Rightarrow> string list \<Rightarrow> 's \<Rightarrow> goerr option list \<times> 's" where
  "wait_burst tc [] s = ([], s)"
| "wait_burst tc (cid # cids) s =
     (case call_result tc (Wait cid []) s of (r, s1) \<Rightarrow>
       (case wait_burst tc cids s1 of (es, s2) \<Rightarrow> (wait_result cid r # es, s2)))"

fun release_burst :: "'s service \<Rightarrow> string list \<Rightarrow> ('s \<times> senv, goerr option) test" where
  "release_burst tc [] = ret None"
| "release_burst tc (cid # cids) =
     andThen (releaseSandboxContainer tc cid) (\<lambda>e.
     case e of Some x \<Rightarrow> ret (Some (OtherErr (''delete '' @ cid @ '': '' @ x))) | None \<Rightarrow> release_burst tc cids)"

definition sandbox_iteration ::
    "'s sandlab \<Rightarrow> 's sandbox \<Rightarrow> config \<Rightarrow> shimImages \<Rightarrow> string \<Rightarrow> nat \<Rightarrow> ('s \<times> senv, goerr option) test" where
  "sandbox_iteration sl sb cfg imgs pre i =
     andThen (create_burst sl sb cfg imgs pre (iter_name ''sbiter'' i) [0..<stressSandboxConcurrency]) (\<lambda>r.
     case r of
       Inl e \<Rightarrow> ret (Some e)
     | Inr cids \<Rightarrow>
         andThen (inner (act (wait_burst (sb_tc sb) cids))) (\<lambda>errs.
         case first_error errs of Some e \<Rightarrow> ret (Some e) | None \<Rightarrow> release_burst (sb_tc sb) cids))"

text \<open>The rootfs extracted once where the shim cannot mount the images itself.\<close>

definition extract_once :: "'s lab \<Rightarrow> config \<Rightarrow> shimImages \<Rightarrow> ('s, string) test" where
  "extract_once lab cfg imgs =
     (if \<not> formatMounts cfg \<or> h_uid (lb_host lab) \<noteq> 0 then
        andThen (act (h_tempdir (lb_host lab))) (\<lambda>dir.
        andThen (must_do [] (extractErofsIntoDir (lb_host lab) (erofsImg imgs) dir)) (\<lambda>u. ret dir))
      else ret [])"

definition sandbox_rss_ok :: "int \<Rightarrow> int \<Rightarrow> int result \<Rightarrow> bool" where
  "sandbox_rss_ok override rssBefore now1 \<longleftrightarrow>
     (case now1 of Inl e \<Rightarrow> True
      | Inr rssAfter \<Rightarrow> rssAfter - rssBefore \<le> (if 0 < override then override else stressSandboxMaxRSSGrowth))"

definition sandbox_churn ::
    "'s stresslab \<Rightarrow> stressOptions \<Rightarrow> config \<Rightarrow> shimImages \<Rightarrow> string \<Rightarrow> 's sandbox \<Rightarrow> ('s \<times> senv, unit) test" where
  "sandbox_churn sx opts cfg imgs pre sb = (let sl = ss_sand sx; lab = ss_lab sx in
     andThen (createContainerInSandbox sl sb [''/bin/echo'', ''probe''] []) (\<lambda>probe.
     andThen (readContainerOutput sl probe ''probe'') (\<lambda>got.
     andThen (try_call sb (Wait probe [])) (\<lambda>u.
     andThen (inner (act (\<lambda>s. (sandboxShimPID sl sb probe s, s)))) (\<lambda>pid.
     andThen (releaseSandboxContainer (sb_tc sb) probe) (\<lambda>e.
     andThen (if pid = 0 then ret None
       else andThen (inner (host_rss lab pid)) (\<lambda>r. ret (case r of Inl e \<Rightarrow> None | Inr v \<Rightarrow> Some v))) (\<lambda>rssBefore.
     andThen (inner (stressCtx sx)) (\<lambda>u.
     andThen (run_stress (\<lambda>se. stress_done sx (fst se)) (sandbox_iteration sl sb cfg imgs pre)) (\<lambda>(iters, runErr).
     andThen (case runErr of None \<Rightarrow> ret () | Some x \<Rightarrow> fatal (''sandbox stress: '' @ err_text x)) (\<lambda>u.
     andThen (case rssBefore of None \<Rightarrow> ret ()
       | Some v \<Rightarrow> andThen (inner (host_rss lab pid)) (\<lambda>r.
           expect ''shim RSS grew during sandbox stress; possible per-container memory leak''
             (sandbox_rss_ok (so_sandboxRSS opts) v r))) (\<lambda>u.
     andThen (tell sb (StopSandbox (sb_id sb))) (\<lambda>u.
     andThen (tell sb (ShutdownSandbox (sb_id sb))) (\<lambda>u.
     andThen (inner (act (\<lambda>s. (sandboxContainersMounts sl pid s, s)))) (\<lambda>mountsAfter.
     expect (''sandbox stress: '' @ dec (length mountsAfter)
       @ '' per-container mount(s) leaked after ShutdownSandbox'') (mountsAfter = [])))))))))))))))"

definition testSandboxStress :: "'s stresslab \<Rightarrow> stressOptions \<Rightarrow> config \<Rightarrow> ('s, unit) test" where
  "testSandboxStress sx opts cfg = (let lab = ss_lab sx in
     if ss_short sx then skip ''skipping sandbox stress in short mode''
     else andThen (must [] (buildShimImages (lb_host lab) (lb_bigfile lab) (formatMounts cfg))) (\<lambda>imgs.
       andThen (extract_once lab cfg imgs) (\<lambda>pre.
       andThen (container_id lab) (\<lambda>sid.
       beside no_members (andThen (startSandboxShim (ss_sand sx) cfg sid) (sandbox_churn sx opts cfg imgs pre))))))"

section \<open>The suite\<close>

definition stress_tests ::
    "'s stresslab \<Rightarrow> stressOptions \<Rightarrow> (string \<times> ('s lab \<Rightarrow> config \<Rightarrow> ('s, unit) test)) list" where
  "stress_tests sx opts =
     [(''Lifecycle'', \<lambda>lab. testLifecycleStress (on_stress_lab sx lab)),
      (''Exec'', \<lambda>lab. testExecStress (on_stress_lab sx lab) opts)]
     @ (if so_transfer opts then [(''Transfer'', \<lambda>lab. testTransferStress (on_stress_lab sx lab))] else [])
     @ (if so_sandbox opts then [(''Sandbox'', \<lambda>lab. testSandboxStress (on_stress_lab sx lab) opts)] else [])"

definition stress_suite :: "'s stresslab \<Rightarrow> stressOptions \<Rightarrow> config \<Rightarrow> ('s, unit) test" where
  "stress_suite sx opts cfg =
     (if ss_short sx then skip ''skipping stress test in short mode''
      else suite_run (ss_lab sx) cfg (stress_tests sx opts))"

section \<open>Clean runs\<close>

lemma passes_beside [passes_simps]:
  "passes (beside e m) s a s' \<longleftrightarrow> (\<exists>e'. passes m (s, e) a (s', e'))"
  by (auto simp: passes_def beside_def split: prod.splits)

lemma passes_case_skip [passes_simps]:
  "passes (case r of Inl x \<Rightarrow> skip (m x) | Inr v \<Rightarrow> f v) s a s' \<longleftrightarrow> (\<exists>v. r = Inr v \<and> passes (f v) s a s')"
  by (cases r) (simp_all add: passes_skip)

lemma passes_case_sum:
  "passes (case r of Inl x \<Rightarrow> f x | Inr v \<Rightarrow> g v) s a s' \<longleftrightarrow>
     (\<exists>x. r = Inl x \<and> passes (f x) s a s') \<or> (\<exists>v. r = Inr v \<and> passes (g v) s a s')"
  by (cases r) simp_all

lemma passes_case_option:
  "passes (case r of None \<Rightarrow> f | Some v \<Rightarrow> g v) s a s' \<longleftrightarrow>
     r = None \<and> passes f s a s' \<or> (\<exists>v. r = Some v \<and> passes (g v) s a s')"
  by (cases r) simp_all

lemma Inr_case: "Inr v = (case r of Inl x \<Rightarrow> Inl x | Inr c \<Rightarrow> Inr (f c)) \<longleftrightarrow> (\<exists>c. r = Inr c \<and> v = f c)"
  by (cases r) auto

lemma passes_stressCtx [passes_simps]:
  "passes (stressCtx sx) s u s' \<longleftrightarrow>
     s' = s \<and> (case ss_deadline sx of None \<Rightarrow> True | Some d \<Rightarrow> stressSoakBuffer \<le> d - lb_clock (ss_lab sx) s)"
  by (auto simp: stressCtx_def passes_simps split: option.split)

text \<open>A context just derived has not ended by its deadline already, except at the very bound.\<close>

lemma stressCtx_alive:
  assumes "passes (stressCtx sx) s u s'" and "\<not> ss_cancelled sx s" and "ss_deadline sx = Some d"
    and "d - lb_clock (ss_lab sx) s \<noteq> stressSoakBuffer"
  shows "\<not> stress_done sx s"
  using assms by (auto simp: passes_stressCtx stress_done_def)

lemma stress_op_errs: "prefix (sr_errs r) (sr_errs (snd (stress_op fn r)))"
  by (auto simp: stress_op_def Let_def split: prod.split stop.split)

text \<open>
  In a run that recorded no error the iterations counted are the calls from the first on, each
  begun before the context had ended, clean and without an error; the run ends with the
  context, or with the error of the next call, begun and ended while the context was alive.
\<close>

lemma stress_op_counted:
  assumes "stress_op fn r = (None, r')" and "sr_errs r' = []"
  shows "sr_errs r = [] \<and> sr_calls r' = Suc (sr_calls r) \<and> sr_stop r' = sr_stop r
    \<and> passes (fn (Suc (sr_calls r))) (sr_world r) None (sr_world r')"
  using assms by (auto simp: stress_op_def Let_def passes_def split: prod.splits stop.splits)

lemma stress_op_next:
  assumes "stress_op fn r = (Some x, r')" and "sr_errs r' = []"
  shows "sr_errs r = [] \<and> (sr_stop r' = None \<longrightarrow> passes (fn (Suc (sr_calls r))) (sr_world r) (Some x) (sr_world r'))"
  using assms by (auto simp: stress_op_def Let_def passes_def split: prod.splits stop.splits)

definition iteration_ok :: "('u \<Rightarrow> bool) \<Rightarrow> (nat \<Rightarrow> ('u, goerr option) test) \<Rightarrow> nat \<Rightarrow> bool" where
  "iteration_ok dead fn k \<longleftrightarrow> (\<exists>t t'. \<not> dead t \<and> passes (fn k) t None t')"

definition run_ended ::
    "('u \<Rightarrow> bool) \<Rightarrow> (nat \<Rightarrow> ('u, goerr option) test) \<Rightarrow> nat \<Rightarrow> goerr option \<Rightarrow> 'u \<Rightarrow> bool" where
  "run_ended dead fn k e s' \<longleftrightarrow>
     (case e of None \<Rightarrow> dead s' | Some x \<Rightarrow> \<not> dead s' \<and> (\<exists>t. \<not> dead t \<and> passes (fn k) t (Some x) s'))"

lemma stress_loop_counted:
  fixes r :: "'a stress_run"
  assumes "stress_loop False (\<lambda>r :: 'a stress_run. dead (sr_world r)) (stress_op fn) i r = Some (n, e, r')" and "sr_errs r' = []"
  shows "i \<le> n \<and> sr_errs r = [] \<and> (\<forall>k. sr_calls r < k \<and> k \<le> sr_calls r + (n - i) \<longrightarrow> iteration_ok dead fn k)
    \<and> (sr_stop r' = None \<longrightarrow> run_ended dead fn (Suc (sr_calls r + (n - i))) e (sr_world r'))"
proof -
  let ?Q = "\<lambda>(i :: nat) (r :: 'a stress_run) n e (r' :: 'a stress_run). i \<le> n \<and> sr_errs r = []
    \<and> (\<forall>k. sr_calls r < k \<and> k \<le> sr_calls r + (n - i) \<longrightarrow> iteration_ok dead fn k)
    \<and> (sr_stop r' = None \<longrightarrow> run_ended dead fn (Suc (sr_calls r + (n - i))) e (sr_world r'))"
  let ?P = "\<lambda>vm d f (i :: nat) (r :: 'a stress_run) res. vm = False \<longrightarrow> d = (\<lambda>r :: 'a stress_run. dead (sr_world r)) \<longrightarrow> f = stress_op fn \<longrightarrow>
    (\<forall>n e r'. res = (n :: nat, e :: goerr option, r' :: 'a stress_run) \<longrightarrow> sr_errs r' = [] \<longrightarrow> ?Q i r n e r')"
  have "?P False (\<lambda>r :: 'a stress_run. dead (sr_world r)) (stress_op fn) i r (n, e, r')"
  proof (rule stress_loop.raw_induct [OF _ assms(1), where P = ?P])
    fix loop vm d f i and r :: "'a stress_run" and res
    assume IH: "\<And>vm d f i r res. loop vm d f i r = Some res \<Longrightarrow> ?P vm d f i r res"
      and body: "(if d r then Some (i, None, r)
        else case f r of (None, s1) \<Rightarrow> loop vm d f (Suc i) s1
          | (Some e, s1) \<Rightarrow> if d s1 then Some (i, None, s1)
              else if vm \<and> err_is e DeadlineExceeded then loop vm d f i s1 else Some (i, Some e, s1)) = Some res"
    show "?P vm d f i r res"
    proof (intro impI allI)
      fix n e r'
      assume v: "vm = False" "d = (\<lambda>r :: 'a stress_run. dead (sr_world r))" "f = stress_op fn" and res: "res = (n, e, r')" and es: "sr_errs r' = []"
      show "?Q i r n e r'"
      proof (cases "dead (sr_world r)")
        case True
        with body v res es show ?thesis by (auto simp: run_ended_def)
      next
        case alive: False
        obtain x r1 where op: "stress_op fn r = (x, r1)" by (cases "stress_op fn r")
        show ?thesis
        proof (cases x)
          case None
          with body alive v op have l: "loop False d f (Suc i) r1 = Some res" by simp
          from IH [OF l] v res es have ih: "?Q (Suc i) r1 n e r'" by blast
          then have "sr_errs r1 = []" by blast
          note c = stress_op_counted [OF op [unfolded None] this]
          then have "iteration_ok dead fn (Suc (sr_calls r))" using alive by (auto simp: iteration_ok_def)
          then have "iteration_ok dead fn k" if "sr_calls r < k" "k \<le> sr_calls r + (n - i)" for k
            using ih c that by (cases "k = Suc (sr_calls r)") auto
          moreover from ih c have "sr_calls r1 + (n - Suc i) = sr_calls r + (n - i)" by auto
          ultimately show ?thesis using ih c by auto
        next
          case (Some y)
          with body alive v op res have "n = i" "r1 = r'" "e = (if dead (sr_world r1) then None else Some y)"
            by (auto split: if_splits)
          with stress_op_next [OF op [unfolded Some]] es alive show ?thesis by (auto simp: run_ended_def)
        qed
      qed
    qed
  qed
  with assms(2) show ?thesis by blast
qed

lemma run_stress_calls:
  assumes "passes (run_stress dead fn) s (iters, e) s'"
  shows "(\<forall>k. 0 < k \<and> k \<le> iters \<longrightarrow> iteration_ok dead fn k) \<and> run_ended dead fn (Suc iters) e s'"
proof -
  let ?r = "\<lparr>sr_calls = 0, sr_world = s, sr_stop = None, sr_errs = [], sr_cleanups = []\<rparr>"
  from assms obtain n x r where l: "stress_loop False (\<lambda>r. dead (sr_world r)) (stress_op fn) 0 ?r = Some (n, x, r)"
    and r: "sr_errs r = []" "sr_stop r = None" "sr_world r = s'" "n = iters" "x = e"
    by (auto simp: run_stress_def passes_def runStress_def split: option.splits prod.splits if_splits)
  from stress_loop_counted [OF l r(1)] r show ?thesis by simp
qed


section \<open>What the tests say\<close>

lemma passes_reported_subtest:
  "passes (reported_subtest name m) s e s' \<longleftrightarrow>
     e = None \<and> (\<exists>v. finish (andThen m (\<lambda>e. case e of None \<Rightarrow> ret () | Some x \<Rightarrow> fatal (err_text x))) s = (v, s') \<and> v \<noteq> Failed)"
  by (auto simp: passes_def reported_subtest_def split: prod.split)

text \<open>An iteration whose subtest passed ran the whole lifecycle without an error of its own.\<close>

lemma reported_subtest_passed:
  assumes "finish (andThen m (\<lambda>e. case e of None \<Rightarrow> ret () | Some x \<Rightarrow> fatal (err_text x))) s = (Passed, s')"
  shows "\<exists>t. passes m s None t"
proof -
  from finish_passed [OF assms] obtain a t where
    "passes (andThen m (\<lambda>e. case e of None \<Rightarrow> ret () | Some x \<Rightarrow> fatal (err_text x))) s a t" by blast
  then show ?thesis by (auto simp: passes_simps split: option.splits)
qed

lemma doFullLifecycle_clean:
  assumes "doFullLifecycle tc r polls n s = (None, closed, s')"
  shows "\<exists>s1 s2 got. run_rpcs tc [(''create'', r), (''start'', Start (rq_id r) [])] s = (None, s1)
    \<and> Shows got \<in> set (polls s1) \<and> str_contains got ''hello''
    \<and> run_rpcs tc [(''wait'', Wait (rq_id r) []), (''delete'', Delete (rq_id r) [])] s1 = (None, s2)
    \<and> snd (tc (Shutdown (rq_id r) False) s2) = s'"
proof -
  from assms obtain s1 where c: "run_rpcs tc [(''create'', r), (''start'', Start (rq_id r) [])] s = (None, s1)"
    and a: "await_output ''hello'' (polls s1) = None" and e: "lifecycle_end tc (rq_id r) n s1 = (None, closed, s')"
    by (auto simp: doFullLifecycle_def Let_def split: prod.splits option.splits)
  from await_output_ok [OF a] lifecycle_end_ok [OF e] c show ?thesis by blast
qed

lemma full_lifecycle_clean:
  assumes "passes (full_lifecycle lab cfg) s None s'"
  shows "\<exists>(u :: up) t0 tc r t s1 s2 got. passes (bring_up lab cfg ''stress'' [''/bin/echo'', ''hello''] []) s u t0
    \<and> taskClientForVersion (lb_task2 lab (up_conn u)) (lb_task3 lab (up_conn u)) (up_version u) = Some tc
    \<and> run_rpcs tc [(''create'', r), (''start'', Start (rq_id r) [])] t = (None, s1)
    \<and> got \<in> set (fst (lb_readings lab (up_out u) s1)) \<and> str_contains got ''hello''
    \<and> run_rpcs tc [(''wait'', Wait (rq_id r) []), (''delete'', Delete (rq_id r) [])] s1 = (None, s2)"
proof -
  from assms obtain u :: up and t0 tc r t closed t1 where b: "passes (bring_up lab cfg ''stress'' [''/bin/echo'', ''hello''] []) s u t0"
    and c: "taskClientForVersion (lb_task2 lab (up_conn u)) (lb_task3 lab (up_conn u)) (up_version u) = Some tc"
    and d: "doFullLifecycle tc r (\<lambda>t. map Shows (fst (lb_readings lab (up_out u) t))) 0 t = (None, closed, t1)"
    by (auto simp: full_lifecycle_def passes_simps Let_def) (metis prod.collapse)
  from doFullLifecycle_clean [OF d] obtain s1 s2 got where
    "run_rpcs tc [(''create'', r), (''start'', Start (rq_id r) [])] t = (None, s1)"
    "Shows got \<in> Shows ` set (fst (lb_readings lab (up_out u) s1))" "str_contains got ''hello''"
    "run_rpcs tc [(''wait'', Wait (rq_id r) []), (''delete'', Delete (rq_id r) [])] s1 = (None, s2)" by auto
  with b c show ?thesis by blast
qed

text \<open>
  The lifecycle stress passes only if every iteration it counted, each with its own number, was
  begun before the context had ended and its subtest did not fail.
\<close>

lemma testLifecycleStress_contract:
  assumes "passes (testLifecycleStress sx cfg) s u s'"
  shows "\<exists>iters. passes (run_stress (stress_done sx) (lifecycle_op sx cfg)) s (iters, None) s'
    \<and> (\<forall>k. 0 < k \<and> k \<le> iters \<longrightarrow> iteration_ok (stress_done sx) (lifecycle_op sx cfg) k)"
proof -
  from assms obtain iters where r: "passes (run_stress (stress_done sx) (lifecycle_op sx cfg)) s (iters, None) s'"
    unfolding testLifecycleStress_def lifecycle_op_def by (auto simp: passes_simps split: option.splits)
  from run_stress_calls [OF r] r show ?thesis by blast
qed

text \<open>
  The exec stress passes only if no exec of an iteration failed while the run was on, and if
  the second reading of the shim's memory, where it could be taken, is within the bound.
\<close>

lemma passes_host_rss [passes_simps]:
  "passes (host_rss lab pid) s r s' \<longleftrightarrow> r = readRSS (lb_procfs lab s) pid \<and> s' = s"
  by (auto simp: host_rss_def passes_simps)

lemma testExecStress_bound:
  fixes sx :: "'s stresslab"
  assumes "passes (testExecStress sx opts cfg) s u s'"
  shows "\<exists>(env :: 's shimEnv) t t1 before1. env_shimPID env \<noteq> 0
    \<and> readRSS (lb_procfs (ss_lab sx) t) (env_shimPID env) = Inr before1
    \<and> (\<forall>now1. readRSS (lb_procfs (ss_lab sx) t1) (env_shimPID env) = Inr now1 \<longrightarrow>
        now1 - before1 \<le> (if 0 < so_execRSS opts then so_execRSS opts else stressMaxRSSGrowth ''linux''))"
proof -
  from assms obtain env :: "'s shimEnv" and t where p: "env_shimPID env \<noteq> 0"
    and r: "\<exists>before1 t2 e'. readRSS (lb_procfs (ss_lab sx) t) (env_shimPID env) = Inr before1
      \<and> passes (exec_churn sx opts env before1) (t, 0) u (t2, e')"
    by (auto simp: testExecStress_def shutdown_deferred_def passes_simps split: if_splits) blast
  from r obtain before1 t2 e' where b: "readRSS (lb_procfs (ss_lab sx) t) (env_shimPID env) = Inr before1"
    and c: "passes (exec_churn sx opts env before1) (t, 0) u (t2, e')" by blast
  from c obtain t1 where "rss_verdict ''linux'' (so_execRSS opts) before1
      (readRSS (lb_procfs (ss_lab sx) t1) (env_shimPID env)) = None"
    by (auto simp: exec_churn_def Let_def passes_simps split: option.splits)
  then have "\<forall>now1. readRSS (lb_procfs (ss_lab sx) t1) (env_shimPID env) = Inr now1 \<longrightarrow>
      now1 - before1 \<le> (if 0 < so_execRSS opts then so_execRSS opts else stressMaxRSSGrowth ''linux'')"
    using rss_verdict_iff by metis
  with p b show ?thesis by blast
qed

text \<open>
  The transfer stress passes only if the pool was set up and every goroutine delivered a result
  without an error; and then no error ever cancelled the run.
\<close>

lemma testTransferStress_contract:
  fixes sx :: "'s stresslab"
  assumes "passes (testTransferStress sx cfg) s u s'"
  shows "\<exists>(env :: 's shimEnv) t t1 st. setup_read_pool (loads_of (ss_transfer sx (env_conn env)) (env_cid env)) t = (None, t1)
    \<and> st = race_run (stress_done sx) (race_ops (loads_of (ss_transfer sx (env_conn env)) (env_cid env)))
        (ss_sched sx t1) (race_init race_names t1)
    \<and> all_sent st \<and> \<not> rc_cancelled st"
proof -
  from assms obtain env :: "'s shimEnv" and t t1 rs t2 where
    p: "setup_read_pool (loads_of (ss_transfer sx (env_conn env)) (env_cid env)) t = (None, t1)"
    and r: "passes (run_race sx (loads_of (ss_transfer sx (env_conn env)) (env_cid env))) t1 rs t2"
    and v: "transfer_verdict rs = None"
    by (auto simp: testTransferStress_def shutdown_deferred_def Let_def passes_simps split: option.splits)
  let ?ops = "race_ops (loads_of (ss_transfer sx (env_conn env)) (env_cid env))"
  let ?st = "race_run (stress_done sx) ?ops (ss_sched sx t1) (race_init race_names t1)"
  from r have a: "all_sent ?st" "rs = rc_results ?st" by (auto simp: run_race_def passes_def Let_def split: if_splits)
  have "race_inv ?ops ?st" by (rule race_run_inv [OF race_init_inv])
  from race_verdict [OF this a(1)] v a(2) have "\<not> rc_cancelled ?st" by simp
  with p a(1) show ?thesis by blast
qed

text \<open>The goroutines end once the context has: the operations never bring a dead context back.\<close>

lemma race_ops_end:
  assumes "dead_stays (stress_done sx) (race_ops l)" and "stress_done sx s"
    and "\<forall>j < 3. 3 \<le> length (filter (\<lambda>k. k = j) sched)"
  shows "all_sent (race_run (stress_done sx) (race_ops l) sched (race_init race_names s))"
  using assms by (intro race_ends [where dead = "stress_done sx"])
    (simp_all add: race_wf_def race_init_def race_ops_def race_names_def stopped_def)

section \<open>What a clean burst is\<close>

lemma passes_fast:
  "passes (createSandboxContainerFast sl sb cfg imgs pre args) (s, e) r (s', e') \<Longrightarrow>
     e' = (case r of Inl x \<Rightarrow> e | Inr cid \<Rightarrow> track_fast cid e)"
  by (auto simp: createSandboxContainerFast_def Let_def passes_simps passes_case_sum)

lemma passes_release [passes_simps]:
  "passes (releaseSandboxContainer tc cid) (s, e) r (s', e') \<longleftrightarrow>
     (\<exists>a. tc (Delete cid []) s = ((a, r), s')) \<and> e' = untrack cid e"
  by (auto simp: release_untracks passes_def prod_eq_iff)

lemma passes_create_burst:
  "passes (create_burst sl sb cfg imgs pre name js) (s, e) (Inr cids) (s', e') \<Longrightarrow>
     length cids = length js \<and> e' = fold track_fast cids e"
proof (induction js arbitrary: s e cids)
  case Nil
  then show ?case by (simp add: passes_simps)
next
  case (Cons j js)
  from Cons.prems obtain cid s1 e1 rs where
    c: "passes (createSandboxContainerFast sl sb cfg imgs pre [''/bin/echo'', name @ ''-j'' @ dec j]) (s, e) (Inr cid) (s1, e1)"
    and rs: "passes (create_burst sl sb cfg imgs pre name js) (s1, e1) (Inr rs) (s', e')" and "cids = cid # rs"
    by (auto simp: passes_simps passes_case_sum Inr_case)
  with Cons.IH [OF rs] passes_fast [OF c] show ?case by simp
qed

lemma wait_burst_clean:
  "wait_burst tc cids s = (es, s') \<Longrightarrow> first_error es = None \<Longrightarrow>
     \<forall>cid \<in> set cids. \<exists>a t t'. tc (Wait cid []) t = ((a, None), t') \<and> got_exit a = 0"
proof (induction cids arbitrary: s es s')
  case (Cons cid cids)
  obtain r s1 where r: "call_result tc (Wait cid []) s = (r, s1)" by fastforce
  obtain es2 s2 where w: "wait_burst tc cids s1 = (es2, s2)" by fastforce
  with Cons.prems r have "wait_result cid r = None" "first_error es2 = None" by (auto simp: first_error_None)
  from this(1) r have "\<exists>a t t'. tc (Wait cid []) t = ((a, None), t') \<and> got_exit a = 0"
    by (auto simp: wait_result_def call_result_def split: sum.splits if_splits prod.splits option.splits)
  with Cons.IH [OF w \<open>first_error es2 = None\<close>] show ?case by simp
qed simp

lemma passes_release_burst:
  "passes (release_burst tc cids) (s, e) None (s', e') \<Longrightarrow>
     e' = fold untrack cids e \<and> (\<forall>cid \<in> set cids. \<exists>a t t'. tc (Delete cid []) t = ((a, None), t'))"
proof (induction cids arbitrary: s e)
  case (Cons cid cids)
  from Cons.prems obtain a s1 where d: "tc (Delete cid []) s = ((a, None), s1)"
    and r: "passes (release_burst tc cids) (s1, untrack cid e) None (s', e')"
    by (auto simp: passes_simps split: option.splits)
  with Cons.IH [OF r] show ?case by auto
qed (simp add: passes_simps)

text \<open>Fresh members leave the tracking as it was.\<close>

lemma track_untrack:
  assumes "senv_wf e" and "set cids \<inter> set (containers e) = {}"
  shows "fold untrack cids (fold track_fast cids e) = e"
proof -
  have t: "fold track_fast cids e = e\<lparr>containers := containers e @ cids\<rparr>" for e :: senv
    by (induction cids arbitrary: e) (simp_all add: track_fast_def)
  have u: "set cids \<inter> set xs = {} \<Longrightarrow> dom f \<subseteq> set xs \<Longrightarrow>
      fold untrack cids \<lparr>containers = xs @ cids, stdoutBufs = f, stdinPaths = g\<rparr>
        = \<lparr>containers = xs, stdoutBufs = f, stdinPaths = g\<rparr>" for xs f g
  proof (induction cids)
    case (Cons c cids)
    then have "c \<notin> set xs" "f c = None" by auto
    then have "untrack c \<lparr>containers = xs @ c # cids, stdoutBufs = f, stdinPaths = g\<rparr>
        = \<lparr>containers = xs @ cids, stdoutBufs = f, stdinPaths = g\<rparr>"
      by (simp add: untrack_def remove1_append fun_upd_idem)
    with Cons show ?case by simp
  qed simp
  have "dom (stdoutBufs e) \<subseteq> set (containers e)" using assms(1) by (simp add: senv_wf_def)
  from u [OF assms(2) this, of "stdinPaths e"] show ?thesis by (cases e) (simp add: t)
qed

text \<open>
  An iteration of the sandbox churn that returned no error created three members, saw each of
  them exit with zero and deleted each; with fresh ids it leaves the tracking as it found it.
\<close>


text \<open>
  The sandbox stress passes only if every iteration counted was clean and, after the sandbox
  was told to stop and shut down, no mount of a member is left in the shim's namespace.
\<close>

lemma sandbox_churn_contract:
  assumes "passes (sandbox_churn sx opts cfg imgs pre sb) (s, e) u (s', e')"
  shows "(\<exists>pid. sandboxContainersMounts (ss_sand sx) pid s' = [])
    \<and> (\<exists>iters. \<forall>k. 0 < k \<and> k \<le> iters \<longrightarrow>
        iteration_ok (\<lambda>se. stress_done sx (fst se)) (sandbox_iteration (ss_sand sx) sb cfg imgs pre) k)"
proof -
  from assms obtain pid a b iters where m: "sandboxContainersMounts (ss_sand sx) pid s' = []"
    and r: "passes (run_stress (\<lambda>se. stress_done sx (fst se)) (sandbox_iteration (ss_sand sx) sb cfg imgs pre)) a (iters, None) b"
    unfolding sandbox_churn_def Let_def passes_simps by (auto simp: passes_simps split: option.splits)
  from run_stress_calls [OF r] m show ?thesis by blast
qed

end
