(* ===== verification/Stress_Order.thy ===== *)
theory Stress_Order
  imports Stress_Suite
begin

text \<open>
  The tests of the stress suite run one after the other (\<^verbatim>\<open>stress_suite.go\<close>, StressSuite.Run),
  each bounded by the same moment: a minute before the deadline of the test binary. The
  lifecycle test comes first and ends cleanly only at that moment, and every later test asks for
  at least a minute.
\<close>

text \<open>The laboratory of one test of the suite.\<close>

definition stress_part :: "'s stresslab \<Rightarrow> string \<Rightarrow> 's stresslab" where
  "stress_part sx name = on_stress_lab sx (in_subtest (ss_lab sx) name)"

lemma stress_part_simps [simp]:
  "ss_deadline (stress_part sx name) = ss_deadline sx" "ss_cancelled (stress_part sx name) = ss_cancelled sx"
  "lb_clock (ss_lab (stress_part sx name)) = lb_clock (ss_lab sx)"
  by (simp_all add: stress_part_def on_stress_lab_def in_subtest_def)

text \<open>A clean lifecycle test under a deadline ends in the last minute.\<close>

lemma lifecycle_ends_late:
  assumes "passes (testLifecycleStress sx cfg) s u t" and "ss_deadline sx = Some d" and "\<not> ss_cancelled sx t"
  shows "d - stressSoakBuffer \<le> lb_clock (ss_lab sx) t"
proof -
  from testLifecycleStress_contract [OF assms(1)] obtain iters where
    "passes (run_stress (stress_done sx) (lifecycle_op sx cfg)) s (iters, None) t" by blast
  from run_stress_calls [OF this] have "stress_done sx t" by (simp add: run_ended_def)
  with assms(2,3) show ?thesis by (simp add: stress_done_def)
qed

lemma exec_asks:
  assumes "passes (testExecStress sx opts cfg) s u s'"
  shows "\<exists>env t r w n. passes (newShimEnv (ss_lab sx) cfg ''stress'') s env t
    \<and> passes (guest_reading (env_rig sx env)) (t, 0) r (w, n) \<and> passes (stressCtx sx) w () w"
proof -
  from assms obtain env t b t2 e' where "passes (newShimEnv (ss_lab sx) cfg ''stress'') s env t"
    and "passes (exec_churn sx opts env b) (t, 0) u (t2, e')"
    by (auto simp: testExecStress_def shutdown_deferred_def passes_simps passes_case_sum split: if_splits)
  moreover from this(2) have "\<exists>r w n. passes (guest_reading (env_rig sx env)) (t, 0) r (w, n) \<and> passes (stressCtx sx) w () w"
    unfolding exec_churn_def Let_def by (auto simp: passes_simps cong: option.case_cong)
  ultimately show ?thesis by blast
qed

lemma transfer_asks:
  assumes "passes (testTransferStress sx cfg) s u s'"
  shows "\<exists>env t w. passes (newShimEnv (ss_lab sx) cfg ''stress'') s env t
    \<and> passes (skip_if_no_transfer \<lparr>xl_lab = ss_lab sx, xl_transfer = ss_transfer sx, xl_probe = ss_probe sx\<rparr> env) t () w
    \<and> passes (stressCtx sx) w () w"
  using assms by (auto simp: testTransferStress_def shutdown_deferred_def Let_def passes_simps)

text \<open>
  C31. Under a deadline the stress suite's first test, the lifecycle test, ends cleanly
  only in the last minute; the exec test then skips at every later moment, and it or the
  transfer test can pass only if the clock, read after its own shim was brought up, shows
  no later time than at that end.
\<close>

theorem lifecycle_starves_the_rest:
  assumes "passes (testLifecycleStress (stress_part sx ''Lifecycle'') cfg) s () t"
    and "ss_deadline sx = Some d" and "\<not> ss_cancelled sx t"
  shows "(\<forall>w. lb_clock (ss_lab sx) t < lb_clock (ss_lab sx) w \<longrightarrow> (\<exists>m. stressCtx (stress_part sx ''Exec'') w = skip m w))
    \<and> (\<forall>u v. passes (testExecStress (stress_part sx ''Exec'') opts cfg) u () v \<longrightarrow>
        (\<exists>env t1 r w n. passes (newShimEnv (ss_lab (stress_part sx ''Exec'')) cfg ''stress'') u env t1
          \<and> passes (guest_reading (env_rig (stress_part sx ''Exec'') env)) (t1, 0) r (w, n)
          \<and> lb_clock (ss_lab sx) w \<le> lb_clock (ss_lab sx) t))
    \<and> (\<forall>u v. passes (testTransferStress (stress_part sx ''Transfer'') cfg) u () v \<longrightarrow>
        (\<exists>env t1 w. passes (newShimEnv (ss_lab (stress_part sx ''Transfer'')) cfg ''stress'') u env t1
          \<and> passes (skip_if_no_transfer \<lparr>xl_lab = ss_lab (stress_part sx ''Transfer''),
               xl_transfer = ss_transfer (stress_part sx ''Transfer''), xl_probe = ss_probe (stress_part sx ''Transfer'')\<rparr> env) t1 () w
          \<and> lb_clock (ss_lab sx) w \<le> lb_clock (ss_lab sx) t))"
proof -
  have late: "d - stressSoakBuffer \<le> lb_clock (ss_lab sx) t"
    using lifecycle_ends_late [OF assms(1)] assms(2,3) by simp
  have skips: "\<exists>m. stressCtx (stress_part sx ''Exec'') w = skip m w" if "lb_clock (ss_lab sx) t < lb_clock (ss_lab sx) w" for w
    using that late assms(2) by (auto simp: stressCtx_def andThen_def act_def skip_def)
  have ctx: "lb_clock (ss_lab sx) w \<le> lb_clock (ss_lab sx) t" if "passes (stressCtx (stress_part sx name)) w () w" for name w
    using that late assms(2) by (simp add: passes_stressCtx)
  show ?thesis
  proof (intro conjI allI impI)
    fix u v
    assume "passes (testExecStress (stress_part sx ''Exec'') opts cfg) u () v"
    from exec_asks [OF this] ctx
    show "\<exists>env t1 r w n. passes (newShimEnv (ss_lab (stress_part sx ''Exec'')) cfg ''stress'') u env t1
      \<and> passes (guest_reading (env_rig (stress_part sx ''Exec'') env)) (t1, 0) r (w, n)
      \<and> lb_clock (ss_lab sx) w \<le> lb_clock (ss_lab sx) t" by blast
  next
    fix u v
    assume "passes (testTransferStress (stress_part sx ''Transfer'') cfg) u () v"
    from transfer_asks [OF this] ctx
    show "\<exists>env t1 w. passes (newShimEnv (ss_lab (stress_part sx ''Transfer'')) cfg ''stress'') u env t1
      \<and> passes (skip_if_no_transfer \<lparr>xl_lab = ss_lab (stress_part sx ''Transfer''),
           xl_transfer = ss_transfer (stress_part sx ''Transfer''), xl_probe = ss_probe (stress_part sx ''Transfer'')\<rparr> env) t1 () w
      \<and> lb_clock (ss_lab sx) w \<le> lb_clock (ss_lab sx) t" by blast
  qed (use skips in blast)
qed

end
