(* ===== verification/Examples_Stress.thy ===== *)
theory Examples_Stress
  imports Examples_Suites Stress_Suite Stress_Order
begin

text \<open>
  Runs of the stress suite to which its theorems are applied: goroutines one of which fails, a
  run loop of three iterations, and a burst of sandbox members on the machine of
  \<^verbatim>\<open>Examples_Suites\<close>.
\<close>

section \<open>Goroutines\<close>

text \<open>The first operation fails at its first call; the others would go on for ever.\<close>

definition failing_ops :: "nat op list" where
  "failing_ops = [\<lambda>i s. (Some (OtherErr ''refused''), s), \<lambda>i s. (None, Suc s), \<lambda>i s. (None, Suc s)]"

definition failing_sched :: "nat list" where
  "failing_sched = [1, 0, 0, 1, 0, 0, 2, 0, 1, 2, 1]"

lemma two_ops: "length (tl failing_ops) = length [''a'', ''b'']"
  by (simp add: failing_ops_def)

lemma failing_run:
  "all_sent (race_run (\<lambda>s. False) failing_ops failing_sched (race_init race_names 0))"
  "rc_cancelled (race_run (\<lambda>s. False) failing_ops failing_sched (race_init race_names 0))"
  by code_simp+

lemma transfer_race_verdict_witness:
  "transfer_verdict (rc_results (race_run (\<lambda>s. False) failing_ops failing_sched (race_init race_names 0))) \<noteq> None"
  using transfer_race_verdict [OF failing_run(1)] failing_run(2) by simp

lemma transfer_race_ends_witness:
  "length (rc_results (race_run (\<lambda>s :: nat. 5 \<le> s) (tl failing_ops)
     ([0, 0, 1, 1, 0, 0, 1, 1, 0, 0, 1] @ [0, 1, 0, 1, 0, 1]) (race_init [''a'', ''b''] 2))) = 2"
proof -
  have "stopped (\<lambda>s :: nat. 5 \<le> s) (race_run (\<lambda>s. 5 \<le> s) (tl failing_ops) [0, 0, 1, 1, 0, 0, 1, 1, 0, 0, 1] (race_init [''a'', ''b''] 2))"
    by code_simp
  moreover have "\<forall>j < length [''a'', ''b'']. 3 \<le> length (filter (\<lambda>k. k = j) [0, 1, 0, 1, 0, 1 :: nat])"
    by (auto simp: less_Suc_eq numeral_2_eq_2)
  moreover have "dead_stays (\<lambda>s. 5 \<le> s) (tl failing_ops)" by (simp add: dead_stays_def failing_ops_def)
  ultimately show ?thesis
    using transfer_race_ends [of "\<lambda>s. 5 \<le> s" "tl failing_ops" "[''a'', ''b'']"] by (simp only: two_ops) simp
qed

section \<open>A run loop\<close>

definition three_rounds :: "(nat, nat \<times> goerr option) test" where
  "three_rounds = run_stress (\<lambda>n. 3 \<le> n) (\<lambda>k. act (\<lambda>n. (None, Suc n)))"

lemma three_rounds_run: "passes three_rounds 0 (3, None) 3"
  by (simp add: three_rounds_def run_stress_def runStress_def stress_loop.simps stress_op_def act_def passes_def Let_def)


section \<open>A lifecycle test that ends with its context\<close>

text \<open>A clock that shows the last minute's beginning, and a second later once the sandbox is ready.\<close>

definition at_the_bound :: "world stresslab \<Rightarrow> world stresslab" where
  "at_the_bound sx = sx\<lparr>ss_sand := demo_sand\<lparr>sl_lab := (demo_lab 0 [])\<lparr>lb_clock := \<lambda>s. if w_ready s then 10 ^ 9 else 0\<rparr>\<rparr>,
     ss_deadline := Some (60 * 10 ^ 9), ss_cancelled := \<lambda>s. False\<rparr>"

lemma bound_simps:
  "lb_clock (ss_lab (at_the_bound sx)) = (\<lambda>s. if w_ready s then 10 ^ 9 else 0)"
  "ss_deadline (at_the_bound sx) = Some (60 * 10 ^ 9)" "ss_cancelled (at_the_bound sx) = (\<lambda>s. False)"
  by (simp_all add: at_the_bound_def)

lemma bound_lifecycle: "passes (testLifecycleStress (stress_part (at_the_bound sx) ''Lifecycle'') plain_config) world0 () world0"
proof -
  let ?sx = "stress_part (at_the_bound sx) ''Lifecycle''"
  have d: "stress_done ?sx world0" by (simp add: stress_done_def bound_simps stressSoakBuffer_def)
  have c: "passes (stressCtx ?sx) world0 () world0"
    by (simp add: passes_stressCtx bound_simps stressSoakBuffer_def world0_def)
  have r: "passes (run_stress (stress_done ?sx) (lifecycle_op ?sx plain_config)) world0 (0, None) world0"
    by (simp add: run_stress_def passes_def runStress_def stress_loop.simps d)
  show ?thesis unfolding testLifecycleStress_def passes_andThen
    by (rule exI [of _ "()"], rule exI [of _ world0], rule conjI [OF c], rule exI [of _ "(0, None)"], rule exI [of _ world0])
      (simp add: r passes_ret)
qed

text \<open>So the exec test, a second later, is skipped.\<close>

lemma lifecycle_starves_the_rest_witness:
  "\<forall>sx. \<exists>m. stressCtx (stress_part (at_the_bound sx) ''Exec'') (ready_world True) = skip m (ready_world True)"
proof
  fix sx
  have "ss_deadline (at_the_bound sx) = Some (60 * 10 ^ 9)" "\<not> ss_cancelled (at_the_bound sx) world0"
    by (simp_all add: bound_simps)
  note t = lifecycle_starves_the_rest [OF bound_lifecycle this, THEN conjunct1, rule_format, of "ready_world True"]
  show "\<exists>m. stressCtx (stress_part (at_the_bound sx) ''Exec'') (ready_world True) = skip m (ready_world True)"
    by (rule t) (simp add: bound_simps ready_world_def world1_def world0_def)
qed

section \<open>A burst of members\<close>

definition demo_box :: "world sandbox" where
  "demo_box = \<lparr>sb_id = ''s1'', sb_address = ''/s'', sb_sc = demo_sandbox, sb_tc = demo_task 0\<rparr>"

definition demo_images :: shimImages where
  "demo_images = \<lparr>erofsImg = ''/i/rootfs.erofs'', bigImg = ''/i/big.erofs'', lowerDir = []\<rparr>"

lemma demo_fast:
  "\<exists>cid. passes (createSandboxContainerFast demo_sand demo_box plain_config demo_images [] args) (w, e) (Inr cid) (w, track_fast cid e)"
proof -
  obtain cid where cid: "passes (container_id (demo_lab 0 [])) w cid w" using demo_id by blast
  obtain ms where ms: "buildSandboxMemberMountsFromImages demo_host True demo_images (path_join [''/t'', ''rootfs'']) [] w = (Inr ms, w)"
    by (simp add: buildSandboxMemberMountsFromImages_def buildRootfsMountsFromImages_def buildErofsMounts_def demo_calls demo_host_simps Let_def demo_images_def)
  have o: "passes (oci_spec (demo_lab 0 []) ''/t'' args plain_config []) w () w"
    by (simp add: oci_spec_def passes_simps demo_lab_simps demo_spec)
  have c: "formatMounts plain_config = True" by (simp add: plain_config_def)
  show ?thesis
    using cid ms o
    by (auto simp: createSandboxContainerFast_def Let_def passes_simps passes_case_sum demo_sand_simps demo_lab_simps
        demo_host_simps c newCreateTaskRequest_def demo_create demo_box_def call_result_def orElse_def returning_def)
qed

lemma demo_burst:
  "\<exists>cids. passes (create_burst demo_sand demo_box plain_config demo_images [] name js) (w, e) (Inr cids) (w, fold track_fast cids e)"
proof (induction js arbitrary: e)
  case (Cons j js)
  obtain cid where "passes (createSandboxContainerFast demo_sand demo_box plain_config demo_images []
      [''/bin/echo'', name @ ''-j'' @ dec j]) (w, e) (Inr cid) (w, track_fast cid e)" using demo_fast by blast
  moreover obtain cids where "passes (create_burst demo_sand demo_box plain_config demo_images [] name js)
      (w, track_fast cid e) (Inr cids) (w, fold track_fast cids (track_fast cid e))" using Cons.IH by blast
  ultimately show ?case by (intro exI [of _ "cid # cids"]) (force simp: passes_simps passes_case_sum)
qed (simp add: passes_simps)

lemma demo_waits: "\<exists>es. wait_burst (demo_task 0) cids w = (es, w) \<and> first_error es = None"
  by (induction cids) (auto simp: wait_result_def call_result_def first_error_None got_exit_def)

lemma demo_releases: "passes (release_burst (demo_task 0) cids) (w, e) None (w, fold untrack cids e)"
  by (induction cids arbitrary: e) (simp_all add: passes_simps)

lemma demo_iteration: "\<exists>e'. passes (sandbox_iteration demo_sand demo_box plain_config demo_images [] i) (w, e) None (w, e')"
proof -
  obtain cids where c: "passes (create_burst demo_sand demo_box plain_config demo_images [] (iter_name ''sbiter'' i)
      [0..<stressSandboxConcurrency]) (w, e) (Inr cids) (w, fold track_fast cids e)" using demo_burst by blast
  obtain es where es: "wait_burst (demo_task 0) cids w = (es, w)" "first_error es = None" using demo_waits by blast
  have t: "sb_tc demo_box = demo_task 0" by (simp add: demo_box_def)
  show ?thesis
    unfolding sandbox_iteration_def
    by (rule exI [of _ "fold untrack cids (fold track_fast cids e)"])
      (use c es demo_releases [of cids w] t in \<open>simp add: passes_simps passes_case_sum passes_case_option, blast\<close>)
qed


end
