(* ===== verification/Bench.thy ===== *)
theory Bench
  imports Complex_Main Sandbox_Suite Layers_Suite "HOL-Library.Signed_Division"
begin

text \<open>
  The benchmarks (\<^verbatim>\<open>run_bench.go\<close>, \<^verbatim>\<open>exec_bench.go\<close>, \<^verbatim>\<open>layers_bench.go\<close>, \<^verbatim>\<open>uds_bench.go\<close>,
  \<^verbatim>\<open>sandbox_bench_linux.go\<close>) over a model of Go's \<^verbatim>\<open>testing.B\<close>: a timer that is started,
  stopped and reset by the monotonic clock, the reported metrics, and runs of a body with the
  number of iterations chosen by the framework. Metrics are rational numbers where the code
  has \<^verbatim>\<open>float64\<close>; durations are unbounded where it has 64 bits of nanoseconds.
\<close>

section \<open>Benchmarks\<close>

record bench =
  bm_start :: "int option"
  bm_duration :: int
  bm_extra :: "string \<rightharpoonup> rat"
  bm_bytes :: int

definition new_bench :: bench where
  "new_bench = \<lparr>bm_start = None, bm_duration = 0, bm_extra = Map.empty, bm_bytes = 0\<rparr>"

text \<open>ResetTimer also forgets the metrics reported so far.\<close>

definition start_timer :: "int \<Rightarrow> bench \<Rightarrow> bench" where
  "start_timer t b = (case bm_start b of None \<Rightarrow> b\<lparr>bm_start := Some t\<rparr> | Some t0 \<Rightarrow> b)"

definition stop_timer :: "int \<Rightarrow> bench \<Rightarrow> bench" where
  "stop_timer t b =
     (case bm_start b of None \<Rightarrow> b | Some t0 \<Rightarrow> b\<lparr>bm_start := None, bm_duration := bm_duration b + (t - t0)\<rparr>)"

definition reset_timer :: "int \<Rightarrow> bench \<Rightarrow> bench" where
  "reset_timer t b = b\<lparr>bm_extra := Map.empty, bm_start := map_option (\<lambda>t0. t) (bm_start b), bm_duration := 0\<rparr>"

text \<open>A benchmark body runs over the world and its own record; \<open>clk\<close> reads the world's clock.\<close>

definition at_clock :: "('s \<Rightarrow> int) \<Rightarrow> (int \<Rightarrow> bench \<Rightarrow> bench) \<Rightarrow> ('s \<times> bench, unit) test" where
  "at_clock clk f = act (\<lambda>(s, b). ((), (s, f (clk s) b)))"

definition startTimer :: "('s \<Rightarrow> int) \<Rightarrow> ('s \<times> bench, unit) test" where
  "startTimer clk = at_clock clk start_timer"

definition stopTimer :: "('s \<Rightarrow> int) \<Rightarrow> ('s \<times> bench, unit) test" where
  "stopTimer clk = at_clock clk stop_timer"

definition resetTimer :: "('s \<Rightarrow> int) \<Rightarrow> ('s \<times> bench, unit) test" where
  "resetTimer clk = at_clock clk reset_timer"

definition reportMetric :: "rat \<Rightarrow> string \<Rightarrow> ('s \<times> bench, unit) test" where
  "reportMetric v unit1 = on_env (\<lambda>b. b\<lparr>bm_extra := (bm_extra b)(unit1 \<mapsto> v)\<rparr>)"

definition setBytes :: "int \<Rightarrow> ('s \<times> bench, unit) test" where
  "setBytes n = on_env (\<lambda>b. b\<lparr>bm_bytes := n\<rparr>)"

text \<open>
  One run of a body with its \<open>N\<close>, with its cleanups; then runs with each \<open>N\<close> the framework
  tries, up to the first that does not pass; and a sub-benchmark, whose failure is the parent's.
\<close>

definition bench_run :: "('s \<Rightarrow> int) \<Rightarrow> (nat \<Rightarrow> ('s \<times> bench, unit) test) \<Rightarrow> nat \<Rightarrow> 's \<Rightarrow> verdict \<times> 's \<times> bench" where
  "bench_run clk body n s =
     finish (andThen (resetTimer clk) (\<lambda>u. andThen (startTimer clk) (\<lambda>u. andThen (body n) (\<lambda>u. stopTimer clk)))) (s, new_bench)"

primrec bench_rounds ::
    "('s \<Rightarrow> int) \<Rightarrow> (nat \<Rightarrow> ('s \<times> bench, unit) test) \<Rightarrow> nat list \<Rightarrow> bench \<Rightarrow> 's \<Rightarrow> verdict \<times> 's \<times> bench" where
  "bench_rounds clk body [] b s = (Passed, s, b)"
| "bench_rounds clk body (n # ns) b s =
     (case bench_run clk body n s of (v, s1, b1) \<Rightarrow>
       if v = Passed then bench_rounds clk body ns b1 s1 else (v, s1, b1))"

definition sub_bench ::
    "('s \<Rightarrow> int) \<Rightarrow> nat list \<Rightarrow> string \<Rightarrow> (nat \<Rightarrow> ('s \<times> bench, unit) test) \<Rightarrow> ('s \<times> bench, unit) test" where
  "sub_bench clk rounds name body sb =
     (case bench_rounds clk body rounds new_bench (fst sb) of (v, s1, b1) \<Rightarrow>
       (Returned (), if v = Failed then [name] else [], [], (s1, snd sb)))"

text \<open>A timed step, and the loop over the iterations with the durations of its phases added up.\<close>

definition measured :: "('s \<Rightarrow> int) \<Rightarrow> ('s, 'a) test \<Rightarrow> ('s \<times> bench, 'a \<times> int) test" where
  "measured clk m =
     inner (andThen (act (\<lambda>s. (clk s, s))) (\<lambda>t0. andThen m (\<lambda>a. act (\<lambda>s. ((a, clk s - t0), s)))))"

fun bench_loop :: "(nat \<Rightarrow> ('t, int list) test) \<Rightarrow> nat list \<Rightarrow> int list \<Rightarrow> ('t, int list) test" where
  "bench_loop body [] acc = ret acc"
| "bench_loop body (i # is) acc = andThen (body i) (\<lambda>ds. bench_loop body is (map2 (+) acc ds))"

text \<open>
  \<^verbatim>\<open>float64(d.Microseconds())/n/1000.0\<close> and \<^verbatim>\<open>float64(d.Milliseconds())/n\<close>: the conversions
  truncate towards zero.
\<close>

definition micro_metric :: "nat \<Rightarrow> int \<Rightarrow> rat" where
  "micro_metric n d = of_int (d sdiv 1000) / of_nat n / 1000"

definition milli_metric :: "nat \<Rightarrow> int \<Rightarrow> rat" where
  "milli_metric n d = of_int (d sdiv 1000000) / of_nat n"

definition report_all :: "(int \<Rightarrow> rat) \<Rightarrow> string list \<Rightarrow> int list \<Rightarrow> ('s \<times> bench, unit) test" where
  "report_all metric names acc = inOrder (map2 (\<lambda>name d. reportMetric (metric d) name) names acc)"

section \<open>The pieces of an iteration\<close>

text \<open>
  \<open>bl_rounds\<close> gives the iteration counts the framework tries for a benchmark, by its name.
  \<open>bl_exchange w r data\<close> is the write of the data on one handle by a goroutine, beside
  \<^verbatim>\<open>io.ReadFull\<close> of as many bytes from the other: the error of the read, and that of the write.
\<close>

datatype side = PipeSide nat | ConnSide nat

record 's benchlab =
  bl_net :: "'s netlab"
  bl_rounds :: "string \<Rightarrow> nat list"
  bl_random :: "nat \<Rightarrow> 's \<Rightarrow> bytes \<times> 's"
  bl_readFull :: "nat \<Rightarrow> nat \<Rightarrow> 's \<Rightarrow> err option \<times> 's"
  bl_exchange :: "side \<Rightarrow> side \<Rightarrow> bytes \<Rightarrow> 's \<Rightarrow> (err option \<times> err option) \<times> 's"

definition bl_lab :: "'s benchlab \<Rightarrow> 's lab" where
  "bl_lab bl = (nl_lab (bl_net bl))\<lparr>lb_isBench := True\<rparr>"

abbreviation bl_clock :: "'s benchlab \<Rightarrow> 's \<Rightarrow> int" where
  "bl_clock bl \<equiv> lb_clock (bl_lab bl)"

definition resolve_shim :: "'s lab \<Rightarrow> config \<Rightarrow> ('s, string) test" where
  "resolve_shim lab cfg =
     andThen (must (''shim binary '' @ quote (shimBinary cfg) @ '' not found in PATH: '')
       (\<lambda>s. (lb_lookPath lab (shimBinary cfg) s, s))) (\<lambda>shimBin.
     andThen (ensure_path lab (path_dir shimBin)) (\<lambda>u. ret shimBin))"

definition fresh_bundle :: "'s lab \<Rightarrow> ('s, string \<times> string) test" where
  "fresh_bundle lab = (let h = lb_host lab in
     andThen (act (h_tempdir h)) (\<lambda>tmp.
     andThen (must ''resolve bundle dir: '' (\<lambda>s. (lb_evalSymlinks lab tmp s, s))) (\<lambda>bundleDir.
     let rootfsDir = path_join [bundleDir, ''rootfs''] in
     andThen (must_do ''mkdir rootfs: '' (h_do h (MkdirAll rootfsDir))) (\<lambda>u.
     ret (bundleDir, rootfsDir)))))"

text \<open>The untimed part of an iteration that brings a container up; \<open>mk\<close> makes its mounts.\<close>

definition bench_bundle ::
    "'s lab \<Rightarrow> config \<Rightarrow> (string \<Rightarrow> 's \<Rightarrow> mount list result \<times> 's) \<Rightarrow> string list
      \<Rightarrow> ('s, string \<times> mount list \<times> string \<times> string) test" where
  "bench_bundle lab cfg mk args =
     andThen (fresh_bundle lab) (\<lambda>(bundleDir, rootfsDir).
     andThen (on_cleanup (\<lambda>s. ([], lb_unmount lab rootfsDir s))) (\<lambda>u.
     andThen (must [] (mk rootfsDir)) (\<lambda>ms.
     andThen (oci_spec lab bundleDir args cfg []) (\<lambda>u.
     andThen (io_fifos lab bundleDir) (\<lambda>(out, errp).
     andThen (drainFifo lab out) (\<lambda>u.
     andThen (drainFifo lab errp) (\<lambda>u.
     ret (bundleDir, ms, out, errp))))))))"

definition image_mounts :: "'s lab \<Rightarrow> config \<Rightarrow> shimImages \<Rightarrow> string \<Rightarrow> 's \<Rightarrow> mount list result \<times> 's" where
  "image_mounts lab cfg imgs rootfsDir = buildRootfsMountsFromImages (lb_host lab) (formatMounts cfg) imgs rootfsDir"

definition connect_client :: "'s lab \<Rightarrow> params \<Rightarrow> ('s, nat \<times> 's service) test" where
  "connect_client lab p =
     andThen (connect_shim lab (bp_address p)) (\<lambda>conn.
     andThen (newTaskClient lab conn (bp_version p)) (\<lambda>tc. ret (conn, tc)))"

definition start_client ::
    "'s lab \<Rightarrow> config \<Rightarrow> string \<Rightarrow> string \<Rightarrow> string \<Rightarrow> ('s, nat \<times> 's service) test" where
  "start_client lab cfg shimBin bundleDir cid =
     andThen (start_shim lab shimBin bundleDir cid shimtestNamespace cfg) (connect_client lab)"

definition create_init ::
    "'s lab \<Rightarrow> 's service \<Rightarrow> string \<Rightarrow> string \<Rightarrow> string \<Rightarrow> string \<Rightarrow> mount list \<Rightarrow> ('s, unit) test" where
  "create_init lab tc cid bundleDir out errp ms =
     andThen (newCreateTaskRequest lab cid bundleDir out errp ms) (\<lambda>r.
     andThen (rpc ''create failed: '' tc r) (\<lambda>a. ret ()))"

definition checked :: "string \<Rightarrow> 's service \<Rightarrow> req \<Rightarrow> ('s, unit) test" where
  "checked label tc r = andThen (rpc label tc r) (\<lambda>a. ret ())"

text \<open>Every error of the calls that end an iteration is dropped.\<close>

definition end_iteration :: "'s lab \<Rightarrow> nat \<Rightarrow> 's service \<Rightarrow> string \<Rightarrow> ('s, unit) test" where
  "end_iteration lab conn tc cid =
     andThen (kill_init tc cid) (\<lambda>u. act (\<lambda>s. ((), lb_close lab conn s)))"

definition numbered :: "string \<Rightarrow> nat \<Rightarrow> string" where
  "numbered base i = base @ CHR ''-'' # dec i"

definition prepare_images :: "'s lab \<Rightarrow> config \<Rightarrow> ('s, string \<times> shimImages \<times> string) test" where
  "prepare_images lab cfg =
     andThen (resolve_shim lab cfg) (\<lambda>shimBin.
     andThen (must [] (buildShimImages (lb_host lab) (lb_bigfile lab) (formatMounts cfg))) (\<lambda>imgs.
     andThen (container_id lab) (\<lambda>base. ret (shimBin, imgs, base))))"

section \<open>Run benchmarks\<close>

definition lifecycle_phases :: "string list" where
  "lifecycle_phases = [''ms/shim-start'', ''ms/create'', ''ms/start'', ''ms/kill'', ''ms/wait'', ''ms/delete'']"

definition lifecycle_iteration ::
    "'s lab \<Rightarrow> config \<Rightarrow> string \<Rightarrow> shimImages \<Rightarrow> string \<Rightarrow> nat \<Rightarrow> ('s \<times> bench, int list) test" where
  "lifecycle_iteration lab cfg shimBin imgs base i = (let clk = lb_clock lab; cid = numbered base i in
     andThen (stopTimer clk) (\<lambda>u.
     andThen (inner (bench_bundle lab cfg (image_mounts lab cfg imgs) [''/bin/forever'', ''hello''])) (\<lambda>(bundleDir, ms, out, errp).
     andThen (startTimer clk) (\<lambda>u.
     andThen (measured clk (start_client lab cfg shimBin bundleDir cid)) (\<lambda>((conn, tc), dShim).
     andThen (measured clk (create_init lab tc cid bundleDir out errp ms)) (\<lambda>(u, dCreate).
     andThen (measured clk (checked ''start failed: '' tc (Start cid []))) (\<lambda>(u, dStart).
     andThen (measured clk (checked ''kill failed: '' tc (Kill cid [] 9 True))) (\<lambda>(u, dKill).
     andThen (measured clk (checked ''wait failed: '' tc (Wait cid []))) (\<lambda>(u, dWait).
     andThen (measured clk (checked ''delete failed: '' tc (Delete cid []))) (\<lambda>(u, dDelete).
     andThen (stopTimer clk) (\<lambda>u.
     andThen (inner (andThen (shutdownTask tc cid) (\<lambda>u. act (\<lambda>s. ((), lb_close lab conn s))))) (\<lambda>u.
     ret [dShim, dCreate, dStart, dKill, dWait, dDelete]))))))))))))"

definition benchLifecycle :: "'s lab \<Rightarrow> config \<Rightarrow> nat \<Rightarrow> ('s \<times> bench, unit) test" where
  "benchLifecycle lab cfg n =
     andThen (inner (prepare_images lab cfg)) (\<lambda>(shimBin, imgs, base).
     andThen (resetTimer (lb_clock lab)) (\<lambda>u.
     andThen (bench_loop (lifecycle_iteration lab cfg shimBin imgs base) [0..<n] (replicate 6 0)) (\<lambda>acc.
     report_all (micro_metric n) lifecycle_phases acc)))"

text \<open>The poll for the first output; a reading accepted is not looked at further.\<close>

definition await_text :: "'s lab \<Rightarrow> string \<Rightarrow> string \<Rightarrow> ('s, unit) test" where
  "await_text lab out want =
     must [] (\<lambda>s. case lb_readings lab out s of (gots, t) \<Rightarrow>
       (if first_accepted (containing want) gots = None then Inl ''timed out waiting for output'' else Inr (), t))"

definition startup_iteration ::
    "'s lab \<Rightarrow> config \<Rightarrow> string \<Rightarrow> shimImages \<Rightarrow> string \<Rightarrow> nat \<Rightarrow> ('s \<times> bench, int list) test" where
  "startup_iteration lab cfg shimBin imgs base i = (let clk = lb_clock lab; cid = numbered base i in
     andThen (stopTimer clk) (\<lambda>u.
     andThen (inner (bench_bundle lab cfg (image_mounts lab cfg imgs) [''/bin/forever'', ''started''])) (\<lambda>(bundleDir, ms, out, errp).
     andThen (startTimer clk) (\<lambda>u.
     andThen (inner (start_client lab cfg shimBin bundleDir cid)) (\<lambda>(conn, tc).
     andThen (inner (create_init lab tc cid bundleDir out errp ms)) (\<lambda>u.
     andThen (inner (checked ''start failed: '' tc (Start cid []))) (\<lambda>u.
     andThen (inner (await_text lab out ''started'')) (\<lambda>u.
     andThen (stopTimer clk) (\<lambda>u.
     andThen (inner (end_iteration lab conn tc cid)) (\<lambda>u. ret []))))))))))"

definition benchStartup :: "'s lab \<Rightarrow> config \<Rightarrow> nat \<Rightarrow> ('s \<times> bench, unit) test" where
  "benchStartup lab cfg n =
     andThen (inner (prepare_images lab cfg)) (\<lambda>(shimBin, imgs, base).
     andThen (resetTimer (lb_clock lab)) (\<lambda>u.
     andThen (bench_loop (startup_iteration lab cfg shimBin imgs base) [0..<n] []) (\<lambda>acc. ret ())))"

definition startup_phases :: "string list" where
  "startup_phases = [''ms/shim-start'', ''ms/connect'', ''ms/create'', ''ms/task-start'', ''ms/output'', ''ms/total'']"

text \<open>The total is read from the clock as well: from before the first phase to after the last.\<close>

definition phased_startup ::
    "'s lab \<Rightarrow> config \<Rightarrow> string \<Rightarrow> string \<times> mount list \<times> string \<times> string \<Rightarrow> string \<Rightarrow> ('s \<times> bench, (nat \<times> 's service) \<times> int list) test" where
  "phased_startup lab cfg shimBin bdl cid = (let clk = lb_clock lab in
     case bdl of (bundleDir, ms, out, errp) \<Rightarrow>
     andThen (inner (act (\<lambda>s. (clk s, s)))) (\<lambda>t0.
     andThen (measured clk (start_shim lab shimBin bundleDir cid shimtestNamespace cfg)) (\<lambda>(p, dShim).
     andThen (measured clk (connect_client lab p)) (\<lambda>((conn, tc), dConnect).
     andThen (measured clk (create_init lab tc cid bundleDir out errp ms)) (\<lambda>(u, dCreate).
     andThen (measured clk (checked ''start failed: '' tc (Start cid []))) (\<lambda>(u, dStart).
     andThen (measured clk (await_text lab out ''started'')) (\<lambda>(u, dOutput).
     andThen (inner (act (\<lambda>s. (clk s, s)))) (\<lambda>t1.
     ret ((conn, tc), [dShim, dConnect, dCreate, dStart, dOutput, t1 - t0])))))))))"

definition phases_iteration ::
    "'s lab \<Rightarrow> config \<Rightarrow> string \<Rightarrow> shimImages \<Rightarrow> string \<Rightarrow> nat \<Rightarrow> ('s \<times> bench, int list) test" where
  "phases_iteration lab cfg shimBin imgs base i = (let clk = lb_clock lab; cid = numbered base i in
     andThen (stopTimer clk) (\<lambda>u.
     andThen (inner (bench_bundle lab cfg (image_mounts lab cfg imgs) [''/bin/forever'', ''started''])) (\<lambda>bdl.
     andThen (startTimer clk) (\<lambda>u.
     andThen (phased_startup lab cfg shimBin bdl cid) (\<lambda>((conn, tc), ds).
     andThen (stopTimer clk) (\<lambda>u.
     andThen (inner (end_iteration lab conn tc cid)) (\<lambda>u. ret ds)))))))"

definition benchStartupPhases :: "'s lab \<Rightarrow> config \<Rightarrow> nat \<Rightarrow> ('s \<times> bench, unit) test" where
  "benchStartupPhases lab cfg n =
     andThen (inner (prepare_images lab cfg)) (\<lambda>(shimBin, imgs, base).
     andThen (resetTimer (lb_clock lab)) (\<lambda>u.
     andThen (bench_loop (phases_iteration lab cfg shimBin imgs base) [0..<n] (replicate 6 0)) (\<lambda>acc.
     report_all (milli_metric n) startup_phases acc)))"

text \<open>The start command alone, with a bundle that has no rootfs.\<close>

definition start_iteration :: "'s lab \<Rightarrow> config \<Rightarrow> string \<Rightarrow> string \<Rightarrow> nat \<Rightarrow> ('s \<times> bench, int list) test" where
  "start_iteration lab cfg shimBin base i = (let clk = lb_clock lab; cid = numbered base i in
     andThen (stopTimer clk) (\<lambda>u.
     andThen (inner (fresh_bundle lab)) (\<lambda>(bundleDir, rootfsDir).
     andThen (inner (oci_spec lab bundleDir [''/bin/forever''] cfg [])) (\<lambda>u.
     andThen (startTimer clk) (\<lambda>u.
     andThen (inner (start_shim lab shimBin bundleDir cid shimtestNamespace cfg)) (\<lambda>p.
     andThen (stopTimer clk) (\<lambda>u.
     andThen (inner (connect_client lab p)) (\<lambda>(conn, tc).
     andThen (inner (andThen (shutdownTask tc cid) (\<lambda>u. act (\<lambda>s. ((), lb_close lab conn s))))) (\<lambda>u.
     ret [])))))))))"

definition benchStart :: "'s lab \<Rightarrow> config \<Rightarrow> nat \<Rightarrow> ('s \<times> bench, unit) test" where
  "benchStart lab cfg n =
     andThen (inner (resolve_shim lab cfg)) (\<lambda>shimBin.
     andThen (inner (container_id lab)) (\<lambda>base.
     andThen (resetTimer (lb_clock lab)) (\<lambda>u.
     andThen (bench_loop (start_iteration lab cfg shimBin base) [0..<n] []) (\<lambda>acc. ret ()))))"

definition RunBench :: "(string \<times> ('s lab \<Rightarrow> config \<Rightarrow> nat \<Rightarrow> ('s \<times> bench, unit) test)) list" where
  "RunBench = [(''Lifecycle'', benchLifecycle), (''Startup'', benchStartup), (''StartupPhases'', benchStartupPhases),
     (''Start'', benchStart)]"

text \<open>A suite's benchmarks, each a sub-benchmark of the given one under its own name.\<close>

definition bench_suite ::
    "'s benchlab \<Rightarrow> config \<Rightarrow> (string \<times> ('s lab \<Rightarrow> config \<Rightarrow> nat \<Rightarrow> ('s \<times> bench, unit) test)) list
      \<Rightarrow> ('s \<times> bench, unit) test" where
  "bench_suite bl cfg benches =
     inOrder (map (\<lambda>(name, m). let lab = in_subtest (bl_lab bl) name in
       sub_bench (lb_clock lab) (bl_rounds bl (lb_name lab)) name (m lab cfg)) benches)"

section \<open>Layers\<close>

definition layers_phases :: "string list" where
  "layers_phases = [''ms/shim-start'', ''ms/create'', ''ms/task-start'', ''ms/total'']"

definition layers_iteration ::
    "'s lab \<Rightarrow> config \<Rightarrow> string \<Rightarrow> string list \<Rightarrow> string \<Rightarrow> nat \<Rightarrow> ('s \<times> bench, int list) test" where
  "layers_iteration lab cfg shimBin imgs base i = (let clk = lb_clock lab; cid = numbered base i in
     andThen (stopTimer clk) (\<lambda>u.
     andThen (inner (bench_bundle lab cfg (\<lambda>dir. buildErofsMounts (lb_host lab) imgs) [''/bin/forever''])) (\<lambda>(bundleDir, ms, out, errp).
     andThen (startTimer clk) (\<lambda>u.
     andThen (inner (act (\<lambda>s. (clk s, s)))) (\<lambda>t0.
     andThen (measured clk (start_client lab cfg shimBin bundleDir cid)) (\<lambda>((conn, tc), dShim).
     andThen (measured clk (create_init lab tc cid bundleDir out errp ms)) (\<lambda>(u, dCreate).
     andThen (measured clk (checked ''start failed: '' tc (Start cid []))) (\<lambda>(u, dStart).
     andThen (inner (act (\<lambda>s. (clk s, s)))) (\<lambda>t1.
     andThen (stopTimer clk) (\<lambda>u.
     andThen (inner (end_iteration lab conn tc cid)) (\<lambda>u.
     ret [dShim, dCreate, dStart, t1 - t0])))))))))))"

definition benchThirtyLayers :: "'s lab \<Rightarrow> config \<Rightarrow> nat \<Rightarrow> ('s \<times> bench, unit) test" where
  "benchThirtyLayers lab cfg n =
     (if \<not> formatMounts cfg then skip ''layers benchmark requires FormatMounts mode''
      else
        andThen (inner (container_id lab)) (\<lambda>base.
        andThen (inner (resolve_shim lab cfg)) (\<lambda>shimBin.
        andThen (inner (must [] (writeLayersErofs (lb_host lab) 30))) (\<lambda>layerImgs.
        andThen (inner (must [] (writeRootfsErofs (lb_host lab)))) (\<lambda>rootfsImg.
        andThen (resetTimer (lb_clock lab)) (\<lambda>u.
        andThen (bench_loop (layers_iteration lab cfg shimBin (layerImgs @ [rootfsImg]) base) [0..<n] (replicate 4 0)) (\<lambda>acc.
        andThen (report_all (micro_metric n) layers_phases acc) (\<lambda>u.
        reportMetric 30 ''layers''))))))))"

definition LayersBench :: "(string \<times> ('s lab \<Rightarrow> config \<Rightarrow> nat \<Rightarrow> ('s \<times> bench, unit) test)) list" where
  "LayersBench = [(''ThirtyLayers'', benchThirtyLayers)]"

section \<open>Exec benchmarks\<close>

definition in_container ::
    "'s lab \<Rightarrow> config \<Rightarrow> spec_opt list \<Rightarrow> (string \<Rightarrow> 's service \<Rightarrow> ('s \<times> bench, unit) test) \<Rightarrow> ('s \<times> bench, unit) test" where
  "in_container lab cfg opts body =
     andThen (inner (bring_up lab cfg ''exec'' [''/bin/forever''] opts)) (\<lambda>u.
     deferred (apfst (lb_close lab (up_conn u))) (
       andThen (inner (newTaskClient lab (up_conn u) (up_version u))) (\<lambda>svc.
       andThen (inner (start_init lab u svc)) (\<lambda>x. body (up_cid u) svc))))"

definition marshal_exec :: "'s lab \<Rightarrow> process \<Rightarrow> ('s \<times> bench, bytes) test" where
  "marshal_exec lab spec = inner (must ''marshal exec spec: '' (\<lambda>s. (lb_anyProcess lab spec, s)))"

definition exec_calls ::
    "'s service \<Rightarrow> string \<Rightarrow> string \<Rightarrow> bytes \<Rightarrow> string \<Rightarrow> string \<Rightarrow> ('s, resp option) test" where
  "exec_calls svc cid eid sp out errp =
     andThen (rpc ''exec failed: '' svc (Exec cid eid False [] out errp sp)) (\<lambda>a.
     andThen (rpc ''exec start failed: '' svc (Start cid eid)) (\<lambda>a.
     rpc ''exec wait failed: '' svc (Wait cid eid)))"

definition exec_round :: "'s lab \<Rightarrow> 's service \<Rightarrow> string \<Rightarrow> bytes \<Rightarrow> nat \<Rightarrow> ('s \<times> bench, int list) test" where
  "exec_round lab svc cid sp i = (let clk = lb_clock lab; eid = numbered ''exec'' i in
     andThen (stopTimer clk) (\<lambda>u.
     andThen (inner (exec_pipes lab)) (\<lambda>(out, errp).
     andThen (startTimer clk) (\<lambda>u.
     andThen (inner (exec_calls svc cid eid sp out errp)) (\<lambda>w.
     andThen (inner (delete_exec svc cid eid)) (\<lambda>u. ret []))))))"

definition benchExec :: "'s lab \<Rightarrow> config \<Rightarrow> nat \<Rightarrow> ('s \<times> bench, unit) test" where
  "benchExec lab cfg n = in_container lab cfg [] (\<lambda>cid svc.
     andThen (marshal_exec lab (exec_spec [''/bin/echo'', ''benchexec''] exec_path)) (\<lambda>sp.
     andThen (resetTimer (lb_clock lab)) (\<lambda>u.
     andThen (bench_loop (exec_round lab svc cid sp) [0..<n] []) (\<lambda>acc.
     andThen (stopTimer (lb_clock lab)) (\<lambda>u.
     inner (kill_init svc cid))))))"

text \<open>
  A round trip at a size: what was read is not compared with what was written; the write's
  error is looked at only once the read has succeeded.
\<close>

definition trip_sizes :: "(string \<times> nat) list" where
  "trip_sizes = [(''8B'', 8), (''4KB'', 4096), (''4MB'', 4 * 1024 * 1024)]"

definition exchange :: "'s benchlab \<Rightarrow> string \<Rightarrow> string \<Rightarrow> side \<Rightarrow> side \<Rightarrow> bytes \<Rightarrow> ('s, unit) test" where
  "exchange bl rlabel wlabel w r payload =
     must_do [] (\<lambda>s. case bl_exchange bl w r payload s of
       ((Some e, we), t) \<Rightarrow> (Some (rlabel @ e), t)
     | ((None, Some e), t) \<Rightarrow> (Some (wlabel @ e), t)
     | ((None, None), t) \<Rightarrow> (None, t))"

definition trip_bench ::
    "'s benchlab \<Rightarrow> string \<Rightarrow> string \<Rightarrow> side \<Rightarrow> side \<Rightarrow> nat \<Rightarrow> nat \<Rightarrow> ('s \<times> bench, unit) test" where
  "trip_bench bl rlabel wlabel w r size1 n =
     andThen (inner (act (bl_random bl size1))) (\<lambda>payload.
     andThen (setBytes (int size1)) (\<lambda>u.
     andThen (resetTimer (bl_clock bl)) (\<lambda>u.
     andThen (bench_loop (\<lambda>i. andThen (inner (exchange bl rlabel wlabel w r payload)) (\<lambda>u. ret [])) [0..<n] []) (\<lambda>acc.
     ret ()))))"

definition trip_benches ::
    "'s benchlab \<Rightarrow> string \<Rightarrow> string \<Rightarrow> string \<Rightarrow> side \<Rightarrow> side \<Rightarrow> ('s \<times> bench, unit) test" where
  "trip_benches bl parent rlabel wlabel w r =
     inOrder (map (\<lambda>(name, size1).
       sub_bench (bl_clock bl) (bl_rounds bl (parent @ CHR ''/'' # name)) name (trip_bench bl rlabel wlabel w r size1)) trip_sizes)"

text \<open>The pipes of the process that echoes: standard error is drained, the others stay open.\<close>

definition open_stdio :: "'s lab \<Rightarrow> ('s, string \<times> string \<times> string \<times> nat \<times> nat) test" where
  "open_stdio lab =
     andThen (stdio_pipes lab) (\<lambda>(inp, out, errp).
     andThen (must ''open stdin pipe: '' (lb_openWriter lab inp)) (\<lambda>w.
     andThen (must ''open stdout pipe: '' (\<lambda>s. case lb_openReader lab out s of
        (Inl e, t) \<Rightarrow> (Inl e, lb_closeFile lab w t) | (Inr rd, t) \<Rightarrow> (Inr rd, t))) (\<lambda>rd.
     ret (inp, out, errp, w, rd))))"

definition stdio_exec ::
    "'s lab \<Rightarrow> 's service \<Rightarrow> string \<Rightarrow> string \<Rightarrow> process \<Rightarrow> string \<times> string \<times> string \<times> nat \<times> nat \<Rightarrow> ('s, unit) test" where
  "stdio_exec lab svc cid eid spec pipes =
     (case pipes of (inp, out, errp, w, rd) \<Rightarrow>
       andThen (drainFifo lab errp) (\<lambda>u. start_exec lab svc cid eid spec inp out errp))"

definition end_stdio :: "'s service \<Rightarrow> string \<Rightarrow> string \<Rightarrow> ('s, unit) test" where
  "end_stdio svc cid eid =
     inOrder [rpc_drop svc (Kill cid [] 9 True), rpc_drop svc (Wait cid []), rpc_drop svc (Delete cid eid),
       rpc_drop svc (Delete cid []), shutdownTask svc cid]"

definition warmup :: "'s benchlab \<Rightarrow> nat \<Rightarrow> nat \<Rightarrow> ('s, unit) test" where
  "warmup bl w rd = (let lab = bl_lab bl in
     andThen (act (bl_random bl 8)) (\<lambda>data.
     andThen (must_do ''warmup write: '' (lb_write lab w data)) (\<lambda>u.
     must_do ''warmup read: '' (bl_readFull bl rd 8))))"

definition benchStdioRoundTrip :: "'s benchlab \<Rightarrow> 's lab \<Rightarrow> config \<Rightarrow> nat \<Rightarrow> ('s \<times> bench, unit) test" where
  "benchStdioRoundTrip bl lab cfg n = in_container lab cfg [] (\<lambda>cid svc. let eid = ''stdio-rt'' in
     andThen (inner (open_stdio lab)) (\<lambda>pipes. case pipes of (inp, out, errp, w, rd) \<Rightarrow>
     deferred (apfst (\<lambda>s. lb_closeFile lab w (lb_closeFile lab rd s))) (
       andThen (inner (stdio_exec lab svc cid eid (exec_spec [''/bin/cat''] exec_path) pipes)) (\<lambda>u.
       andThen (inner (warmup bl w rd)) (\<lambda>u.
       andThen (trip_benches bl (lb_name lab) ''read: '' ''write: '' (PipeSide w) (PipeSide rd)) (\<lambda>u.
       andThen (inner (act (\<lambda>s. ((), lb_closeFile lab w s)))) (\<lambda>u.
       inner (end_stdio svc cid eid))))))))"

definition hashverify_round ::
    "'s lab \<Rightarrow> 's service \<Rightarrow> string \<Rightarrow> bytes \<Rightarrow> nat \<Rightarrow> ('s \<times> bench, int list) test" where
  "hashverify_round lab svc cid sp i = (let clk = lb_clock lab; eid = numbered ''hashv'' i in
     andThen (stopTimer clk) (\<lambda>u.
     andThen (inner (exec_pipes lab)) (\<lambda>(out, errp).
     andThen (startTimer clk) (\<lambda>u.
     andThen (inner (andThen (exec_calls svc cid eid sp out errp) exit_status)) (\<lambda>st.
     andThen (demand (''hashverify exit '' @ dec st) (st = 0)) (\<lambda>u.
     andThen (stopTimer clk) (\<lambda>u.
     andThen (inner (delete_exec svc cid eid)) (\<lambda>u.
     andThen (startTimer clk) (\<lambda>u. ret [])))))))))"

definition benchHashverify ::
    "'s lab \<Rightarrow> config \<Rightarrow> string \<Rightarrow> string \<Rightarrow> spec_mount list \<Rightarrow> nat \<Rightarrow> ('s \<times> bench, unit) test" where
  "benchHashverify lab cfg path hashHex1 mounts1 n =
     in_container lab cfg (if mounts1 = [] then [] else [withExtraMounts mounts1]) (\<lambda>cid svc.
     andThen (marshal_exec lab (exec_spec [''/bin/hashverify'', path, hashHex1] exec_path)) (\<lambda>sp.
     andThen (setBytes (int bigFileSize)) (\<lambda>u.
     andThen (resetTimer (lb_clock lab)) (\<lambda>u.
     andThen (bench_loop (hashverify_round lab svc cid sp) [0..<n] []) (\<lambda>acc.
     andThen (stopTimer (lb_clock lab)) (\<lambda>u.
     inner (kill_init svc cid)))))))"

definition benchReadLargeFile :: "'s lab \<Rightarrow> config \<Rightarrow> nat \<Rightarrow> ('s \<times> bench, unit) test" where
  "benchReadLargeFile lab cfg n = benchHashverify lab cfg bigFileContainerPath (big_hash_hex lab) [] n"

definition benchReadBindMount :: "'s lab \<Rightarrow> config \<Rightarrow> nat \<Rightarrow> ('s \<times> bench, unit) test" where
  "benchReadBindMount lab cfg n =
     andThen (inner (act (h_tempdir (lb_host lab)))) (\<lambda>dir. let hostFile = path_join [dir, ''bigfile''] in
     andThen (inner (write_big_file lab hostFile)) (\<lambda>u.
     benchHashverify lab cfg ''/tmp/bigfile'' (big_hash_hex lab)
       [\<lparr>sm_destination = ''/tmp/bigfile'', sm_type = ''bind'', sm_source = hostFile, sm_options = [''rbind'']\<rparr>] n))"

definition ExecBench :: "'s benchlab \<Rightarrow> (string \<times> ('s lab \<Rightarrow> config \<Rightarrow> nat \<Rightarrow> ('s \<times> bench, unit) test)) list" where
  "ExecBench bl = [(''Exec'', benchExec), (''StdioRoundTrip'', benchStdioRoundTrip bl),
     (''ReadLargeFile'', benchReadLargeFile), (''ReadBindMount'', benchReadBindMount)]"

section \<open>Socket benchmark\<close>

definition bench_socket :: "'s netlab \<Rightarrow> ('s, nat \<times> string) test" where
  "bench_socket nl =
     andThen (must ''create uds dir: '' (nl_mktemp nl ''/tmp'' ''nb-uds-'')) (\<lambda>dir.
     andThen (on_cleanup (\<lambda>s. ([], lb_removeAll (nl_lab nl) dir s))) (\<lambda>u.
     let path = path_join [dir, ''bench.sock''] in
     andThen (must ''listen: '' (nl_listen nl ''unix'' path)) (\<lambda>(lis, addr). ret (lis, path))))"

definition uds_trips ::
    "'s benchlab \<Rightarrow> 's lab \<Rightarrow> 's service \<Rightarrow> string \<Rightarrow> nat \<Rightarrow> ('s \<times> bench, unit) test" where
  "uds_trips bl lab svc cid lis = (let nl = bl_net bl; eid = ''uds-bench'' in
     andThen (inner (open_stdio lab)) (\<lambda>pipes. case pipes of (inp, out, errp, w, rd) \<Rightarrow>
     deferred (apfst (\<lambda>s. lb_closeFile lab w (lb_closeFile lab rd s))) (
       andThen (inner (stdio_exec lab svc cid eid \<lparr>proc_args = [''/bin/nc'', ''-U'', ''/run/bench.sock''], proc_cwd = ''/'',
         proc_env = [], proc_caps = None\<rparr> pipes)) (\<lambda>u.
       andThen (inner (must ''accept: '' (nl_accept nl lis))) (\<lambda>conn.
       deferred (apfst (nl_close nl conn)) (
         andThen (sub_bench (bl_clock bl) [1] ''HostToContainer'' (\<lambda>n. trip_benches bl (lb_name lab @ ''/HostToContainer'')
           ''read stdout: '' ''write hostConn: '' (ConnSide conn) (PipeSide rd))) (\<lambda>u.
         andThen (sub_bench (bl_clock bl) [1] ''ContainerToHost'' (\<lambda>n. trip_benches bl (lb_name lab @ ''/ContainerToHost'')
           ''read hostConn: '' ''write stdin: '' (PipeSide w) (ConnSide conn))) (\<lambda>u.
         andThen (inner (act (\<lambda>s. ((), nl_close nl conn (lb_closeFile lab w s))))) (\<lambda>u.
         inner (end_stdio svc cid eid))))))))))"

definition benchUDSRoundTrip :: "'s benchlab \<Rightarrow> 's lab \<Rightarrow> config \<Rightarrow> nat \<Rightarrow> ('s \<times> bench, unit) test" where
  "benchUDSRoundTrip bl lab cfg n = (let nl = bl_net bl in
     andThen (inner (shimSetup lab cfg)) (\<lambda>(shimBin, bundleDir, ms).
     andThen (inner (container_id lab)) (\<lambda>cid.
     andThen (inner (bench_socket nl)) (\<lambda>(lis, path).
     deferred (apfst (nl_close nl lis)) (
       andThen (inner (oci_spec lab bundleDir [''/bin/forever''] cfg [withExtraMounts
         [\<lparr>sm_destination = ''/run/bench.sock'', sm_type = ''uds'', sm_source = path, sm_options = []\<rparr>]])) (\<lambda>u.
       andThen (inner (io_fifos lab bundleDir)) (\<lambda>(out, errp).
       andThen (inner (start_shim lab shimBin bundleDir cid shimtestNamespace cfg)) (\<lambda>p.
       andThen (inner (connect_shim lab (bp_address p))) (\<lambda>conn.
       deferred (apfst (lb_close lab conn)) (
         andThen (inner (newTaskClient lab conn (bp_version p))) (\<lambda>svc.
         andThen (inner (inOrder [drainFifo lab out, drainFifo lab errp])) (\<lambda>u.
         andThen (inner (create_init lab svc cid bundleDir out errp ms)) (\<lambda>u.
         andThen (inner (checked ''start failed: '' svc (Start cid []))) (\<lambda>u.
         uds_trips bl lab svc cid lis))))))))))))))"

definition UDSBench :: "'s benchlab \<Rightarrow> (string \<times> ('s lab \<Rightarrow> config \<Rightarrow> nat \<Rightarrow> ('s \<times> bench, unit) test)) list" where
  "UDSBench bl = [(''UDSRoundTrip'', benchUDSRoundTrip bl)]"

section \<open>Sandbox benchmark\<close>

text \<open>
  Only root without format mounts gets the overlay; any other user gets the rootfs extracted
  anew into the bundle, whatever the images are.
\<close>

definition buildSandboxMemberMounts ::
    "'s host \<Rightarrow> bool \<Rightarrow> shimImages \<Rightarrow> string \<Rightarrow> 's \<Rightarrow> mount list result \<times> 's" where
  "buildSandboxMemberMounts h fm imgs rootfsDir s =
     (if fm \<and> h_uid h = 0 then buildRootfsMountsFromImages h fm imgs rootfsDir s
      else if h_uid h \<noteq> 0 then
        (case extractErofsIntoDir h (erofsImg imgs) rootfsDir s of
           (Some e, t) \<Rightarrow> (Inl e, t)
         | (None, t) \<Rightarrow> (Inr (bind_rootfs rootfsDir), t))
      else buildRootfsMountsFromImages h fm imgs rootfsDir s)"

text \<open>The create request of an iteration, made before the timer runs.\<close>

definition member_request :: "'s lab \<Rightarrow> config \<Rightarrow> shimImages \<Rightarrow> string \<Rightarrow> ('s, req) test" where
  "member_request lab cfg imgs cid =
     andThen (fresh_bundle lab) (\<lambda>(bundleDir, rootfsDir).
     andThen (must [] (buildSandboxMemberMounts (lb_host lab) (formatMounts cfg) imgs rootfsDir)) (\<lambda>ms.
     andThen (oci_spec lab bundleDir [''/bin/exit'', ''0''] cfg []) (\<lambda>u.
     andThen (io_fifos lab bundleDir) (\<lambda>(out, errp).
     andThen (drainFifo lab out) (\<lambda>u.
     andThen (drainFifo lab errp) (\<lambda>u.
     newCreateTaskRequest lab cid bundleDir out errp ms))))))"

text \<open>The members of this benchmark are never tracked, so that forgetting one changes nothing.\<close>

definition member_iteration ::
    "'s sandlab \<Rightarrow> config \<Rightarrow> shimImages \<Rightarrow> 's sandbox \<Rightarrow> string \<Rightarrow> nat \<Rightarrow> (('s \<times> senv) \<times> bench, int list) test" where
  "member_iteration sl cfg imgs sb base i =
     (let lab = sl_lab sl; clk = (\<lambda>se. lb_clock lab (fst se)); cid = numbered base i; tc = sb_tc sb in
     andThen (stopTimer clk) (\<lambda>u.
     andThen (inner (inner (member_request lab cfg imgs cid))) (\<lambda>r.
     andThen (startTimer clk) (\<lambda>u.
     andThen (measured clk (inner (checked (''Create '' @ cid @ '': '') tc r))) (\<lambda>(u, dCreate).
     andThen (measured clk (inner (checked (''Start '' @ cid @ '': '') tc (Start cid [])))) (\<lambda>(u, dStart).
     andThen (measured clk (inner (checked (''Wait '' @ cid @ '': '') tc (Wait cid [])))) (\<lambda>(u, dWait).
     andThen (measured clk (inner (checked (''Delete '' @ cid @ '': '') tc (Delete cid [])))) (\<lambda>(u, dDelete).
     andThen (stopTimer clk) (\<lambda>u.
     andThen (inner (on_env (untrack cid))) (\<lambda>u.
     ret [dCreate, dStart, dWait, dDelete]))))))))))"

definition member_phases :: "string list" where
  "member_phases = [''ms/create'', ''ms/start'', ''ms/wait'', ''ms/delete'', ''ms/total'']"

text \<open>The start of the sandbox is reported before the timer is reset, which forgets it.\<close>

definition benchContainerCreate :: "'s sandlab \<Rightarrow> config \<Rightarrow> nat \<Rightarrow> (('s \<times> senv) \<times> bench, unit) test" where
  "benchContainerCreate sl cfg n = (let lab = sl_lab sl; clk = (\<lambda>se. lb_clock lab (fst se)) in
     andThen (inner (inner (prepare_images lab cfg))) (\<lambda>(shimBin, imgs, sandboxID).
     andThen (inner (inner (container_id lab))) (\<lambda>base.
     andThen (measured clk (startSandboxShim sl cfg sandboxID)) (\<lambda>(sb, dStart).
     andThen (reportMetric (micro_metric 1 dStart) ''ms/sandbox-start'') (\<lambda>u.
     andThen (resetTimer clk) (\<lambda>u.
     andThen (bench_loop (member_iteration sl cfg imgs sb base) [0..<n] (replicate 4 0)) (\<lambda>acc.
     report_all (micro_metric n) member_phases (acc @ [sum_list acc]))))))))"

definition SandboxBench ::
    "'s benchlab \<Rightarrow> 's sandlab \<Rightarrow> config \<Rightarrow> (('s \<times> senv) \<times> bench, unit) test" where
  "SandboxBench bl sl cfg = (let lab = in_subtest (bl_lab bl) ''ContainerCreate'' in
     sub_bench (\<lambda>se. lb_clock lab (fst se)) (bl_rounds bl (lb_name lab)) ''ContainerCreate''
       (benchContainerCreate (sl\<lparr>sl_lab := lab\<rparr>) cfg))"

end
