(* ===== verification/Bench_Laws.thy ===== *)
theory Bench_Laws
  imports Bench
begin

text \<open>
  What a clean run of the benchmarks reports: which metrics, how they relate to the time on
  the timer, and what the calls of each iteration answered.
\<close>

section \<open>Clean runs\<close>

definition on_timer :: "('s \<Rightarrow> int) \<Rightarrow> 's \<times> bench \<Rightarrow> int" where
  "on_timer clk sb = bm_duration (stop_timer (clk (fst sb)) (snd sb))"

lemma passes_timers [passes_simps]:
  "passes (startTimer clk) sb u sb' \<longleftrightarrow> sb' = (fst sb, start_timer (clk (fst sb)) (snd sb))"
  "passes (stopTimer clk) sb u sb' \<longleftrightarrow> sb' = (fst sb, stop_timer (clk (fst sb)) (snd sb))"
  "passes (resetTimer clk) sb u sb' \<longleftrightarrow> sb' = (fst sb, reset_timer (clk (fst sb)) (snd sb))"
  by (auto simp: startTimer_def stopTimer_def resetTimer_def at_clock_def passes_simps split: prod.splits)

lemma passes_reportMetric [passes_simps]:
  "passes (reportMetric v name) sb u sb' \<longleftrightarrow> sb' = (fst sb, (snd sb)\<lparr>bm_extra := (bm_extra (snd sb))(name \<mapsto> v)\<rparr>)"
  "passes (setBytes n) sb u sb' \<longleftrightarrow> sb' = (fst sb, (snd sb)\<lparr>bm_bytes := n\<rparr>)"
  by (cases sb; cases sb'; auto simp: reportMetric_def setBytes_def passes_simps)+

lemma passes_measured [passes_simps]:
  "passes (measured clk m) sb ad sb' \<longleftrightarrow>
     passes m (fst sb) (fst ad) (fst sb') \<and> snd sb' = snd sb \<and> snd ad = clk (fst sb') - clk (fst sb)"
  by (cases ad) (auto simp: measured_def passes_simps)

lemma timer_sel [simp]:
  "bm_extra (start_timer t b) = bm_extra b" "bm_extra (stop_timer t b) = bm_extra b" "bm_extra (reset_timer t b) = Map.empty"
  "bm_start (stop_timer t b) = None" "bm_start (start_timer t b) = Some (case bm_start b of None \<Rightarrow> t | Some t0 \<Rightarrow> t0)"
  "bm_duration (start_timer t b) = bm_duration b" "stop_timer t (stop_timer t' b) = stop_timer t' b"
  "bm_duration (stop_timer t (reset_timer t b)) = 0"
  by (auto simp: start_timer_def stop_timer_def reset_timer_def split: option.splits)

lemma stop_extra: "bm_duration (stop_timer t (b\<lparr>bm_extra := m\<rparr>)) = bm_duration (stop_timer t b)"
  by (simp add: stop_timer_def split: option.split)

lemma stop_started: "bm_start b = None \<Longrightarrow> bm_duration (stop_timer t (start_timer t0 b)) = bm_duration b + (t - t0)"
  by (simp add: start_timer_def stop_timer_def)

lemma passes_report_all:
  "passes (report_all metric names acc) sb u sb' \<Longrightarrow> distinct names \<Longrightarrow>
     fst sb' = fst sb \<and> bm_extra (snd sb') = bm_extra (snd sb) ++ map_of (zip names (map metric acc))
     \<and> (\<forall>t. bm_duration (stop_timer t (snd sb')) = bm_duration (stop_timer t (snd sb)))"
proof (induction names arbitrary: acc sb)
  case (Cons name names)
  show ?case
  proof (cases acc)
    case Nil
    with Cons.prems show ?thesis by (simp add: report_all_def passes_simps)
  next
    case (Cons d ds)
    let ?b = "(snd sb)\<lparr>bm_extra := (bm_extra (snd sb))(name \<mapsto> metric d)\<rparr>"
    from Cons Cons.prems(1) have p: "passes (report_all metric names ds) (fst sb, ?b) u sb'"
      by (simp add: report_all_def passes_simps)
    from Cons.prems(2) have "name \<notin> set names" "distinct names" by simp_all
    have "name \<notin> dom (map_of (zip names (map metric ds)))"
      using \<open>name \<notin> set names\<close> by (auto dest!: map_of_SomeD set_zip_leftD)
    then have "(bm_extra (snd sb))(name \<mapsto> metric d) ++ map_of (zip names (map metric ds))
        = bm_extra (snd sb) ++ map_of (zip (name # names) (map metric acc))"
      by (auto simp: Cons map_add_def fun_eq_iff domIff split: option.splits)
    moreover have "bm_extra ?b = (bm_extra (snd sb))(name \<mapsto> metric d)" by simp
    ultimately show ?thesis using Cons.IH [OF p \<open>distinct names\<close>] stop_extra [where b = "snd sb"]
      unfolding fst_conv snd_conv by metis
  qed
qed (simp add: report_all_def passes_simps)

text \<open>What holds of every iteration's durations, and is kept by adding them up, holds of the sums.\<close>

lemma bench_loop_closed:
  assumes "passes (bench_loop body is acc) s r s'" and "P acc"
    and "\<And>i s ds s'. passes (body i) s ds s' \<Longrightarrow> P ds" and "\<And>xs ys. P xs \<Longrightarrow> P ys \<Longrightarrow> P (map2 (+) xs ys)"
  shows "P r"
  using assms(1,2)
proof (induction "is" arbitrary: acc s)
  case (Cons i "is")
  then obtain ds t where "passes (body i) s ds t" "passes (bench_loop body is (map2 (+) acc ds)) t r s'"
    by (auto simp: passes_simps)
  with Cons assms(3,4) show ?case by blast
qed (simp add: passes_simps)

lemma bench_loop_each:
  "passes (bench_loop body is acc) s r s' \<Longrightarrow> \<forall>i \<in> set is. \<exists>t ds t'. passes (body i) t ds t'"
proof (induction "is" arbitrary: acc s)
  case (Cons i "is")
  then obtain ds t where "passes (body i) s ds t" "passes (bench_loop body is (map2 (+) acc ds)) t r s'"
    by (auto simp: passes_simps)
  with Cons.IH show ?case by auto
qed simp

lemma bench_loop_keeps:
  assumes "passes (bench_loop body is acc) sb r sb'"
    and "\<And>i sb ds sb'. passes (body i) sb ds sb' \<Longrightarrow> f (snd sb') = f (snd sb)"
  shows "f (snd sb') = f (snd sb)"
  using assms(1)
proof (induction "is" arbitrary: acc sb)
  case (Cons i "is")
  then obtain ds t where d: "passes (body i) sb ds t" and l: "passes (bench_loop body is (map2 (+) acc ds)) t r sb'"
    by (auto simp: passes_simps)
  from assms(2) [OF d] Cons.IH [OF l] show ?case by simp
qed (simp add: passes_simps)

lemma sum_list_map2: "length xs = length ys \<Longrightarrow> sum_list (map2 (+) xs ys) = sum_list xs + (sum_list ys :: int)"
  by (induction xs ys rule: list_induct2) simp_all

text \<open>A loop whose iterations time exactly their phases is timed exactly by the sums of them.\<close>

lemma bench_loop_accounts:
  assumes "passes (bench_loop body is acc) sb r sb'" and "length acc = k"
    and it: "\<And>i sb ds sb'. passes (body i) sb ds sb' \<Longrightarrow>
      length ds = k \<and> bm_extra (snd sb') = bm_extra (snd sb) \<and> on_timer clk sb' = on_timer clk sb + sum_list ds"
  shows "length r = k \<and> bm_extra (snd sb') = bm_extra (snd sb) \<and> on_timer clk sb' = on_timer clk sb + sum_list r - sum_list acc"
  using assms(1,2)
proof (induction "is" arbitrary: acc sb)
  case (Cons i "is")
  then obtain ds t where d: "passes (body i) sb ds t" and l: "passes (bench_loop body is (map2 (+) acc ds)) t r sb'"
    by (auto simp: passes_simps)
  from it [OF d] Cons.prems(2) Cons.IH [OF l] show ?case by (simp add: sum_list_map2)
qed (simp add: passes_simps)

section \<open>What is reported\<close>

text \<open>
  The time of an iteration of the lifecycle benchmark is that of its six phases: the bundle,
  the shutdown and the close are not timed.
\<close>

lemma lifecycle_iteration_accounts:
  assumes "passes (lifecycle_iteration lab cfg shimBin imgs base i) sb ds sb'"
  shows "length ds = 6 \<and> bm_extra (snd sb') = bm_extra (snd sb)
    \<and> on_timer (lb_clock lab) sb' = on_timer (lb_clock lab) sb + sum_list ds"
  using assms unfolding lifecycle_iteration_def Let_def passes_simps
  by (auto simp: passes_simps on_timer_def stop_started split_beta)


text \<open>
  The sandbox benchmark resets its timer after it has reported the time the sandbox took to
  start: that metric is gone, whatever the number of iterations.
\<close>

lemma member_iteration_accounts:
  assumes "passes (member_iteration sl cfg imgs sb base i) seb ds seb'"
  shows "length ds = 4 \<and> bm_extra (snd seb') = bm_extra (snd seb)
    \<and> on_timer (\<lambda>se. lb_clock (sl_lab sl) (fst se)) seb' = on_timer (\<lambda>se. lb_clock (sl_lab sl) (fst se)) seb + sum_list ds"
  using assms unfolding member_iteration_def Let_def passes_simps
  by (auto simp: passes_simps on_timer_def stop_started split_beta)

lemma benchContainerCreate_reports:
  assumes "passes (benchContainerCreate sl cfg n) (se, b) u (se', b')"
  shows "\<exists>ds. length ds = 4 \<and> bm_duration (stop_timer (lb_clock (sl_lab sl) (fst se')) b') = sum_list ds
    \<and> bm_extra b' = map_of (zip member_phases (map (micro_metric n) (ds @ [sum_list ds])))"
proof -
  let ?clk = "\<lambda>se. lb_clock (sl_lab sl) (fst se)"
  from assms obtain imgs sb base se1 b1 ds se2 b2 where
    l: "passes (bench_loop (member_iteration sl cfg imgs sb base) [0..<n] (replicate 4 0))
      (se1, reset_timer (?clk se1) b1) ds (se2, b2)"
    and r: "passes (report_all (micro_metric n) member_phases (ds @ [sum_list ds])) (se2, b2) u (se', b')"
    unfolding benchContainerCreate_def Let_def passes_simps by (auto simp: passes_simps split_beta)
  have "distinct member_phases" by (simp add: member_phases_def)
  note out = passes_report_all [OF r this]
  have "length ds = 4 \<and> bm_extra b2 = Map.empty \<and> on_timer ?clk (se2, b2) = sum_list ds"
    using bench_loop_accounts [OF l _ member_iteration_accounts [of sl cfg imgs sb base]]
    by (simp add: on_timer_def sum_list_replicate)
  with out show ?thesis by (intro exI [of _ ds]) (simp add: on_timer_def)
qed

lemma length_4: "length xs = 4 \<longleftrightarrow> (\<exists>a b c d. xs = [a, b, c, d])"
  by (auto simp: numeral_eq_Suc length_Suc_conv)

lemma length_6: "length xs = 6 \<longleftrightarrow> (\<exists>a b c d e f. xs = [a, b, c, d, e, f])"
  by (auto simp: numeral_eq_Suc length_Suc_conv)

text \<open>
  C37. After a clean run of the sandbox benchmark the metric ms/sandbox-start, which the
  code reports and its comment promises, is never among the results: the timer is reset
  after it was reported. The five phase metrics are.
\<close>

theorem benchContainerCreate_forgets:
  assumes "passes (benchContainerCreate sl cfg n) (se, b) u (se', b')"
  shows "bm_extra b' ''ms/sandbox-start'' = None \<and> dom (bm_extra b') = set member_phases"
proof -
  from benchContainerCreate_reports [OF assms] obtain ds where "length ds = 4"
    and e: "bm_extra b' = map_of (zip member_phases (map (micro_metric n) (ds @ [sum_list ds])))" by blast
  then obtain d1 d2 d3 d4 where "ds = [d1, d2, d3, d4]" by (auto simp: length_4)
  then show ?thesis by (auto simp: e member_phases_def)
qed

text \<open>
  The five phases of a start add up to its total; the reported ones do so up to the part of a
  millisecond that each loses when it is truncated.
\<close>

definition phases_add_up :: "int list \<Rightarrow> bool" where
  "phases_add_up ds \<longleftrightarrow> (\<exists>a b c d e. ds = [a, b, c, d, e, a + b + c + d + e])"

lemma phases_iteration_adds_up:
  "passes (phases_iteration lab cfg shimBin imgs base i) sb ds sb' \<Longrightarrow> phases_add_up ds"
  unfolding phases_iteration_def phased_startup_def Let_def passes_simps
  by (auto simp: passes_simps phases_add_up_def split_beta)

lemma phases_add_up_plus: "phases_add_up xs \<Longrightarrow> phases_add_up ys \<Longrightarrow> phases_add_up (map2 (+) xs ys)"
  by (auto simp: phases_add_up_def)

lemma sdiv_error:
  fixes x c :: int
  assumes "0 < c"
  shows "\<bar>x - c * (x sdiv c)\<bar> < c"
proof -
  define q r where "q = \<bar>x\<bar> div c" and "r = \<bar>x\<bar> mod c"
  have "\<bar>x\<bar> = c * q + r" "0 \<le> r" "r < c" using assms by (simp_all add: q_def r_def)
  moreover have "x sdiv c = sgn x * q" using assms by (simp add: signed_divide_int_def q_def sgn_mult)
  ultimately show ?thesis by (cases x "0 :: int" rule: linorder_cases) (simp_all add: abs_if split: if_splits)
qed

lemma truncated_sum:
  fixes a b c d e :: int
  assumes "0 < k"
  shows "\<bar>(a + b + c + d + e) sdiv k - (a sdiv k + b sdiv k + c sdiv k + d sdiv k + e sdiv k)\<bar> \<le> 5"
proof -
  let ?x = "(a + b + c + d + e) sdiv k - (a sdiv k + b sdiv k + c sdiv k + d sdiv k + e sdiv k)"
  have "\<bar>k * ?x\<bar> < 6 * k"
    using sdiv_error [OF assms, of "a + b + c + d + e"] sdiv_error [OF assms, of a] sdiv_error [OF assms, of b]
      sdiv_error [OF assms, of c] sdiv_error [OF assms, of d] sdiv_error [OF assms, of e]
    unfolding right_diff_distrib distrib_left by linarith
  then have "k * \<bar>?x\<bar> < k * 6" using assms by (simp add: abs_mult mult.commute)
  then show ?thesis using assms by (simp add: mult_less_cancel_left)
qed

lemma milli_sum:
  "\<bar>milli_metric n (a + b + c + d + e) - (milli_metric n a + milli_metric n b + milli_metric n c + milli_metric n d + milli_metric n e)\<bar>
    \<le> 5 / of_nat n"
proof -
  let ?x = "(a + b + c + d + e) sdiv 1000000 - (a sdiv 1000000 + b sdiv 1000000 + c sdiv 1000000 + d sdiv 1000000 + e sdiv 1000000)"
  have "milli_metric n (a + b + c + d + e) - (milli_metric n a + milli_metric n b + milli_metric n c + milli_metric n d + milli_metric n e)
      = of_int ?x / of_nat n"
    by (simp add: milli_metric_def diff_divide_distrib add_divide_distrib)
  moreover have "\<bar>of_int ?x :: rat\<bar> \<le> 5"
    using truncated_sum [of 1000000 a b c d e] by (simp only: of_int_abs [symmetric]) linarith
  then have "\<bar>of_int ?x / of_nat n :: rat\<bar> \<le> 5 / of_nat n"
    by (simp add: abs_divide divide_right_mono)
  ultimately show ?thesis by presburger
qed

lemma six_metrics:
  "map_of (zip startup_phases [m1, m2, m3, m4, m5, t]) = [''ms/shim-start'' \<mapsto> m1, ''ms/connect'' \<mapsto> m2,
     ''ms/create'' \<mapsto> m3, ''ms/task-start'' \<mapsto> m4, ''ms/output'' \<mapsto> m5, ''ms/total'' \<mapsto> t]"
  by (rule ext) (simp add: startup_phases_def)

theorem benchStartupPhases_adds_up:
  assumes "passes (benchStartupPhases lab cfg n) (s, b) u (s', b')"
  shows "\<exists>m1 m2 m3 m4 m5 t. bm_extra b' = [''ms/shim-start'' \<mapsto> m1, ''ms/connect'' \<mapsto> m2, ''ms/create'' \<mapsto> m3,
      ''ms/task-start'' \<mapsto> m4, ''ms/output'' \<mapsto> m5, ''ms/total'' \<mapsto> t]
    \<and> \<bar>t - (m1 + m2 + m3 + m4 + m5)\<bar> \<le> 5 / of_nat n"
proof -
  from assms obtain shimBin imgs base s1 ds s2 b2 where
    l: "passes (bench_loop (phases_iteration lab cfg shimBin imgs base) [0..<n] (replicate 6 0))
      (s1, reset_timer (lb_clock lab s1) b) ds (s2, b2)"
    and r: "passes (report_all (milli_metric n) startup_phases ds) (s2, b2) u (s', b')"
    unfolding benchStartupPhases_def passes_simps by (auto simp: passes_simps split_beta)
  have "distinct startup_phases" by (simp add: startup_phases_def)
  note out = passes_report_all [OF r this]
  have "phases_add_up ds"
  proof (rule bench_loop_closed [OF l])
    show "phases_add_up (replicate 6 0)" by (simp add: phases_add_up_def numeral_eq_Suc)
  qed (fact phases_iteration_adds_up, fact phases_add_up_plus)
  then obtain p1 p2 p3 p4 p5 where ds: "ds = [p1, p2, p3, p4, p5, p1 + p2 + p3 + p4 + p5]" by (auto simp: phases_add_up_def)
  have kept: "bm_extra (snd seb') = bm_extra (snd seb)" if "passes (phases_iteration lab cfg shimBin imgs base i) seb xs seb'" for i seb xs seb'
    using that unfolding phases_iteration_def phased_startup_def Let_def passes_simps by (auto simp: passes_simps split_beta)
  have "bm_extra b2 = Map.empty" using bench_loop_keeps [where f = bm_extra, OF l kept] by simp
  let ?m = "milli_metric n"
  let ?total = "?m (p1 + p2 + p3 + p4 + p5)"
  have "\<bar>?total - (?m p1 + ?m p2 + ?m p3 + ?m p4 + ?m p5)\<bar> \<le> 5 / of_nat n"
    using milli_sum [of n p1 p2 p3 p4 p5] .
  moreover have "bm_extra b' = map_of (zip startup_phases [?m p1, ?m p2, ?m p3, ?m p4, ?m p5, ?total])"
    using out \<open>bm_extra b2 = Map.empty\<close> unfolding ds by simp
  ultimately show ?thesis unfolding six_metrics by blast
qed

text \<open>A clean run of the file benchmarks has seen every one of its processes exit with zero.\<close>

lemma passes_in_container:
  assumes "passes (in_container lab cfg opts body) (s, b) u sb'"
  shows "\<exists>cid svc t t'. passes (body cid svc) (t, b) u t'"
  using assms by (auto simp: in_container_def passes_simps) (metis prod.collapse)

lemma benchHashverify_intact:
  fixes lab :: "'s lab"
  assumes "passes (benchHashverify lab cfg path hashHex1 mounts1 n) (s, b) u sb'"
  shows "\<exists>cid (svc :: 's service). \<forall>i < n. \<exists>since t t'. svc (Wait cid (numbered ''hashv'' i)) t = ((Some (WaitResp 0 since), None), t')"
proof -
  from passes_in_container [OF assms [unfolded benchHashverify_def]] obtain cid and svc :: "'s service" and sp sb1 acc sb2 where
    "passes (bench_loop (hashverify_round lab svc cid sp) [0..<n] []) sb1 acc sb2" by (auto simp: passes_simps)
  from bench_loop_each [OF this] have "\<exists>sb ds sb'. passes (hashverify_round lab svc cid sp i) sb ds sb'" if "i < n" for i
    using that by simp
  moreover have "\<exists>since t t'. svc (Wait cid (numbered ''hashv'' i)) t = ((Some (WaitResp 0 since), None), t')"
    if "passes (hashverify_round lab svc cid sp i) sb ds sb'" for i sb ds sb'
    using that by (auto simp: hashverify_round_def exec_calls_def Let_def passes_simps)
  ultimately show ?thesis by blast
qed

end
