(* ===== verification/Examples_Bench.thy ===== *)
theory Examples_Bench
  imports Examples_Stress Bench_Laws
begin

text \<open>
  Runs of the benchmarks on the machine of \<^verbatim>\<open>Examples_Suites\<close>, to which their theorems are
  applied.
\<close>

section \<open>Building runs\<close>

lemma timer_runs:
  "passes (stopTimer clk) (s, b) () (s, stop_timer (clk s) b)"
  "passes (startTimer clk) (s, b) () (s, start_timer (clk s) b)"
  "passes (resetTimer clk) (s, b) () (s, reset_timer (clk s) b)"
  by (simp_all add: passes_timers)

lemma inner_run: "passes m s a t \<Longrightarrow> passes (inner m) (s, b) a (t, b)"
  by (simp add: passes_inner)

lemma measured_run: "passes m s a t \<Longrightarrow> passes (measured clk m) (s, b) (a, clk t - clk s) (t, b)"
  by (simp add: passes_measured)

lemmas runs = timer_runs inner_run measured_run ret_run

section \<open>The steps of an iteration\<close>

lemma demo_images_built: "\<exists>imgs. buildShimImages demo_host big True w = (Inr imgs, w)"
  by (simp add: buildShimImages_def writeRootfsErofs_def writeBigFileErofs_def openTestbin_def demo_calls demo_host_simps Let_def)

lemma plain_fields: "shimBinary plain_config = ''shim''" "formatMounts plain_config = True"
  by (simp_all add: plain_config_def)

lemma demo_resolve: "passes (resolve_shim (demo_lab x out) plain_config) w ''/bin/shim'' w"
  using demo_ensure [of x out w] by (simp add: resolve_shim_def passes_simps demo_lab_simps plain_fields)

lemma demo_prepare: "\<exists>imgs base. passes (prepare_images (demo_lab x out) plain_config) w (''/bin/shim'', imgs, base) w"
proof -
  obtain imgs where "buildShimImages demo_host (lb_bigfile (demo_lab x out)) True w = (Inr imgs, w)" using demo_images_built by blast
  moreover obtain base where "passes (container_id (demo_lab x out)) w base w" using demo_id by blast
  ultimately show ?thesis using demo_resolve [of x out w]
    by (intro exI) (auto simp: prepare_images_def demo_lab_simps plain_fields passes_must intro!: then_run ret_run)
qed

lemma demo_fresh: "passes (fresh_bundle (demo_lab x out)) w (''/t'', path_join [''/t'', ''rootfs'']) w"
  by (simp add: fresh_bundle_def Let_def passes_simps demo_lab_simps demo_host_simps)

lemma demo_fifos: "passes (io_fifos (demo_lab x out) ''/t'') w (path_join [''/t'', ''stdout''], path_join [''/t'', ''stderr'']) w"
  by (simp add: io_fifos_def passes_simps demo_lab_simps createIOFifos_def demo_starter_def Let_def)

lemma demo_oci: "passes (oci_spec (demo_lab x out) ''/t'' args plain_config []) w u w"
  by (simp add: oci_spec_def passes_simps demo_lab_simps demo_spec)

lemma demo_bundle:
  "\<exists>ms o1 e. passes (bench_bundle (demo_lab x out) plain_config (image_mounts (demo_lab x out) plain_config imgs) args) w (''/t'', ms, o1, e) w"
proof -
  obtain ms where ms: "\<And>dir. image_mounts (demo_lab x out) plain_config imgs dir w = (Inr ms, w)"
    by (simp add: image_mounts_def buildRootfsMountsFromImages_def buildErofsMounts_def demo_lab_simps demo_calls demo_host_simps
        plain_fields Let_def)
  show ?thesis
    unfolding bench_bundle_def passes_simps
    using demo_fresh [of x out w] demo_oci [of x out args w] demo_fifos [of x out w] ms
    by (simp add: passes_simps demo_drain) metis
qed

lemma demo_connect: "bp_version p = 3 \<Longrightarrow> passes (connect_client (demo_lab x out) p) w (3, demo_task x) w"
  by (simp add: connect_client_def connect_shim_def connectShim_def newTaskClient_def taskClientForVersion_def passes_simps demo_lab_simps)

lemma demo_start_client:
  "passes (start_client (demo_lab x out) plain_config ''/bin/shim'' ''/t'' cid) w (3, demo_task x) w"
  using demo_start [of x out cid shimtestNamespace w] demo_connect unfolding start_client_def by (blast intro: then_run)

lemma demo_create_init: "passes (create_init (demo_lab x out) (demo_task x) cid b o1 e ms) w u w"
  by (simp add: create_init_def newCreateTaskRequest_def passes_simps demo_create)

lemma demo_calls_run:
  "passes (checked label (demo_task x) (Start cid [])) w () w" "passes (checked label (demo_task x) (Kill cid [] 9 True)) w () w"
  "passes (checked label (demo_task x) (Wait cid [])) w () w" "passes (checked label (demo_task x) (Delete cid [])) w () w"
  by (simp_all add: checked_def passes_simps)

lemma demo_close_run: "passes (andThen (shutdownTask (demo_task x) cid) (\<lambda>u. act (\<lambda>s. ((), lb_close (demo_lab x out) 3 s)))) w () w"
  by (simp add: shutdownTask_def passes_simps demo_lab_simps)

lemma demo_end_run: "passes (end_iteration (demo_lab x out) 3 (demo_task x) cid) w () w"
  by (simp add: end_iteration_def kill_init_def shutdownTask_def passes_simps demo_lab_simps)

lemma report_run: "\<exists>b'. passes (report_all metric names acc) (s, b) () (s, b')"
proof (induction names arbitrary: acc b)
  case (Cons name names)
  then show ?case by (cases acc) (auto simp: report_all_def passes_simps)
qed (simp add: report_all_def passes_simps)

lemma loop_run: "passes (body 0) sb ds sb' \<Longrightarrow> passes (bench_loop body [0..<1] acc) sb (map2 (+) acc ds) sb'"
  by (auto simp: passes_simps)

section \<open>Run benchmarks\<close>

lemma demo_lifecycle_iteration:
  "\<exists>ds b'. passes (lifecycle_iteration (demo_lab x out) plain_config ''/bin/shim'' imgs base i) (w, b) ds (w, b')"
proof -
  obtain ms o1 e where bdl: "passes (bench_bundle (demo_lab x out) plain_config (image_mounts (demo_lab x out) plain_config imgs)
      [''/bin/forever'', ''hello'']) w (''/t'', ms, o1, e) w" using demo_bundle by blast
  show ?thesis
    unfolding lifecycle_iteration_def Let_def
    by (rule exI, rule exI,
        (rule then_run, (rule timer_runs | (rule inner_run measured_run, rule bdl demo_start_client demo_create_init demo_calls_run demo_close_run)),
         (simp only: prod.case)?)+, rule ret_run)
qed

lemma demo_benchLifecycle: "\<exists>b'. passes (benchLifecycle (demo_lab x out) plain_config 1) (w, b) () (w, b')"
proof -
  obtain imgs base where prep: "passes (prepare_images (demo_lab x out) plain_config) w (''/bin/shim'', imgs, base) w"
    using demo_prepare by blast
  let ?b = "reset_timer (lb_clock (demo_lab x out) w) b"
  obtain ds b1 where it: "passes (lifecycle_iteration (demo_lab x out) plain_config ''/bin/shim'' imgs base 0) (w, ?b) ds (w, b1)"
    using demo_lifecycle_iteration by blast
  obtain b2 where rep: "passes (report_all (micro_metric 1) lifecycle_phases (map2 (+) (replicate 6 0) ds)) (w, b1) () (w, b2)"
    by (rule exE [OF report_run])
  show ?thesis
    unfolding benchLifecycle_def
    by (rule exI, rule then_run, rule inner_run, rule prep, simp only: prod.case, rule then_run, rule timer_runs,
        rule then_run, rule loop_run, rule it, rule rep)
qed


lemma demo_phases_iteration:
  "\<exists>ds b'. passes (phases_iteration (demo_lab x ''started'') plain_config ''/bin/shim'' imgs base i) (w, b) ds (w, b')"
proof -
  obtain ms o1 e where bdl: "passes (bench_bundle (demo_lab x ''started'') plain_config (image_mounts (demo_lab x ''started'') plain_config imgs)
      [''/bin/forever'', ''started'']) w (''/t'', ms, o1, e) w" using demo_bundle by blast
  obtain p where st: "passes (start_shim (demo_lab x ''started'') ''/bin/shim'' ''/t'' (numbered base i) shimtestNamespace plain_config) w p w"
    and v: "bp_version p = 3" using demo_start by blast
  have c: "str_contains ''started'' ''started''" by code_simp
  have aw: "passes (await_text (demo_lab x ''started'') path ''started'') w () w" for path
    using c by (simp add: await_text_def passes_simps demo_lab_simps containing_def)
  have clock: "passes (act (\<lambda>s. (lb_clock (demo_lab x ''started'') s, s))) w (lb_clock (demo_lab x ''started'') w) w"
    by (simp add: passes_simps)
  have ph: "\<exists>ds b'. passes (phased_startup (demo_lab x ''started'') plain_config ''/bin/shim'' (''/t'', ms, o1, e) (numbered base i)) (w, b)
      ((3, demo_task x), ds) (w, b')" for b
    unfolding phased_startup_def Let_def prod.case
    by (rule exI, rule exI,
        (rule then_run, (rule inner_run measured_run, rule clock st demo_connect [OF v] demo_create_init demo_calls_run aw),
         (simp only: prod.case)?)+, rule ret_run)
  let ?t = "lb_clock (demo_lab x ''started'') w"
  obtain ds b1 where "passes (phased_startup (demo_lab x ''started'') plain_config ''/bin/shim'' (''/t'', ms, o1, e) (numbered base i))
      (w, start_timer ?t (stop_timer ?t b)) ((3, demo_task x), ds) (w, b1)" using ph by blast
  note ph1 = this
  show ?thesis
    unfolding phases_iteration_def Let_def
    by (rule exI, rule exI, rule then_run, rule timer_runs, rule then_run, rule inner_run, rule bdl, rule then_run, rule timer_runs,
        rule then_run, rule ph1, simp only: prod.case, rule then_run, rule timer_runs, rule then_run, rule inner_run,
        rule demo_end_run, rule ret_run)
qed

lemma benchStartupPhases_adds_up_witness:
  "\<exists>b' m. passes (benchStartupPhases (demo_lab 0 ''started'') plain_config 1) (world1, new_bench) () (world1, b')
    \<and> bm_extra b' ''ms/total'' = Some m"
proof -
  let ?lab = "demo_lab 0 ''started''"
  obtain imgs base where prep: "passes (prepare_images ?lab plain_config) world1 (''/bin/shim'', imgs, base) world1"
    using demo_prepare by blast
  obtain ds b1 where it: "passes (phases_iteration ?lab plain_config ''/bin/shim'' imgs base 0)
      (world1, reset_timer (lb_clock ?lab world1) new_bench) ds (world1, b1)" using demo_phases_iteration by blast
  obtain b2 where rep: "passes (report_all (milli_metric 1) startup_phases (map2 (+) (replicate 6 0) ds)) (world1, b1) () (world1, b2)"
    by (rule exE [OF report_run])
  have r: "passes (benchStartupPhases ?lab plain_config 1) (world1, new_bench) () (world1, b2)"
    unfolding benchStartupPhases_def
    by (rule then_run, rule inner_run, rule prep, simp only: prod.case, rule then_run, rule timer_runs,
        rule then_run, rule loop_run, rule it, rule rep)
  from benchStartupPhases_adds_up [OF r] r show ?thesis by (intro exI [of _ b2]) auto
qed

section \<open>The sandbox benchmark\<close>

lemma demo_member_iteration:
  assumes t: "sb_tc sb = demo_task 0"
  shows "\<exists>ds b'. passes (member_iteration demo_sand plain_config imgs sb base i) ((w, e), b) ds ((w, untrack (numbered base i) e), b')"
proof -
  have lab: "sl_lab demo_sand = demo_lab 0 []" by (simp add: demo_sand_simps)
  obtain ms where ms: "passes (must [] (buildSandboxMemberMounts (lb_host (demo_lab 0 [])) (formatMounts plain_config) imgs
      (path_join [''/t'', ''rootfs'']))) w ms w"
    by (simp add: buildSandboxMemberMounts_def buildRootfsMountsFromImages_def buildErofsMounts_def passes_simps demo_lab_simps
        demo_calls demo_host_simps plain_fields Let_def)
  have drain: "passes (drainFifo (demo_lab 0 []) path) w () w" for path by (simp add: demo_drain)
  obtain r where req: "passes (member_request (demo_lab 0 []) plain_config imgs (numbered base i)) w r w"
    and r: "\<exists>o1 e1. r = Create (numbered base i) ''/t'' ms False [] o1 e1 [] [] ''opts''"
  proof -
    let ?r = "Create (numbered base i) ''/t'' ms False [] (path_join [''/t'', ''stdout'']) (path_join [''/t'', ''stderr'']) [] [] ''opts''"
    have "passes (newCreateTaskRequest (demo_lab 0 []) (numbered base i) ''/t'' (path_join [''/t'', ''stdout''])
        (path_join [''/t'', ''stderr'']) ms) w ?r w" by (simp add: newCreateTaskRequest_def demo_create)
    note new = this
    have "passes (member_request (demo_lab 0 []) plain_config imgs (numbered base i)) w ?r w"
      unfolding member_request_def
      by (rule then_run, rule demo_fresh, simp only: prod.case, rule then_run, rule ms, rule then_run, rule demo_oci,
          rule then_run, rule demo_fifos, simp only: prod.case, rule then_run, rule drain, rule then_run, rule drain, rule new)
    with that show ?thesis by blast
  qed
  have create: "passes (checked label (demo_task 0) r) w () w" for label using r by (auto simp: checked_def passes_simps)
  have forget: "passes (on_env (untrack cid)) (w, e) () (w, untrack cid e)" for cid by (simp add: passes_simps)
  show ?thesis
    unfolding member_iteration_def Let_def lab t
    by (rule exI, rule exI,
        (rule then_run, (rule timer_runs | (rule inner_run, rule inner_run, rule req) | (rule measured_run, rule inner_run, rule create demo_calls_run)
           | (rule inner_run, rule forget)),
         (simp only: prod.case)?)+, rule ret_run)
qed

lemma benchContainerCreate_forgets_witness:
  "\<exists>se' b'. passes (benchContainerCreate demo_sand plain_config 1) ((world0, no_members), new_bench) () (se', b')
    \<and> bm_extra b' ''ms/sandbox-start'' = None"
proof -
  let ?lab = "demo_lab 0 []"
  let ?clk = "\<lambda>se :: world \<times> senv. lb_clock ?lab (fst se)"
  have lab: "sl_lab demo_sand = ?lab" by (simp add: demo_sand_simps)
  obtain imgs sid where prep: "passes (prepare_images ?lab plain_config) world0 (''/bin/shim'', imgs, sid) world0"
    using demo_prepare by blast
  obtain base where base: "passes (container_id ?lab) world0 base world0" using demo_id by blast
  obtain sb where sb: "passes (startSandboxShim demo_sand plain_config sid) (world0, no_members) sb (ready_world True, no_members)"
    and tc: "sb_tc sb = demo_task 0" using demo_start_sandbox by (auto simp: startSandboxShim_def)
  let ?d = "?clk (ready_world True, no_members) - ?clk (world0, no_members)"
  have rep1: "\<exists>b1. passes (reportMetric v name) (se, b) () (se, b1)" for v name and se :: "world \<times> senv" and b by (simp add: passes_simps)
  obtain b1 where m: "passes (reportMetric (micro_metric 1 ?d) ''ms/sandbox-start'') ((ready_world True, no_members), new_bench) ()
      ((ready_world True, no_members), b1)" by (rule exE [OF rep1])
  let ?b = "reset_timer (?clk (ready_world True, no_members)) b1"
  obtain ds b2 where it: "passes (member_iteration demo_sand plain_config imgs sb base 0) ((ready_world True, no_members), ?b) ds
      ((ready_world True, untrack (numbered base 0) no_members), b2)" using demo_member_iteration [OF tc] by blast
  let ?acc = "map2 (+) (replicate 4 0) ds"
  obtain b3 where rep: "passes (report_all (micro_metric 1) member_phases (?acc @ [sum_list ?acc]))
      ((ready_world True, untrack (numbered base 0) no_members), b2) () ((ready_world True, untrack (numbered base 0) no_members), b3)"
    by (rule exE [OF report_run])
  have r: "passes (benchContainerCreate demo_sand plain_config 1) ((world0, no_members), new_bench) ()
      ((ready_world True, untrack (numbered base 0) no_members), b3)"
    unfolding benchContainerCreate_def Let_def lab
    by (rule then_run, rule inner_run, rule inner_run, rule prep, simp only: prod.case, rule then_run, rule inner_run, rule inner_run, rule base,
        rule then_run, rule measured_run, rule sb, simp only: prod.case, rule then_run, rule m, rule then_run, rule timer_runs,
        rule then_run, rule loop_run, rule it, rule rep)
  from benchContainerCreate_forgets [OF r] r show ?thesis by blast
qed

end
