(* ===== verification/Conformance.thy ===== *)
theory Conformance
  imports Sandbox_Suite
begin

text \<open>
  The other half of a conformance suite: a shim that keeps the contract passes. The contract is
  an abstract machine, the life of a task and the life of a sandbox with the replies that matter
  at each stage; a shim conforms when a relation between its states and the stages is a
  simulation. The tests of \<^verbatim>\<open>run_suite.go\<close> and of the API contract in \<^verbatim>\<open>sandbox_suite.go\<close> accept
  every such shim, with the output that testbin's own commands print.
\<close>

section \<open>The life of a task\<close>

datatype stage = NoTask | Made | Live | Ended | Gone

fun task_life :: "string \<Rightarrow> stage \<Rightarrow> req \<Rightarrow> stage option" where
  "task_life cid NoTask (Create i b r t si so se c p opts) = (if i = cid then Some Made else None)"
| "task_life cid Made (Start i e) = (if i = cid \<and> e = [] then Some Live else None)"
| "task_life cid Live (State i e) = (if i = cid \<and> e = [] then Some Live else None)"
| "task_life cid Live (Kill i e sg al) = (if i = cid \<and> e = [] then Some Live else None)"
| "task_life cid Live (Wait i e) = (if i = cid \<and> e = [] then Some Ended else None)"
| "task_life cid Ended (Delete i e) = (if i = cid \<and> e = [] then Some Gone else None)"
| "task_life cid st r = None"

text \<open>What the reply to a call has to say: a running task is RUNNING, a wait gives the exit code.\<close>

fun task_reply :: "nat \<Rightarrow> req \<Rightarrow> resp \<Rightarrow> bool" where
  "task_reply code (State i e) a = (\<exists>j b p si so se t x at e'. a = StateResp j b p RUNNING si so se t x at e')"
| "task_reply code (Wait i e) a = (\<exists>at. a = WaitResp code at)"
| "task_reply code r a = True"

text \<open>
  \<open>R\<close> relates stages and states of the world. Every call the task accepts at its stage succeeds,
  with such a reply, and leads to a state of the next stage; a shutdown leaves nothing, whatever
  it answers.
\<close>

definition conforms :: "'s service \<Rightarrow> string \<Rightarrow> nat \<Rightarrow> (stage \<Rightarrow> 's \<Rightarrow> bool) \<Rightarrow> bool" where
  "conforms svc cid code R \<longleftrightarrow>
     (\<forall>st r st' s. task_life cid st r = Some st' \<longrightarrow> R st s \<longrightarrow>
        (\<exists>a t. svc r s = ((Some a, None), t) \<and> task_reply code r a \<and> R st' t))
     \<and> (\<forall>st s. R st s \<longrightarrow> R Gone (snd (svc (Shutdown cid False) s)))"

text \<open>
  The harness's own side of the same runs: FIFOs open and options are marshalled, without a
  change of the stage; once the task runs its output is read, and all of it is there when it has
  ended.
\<close>

definition captures :: "'s lab \<Rightarrow> string \<Rightarrow> bytes \<Rightarrow> (stage \<Rightarrow> 's \<Rightarrow> bool) \<Rightarrow> bool" where
  "captures lab path out R \<longleftrightarrow>
     (\<exists>opts. lb_anyOptions lab (rootless_options lab) = Inr opts)
     \<and> (\<forall>st s. R st s \<longrightarrow> R st (snd (h_do (lb_host lab) (MkdirAll (runcRoot (rootless_options lab))) s)))
     \<and> (\<forall>p st s. R st s \<longrightarrow> (\<exists>t. s_openfifo (lb_starter lab) p s = (None, t) \<and> R st t))
     \<and> (\<forall>st s. R st s \<longrightarrow> st \<in> {Live, Ended} \<longrightarrow>
          (\<exists>gots t. lb_readings lab path s = (gots, t) \<and> out \<in> set gots \<and> R st t))
     \<and> (\<forall>s. R Ended s \<longrightarrow> lb_buffered lab path s = out)
     \<and> (\<forall>s. R Gone s \<longrightarrow> (\<exists>t. lb_drained lab path s = (Some out, t)))"

lemma conforms_call:
  assumes "conforms svc cid code R" and "R st s" and "task_life cid st r = Some st'"
  obtains a t where "svc r s = ((Some a, None), t)" and "task_reply code r a" and "R st' t"
  using assms unfolding conforms_def by blast

lemma conforms_shutdown: "conforms svc cid code R \<Longrightarrow> R st s \<Longrightarrow> R Gone (snd (svc (Shutdown cid False) s))"
  unfolding conforms_def by blast

lemma captures_open:
  assumes "captures lab path out R" and "R st s"
  obtains t where "passes (drainFifo lab p) s () t" and "R st t"
  using assms unfolding captures_def drainFifo_def passes_must_do by blast

lemma captures_poll:
  assumes "captures lab path out R" and "R st s" and "st \<in> {Live, Ended}" and "str_contains out want"
  obtains got t where "passes (poll_until label (containing want) (lb_readings lab path)) s got t" and "R st t"
proof -
  from assms obtain gots t where g: "lb_readings lab path s = (gots, t)" "out \<in> set gots" "R st t"
    unfolding captures_def by metis
  have "first_accepted (containing want) gots \<noteq> None"
    using g(2) assms(4) unfolding first_accepted_None by (auto simp: containing_def)
  with g that show ?thesis by (auto simp: passes_poll_until)
qed

lemma captures_buffered: "captures lab path out R \<Longrightarrow> R Ended s \<Longrightarrow> lb_buffered lab path s = out"
  unfolding captures_def by blast

lemma captures_drained:
  assumes "captures lab path out R" and "R Gone s"
  obtains t where "lb_drained lab path s = (Some out, t)"
  using assms unfolding captures_def by blast

text \<open>Through both drains, the create and the start to a running task.\<close>

lemma drains_run:
  assumes "captures lab path out R" and "R st s"
  obtains t where "passes (drain_both lab u) s () t" and "R st t"
proof -
  obtain t1 where a: "passes (drainFifo lab (up_out u)) s () t1" "R st t1"
    by (rule captures_open [OF assms])
  obtain t2 where b: "passes (drainFifo lab (up_err u)) t1 () t2" "R st t2"
    by (rule captures_open [OF assms(1) a(2)])
  from a(1) b(1) have "passes (drain_both lab u) s () t2"
    unfolding drain_both_def passes_inOrder_Cons passes_inOrder_Nil by blast
  with b(2) that show ?thesis by blast
qed

lemma create_run:
  assumes "captures lab path out R" and "conforms svc (up_cid u) code R" and "R NoTask s"
  obtains a t where "passes (create_task lab u label svc) s a t" and "R Made t"
proof -
  from assms(1) obtain opts where o: "lb_anyOptions lab (rootless_options lab) = Inr opts"
    unfolding captures_def by blast
  obtain s1 where s1: "R NoTask s1"
    and q: "passes (newCreateTaskRequest lab (up_cid u) (up_bundle u) (up_out u) (up_err u) (up_mounts u)) s
      (Create (up_cid u) (up_bundle u) (up_mounts u) False [] (up_out u) (up_err u) [] [] opts) s1"
  proof (cases "0 < lb_uid lab")
    case True
    with assms(1,3) o show ?thesis
      by (intro that) (simp_all add: captures_def newCreateTaskRequest_def create_request_def passes_simps)
  next
    case False
    with assms(3) o show ?thesis
      by (intro that) (simp_all add: newCreateTaskRequest_def create_request_def passes_simps)
  qed
  obtain a t where c: "svc (Create (up_cid u) (up_bundle u) (up_mounts u) False [] (up_out u) (up_err u) [] [] opts) s1
      = ((Some a, None), t)" "R Made t"
    by (rule conforms_call [OF assms(2) s1, of "Create (up_cid u) (up_bundle u) (up_mounts u) False [] (up_out u) (up_err u) [] [] opts"])
      auto
  with q have "passes (create_task lab u label svc) s (Some a) t"
    unfolding create_task_def passes_andThen passes_rpc by blast
  with c(2) that show ?thesis by blast
qed

lemma call_run:
  assumes "conforms svc cid code R" and "R st s" and "task_life cid st r = Some st'"
  obtains a t where "passes (rpc label svc r) s (Some a) t" and "task_reply code r a" and "R st' t"
  using conforms_call [OF assms] by (metis passes_rpc)

lemma start_run:
  assumes "captures lab path out R" and "conforms svc (up_cid u) code R" and "R NoTask s"
  obtains t where "passes (start_init lab u svc) s () t" and "R Live t"
proof -
  obtain t1 where a: "passes (drain_both lab u) s () t1" "R NoTask t1" by (rule drains_run [OF assms(1,3)])
  obtain b t2 where c: "passes (create_task lab u ''create failed: '' svc) t1 b t2" "R Made t2"
    by (rule create_run [OF assms(1,2) a(2)])
  have "task_life (up_cid u) Made (Start (up_cid u) []) = Some Live" by simp
  then obtain d t3 where e: "passes (rpc ''start failed: '' svc (Start (up_cid u) [])) t2 (Some d) t3" "R Live t3"
    using call_run [OF assms(2) c(2)] by metis
  have "passes (start_init lab u svc) s () t3"
    unfolding start_init_def passes_andThen passes_ret using a(1) c(1) e(1) by blast
  with e(2) that show ?thesis by blast
qed

section \<open>The run suite accepts\<close>

text \<open>
  The shim a test has brought up: its client, for the version it declared, conforms, its task
  exits with the code and prints the output.
\<close>

definition serves :: "'s lab \<Rightarrow> up \<Rightarrow> nat \<Rightarrow> bytes \<Rightarrow> 's \<Rightarrow> bool" where
  "serves lab u code out s \<longleftrightarrow>
     (\<exists>svc R. taskClientForVersion (lb_task2 lab (up_conn u)) (lb_task3 lab (up_conn u)) (up_version u) = Some svc
        \<and> conforms svc (up_cid u) code R \<and> captures lab (up_out u) out R \<and> R NoTask s)"

lemma client_run:
  assumes "taskClientForVersion (lb_task2 lab (up_conn u)) (lb_task3 lab (up_conn u)) (up_version u) = Some svc"
    and "passes (body svc) s x t"
  shows "passes (with_client lab u body) s x (lb_close lab (up_conn u) t)"
  using assms unfolding passes_with_client by blast

lemma drop_run: "passes (rpc_drop svc r) s () (snd (svc r s))" "passes (shutdownTask svc cid) s () (snd (svc (Shutdown cid False) s))"
  by (simp_all add: shutdownTask_def passes_rpc_drop)

text \<open>
  What the shim serves is testbin, run with the arguments of the spec: it prints what the program
  prints, and ends with its exit status. A program that does not end is killed, and the status
  is then any.
\<close>

definition runs_program :: "'w machine \<Rightarrow> 'w \<Rightarrow> string list \<Rightarrow> 's lab \<Rightarrow> up \<Rightarrow> 's \<Rightarrow> bool" where
  "runs_program m w argv lab u s \<longleftrightarrow>
     (let x = Main m argv w (new_proc []) in
      \<exists>code. (\<forall>c. ending_of x = Exit c \<longrightarrow> c = int code) \<and> serves lab u code (stdout (proc_of x)) s)"

lemma Main_in_bin:
  assumes "map_of (commands m) cmd = Some f"
  shows "Main m ((''/bin/'' @ cmd) # args) w p = f (cmd # args) w p"
proof -
  have "cmd \<in> set testbinCommands" using assms dispatched_iff [of m cmd] by simp
  then have c: "plain_elem cmd" "cmd \<noteq> ''testbin''" "cmd \<noteq> []"
    using testbinCommands_plain [of cmd] by (auto simp: plain_elem_def)
  have b: "path_base (''/bin/'' @ cmd) = cmd" using path_base_in_dir(1) [OF c(1), of "''/bin''"] by simp
  have "Main m ((''/bin/'' @ cmd) # args) w p = dispatch m cmd ((''/bin/'' @ cmd) # args) w p"
    unfolding Main_def list.case b Let_def using c by simp
  also have "\<dots> = dispatch m cmd (cmd # args) w p" by (rule dispatch_name_blind)
  finally show ?thesis by (simp add: dispatch_def assms)
qed

lemma runs_program_serves:
  assumes "runs_program m w ((''/bin/'' @ cmd) # args) lab u s" and "map_of (commands m) cmd = Some f"
  obtains code where "\<And>c. ending_of (f (cmd # args) w (new_proc [])) = Exit c \<Longrightarrow> c = int code"
    and "serves lab u code (stdout (proc_of (f (cmd # args) w (new_proc [])))) s"
  using assms unfolding runs_program_def Main_in_bin [OF assms(2)] Let_def by blast

text \<open>
  C11. Beside soundness, completeness: a shim whose calls simulate the life of a task
  (create, start, state, kill, wait, delete) and whose captured output is what testbin's
  forever command prints passes the lifecycle test, whatever else it does.
\<close>

theorem testLifecycle_accepts:
  assumes up: "passes (bring_up_lifecycle lab cfg) s u t" and prog: "runs_program m w [''/bin/forever'', ''hello''] lab u t"
  shows "\<exists>s'. passes (testLifecycle lab cfg) s () s'"
proof -
  have "map_of (commands m) ''forever'' = Some cmdForever" by (simp add: commands_def)
  then obtain code where "serves lab u code (stdout (proc_of (cmdForever [''forever'', ''hello''] w (new_proc [])))) t"
    using runs_program_serves [of m w "''forever''" "[''hello'']" lab u t cmdForever] prog by (metis append_Cons append_Nil)
  moreover have "stdout (proc_of (cmdForever [''forever'', ''hello''] w (new_proc []))) = ''hello'' @ newline"
    by (simp add: cmdForever_def proc_of_def println_def print_def put_def new_proc_def join_Cons)
  ultimately obtain out where "serves lab u code out t" and hello: "str_contains out ''hello''"
    by (metis str_contains_append_right str_contains_refl)
  from this(1) obtain svc R where
    client: "taskClientForVersion (lb_task2 lab (up_conn u)) (lb_task3 lab (up_conn u)) (up_version u) = Some svc"
    and ok: "conforms svc (up_cid u) code R" and cap: "captures lab (up_out u) out R" and r0: "R NoTask t"
    unfolding serves_def by blast
  obtain t1 where a: "passes (drain_both lab u) t () t1" "R NoTask t1" by (rule drains_run [OF cap r0])
  obtain b t2 where c: "passes (create_task lab u ''failed to create task: '' svc) t1 b t2" "R Made t2"
    by (rule create_run [OF cap ok a(2)])
  obtain d t3 where e: "passes (rpc ''failed to start task: '' svc (Start (up_cid u) [])) t2 (Some d) t3" "R Live t3"
    by (rule call_run [OF ok c(2), of "Start (up_cid u) []" Live]) auto
  obtain f t4 where g: "passes (rpc ''failed to get state: '' svc (State (up_cid u) [])) t3 (Some f) t4"
      "task_reply code (State (up_cid u) []) f" "R Live t4"
    by (rule call_run [OF ok e(2), of "State (up_cid u) []" Live]) (simp, blast)
  from g(2) have st: "passes (task_status (Some f)) t4 RUNNING t4" by (auto simp: passes_task_status)
  obtain got t5 where h: "passes (poll_until ''timed out waiting for 'hello' output, got: '' (containing ''hello'')
      (lb_readings lab (up_out u))) t4 got t5" "R Live t5"
    by (rule captures_poll [OF cap g(3) _ hello]) auto
  obtain k t6 where kk: "svc (Kill (up_cid u) [] 9 True) t5 = ((Some k, None), t6)" "R Live t6"
    by (rule conforms_call [OF ok h(2), of "Kill (up_cid u) [] 9 True" Live]) auto
  from kk(1) have kl: "passes (kill_task lab svc (up_cid u)) t5 () t6" by (simp add: kill_task_def passes_must_do)
  obtain w t7 where w: "passes (rpc ''failed to wait for task: '' svc (Wait (up_cid u) [])) t6 (Some w) t7" "R Ended t7"
    by (rule call_run [OF ok kk(2), of "Wait (up_cid u) []" Ended]) auto
  obtain x t8 where x: "passes (rpc ''failed to delete task: '' svc (Delete (up_cid u) [])) t7 (Some x) t8"
    by (rule call_run [OF ok w(2), of "Delete (up_cid u) []" Gone]) auto
  show ?thesis
    unfolding testLifecycle_def Let_def
    by (rule exI, rule then_run [OF up], rule client_run [OF client], rule then_run [OF a(1)], rule then_run [OF c(1)],
        rule then_run [OF e(1)], rule then_run [OF g(1)], rule then_run [OF st], rule then_run [OF check_run(1) [OF refl]],
        rule then_run [OF h(1)], rule then_run [OF kl], rule then_run [OF w(1)], rule then_run [OF x], rule drop_run(2))
qed

theorem run_exit_code_accepts:
  assumes up: "passes (bring_up lab cfg ''run'' [''/bin/exit'', dec code] []) s u t"
    and prog: "runs_program m w [''/bin/exit'', dec code] lab u t" and "int code < 2 ^ 63"
  shows "\<exists>s'. passes (run_exit_code lab cfg code) s () s'"
proof -
  have "map_of (commands m) ''exit'' = Some cmdExit" by (simp add: commands_def)
  moreover have "ending_of (cmdExit [''exit'', dec code] w (new_proc [])) = Exit (int code)"
    using atoi_dec [OF assms(3)] by (simp add: cmdExit_def ending_of_def)
  ultimately obtain out where "serves lab u code out t"
    using runs_program_serves [of m w "''exit''" "[dec code]" lab u t cmdExit] prog by (metis append_Cons append_Nil of_nat_eq_iff)
  then obtain svc R where
    client: "taskClientForVersion (lb_task2 lab (up_conn u)) (lb_task3 lab (up_conn u)) (up_version u) = Some svc"
    and ok: "conforms svc (up_cid u) code R" and cap: "captures lab (up_out u) out R" and r0: "R NoTask t"
    unfolding serves_def by blast
  obtain t1 where a: "passes (start_init lab u svc) t () t1" "R Live t1" by (rule start_run [OF cap ok r0])
  obtain w t2 where b: "passes (rpc ''wait failed: '' svc (Wait (up_cid u) [])) t1 (Some w) t2"
      "task_reply code (Wait (up_cid u) []) w"
    by (rule call_run [OF ok a(2), of "Wait (up_cid u) []" Ended]) auto
  from b(2) have x: "passes (exit_status (Some w)) t2 code t2" by (auto simp: passes_exit_status)
  show ?thesis
    unfolding run_exit_code_def inOrder.simps
    by (rule exI, rule then_run [OF up], rule client_run [OF client], rule then_run [OF a(1)], rule then_run [OF b(1)],
        rule then_run [OF x], rule then_run [OF check_run(1) [OF refl]], rule then_run [OF drop_run(1)],
        rule then_run [OF drop_run(2)], rule ret_run)
qed

theorem testOutputThenExit_accepts:
  assumes up: "passes (bring_up lab cfg ''run'' [''/bin/tickexit''] []) s u t"
    and prog: "runs_program m w [''/bin/tickexit''] lab u t"
  shows "\<exists>s'. passes (testOutputThenExit lab cfg) s () s'"
proof -
  let ?x = "cmdTickexit [''tickexit''] w (new_proc [])"
  have p: "stdout (new_proc []) = []" "room (new_proc []) = None" by (simp_all add: new_proc_def)
  note acc = tickexit_accepted [OF p, of "[''tickexit'']" w]
  have "map_of (commands m) ''tickexit'' = Some cmdTickexit" by (simp add: commands_def)
  then obtain code where code: "\<And>c. ending_of ?x = Exit c \<Longrightarrow> c = int code" and "serves lab u code (stdout (proc_of ?x)) t"
    using runs_program_serves [of m w "''tickexit''" "[]" lab u t cmdTickexit] prog by (metis append_Cons append_Nil)
  moreover define out where "out = stdout (proc_of ?x)"
  moreover have "code = 7" using code acc by simp
  ultimately obtain svc R where
    client: "taskClientForVersion (lb_task2 lab (up_conn u)) (lb_task3 lab (up_conn u)) (up_version u) = Some svc"
    and ok: "conforms svc (up_cid u) 7 R" and cap: "captures lab (up_out u) out R" and r0: "R NoTask t"
    unfolding serves_def by auto
  have "out = concat (map (\<lambda>i. tick_line i @ newline) [1..<50]) @ tick_line 50 @ newline"
    using cmdTickexit_output [OF p(2), of "[''tickexit'']" w] p(1) upt_Suc_append [of 1 50]
    by (simp add: out_def proc_of_def del: upt_rec_numeral upt_Suc)
  moreover have "tick_line 50 = ''tick 50''" unfolding tick_line_def by code_simp
  ultimately have last50: "str_contains out (''tick 50'' @ newline)" by (metis str_contains_append_left str_contains_refl)
  have check: "check_ticks out = None" using acc by (simp add: out_def)
  obtain t1 where a: "passes (start_init lab u svc) t () t1" "R Live t1" by (rule start_run [OF cap ok r0])
  obtain x t2 where b: "passes (rpc ''wait failed: '' svc (Wait (up_cid u) [])) t1 (Some x) t2"
      "task_reply 7 (Wait (up_cid u) []) x" "R Ended t2"
    by (rule call_run [OF ok a(2), of "Wait (up_cid u) []" Ended]) auto
  from b(2) have st: "passes (exit_status (Some x)) t2 7 t2" by (auto simp: passes_exit_status)
  obtain got t3 where c: "passes (poll_until ''timed out waiting for final output, got: '' (containing (''tick 50'' @ newline))
      (lb_readings lab (up_out u))) t2 got t3" "R Ended t3"
    by (rule captures_poll [OF cap b(3) _ last50]) auto
  have d: "passes (must_do [] (\<lambda>s. (check_ticks (lb_buffered lab (up_out u) s), s))) t3 () t3"
    using captures_buffered [OF cap c(2)] check by (simp add: passes_must_do)
  show ?thesis
    unfolding testOutputThenExit_def inOrder.simps
    by (rule exI, rule then_run [OF up], rule client_run [OF client], rule then_run [OF a(1)], rule then_run [OF b(1)],
        rule then_run [OF st], rule then_run [OF check_run(1) [OF refl]], rule then_run [OF c(1)], rule then_run [OF d],
        rule then_run [OF drop_run(1)], rule then_run [OF drop_run(2)], rule ret_run)
qed

text \<open>
  C12. The burst test accepts every shim that runs testbin's burstexit faithfully: for a
  shim that keeps the life of a task and hands over all of the output by its shutdown, the
  payload that the command writes for the arguments of the spec passes the test's length
  and checksum checks.
\<close>

theorem testFastExitInit_accepts:
  assumes up: "passes (bring_up lab cfg ''run'' [''/bin/burstexit'', dec burst_size, ''0''] []) s u t"
    and prog: "runs_program m w [''/bin/burstexit'', dec burst_size, ''0''] lab u t"
  shows "\<exists>s'. passes (testFastExitInit lab cfg) s () s'"
proof -
  let ?x = "cmdBurstexit [''burstexit'', dec burst_size, ''0''] w (new_proc [])"
  have check: "check_burst (stdout (proc_of ?x)) = None"
    using burst_accepted [OF refl, of "new_proc []" w] by (simp add: new_proc_def)
  have "map_of (commands m) ''burstexit'' = Some cmdBurstexit" by (simp add: commands_def)
  then obtain code where "serves lab u code (stdout (proc_of ?x)) t"
    using runs_program_serves [of m w "''burstexit''" "[dec burst_size, ''0'']" lab u t cmdBurstexit] prog
    by (metis append_Cons append_Nil)
  then obtain svc R where
    client: "taskClientForVersion (lb_task2 lab (up_conn u)) (lb_task3 lab (up_conn u)) (up_version u) = Some svc"
    and ok: "conforms svc (up_cid u) code R" and cap: "captures lab (up_out u) (stdout (proc_of ?x)) R" and r0: "R NoTask t"
    unfolding serves_def by blast
  obtain t1 where a: "passes (start_init lab u svc) t () t1" "R Live t1" by (rule start_run [OF cap ok r0])
  obtain t2 where b: "lb_drained lab (up_out u) (snd (svc (Shutdown (up_cid u) False) t1)) = (Some (stdout (proc_of ?x)), t2)"
    by (rule captures_drained [OF cap conforms_shutdown [OF ok a(2)]])
  have c: "passes (await_drained lab (up_out u) label) (snd (svc (Shutdown (up_cid u) False) t1)) (stdout (proc_of ?x)) t2" for label
    using b by (simp add: passes_await_drained)
  have d: "passes (must_do [] (\<lambda>s. (check_burst (stdout (proc_of ?x)), s))) t2 () t2"
    using check by (simp add: passes_must_do)
  show ?thesis
    unfolding testFastExitInit_def
    by (rule exI, rule then_run [OF up], rule client_run [OF client], rule then_run [OF a(1)], rule then_run [OF drop_run(1)],
        rule then_run [OF c], rule d)
qed

section \<open>The life of a sandbox\<close>

text \<open>
  From the end of the bring-up: the sandbox is up, then stopped (a second stop is accepted), then
  shut down. Its status, platform and ping answer while it is up.
\<close>

datatype pod_stage = PodUp | PodDown | PodGone

fun pod_life :: "string \<Rightarrow> pod_stage \<Rightarrow> sreq \<Rightarrow> pod_stage option" where
  "pod_life sid PodUp (StopSandbox i) = (if i = sid then Some PodDown else None)"
| "pod_life sid PodUp (SandboxStatus i v) = (if i = sid then Some PodUp else None)"
| "pod_life sid PodUp (Platform i) = (if i = sid then Some PodUp else None)"
| "pod_life sid PodUp (PingSandbox i) = (if i = sid then Some PodUp else None)"
| "pod_life sid PodDown (StopSandbox i) = (if i = sid then Some PodDown else None)"
| "pod_life sid PodDown (SandboxStatus i v) = (if i = sid then Some PodDown else None)"
| "pod_life sid PodDown (ShutdownSandbox i) = (if i = sid then Some PodGone else None)"
| "pod_life sid st r = None"

fun pod_reply :: "pod_stage \<Rightarrow> sreq \<Rightarrow> sresp option \<Rightarrow> bool" where
  "pod_reply PodUp (SandboxStatus i v) a = (state_of a = sandboxStateReady \<and> pid_of a \<noteq> 0)"
| "pod_reply PodDown (SandboxStatus i v) a = (state_of a = sandboxStateNotReady)"
| "pod_reply st (Platform i) a = (case platform_of a of None \<Rightarrow> False | Some (os, arch, variant) \<Rightarrow> os \<noteq> [] \<and> arch \<noteq> [])"
| "pod_reply st r a = True"

text \<open>
  A wait may answer at any time and changes no stage; a create of another sandbox is refused.
\<close>

definition conforms_sandbox :: "'s sandbox_service \<Rightarrow> string \<Rightarrow> (pod_stage \<Rightarrow> 's \<Rightarrow> bool) \<Rightarrow> bool" where
  "conforms_sandbox sc sid R \<longleftrightarrow>
     (\<forall>st r st' s. pod_life sid st r = Some st' \<longrightarrow> R st s \<longrightarrow>
        (\<exists>a t. sc r s = ((a, None), t) \<and> pod_reply st r a \<and> R st' t))
     \<and> (\<forall>st s. R st s \<longrightarrow> R st (snd (sc (WaitSandbox sid) s)))
     \<and> (\<forall>i b n s. i \<noteq> sid \<longrightarrow> R PodUp s \<longrightarrow>
          (\<exists>a x t. sc (CreateSandbox i b n) s = ((a, Some x), t) \<and> says_already_exists x))"

lemma pod_call:
  assumes "conforms_sandbox sc sid R" and "R st s" and "pod_life sid st r = Some st'"
  obtains a t where "sc r s = ((a, None), t)" and "pod_reply st r a" and "R st' t"
  using assms unfolding conforms_sandbox_def by blast

lemma pod_wait: "conforms_sandbox sc sid R \<Longrightarrow> R st s \<Longrightarrow> R st (snd (sc (WaitSandbox sid) s))"
  unfolding conforms_sandbox_def by blast

lemma pod_create:
  assumes "conforms_sandbox sc sid R" and "R PodUp s" and "i \<noteq> sid"
  obtains a x t where "sc (CreateSandbox i b n) s = ((a, Some x), t)" and "says_already_exists x"
  using assms unfolding conforms_sandbox_def by blast

text \<open>The poll for a stopped sandbox succeeds at once, whatever its deadline.\<close>

lemma pod_stopped_poll:
  assumes "conforms_sandbox sc sid R" and "R PodDown s"
  obtains t where "waitForSandboxStatus sl sc sid sandboxStateNotReady s = (None, t)" and "R PodDown t"
proof -
  have "pod_life sid PodDown (SandboxStatus sid False) = Some PodDown" by simp
  from pod_call [OF assms this] obtain a t where
    "sc (SandboxStatus sid False) s = ((a, None), t)" "pod_reply PodDown (SandboxStatus sid False) a" "R PodDown t" .
  with that show ?thesis by (simp add: waitForSandboxStatus_def status_loop.simps)
qed

text \<open>Clean runs of the calls, and of a test from its sandbox on.\<close>

lemma pod_runs:
  "sb_sc sb r s = ((a, None), t) \<Longrightarrow> passes (ask label sb r) (s, e) a (t, e)"
  "sb_sc sb r s = (p, t) \<Longrightarrow> passes (attempt_call sb r) (s, e) p (t, e)"
  "passes (tell sb r) (s, e) () (snd (sb_sc sb r s), e)"
  "waitForSandboxStatus (pd_sand pl) (sb_sc sb) (sb_id sb) want s = (None, t) \<Longrightarrow>
     passes (await_state pl sb want) (s, e) () (t, e)"
  by (auto simp: await_state_def passes_simps)

text \<open>A test whose bring-up ends with a sandbox that keeps the contract and is up.\<close>

definition brings_up_pod :: "'s podlab \<Rightarrow> config \<Rightarrow> 's \<times> senv \<Rightarrow> 's sandbox \<Rightarrow> 's \<times> senv \<Rightarrow> bool" where
  "brings_up_pod pl cfg se sb se2 \<longleftrightarrow>
     (\<exists>sid s1. passes (container_id (pd_lab pl)) (fst se) sid s1
        \<and> passes (startSandboxShimInner (pd_sand pl) cfg sid []) (s1, snd se) sb se2)
     \<and> (\<exists>R. conforms_sandbox (sb_sc sb) (sb_id sb) R \<and> R PodUp (fst se2))"

lemma brings_up_pod_contract:
  assumes "brings_up_pod pl cfg se sb (s2, e2)"
  obtains R where "conforms_sandbox (sb_sc sb) (sb_id sb) R" and "R PodUp s2"
  using assms unfolding brings_up_pod_def by auto

lemma pod_up_run:
  assumes "brings_up_pod pl cfg se sb (s2, e2)" and "\<exists>se'. passes (body sb) (s2, e2) () se'"
  shows "\<exists>se'. passes (with_sandbox pl cfg [] body) se () se'"
  using assms unfolding passes_with_sandbox brings_up_pod_def by blast

lemma pod_life_moves:
  "pod_life sid PodUp (SandboxStatus sid v) = Some PodUp" "pod_life sid PodUp (StopSandbox sid) = Some PodDown"
  "pod_life sid PodDown (ShutdownSandbox sid) = Some PodGone" "pod_life sid PodDown (SandboxStatus sid v) = Some PodDown"
  "pod_life sid PodDown (StopSandbox sid) = Some PodDown" "pod_life sid PodUp (Platform sid) = Some PodUp"
  "pod_life sid PodUp (PingSandbox sid) = Some PodUp"
  by simp_all

lemma sandboxLifecycle_accepts:
  assumes up: "brings_up_pod pl cfg se sb (s2, e2)"
  shows "\<exists>se'. passes (sandboxLifecycle pl cfg) se () se'"
proof -
  from brings_up_pod_contract [OF up] obtain R where ok: "conforms_sandbox (sb_sc sb) (sb_id sb) R" and ready: "R PodUp s2" .
  from pod_call [OF ok ready pod_life_moves(1)] obtain a t1 where a: "sb_sc sb (SandboxStatus (sb_id sb) False) s2 = ((a, None), t1)"
    "pod_reply PodUp (SandboxStatus (sb_id sb) False) a" "R PodUp t1" .
  then have ra: "state_of a = sandboxStateReady" "pid_of a \<noteq> 0" by simp_all
  from pod_call [OF ok a(3) pod_life_moves(2)] obtain c t2 where c: "sb_sc sb (StopSandbox (sb_id sb)) t1 = ((c, None), t2)" "R PodDown t2" .
  from pod_stopped_poll [OF ok c(2)] obtain t3 where
    d: "waitForSandboxStatus (pd_sand pl) (sb_sc sb) (sb_id sb) sandboxStateNotReady t2 = (None, t3)" "R PodDown t3" .
  from pod_call [OF ok d(2) pod_life_moves(3)] obtain f t4 where f: "sb_sc sb (ShutdownSandbox (sb_id sb)) t3 = ((f, None), t4)" .
  show ?thesis
    unfolding sandboxLifecycle_def
    by (rule pod_up_run [OF up], rule exI, rule then_run [OF pod_runs(1) [OF a(1)]], rule then_run [OF check_run(2) [OF ra(1)]],
        rule then_run [OF check_run(2) [OF ra(2)]], rule then_run [OF pod_runs(1) [OF c(1)]],
        rule then_run [OF pod_runs(4) [OF d(1)]], rule then_run [OF pod_runs(1) [OF f]], rule ret_run)
qed

lemma testPlatform_accepts:
  assumes up: "brings_up_pod pl cfg se sb (s2, e2)"
  shows "\<exists>se'. passes (testPlatform pl cfg) se () se'"
proof -
  from brings_up_pod_contract [OF up] obtain R where ok: "conforms_sandbox (sb_sc sb) (sb_id sb) R" and ready: "R PodUp s2" .
  from pod_call [OF ok ready pod_life_moves(6)] obtain a t1 where a: "sb_sc sb (Platform (sb_id sb)) s2 = ((a, None), t1)"
    "pod_reply PodUp (Platform (sb_id sb)) a" .
  then obtain os arch variant where "platform_of a = Some (os, arch, variant)" "os \<noteq> []" "arch \<noteq> []"
    by (auto split: option.splits)
  then show ?thesis
    unfolding testPlatform_def
    by (intro pod_up_run [OF up] exI then_run [OF pod_runs(1) [OF a(1)]]) (simp add: passes_simps)
qed

lemma testPing_accepts:
  assumes up: "brings_up_pod pl cfg se sb (s2, e2)"
  shows "\<exists>se'. passes (testPing pl cfg) se () se'"
proof -
  from brings_up_pod_contract [OF up] obtain R where ok: "conforms_sandbox (sb_sc sb) (sb_id sb) R" and ready: "R PodUp s2" .
  from pod_call [OF ok ready pod_life_moves(7)] obtain a t1 where a: "sb_sc sb (PingSandbox (sb_id sb)) s2 = ((a, None), t1)" .
  show ?thesis
    unfolding testPing_def by (rule pod_up_run [OF up], rule exI, rule then_run [OF pod_runs(1) [OF a]], rule ret_run)
qed

lemma testStatusAfterStop_accepts:
  assumes up: "brings_up_pod pl cfg se sb (s2, e2)"
  shows "\<exists>se'. passes (testStatusAfterStop pl cfg) se () se'"
proof -
  from brings_up_pod_contract [OF up] obtain R where ok: "conforms_sandbox (sb_sc sb) (sb_id sb) R" and ready: "R PodUp s2" .
  from pod_call [OF ok ready pod_life_moves(2)] obtain b s4 where stop: "sb_sc sb (StopSandbox (sb_id sb)) s2 = ((b, None), s4)" "R PodDown s4" .
  from pod_call [OF ok stop(2) pod_life_moves(4)] obtain a t1 where a: "sb_sc sb (SandboxStatus (sb_id sb) False) s4 = ((a, None), t1)"
    "pod_reply PodDown (SandboxStatus (sb_id sb) False) a" "R PodDown t1" .
  then have down: "state_of a \<noteq> sandboxStateReady" by (simp add: sandboxStateReady_def sandboxStateNotReady_def)
  from pod_call [OF ok a(3) pod_life_moves(5)] obtain c t2 where c: "sb_sc sb (StopSandbox (sb_id sb)) t1 = ((c, None), t2)" .
  show ?thesis
    unfolding testStatusAfterStop_def
    by (rule pod_up_run [OF up], rule exI, rule then_run [OF pod_runs(1) [OF stop(1)]], rule then_run [OF pod_runs(2) [OF a(1)]],
        unfold prod.case, rule then_run [OF check_run(2)], rule disjI2, rule down,
        rule then_run [OF pod_runs(2) [OF c]], unfold prod.case, rule check_run(2) [OF refl])
qed

lemma testWaitUnblocksOnStop_accepts:
  assumes up: "brings_up_pod pl cfg se sb (s2, e2)" and waits: "pd_waiting pl s2 \<noteq> NoReply"
  shows "\<exists>se'. passes (testWaitUnblocksOnStop pl cfg) se () se'"
proof -
  from brings_up_pod_contract [OF up] obtain R where ok: "conforms_sandbox (sb_sc sb) (sb_id sb) R" and ready: "R PodUp s2" .
  from pod_call [OF ok ready pod_life_moves(2)] obtain b s4 where stop: "sb_sc sb (StopSandbox (sb_id sb)) s2 = ((b, None), s4)" "R PodDown s4" .
  from pod_call [OF ok pod_wait [OF ok ready] pod_life_moves(2)] obtain c t where
    c: "sb_sc sb (StopSandbox (sb_id sb)) (snd (sb_sc sb (WaitSandbox (sb_id sb)) s2)) = ((c, None), t)" .
  have "\<exists>se'. passes (wait_stop pl sb) (s2, e2) () se'"
    using stop(1) c waits by (cases "pd_waiting pl s2") (auto simp: wait_stop_def passes_simps)
  then show ?thesis unfolding testWaitUnblocksOnStop_def by (rule pod_up_run [OF up])
qed

lemma testCreateTwiceRejected_accepts:
  assumes up: "brings_up_pod pl cfg se sb (s2, e2)"
  shows "\<exists>se'. passes (testCreateTwiceRejected pl cfg) se () se'"
proof -
  from brings_up_pod_contract [OF up] obtain R where ok: "conforms_sandbox (sb_sc sb) (sb_id sb) R" and ready: "R PodUp s2" .
  have "sb_id sb @ ''-dup'' \<noteq> sb_id sb" by simp
  from pod_create [OF ok ready this] obtain a x t where
    a: "sb_sc sb (CreateSandbox (sb_id sb @ ''-dup'') ''.'' []) s2 = ((a, Some x), t)" "says_already_exists x" .
  from a(2) have r: "passes (rejected label says_already_exists (Some x)) (t, e2) () (t, e2)" for label
    by (simp add: passes_rejected)
  show ?thesis
    unfolding testCreateTwiceRejected_def
    by (rule pod_up_run [OF up], rule exI, rule then_run [OF pod_runs(2) [OF a(1)]], unfold prod.case, rule r)
qed

text \<open>
  C18. A sandbox whose calls simulate the abstract life of a sandbox (up, stopped, shut
  down, with a second create refused) passes each of the six tests of the API contract
  that look at one sandbox alone: lifecycle, platform, ping, status after stop, wait and
  second create.
\<close>

theorem sandbox_contract_accepts:
  assumes "brings_up_pod pl cfg se sb se2" and "pd_waiting pl (fst se2) \<noteq> NoReply"
    and "m \<in> {sandboxLifecycle, testPlatform, testPing, testStatusAfterStop, testWaitUnblocksOnStop, testCreateTwiceRejected}"
  shows "\<exists>se'. passes (m pl cfg) se () se'"
proof -
  obtain s2 e2 where se2: "se2 = (s2, e2)" by (cases se2)
  note up = assms(1) [unfolded se2]
  have "pd_waiting pl s2 \<noteq> NoReply" using assms(2) by (simp add: se2)
  note all_of = sandboxLifecycle_accepts [OF up] testPlatform_accepts [OF up] testPing_accepts [OF up]
    testStatusAfterStop_accepts [OF up] testWaitUnblocksOnStop_accepts [OF up this] testCreateTwiceRejected_accepts [OF up]
  from assms(3) show ?thesis by (elim insertE emptyE) (simp_all only: all_of)
qed

end
