(* ===== verification/Examples_Conformance.thy ===== *)
theory Examples_Conformance
  imports Examples_Suites Conformance
begin

text \<open>
  A machine that keeps the contract of \<^verbatim>\<open>Conformance\<close>: what its tasks print and how they end is
  computed by running testbin, and the tests accept it.
\<close>

section \<open>Tasks\<close>

lemma demo_conforms: "conforms (demo_task x) cid x (\<lambda>st s. True)"
proof -
  have "\<exists>a t. demo_task x r s = ((Some a, None), t) \<and> task_reply x r a" if "task_life cid st r = Some st'" for st r st' s
    using that by (cases "(cid, st, r)" rule: task_life.cases) auto
  then show ?thesis by (simp add: conforms_def)
qed

lemma demo_captures: "captures (demo_lab x out) path out (\<lambda>st s. True)"
  by (simp add: captures_def demo_lab_simps demo_starter_def demo_host_simps)

lemma demo_runs_program:
  assumes "up_version u = 3" and "\<forall>c. ending_of (Main m argv w (new_proc [])) = Exit c \<longrightarrow> c = int x"
  shows "runs_program m w argv (demo_lab x (stdout (proc_of (Main m argv w (new_proc []))))) u s"
proof -
  have "serves (demo_lab x out) u x out s" for out
    using demo_conforms [of x "up_cid u"] demo_captures [of x out "up_out u"] demo_client [OF assms(1)]
    by (auto simp: serves_def demo_lab_simps)
  with assms(2) show ?thesis by (auto simp: runs_program_def Let_def)
qed

lemma demo_bring_up_lifecycle:
  "\<exists>u. passes (bring_up_lifecycle (demo_lab x out) plain_config) world0 u world1 \<and> up_version u = 3"
proof -
  obtain ms where m: "passes (shimSetup (demo_lab x out) plain_config) world0 (''/bin/shim'', ''/t'', ms) world1"
    using demo_setup by blast
  obtain cid where cid: "passes (container_id (demo_lab x out)) world1 cid world1" using demo_id by blast
  obtain ns where ns: "passes (unique_namespace (demo_lab x out) ''run'') world1 ns world1"
    by (simp add: unique_namespace_def passes_simps randomSuffix_def demo_lab_def)
  obtain p where p: "passes (start_shim (demo_lab x out) ''/bin/shim'' ''/t'' cid ns plain_config) world1 p world1"
    and v: "bp_version p = 3" using demo_start by blast
  have o: "passes (oci_spec (demo_lab x out) ''/t'' [''/bin/forever'', ''hello''] plain_config []) world1 () world1"
    by (simp add: oci_spec_def passes_simps demo_lab_simps demo_spec)
  obtain f1 f2 where f: "passes (io_fifos (demo_lab x out) ''/t'') world1 (f1, f2) world1"
    by (simp add: io_fifos_def passes_simps demo_lab_simps createIOFifos_def demo_starter_def Let_def)
  have k: "passes (connect_shim (demo_lab x out) (bp_address p)) world1 3 world1"
    by (simp add: connect_shim_def passes_simps demo_lab_simps connectShim_def)
  from m cid ns p o f k v show ?thesis
    unfolding bring_up_lifecycle_def by (simp only: passes_simps split_paired_Ex prod.case) force
qed

lemma testLifecycle_accepts_witness:
  "\<exists>s'. passes (testLifecycle (demo_lab 9 (stdout (proc_of (Main idle_machine [''/bin/forever'', ''hello''] () (new_proc [])))))
      plain_config) world0 () s'"
proof -
  let ?x = "Main idle_machine [''/bin/forever'', ''hello''] () (new_proc [])"
  obtain u where u: "passes (bring_up_lifecycle (demo_lab 9 (stdout (proc_of ?x))) plain_config) world0 u world1"
    "up_version u = 3" using demo_bring_up_lifecycle by blast
  have m: "map_of (commands idle_machine) ''forever'' = Some cmdForever" by (simp add: commands_def)
  have "ending_of ?x \<noteq> Exit c" for c
    using Main_in_bin [OF m, of "[''hello'']" "()" "new_proc []"] by (simp add: cmdForever_def ending_of_def)
  with demo_runs_program [OF u(2), of idle_machine "[''/bin/forever'', ''hello'']" "()" 9] show ?thesis
    by (intro testLifecycle_accepts [OF u(1)]) simp
qed

lemma testFastExitInit_accepts_witness:
  "\<exists>s'. passes (testFastExitInit (demo_lab 0 (stdout (proc_of (Main idle_machine [''/bin/burstexit'', dec burst_size, ''0''] ()
      (new_proc []))))) plain_config) world0 () s'"
proof -
  let ?argv = "[''/bin/burstexit'', dec burst_size, ''0'']"
  let ?x = "Main idle_machine ?argv () (new_proc [])"
  obtain u where u: "passes (bring_up (demo_lab 0 (stdout (proc_of ?x))) plain_config ''run'' ?argv []) world0 u world1"
    "up_version u = 3" using demo_bring_up [of ?argv] by blast
  have m: "map_of (commands idle_machine) ''burstexit'' = Some cmdBurstexit" by (simp add: commands_def)
  have "ending_of ?x = Exit c \<Longrightarrow> c = 0" for c
    using Main_in_bin [OF m, of "[dec burst_size, ''0'']" "()" "new_proc []"] burst_accepted [OF refl, of "new_proc []" "()"]
    by (simp add: new_proc_def)
  with demo_runs_program [OF u(2), of idle_machine ?argv "()" 0] show ?thesis
    by (intro testFastExitInit_accepts [OF u(1)]) simp
qed

section \<open>A sandbox\<close>

definition demo_stage :: "pod_stage \<Rightarrow> world \<Rightarrow> bool" where
  "demo_stage st s \<longleftrightarrow> (case st of PodUp \<Rightarrow> w_ready s | PodDown \<Rightarrow> \<not> w_ready s | PodGone \<Rightarrow> True)"

lemma demo_conforms_sandbox: "conforms_sandbox demo_sandbox sid demo_stage"
proof -
  have calls: "\<exists>a t. demo_sandbox r s = ((a, None), t) \<and> pod_reply st r a \<and> demo_stage st' t"
    if "pod_life sid st r = Some st'" and "demo_stage st s" for st r st' s
    using that by (cases "(sid, st, r)" rule: pod_life.cases)
      (auto simp: demo_stage_def state_of_def pid_of_def platform_of_def split: if_splits)
  have dup: "says_already_exists ''already exists''" unfolding says_already_exists_def by code_simp
  show ?thesis
    unfolding conforms_sandbox_def using calls dup by (auto simp: demo_stage_def)
qed

lemma sandbox_contract_accepts_witness: "\<exists>se'. passes (testStatusAfterStop demo_pod plain_config) (world0, no_members) () se'"
proof -
  obtain sid where sid: "passes (container_id (demo_lab 0 [])) world0 sid world0" using demo_id by blast
  obtain sb where sb: "passes (startSandboxShimInner demo_sand plain_config sid []) (world0, no_members) sb (ready_world True, no_members)"
    "sb_sc sb = demo_sandbox" "sb_id sb = sid" using demo_start_sandbox by blast
  have "demo_stage PodUp (ready_world True)" by (simp add: demo_stage_def ready_world_def)
  with sid sb demo_conforms_sandbox [of sid]
  have up: "brings_up_pod demo_pod plain_config (world0, no_members) sb (ready_world True, no_members)"
    by (auto simp: brings_up_pod_def demo_sand_simps)
  show ?thesis
    by (rule sandbox_contract_accepts [OF up]) (simp_all add: demo_pod_def)
qed

end
