(* ===== verification/Windows.thy ===== *)
theory Windows
  imports Bringup
begin

text \<open>
  The harness on Windows (\<^verbatim>\<open>io_windows.go\<close>, \<^verbatim>\<open>connect_windows.go\<close>, \<^verbatim>\<open>proc_windows.go\<close>): named
  pipes in the place of FIFOs and sockets, the readers of a pipe whose last read may break
  before it is empty, the retried dials, and the snapshot of the running processes. The pipes
  and the processes of the system are operations of the world.
\<close>

section \<open>Names\<close>

text \<open>\<open>%0kx\<close>: hexadecimal digits, padded with zeros to at least \<open>k\<close> of them.\<close>

fun hex_nat :: "nat \<Rightarrow> string" where
  "hex_nat n = (if n < 16 then [hex_digit n] else hex_nat (n div 16) @ [hex_digit (n mod 16)])"

declare hex_nat.simps [simp del]

definition hex_pad :: "nat \<Rightarrow> nat \<Rightarrow> string" where
  "hex_pad k n = replicate (k - length (hex_nat n)) CHR ''0'' @ hex_nat n"

text \<open>The clock and the pid, both cut to 32 bits, then the counter of the process.\<close>

definition win_suffix :: "int \<Rightarrow> int \<Rightarrow> 64 word \<Rightarrow> string" where
  "win_suffix nano pid n = hex32 (xor (word_of_int nano) (word_of_int pid)) @ hex_pad 4 (unat n)"

definition pipe_dir :: string where
  "pipe_dir = [CHR 0x5C, CHR 0x5C] @ ''.'' @ [CHR 0x5C] @ ''pipe'' @ [CHR 0x5C]"

definition win_pipe :: "string \<Rightarrow> string" where
  "win_pipe sfx = pipe_dir @ ''shimtest-'' @ sfx"

section \<open>Pipes of a test\<close>

text \<open>
  \<open>pw_counter\<close> and \<open>pw_listeners\<close> are the package's variables; \<open>wl_listen\<close> is the call that
  makes the pipe's server and fails when the name is taken.
\<close>

record winpipes =
  pw_counter :: "64 word"
  pw_listeners :: "string \<rightharpoonup> nat"

record 's winlab =
  wl_pipes :: "'s \<Rightarrow> winpipes"
  wl_set_pipes :: "winpipes \<Rightarrow> 's \<Rightarrow> 's"
  wl_socks :: "'s \<Rightarrow> sock_cache"
  wl_set_socks :: "sock_cache \<Rightarrow> 's \<Rightarrow> 's"
  wl_nano :: "'s \<Rightarrow> int"
  wl_pid :: int
  wl_listen :: "string \<Rightarrow> 's \<Rightarrow> nat result \<times> 's"
  wl_closeListener :: "nat \<Rightarrow> 's \<Rightarrow> 's"
  wl_dial :: "string \<Rightarrow> 's \<Rightarrow> nat result option \<times> 's"
  wl_closeConn :: "nat \<Rightarrow> 's \<Rightarrow> 's"

definition randomSuffix_win :: "'s winlab \<Rightarrow> 's \<Rightarrow> string \<times> 's" where
  "randomSuffix_win wl s = (let p = wl_pipes wl s; n = pw_counter p + 1 in
     (win_suffix (wl_nano wl s) (wl_pid wl) n, wl_set_pipes wl (p\<lparr>pw_counter := n\<rparr>) s))"

definition pipeName :: "'s winlab \<Rightarrow> 's \<Rightarrow> string \<times> 's" where
  "pipeName wl s = (case randomSuffix_win wl s of (sfx, t) \<Rightarrow> (win_pipe sfx, t))"

definition store_listener :: "'s winlab \<Rightarrow> string \<Rightarrow> nat option \<Rightarrow> 's \<Rightarrow> 's" where
  "store_listener wl path l s = (let p = wl_pipes wl s in
     wl_set_pipes wl (p\<lparr>pw_listeners := (pw_listeners p)(path := l)\<rparr>) s)"

definition listenPipe :: "'s winlab \<Rightarrow> string \<Rightarrow> ('s, unit) test" where
  "listenPipe wl path =
     andThen (must (''ListenPipe '' @ path @ '': '') (wl_listen wl path)) (\<lambda>l.
     andThen (act (\<lambda>s. ((), store_listener wl path (Some l) s))) (\<lambda>u.
     on_cleanup (\<lambda>s. ([], store_listener wl path None (wl_closeListener wl l s)))))"

definition no_listener :: "string \<Rightarrow> string" where
  "no_listener path = ''no named-pipe listener registered for '' @ path"

definition popListener :: "'s winlab \<Rightarrow> string \<Rightarrow> ('s, nat) test" where
  "popListener wl path =
     must [] (\<lambda>s. (case pw_listeners (wl_pipes wl s) path of None \<Rightarrow> Inl (no_listener path) | Some l \<Rightarrow> Inr l, s))"

definition createIOFifos_win :: "'s winlab \<Rightarrow> ('s, string \<times> string) test" where
  "createIOFifos_win wl =
     andThen (act (pipeName wl)) (\<lambda>out. andThen (act (pipeName wl)) (\<lambda>errp.
     andThen (listenPipe wl out) (\<lambda>u. andThen (listenPipe wl errp) (\<lambda>u. ret (out, errp)))))"

definition createStdioFifos_win :: "'s winlab \<Rightarrow> ('s, string \<times> string \<times> string) test" where
  "createStdioFifos_win wl =
     andThen (act (pipeName wl)) (\<lambda>inp. andThen (act (pipeName wl)) (\<lambda>out. andThen (act (pipeName wl)) (\<lambda>errp.
     andThen (listenPipe wl inp) (\<lambda>u. andThen (listenPipe wl out) (\<lambda>u. andThen (listenPipe wl errp) (\<lambda>u.
     ret (inp, out, errp)))))))"

text \<open>Opening an end: the connection is accepted later, by a goroutine that copies.\<close>

definition openPipe_win :: "'s winlab \<Rightarrow> string \<Rightarrow> 's \<Rightarrow> nat result" where
  "openPipe_win wl path s = (case pw_listeners (wl_pipes wl s) path of None \<Rightarrow> Inl (no_listener path) | Some l \<Rightarrow> Inr l)"

text \<open>The pipes of the stress suite, under a name of their own; no test is told.\<close>

definition createRawPipe_win :: "'s winlab \<Rightarrow> string \<Rightarrow> 's \<Rightarrow> (string \<times> nat) result \<times> 's" where
  "createRawPipe_win wl name s =
     (case randomSuffix_win wl s of (sfx, s1) \<Rightarrow>
       let path = win_pipe (''raw-'' @ name @ ''-'' @ sfx) in
       (case wl_listen wl path s1 of
          (Inl e, s2) \<Rightarrow> (Inl (''ListenPipe '' @ path @ '': '' @ e), s2)
        | (Inr l, s2) \<Rightarrow> (Inr (path, l), s2)))"

section \<open>Dialling\<close>

text \<open>
  \<open>att i\<close> is the outcome of the i-th dial, \<open>late i\<close> whether the deadline has passed after it.
\<close>

partial_function (option) dial_until :: "(nat \<Rightarrow> nat result) \<Rightarrow> (nat \<Rightarrow> bool) \<Rightarrow> nat \<Rightarrow> nat option option" where
  "dial_until att late i =
     (case att i of
        Inr c \<Rightarrow> Some (Some c)
      | Inl e \<Rightarrow> if late i then Some None else dial_until att late (Suc i))"

definition dialPipeAsync :: "(nat \<Rightarrow> nat result) \<Rightarrow> (nat \<Rightarrow> bool) \<Rightarrow> nat option option" where
  "dialPipeAsync att late = dial_until att late 0"

text \<open>
  The other dial stops at its own timer or at its context's deadline; when both have come the
  select chooses, by \<open>pick\<close>.
\<close>

partial_function (option) dial_retry ::
    "string \<Rightarrow> (nat \<Rightarrow> nat result) \<Rightarrow> (nat \<Rightarrow> bool) \<Rightarrow> (nat \<Rightarrow> string option) \<Rightarrow> (nat \<Rightarrow> bool) \<Rightarrow> nat \<Rightarrow> nat result option" where
  "dial_retry path att fired ctxErr pick i =
     (case att i of
        Inr c \<Rightarrow> Some (Inr c)
      | Inl e \<Rightarrow>
          if fired i \<and> (ctxErr i = None \<or> pick i) then Some (Inl (''pipe not found before timeout: '' @ e))
          else (case ctxErr i of
              Some ce \<Rightarrow> Some (Inl (''timed out waiting for pipe '' @ path @ '': '' @ ce))
            | None \<Rightarrow> dial_retry path att fired ctxErr pick (Suc i)))"

definition dialNamedPipeRetry ::
    "string \<Rightarrow> (nat \<Rightarrow> nat result) \<Rightarrow> (nat \<Rightarrow> bool) \<Rightarrow> (nat \<Rightarrow> string option) \<Rightarrow> (nat \<Rightarrow> bool) \<Rightarrow> nat result option" where
  "dialNamedPipeRetry path att fired ctxErr pick = dial_retry path att fired ctxErr pick 0"

definition pipe_address :: "string \<Rightarrow> string" where
  "pipe_address address = trim_prefix (trim_prefix address ''ttrpc+npipe://'') ''npipe://''"

text \<open>\<open>wl_dial\<close> is the whole retried dial; \<open>None\<close> is one that does not return.\<close>

definition connectShim_win :: "'s winlab \<Rightarrow> string \<Rightarrow> ('s, nat) test" where
  "connectShim_win wl address = (let addr = pipe_address address in
     andThen (must (''failed to connect to shim at '' @ addr @ '': '') (\<lambda>s. case wl_dial wl addr s of
        (None, t) \<Rightarrow> (Inl ''does not return'', t) | (Some r, t) \<Rightarrow> (r, t))) (\<lambda>conn.
     andThen (on_cleanup (\<lambda>s. ([], wl_closeConn wl conn s))) (\<lambda>u. ret conn)))"

definition containerdSockPath_win :: "'s winlab \<Rightarrow> string \<Rightarrow> ('s, string) test" where
  "containerdSockPath_win wl bundleDir =
     andThen (act (\<lambda>s. (wl_socks wl s bundleDir, s))) (\<lambda>known.
     case known of
       Some p \<Rightarrow> ret p
     | None \<Rightarrow>
         andThen (act (randomSuffix_win wl)) (\<lambda>sfx. let p = win_pipe (''events-'' @ sfx) in
         andThen (act (\<lambda>s. ((), wl_set_socks wl ((wl_socks wl s)(bundleDir \<mapsto> p)) s))) (\<lambda>u.
         andThen (on_cleanup (\<lambda>s. ([], wl_set_socks wl ((wl_socks wl s)(bundleDir := None)) s))) (\<lambda>u. ret p))))"

definition listenEvents_win :: "'s winlab \<Rightarrow> string \<Rightarrow> ('s, nat) test" where
  "listenEvents_win wl path = must (''events ListenPipe '' @ path @ '': '') (wl_listen wl path)"

text \<open>
  The reader of the log pipe: its first read or close waits for the dial, whose connection, or
  none, is \<open>ch\<close>; the outcome is kept.
\<close>

record deferred_reader =
  dr_waited :: bool
  dr_conn :: "nat option"
  dr_err :: "err option"

definition log_pipe :: "string \<Rightarrow> string \<Rightarrow> string" where
  "log_pipe ns cid = pipe_dir @ ''containerd-shim-'' @ ns @ ''-'' @ cid @ ''-log''"

definition setupLogPipe_win :: deferred_reader where
  "setupLogPipe_win = \<lparr>dr_waited = False, dr_conn = None, dr_err = None\<rparr>"

definition dr_wait :: "nat option \<Rightarrow> deferred_reader \<Rightarrow> deferred_reader" where
  "dr_wait ch d =
     (if dr_waited d then d
      else case ch of
        None \<Rightarrow> d\<lparr>dr_waited := True, dr_err := Some ''failed to connect to shim log pipe''\<rparr>
      | Some c \<Rightarrow> d\<lparr>dr_waited := True, dr_conn := Some c\<rparr>)"

definition dr_read ::
    "nat option \<Rightarrow> (nat \<Rightarrow> 's \<Rightarrow> (bytes \<times> err option) \<times> 's) \<Rightarrow> deferred_reader \<Rightarrow> 's
      \<Rightarrow> (bytes \<times> err option) \<times> deferred_reader \<times> 's" where
  "dr_read ch read1 d s = (let d1 = dr_wait ch d in
     case dr_err d1 of
       Some e \<Rightarrow> (([], Some e), d1, s)
     | None \<Rightarrow> (case read1 (the (dr_conn d1)) s of (r, t) \<Rightarrow> (r, d1, t)))"

definition dr_close ::
    "nat option \<Rightarrow> (nat \<Rightarrow> 's \<Rightarrow> err option \<times> 's) \<Rightarrow> deferred_reader \<Rightarrow> 's \<Rightarrow> err option \<times> deferred_reader \<times> 's" where
  "dr_close ch close1 d s = (let d1 = dr_wait ch d in
     case dr_conn d1 of
       Some c \<Rightarrow> (case close1 c s of (e, t) \<Rightarrow> (e, d1, t))
     | None \<Rightarrow> (None, d1, s))"

end
