(* ===== verification/Windows_Laws.thy ===== *)
theory Windows_Laws
  imports Windows
begin

text \<open>
  What holds of the Windows layer: the names of a process are distinct, a test's pipes are
  registered while it runs and gone with its cleanups, the retried dials return, and the reader
  that drains what is left of a broken pipe loses nothing.
\<close>

section \<open>Names do not repeat\<close>

text \<open>The hexadecimal digits read back.\<close>

definition hex_val :: "char \<Rightarrow> nat" where
  "hex_val c = (if of_char c < (58 :: nat) then of_char c - 48 else of_char c - 87)"

definition unhex :: "string \<Rightarrow> nat" where
  "unhex s = foldl (\<lambda>a c. 16 * a + hex_val c) 0 s"

lemma hex_val_digit [simp]: "d < 16 \<Longrightarrow> hex_val (hex_digit d) = d"
  by (auto simp: hex_val_def hex_digit_def)

lemma unhex_snoc [simp]: "unhex (s @ [c]) = 16 * unhex s + hex_val c"
  by (simp add: unhex_def)

lemma unhex_zeros: "unhex (replicate k CHR ''0'' @ s) = unhex s"
  by (induction k) (simp_all add: unhex_def hex_val_def)

lemma unhex_hex_nat [simp]: "unhex (hex_nat n) = n"
proof (induction n rule: hex_nat.induct)
  case (1 n)
  show ?case
  proof (cases "n < 16")
    case True
    then show ?thesis using unhex_snoc [of "[]" "hex_digit n"] by (simp add: hex_nat.simps [of n] unhex_def)
  next
    case False
    with 1 have "unhex (hex_nat (n div 16)) = n div 16" by blast
    with False show ?thesis by (simp add: hex_nat.simps [of n])
  qed
qed

lemma hex_pad_inj: "hex_pad k m = hex_pad k n \<longleftrightarrow> m = n"
  by (metis hex_pad_def unhex_zeros unhex_hex_nat)

lemma hex_pad_length: "k \<le> length (hex_pad k n)"
  by (simp add: hex_pad_def)

text \<open>Whatever the clock shows, two values of the counter give two names.\<close>

lemma win_suffix_inj: "win_suffix t p m = win_suffix u q n \<Longrightarrow> m = n"
  by (simp add: win_suffix_def hex_pad_inj word_unat_eq_iff)

lemma win_pipe_inj [simp]: "win_pipe x = win_pipe y \<longleftrightarrow> x = y"
  by (simp add: win_pipe_def)

section \<open>The pipes of a test\<close>

text \<open>
  What the world keeps: the package's variables are read back as set, and the calls of the
  system leave them alone.
\<close>

definition keeps_pipes :: "'s winlab \<Rightarrow> bool" where
  "keeps_pipes wl \<longleftrightarrow>
     (\<forall>p s. wl_pipes wl (wl_set_pipes wl p s) = p)
     \<and> (\<forall>path s. wl_pipes wl (snd (wl_listen wl path s)) = wl_pipes wl s)
     \<and> (\<forall>l s. wl_pipes wl (wl_closeListener wl l s) = wl_pipes wl s)"

lemma pipes_set: "keeps_pipes wl \<Longrightarrow> wl_pipes wl (wl_set_pipes wl p s) = p"
  by (simp add: keeps_pipes_def)

lemma pipes_listen: "keeps_pipes wl \<Longrightarrow> wl_listen wl path s = (r, t) \<Longrightarrow> wl_pipes wl t = wl_pipes wl s"
  unfolding keeps_pipes_def by (metis snd_conv)

lemma pipes_close: "keeps_pipes wl \<Longrightarrow> wl_pipes wl (wl_closeListener wl l s) = wl_pipes wl s"
  by (simp add: keeps_pipes_def)

lemma pipeName_state:
  assumes "keeps_pipes wl" and "pipeName wl s = (path, t)"
  obtains nano where "path = win_pipe (win_suffix nano (wl_pid wl) (pw_counter (wl_pipes wl s) + 1))"
    and "wl_pipes wl t = wl_pipes wl s\<lparr>pw_counter := pw_counter (wl_pipes wl s) + 1\<rparr>"
  using assms by (auto simp: pipeName_def randomSuffix_win_def Let_def pipes_set)

lemma passes_listenPipe:
  "passes (listenPipe wl path) s u t \<longleftrightarrow>
     (\<exists>l s1. wl_listen wl path s = (Inr l, s1) \<and> t = store_listener wl path (Some l) s1)"
  by (auto simp: listenPipe_def passes_simps)

lemma listenPipe_registers:
  assumes "keeps_pipes wl" and "passes (listenPipe wl path) s u t"
  shows "pw_counter (wl_pipes wl t) = pw_counter (wl_pipes wl s)"
    and "\<exists>l. pw_listeners (wl_pipes wl t) = (pw_listeners (wl_pipes wl s))(path \<mapsto> l)"
proof -
  from assms(2) obtain l s1 where l: "wl_listen wl path s = (Inr l, s1)" "t = store_listener wl path (Some l) s1"
    by (auto simp: passes_listenPipe)
  then have "wl_pipes wl s1 = wl_pipes wl s" using pipes_listen [OF assms(1)] by blast
  with l assms(1) show "pw_counter (wl_pipes wl t) = pw_counter (wl_pipes wl s)"
    and "\<exists>l. pw_listeners (wl_pipes wl t) = (pw_listeners (wl_pipes wl s))(path \<mapsto> l)"
    by (auto simp: store_listener_def Let_def pipes_set)
qed

lemma createStdioFifos_win_registers:
  assumes laws: "keeps_pipes wl" and run: "passes (createStdioFifos_win wl) s (inp, out, errp) t"
  shows "inp \<noteq> out \<and> out \<noteq> errp \<and> inp \<noteq> errp
    \<and> dom (pw_listeners (wl_pipes wl t)) = dom (pw_listeners (wl_pipes wl s)) \<union> {inp, out, errp}"
proof -
  from run obtain s1 s2 s3 s4 s5 u1 u2 u3 where n: "pipeName wl s = (inp, s1)" "pipeName wl s1 = (out, s2)"
      "pipeName wl s2 = (errp, s3)" and l: "passes (listenPipe wl inp) s3 u1 s4"
      "passes (listenPipe wl out) s4 u2 s5" "passes (listenPipe wl errp) s5 u3 t"
    by (auto simp: createStdioFifos_win_def passes_simps)
  obtain a b c where
    n1: "inp = win_pipe (win_suffix a (wl_pid wl) (pw_counter (wl_pipes wl s) + 1))"
      "wl_pipes wl s1 = wl_pipes wl s\<lparr>pw_counter := pw_counter (wl_pipes wl s) + 1\<rparr>" and
    n2: "out = win_pipe (win_suffix b (wl_pid wl) (pw_counter (wl_pipes wl s1) + 1))"
      "wl_pipes wl s2 = wl_pipes wl s1\<lparr>pw_counter := pw_counter (wl_pipes wl s1) + 1\<rparr>" and
    n3: "errp = win_pipe (win_suffix c (wl_pid wl) (pw_counter (wl_pipes wl s2) + 1))"
      "wl_pipes wl s3 = wl_pipes wl s2\<lparr>pw_counter := pw_counter (wl_pipes wl s2) + 1\<rparr>"
    using pipeName_state [OF laws n(1)] pipeName_state [OF laws n(2)] pipeName_state [OF laws n(3)] by metis
  have "inp \<noteq> out" "out \<noteq> errp" "inp \<noteq> errp"
    using win_suffix_inj n1 n2 n3 by (auto dest!: win_suffix_inj)
  moreover have "pw_listeners (wl_pipes wl s3) = pw_listeners (wl_pipes wl s)" using n1 n2 n3 by simp
  moreover obtain l1 l2 l3 where
    "pw_listeners (wl_pipes wl s4) = (pw_listeners (wl_pipes wl s3))(inp \<mapsto> l1)"
    "pw_listeners (wl_pipes wl s5) = (pw_listeners (wl_pipes wl s4))(out \<mapsto> l2)"
    "pw_listeners (wl_pipes wl t) = (pw_listeners (wl_pipes wl s5))(errp \<mapsto> l3)"
    using listenPipe_registers(2) [OF laws l(1)] listenPipe_registers(2) [OF laws l(2)]
      listenPipe_registers(2) [OF laws l(3)] by blast
  ultimately show ?thesis by auto
qed

text \<open>
  A part of a test is tidy when its cleanups leave no listener that was not there before it,
  however it ended.
\<close>

definition pipes_tidy :: "'s winlab \<Rightarrow> ('s, 'a) test \<Rightarrow> bool" where
  "pipes_tidy wl m \<longleftrightarrow> (\<forall>s r es cs t u es2 v. m s = (r, es, cs, t) \<longrightarrow>
     dom (pw_listeners (wl_pipes wl u)) \<subseteq> dom (pw_listeners (wl_pipes wl t)) \<longrightarrow> run_closings cs u = (es2, v) \<longrightarrow>
     dom (pw_listeners (wl_pipes wl v)) \<subseteq> dom (pw_listeners (wl_pipes wl s)))"

lemma pipes_tidyI:
  assumes "\<And>s r es cs t u es2 v. \<lbrakk>m s = (r, es, cs, t);
      dom (pw_listeners (wl_pipes wl u)) \<subseteq> dom (pw_listeners (wl_pipes wl t)); run_closings cs u = (es2, v)\<rbrakk>
    \<Longrightarrow> dom (pw_listeners (wl_pipes wl v)) \<subseteq> dom (pw_listeners (wl_pipes wl s))"
  shows "pipes_tidy wl m"
  unfolding pipes_tidy_def using assms by blast

lemma pipes_tidyD:
  assumes "pipes_tidy wl m" and "m s = (r, es, cs, t)" and "run_closings cs u = (es2, v)"
    and "dom (pw_listeners (wl_pipes wl u)) \<subseteq> dom (pw_listeners (wl_pipes wl t))"
  shows "dom (pw_listeners (wl_pipes wl v)) \<subseteq> dom (pw_listeners (wl_pipes wl s))"
  using assms unfolding pipes_tidy_def by blast

lemma pipes_tidy_ret: "pipes_tidy wl (ret a)"
  by (rule pipes_tidyI) (auto simp: ret_def)

lemma pipes_tidy_andThen:
  assumes m: "pipes_tidy wl m" and f: "\<And>a. pipes_tidy wl (f a)"
  shows "pipes_tidy wl (andThen m f)"
proof (rule pipes_tidyI)
  fix s r es cs t u es2 v
  assume run: "andThen m f s = (r, es, cs, t)" and cl: "run_closings cs u = (es2, v)"
    and sub: "dom (pw_listeners (wl_pipes wl u)) \<subseteq> dom (pw_listeners (wl_pipes wl t))"
  obtain r1 es1 cs1 t1 where m1: "m s = (r1, es1, cs1, t1)" by (rule test_result)
  show "dom (pw_listeners (wl_pipes wl v)) \<subseteq> dom (pw_listeners (wl_pipes wl s))"
  proof (cases r1)
    case (Returned a)
    obtain r2 es3 cs2 t2 where f1: "f a t1 = (r2, es3, cs2, t2)" by (rule test_result)
    from run m1 Returned f1 have cs: "cs = cs2 @ cs1" "t = t2" by (auto simp: andThen_def)
    obtain es4 v1 where c1: "run_closings cs2 u = (es4, v1)" by (metis prod.collapse)
    obtain es5 v2 where c2: "run_closings cs1 v1 = (es5, v2)" by (metis prod.collapse)
    from cl cs c1 c2 have "v = v2" by (simp add: run_closings_append)
    with pipes_tidyD [OF m m1 c2 pipes_tidyD [OF f f1 c1]] sub cs show ?thesis by simp
  qed (use run m1 pipes_tidyD [OF m m1] cl sub in \<open>auto simp: andThen_def\<close>)
qed

lemma pipes_tidy_pipeName: "keeps_pipes wl \<Longrightarrow> pipes_tidy wl (act (pipeName wl))"
  by (rule pipes_tidyI) (auto simp: act_def pipeName_def randomSuffix_win_def Let_def pipes_set)

lemma pipes_tidy_listenPipe:
  assumes laws: "keeps_pipes wl"
  shows "pipes_tidy wl (listenPipe wl path)"
proof (rule pipes_tidyI)
  fix s r es cs t u es2 v
  assume run: "listenPipe wl path s = (r, es, cs, t)" and cl: "run_closings cs u = (es2, v)"
    and sub: "dom (pw_listeners (wl_pipes wl u)) \<subseteq> dom (pw_listeners (wl_pipes wl t))"
  obtain a s1 where l: "wl_listen wl path s = (a, s1)" by (metis prod.collapse)
  have kept: "wl_pipes wl s1 = wl_pipes wl s" using pipes_listen [OF laws l] .
  show "dom (pw_listeners (wl_pipes wl v)) \<subseteq> dom (pw_listeners (wl_pipes wl s))"
  proof (cases a)
    case (Inl e)
    with run l cl sub kept show ?thesis by (auto simp: listenPipe_def andThen_def must_def)
  next
    case (Inr n)
    with run l have "cs = [\<lambda>w. ([], store_listener wl path None (wl_closeListener wl n w))]"
      and "t = store_listener wl path (Some n) s1"
      by (auto simp: listenPipe_def andThen_def must_def act_def on_cleanup_def)
    then have "dom (pw_listeners (wl_pipes wl v)) = dom (pw_listeners (wl_pipes wl u)) - {path}"
      and "dom (pw_listeners (wl_pipes wl t)) = insert path (dom (pw_listeners (wl_pipes wl s)))"
      using cl kept by (auto simp: store_listener_def Let_def pipes_set [OF laws] pipes_close [OF laws] split: if_splits)
    with sub show ?thesis by auto
  qed
qed

lemma createStdioFifos_win_tidy: "keeps_pipes wl \<Longrightarrow> pipes_tidy wl (createStdioFifos_win wl)"
  unfolding createStdioFifos_win_def by (intro pipes_tidy_andThen pipes_tidy_pipeName pipes_tidy_listenPipe pipes_tidy_ret)

lemma createIOFifos_win_tidy: "keeps_pipes wl \<Longrightarrow> pipes_tidy wl (createIOFifos_win wl)"
  unfolding createIOFifos_win_def by (intro pipes_tidy_andThen pipes_tidy_pipeName pipes_tidy_listenPipe pipes_tidy_ret)

lemma finish_tidy:
  assumes "pipes_tidy wl m" and "finish m s = (v, t)"
  shows "dom (pw_listeners (wl_pipes wl t)) \<subseteq> dom (pw_listeners (wl_pipes wl s))"
proof -
  obtain r es cs s1 where m: "m s = (r, es, cs, s1)" by (rule test_result)
  obtain es2 s2 where c: "run_closings cs s1 = (es2, s2)" by (metis prod.collapse)
  from assms(2) m c have "t = s2" by (simp add: finish_def)
  with pipes_tidyD [OF assms(1) m c] show ?thesis by simp
qed

text \<open>
  A test that makes the three pipes and then does anything tidy leaves no listener behind,
  passed or failed.
\<close>

lemma win_pipes_removed:
  assumes "keeps_pipes wl" and "\<And>x. pipes_tidy wl (body x)" and "finish (andThen (createStdioFifos_win wl) body) s = (v, t)"
  shows "dom (pw_listeners (wl_pipes wl t)) \<subseteq> dom (pw_listeners (wl_pipes wl s))"
  by (rule finish_tidy [OF pipes_tidy_andThen [OF createStdioFifos_win_tidy [OF assms(1)] assms(2)] assms(3)])

section \<open>Dialling ends\<close>

text \<open>The loop without its end: the first dial that succeeds, unless the deadline comes before it.\<close>

lemma dial_until_waits:
  assumes "\<forall>j. i \<le> j \<and> j < k \<longrightarrow> (\<exists>e. att j = Inl e) \<and> \<not> late j" and "i \<le> k"
  shows "dial_until att late i = dial_until att late k"
  using assms(2,1)
proof (induction i rule: inc_induct)
  case (step n)
  from step.prems step.hyps obtain e where "att n = Inl e" "\<not> late n" by blast
  then have "dial_until att late n = dial_until att late (Suc n)" by (subst dial_until.simps) simp
  with step show ?case by simp
qed simp

lemma dialPipeAsync_connects:
  assumes "att k = Inr c" and "\<forall>j < k. (\<exists>e. att j = Inl e) \<and> \<not> late j"
  shows "dialPipeAsync att late = Some (Some c)"
  using dial_until_waits [of 0 k att late] assms by (simp add: dialPipeAsync_def dial_until.simps [of _ _ k])

lemma dialPipeAsync_gives_up:
  assumes "late k" and "\<forall>j \<le> k. \<exists>e. att j = Inl e" and "\<forall>j < k. \<not> late j"
  shows "dialPipeAsync att late = Some None"
proof -
  from assms(2) obtain e where "att k = Inl e" by blast
  with assms show ?thesis
    using dial_until_waits [of 0 k att late] by (simp add: dialPipeAsync_def dial_until.simps [of _ _ k])
qed

lemma dial_until_returns:
  assumes "late n" and "i \<le> n"
  shows "dial_until att late i \<noteq> None"
  using assms(2)
proof (induction i rule: inc_induct)
  case base
  from assms(1) show ?case by (subst dial_until.simps) (simp split: sum.split)
next
  case (step m)
  then show ?case by (subst dial_until.simps) (simp split: sum.split)
qed

text \<open>The dial of the shim's pipe returns, at the latest when its timer has fired or its context ended.\<close>

lemma dial_retry_returns:
  assumes "fired n \<or> ctxErr n \<noteq> None" and "i \<le> n"
  shows "dial_retry path att fired ctxErr pick i \<noteq> None"
  using assms(2)
proof (induction i rule: inc_induct)
  case base
  from assms(1) show ?case by (subst dial_retry.simps) (auto split: sum.split option.split)
next
  case (step m)
  then show ?case by (subst dial_retry.simps) (auto split: sum.split option.split)
qed

text \<open>What it returns is a connection some dial gave, or the error of the timer or the context.\<close>

definition dial_outcome ::
    "string \<Rightarrow> (nat \<Rightarrow> nat result) \<Rightarrow> (nat \<Rightarrow> bool) \<Rightarrow> (nat \<Rightarrow> string option) \<Rightarrow> nat result \<Rightarrow> bool" where
  "dial_outcome path att fired ctxErr r \<longleftrightarrow>
     (case r of
        Inr c \<Rightarrow> (\<exists>k. att k = Inr c)
      | Inl m \<Rightarrow>
          (\<exists>k e. att k = Inl e \<and> fired k \<and> m = ''pipe not found before timeout: '' @ e)
          \<or> (\<exists>k e. ctxErr k = Some e \<and> m = ''timed out waiting for pipe '' @ path @ '': '' @ e))"

lemma dial_retry_result:
  assumes "dial_retry path att fired ctxErr pick i = Some r"
  shows "dial_outcome path att fired ctxErr r"
proof (rule dial_retry.raw_induct [OF _ assms, where P = "\<lambda>path att fired ctxErr pick i r. dial_outcome path att fired ctxErr r"], goal_cases)
  case (1 f path att fired ctxErr pick i r)
  show ?case
  proof (cases "att i")
    case (Inr c)
    with 1(2) show ?thesis by (auto simp: dial_outcome_def)
  next
    case (Inl e)
    show ?thesis
    proof (cases "fired i \<and> (ctxErr i = None \<or> pick i)")
      case True
      with 1(2) Inl have "r = Inl (''pipe not found before timeout: '' @ e)" by simp
      with True Inl show ?thesis unfolding dial_outcome_def by (simp only: sum.case) blast
    next
      case False
      show ?thesis
      proof (cases "ctxErr i")
        case None
        with False Inl 1 show ?thesis by simp
      next
        case (Some ce)
        with 1(2) Inl False have "r = Inl (''timed out waiting for pipe '' @ path @ '': '' @ ce)"
          by (auto split: if_splits)
        with Some show ?thesis unfolding dial_outcome_def by (simp only: sum.case) blast
      qed
    qed
  qed
qed

text \<open>The log pipe's reader asks once: what its first use saw it keeps, a failed dial for good.\<close>

lemma dr_wait_once: "dr_wait ch2 (dr_wait ch1 d) = dr_wait ch1 d"
  by (simp add: dr_wait_def split: option.split)

lemma dr_read_failed:
  assumes "dr_read None read1 setupLogPipe_win s = (r, d, t)"
  shows "r = ([], Some ''failed to connect to shim log pipe'') \<and> dr_read (Some c) read1 d u = (r, d, u)"
  using assms by (auto simp: dr_read_def dr_wait_def setupLogPipe_win_def)

end
