(* ===== verification/Windows_Drain.thy ===== *)
theory Windows_Drain
  imports Windows_Laws
begin

text \<open>
  The goroutines that read a named pipe (\<^verbatim>\<open>io_windows.go\<close>, drainFifo, drainFifoInto and
  drainFifoIntoDone) as a step relation with the client that writes it. The read that is
  pending when the client closes its end may return an error and no byte although data is
  still in the pipe; a later read returns that data.
\<close>

section \<open>The relation\<close>

datatype wd_phase = Accepting | Reading | Residual | Ended

record windrain =
  wd_sent :: bytes
  wd_in :: bytes
  wd_open :: bool
  wd_buf :: bytes
  wd_phase :: wd_phase
  wd_refused :: bool

definition windrain_init :: windrain where
  "windrain_init = \<lparr>wd_sent = [], wd_in = [], wd_open = True, wd_buf = [], wd_phase = Accepting, wd_refused = False\<rparr>"

text \<open>After a read with an error: the loop that fetches what is left, where the function has it.\<close>

definition after_error :: "bool \<Rightarrow> wd_phase" where
  "after_error residual = (if residual then Residual else Ended)"

definition take_bytes :: "nat \<Rightarrow> windrain \<Rightarrow> windrain" where
  "take_bytes n s = s\<lparr>wd_buf := wd_buf s @ take n (wd_in s), wd_in := drop n (wd_in s)\<rparr>"

text \<open>
  The client's steps, the accept, which fails when the test has closed the listener, and the
  reads, of at most 4096 bytes each: one with data, one with the last data and the error at
  once, one with the error alone. Only a client that has closed its end makes a read fail.
\<close>

inductive client_step :: "windrain \<Rightarrow> windrain \<Rightarrow> bool" where
  client_puts: "wd_open s \<Longrightarrow> client_step s (s\<lparr>wd_sent := wd_sent s @ b, wd_in := wd_in s @ b\<rparr>)"
| client_closes: "wd_open s \<Longrightarrow> client_step s (s\<lparr>wd_open := False\<rparr>)"

inductive pipe_step :: "bool \<Rightarrow> windrain \<Rightarrow> windrain \<Rightarrow> bool" for residual where
  accepted: "wd_phase s = Accepting \<Longrightarrow> pipe_step residual s (s\<lparr>wd_phase := Reading\<rparr>)"
| refused: "wd_phase s = Accepting \<Longrightarrow> pipe_step residual s (s\<lparr>wd_phase := Ended, wd_refused := True\<rparr>)"
| chunk: "wd_phase s = Reading \<Longrightarrow> wd_in s \<noteq> [] \<Longrightarrow> 0 < n \<Longrightarrow> n \<le> 4096 \<Longrightarrow> pipe_step residual s (take_bytes n s)"
| chunk_err: "wd_phase s = Reading \<Longrightarrow> \<not> wd_open s \<Longrightarrow> wd_in s \<noteq> [] \<Longrightarrow> 0 < n \<Longrightarrow> n \<le> 4096 \<Longrightarrow>
     pipe_step residual s (take_bytes n s\<lparr>wd_phase := after_error residual\<rparr>)"
| broken: "wd_phase s = Reading \<Longrightarrow> \<not> wd_open s \<Longrightarrow> pipe_step residual s (s\<lparr>wd_phase := after_error residual\<rparr>)"
| fetch: "wd_phase s = Residual \<Longrightarrow> wd_in s \<noteq> [] \<Longrightarrow> 0 < n \<Longrightarrow> n \<le> 4096 \<Longrightarrow> pipe_step residual s (take_bytes n s)"
| fetch_end: "wd_phase s = Residual \<Longrightarrow> wd_in s = [] \<Longrightarrow> pipe_step residual s (s\<lparr>wd_phase := Ended\<rparr>)"

inductive_cases pipe_step_cases [elim]: "pipe_step residual s t"
inductive_cases client_step_cases [elim]: "client_step s t"

definition wd_step :: "bool \<Rightarrow> windrain \<Rightarrow> windrain \<Rightarrow> bool" where
  "wd_step residual s t \<longleftrightarrow> client_step s t \<or> pipe_step residual s t"

section \<open>Nothing is lost\<close>

text \<open>
  Written is what is read and what is in the pipe; past the error the client is gone; a reader
  that ended by its second loop, on a pipe it had accepted, has emptied it.
\<close>

definition wd_inv :: "windrain \<Rightarrow> bool" where
  "wd_inv s \<longleftrightarrow> wd_sent s = wd_buf s @ wd_in s
     \<and> (wd_phase s = Residual \<longrightarrow> \<not> wd_open s)
     \<and> (wd_phase s = Ended \<longrightarrow> wd_refused s \<or> (\<not> wd_open s \<and> wd_in s = []))"

interpretation windrain: step_invariant "wd_step True" wd_inv
proof
  fix s t
  assume inv: "wd_inv s" and "wd_step True s t"
  then consider "client_step s t" | "pipe_step True s t" by (auto simp: wd_step_def)
  then show "wd_inv t"
  proof cases
    case 1
    then show ?thesis by cases (use inv in \<open>auto simp: wd_inv_def\<close>)
  next
    case 2
    then show ?thesis by cases (use inv in \<open>auto simp: wd_inv_def after_error_def take_bytes_def\<close>)
  qed
qed

text \<open>
  C15. On Windows, where the read pending at the close of the client may break with data
  left in the pipe, a drainFifoIntoDone whose listener accepted the client ends only with
  everything the client wrote in the buffer.
\<close>

theorem winDrain_complete:
  assumes "(wd_step True)\<^sup>*\<^sup>* windrain_init s" and "wd_phase s = Ended" and "\<not> wd_refused s"
  shows "wd_buf s = wd_sent s \<and> \<not> wd_open s"
  using windrain.run_preserves [OF assms(1)] assms(2,3) by (simp add: wd_inv_def windrain_init_def)

text \<open>The buffer of either reader is at any time the beginning of what was written.\<close>

lemma take_bytes_simps [simp]:
  "wd_phase (take_bytes n s) = wd_phase s" "wd_open (take_bytes n s) = wd_open s"
  "wd_sent (take_bytes n s) = wd_sent s" "wd_refused (take_bytes n s) = wd_refused s"
  by (simp_all add: take_bytes_def)

definition wd_prefix :: "windrain \<Rightarrow> bool" where
  "wd_prefix s \<longleftrightarrow> wd_sent s = wd_buf s @ wd_in s"

interpretation winprefix: step_invariant "wd_step residual" wd_prefix for residual
proof
  fix s t
  assume inv: "wd_prefix s" and "wd_step residual s t"
  then consider "client_step s t" | "pipe_step residual s t" by (auto simp: wd_step_def)
  then show "wd_prefix t"
  proof cases
    case 1
    then show ?thesis by cases (use inv in \<open>auto simp: wd_prefix_def\<close>)
  next
    case 2
    then show ?thesis by cases (use inv in \<open>auto simp: wd_prefix_def take_bytes_def\<close>)
  qed
qed

lemma winDrain_prefix: "(wd_step residual)\<^sup>*\<^sup>* windrain_init s \<Longrightarrow> prefix (wd_buf s) (wd_sent s)"
  using winprefix.run_preserves [of residual windrain_init s] by (auto simp: wd_prefix_def windrain_init_def)

text \<open>
  A run whose pending read breaks: the client writes one byte and closes, and the read returns
  the error alone.
\<close>

definition broken_run :: "bool \<Rightarrow> windrain" where
  "broken_run residual = \<lparr>wd_sent = ''x'', wd_in = ''x'', wd_open = False, wd_buf = [],
     wd_phase = after_error residual, wd_refused = False\<rparr>"

lemma broken_run_reached: "(wd_step residual)\<^sup>*\<^sup>* windrain_init (broken_run residual)"
proof -
  let ?s1 = "windrain_init\<lparr>wd_phase := Reading\<rparr>"
  let ?s2 = "?s1\<lparr>wd_sent := wd_sent ?s1 @ ''x'', wd_in := wd_in ?s1 @ ''x''\<rparr>"
  let ?s3 = "?s2\<lparr>wd_open := False\<rparr>"
  let ?s4 = "?s3\<lparr>wd_phase := after_error residual\<rparr>"
  have a: "wd_step residual windrain_init ?s1"
    unfolding wd_step_def by (rule disjI2, rule accepted) (simp add: windrain_init_def)
  have b: "wd_step residual ?s1 ?s2"
    unfolding wd_step_def by (rule disjI1, rule client_puts) (simp add: windrain_init_def)
  have c: "wd_step residual ?s2 ?s3"
    unfolding wd_step_def by (rule disjI1, rule client_closes) (simp add: windrain_init_def)
  have d: "wd_step residual ?s3 ?s4" unfolding wd_step_def by (rule disjI2, rule broken) simp_all
  have e: "?s4 = broken_run residual" by (simp add: broken_run_def windrain_init_def)
  have "(wd_step residual)\<^sup>*\<^sup>* windrain_init ?s4"
    by (rule rtranclp_trans [OF rtranclp_trans [OF r_into_rtranclp [of "wd_step residual", OF a]
          r_into_rtranclp [of "wd_step residual", OF b]]
        rtranclp_trans [OF r_into_rtranclp [of "wd_step residual", OF c] r_into_rtranclp [of "wd_step residual", OF d]]])
  then show ?thesis unfolding e .
qed

text \<open>Without the second loop the reader has then ended with the byte left in the pipe.\<close>

lemma drainFifoInto_win_loses:
  "\<exists>s. (wd_step False)\<^sup>*\<^sup>* windrain_init s \<and> wd_phase s = Ended \<and> \<not> wd_refused s \<and> \<not> wd_open s \<and> wd_buf s \<noteq> wd_sent s"
  by (intro exI [of _ "broken_run False"] conjI broken_run_reached) (simp_all add: broken_run_def after_error_def)

text \<open>With it, the byte is fetched.\<close>

lemma winDrain_complete_witness:
  "\<exists>s. (wd_step True)\<^sup>*\<^sup>* windrain_init s \<and> wd_phase s = Ended \<and> \<not> wd_refused s \<and> wd_buf s = ''x'' \<and> \<not> wd_open s"
proof -
  let ?s5 = "take_bytes 1 (broken_run True)"
  let ?s6 = "?s5\<lparr>wd_phase := Ended\<rparr>"
  have "wd_step True (broken_run True) ?s5"
    unfolding wd_step_def by (rule disjI2, rule fetch) (simp_all add: broken_run_def after_error_def)
  moreover have "wd_step True ?s5 ?s6"
    unfolding wd_step_def by (rule disjI2, rule fetch_end) (simp_all add: broken_run_def after_error_def take_bytes_def)
  ultimately have run: "(wd_step True)\<^sup>*\<^sup>* windrain_init ?s6"
    using broken_run_reached [of True] by (rule_tac rtranclp.rtrancl_into_rtrancl, rule_tac rtranclp.rtrancl_into_rtrancl)
  moreover have "wd_sent ?s6 = ''x''" "\<not> wd_refused ?s6" by (simp_all add: broken_run_def)
  ultimately show ?thesis using winDrain_complete [OF run] by (intro exI [of _ ?s6]) simp
qed

section \<open>The reader ends\<close>

definition wd_measure :: "windrain \<Rightarrow> nat" where
  "wd_measure s = length (wd_in s) + (case wd_phase s of Accepting \<Rightarrow> 3 | Reading \<Rightarrow> 2 | Residual \<Rightarrow> 1 | Ended \<Rightarrow> 0)"

lemma take_bytes_less: "wd_in s \<noteq> [] \<Longrightarrow> 0 < n \<Longrightarrow> length (wd_in (take_bytes n s)) < length (wd_in s)"
  by (cases "wd_in s") (auto simp: take_bytes_def)

interpretation winreader: step_measure "pipe_step residual" wd_measure for residual
proof
  fix s t
  assume "pipe_step residual s t"
  then show "wd_measure t < wd_measure s"
  proof cases
    case (chunk n)
    then show ?thesis using take_bytes_less [of s n] by (simp add: wd_measure_def)
  next
    case (chunk_err n)
    then show ?thesis using take_bytes_less [of s n] by (simp add: wd_measure_def after_error_def)
  next
    case (fetch n)
    then show ?thesis using take_bytes_less [of s n] by (simp add: wd_measure_def)
  qed (simp_all add: wd_measure_def after_error_def)
qed

text \<open>Once the client is gone a reader that has not ended can go on, and ends.\<close>

lemma winreader_progress: "\<not> wd_open s \<Longrightarrow> wd_phase s \<noteq> Ended \<Longrightarrow> \<exists>t. pipe_step residual s t"
  using accepted [of s residual] broken [of s residual] fetch_end [of s residual] fetch [of s 1 residual]
  by (cases "wd_phase s"; cases "wd_in s = []") auto

end
