(* ===== verification/Windows_Bridge.thy ===== *)
theory Windows_Bridge
  imports Windows_Drain
begin

text \<open>
  The ends of a named pipe that are opened for direct reading or writing (\<^verbatim>\<open>io_windows.go\<close>,
  openPipeReader, openPipeWriter, createRawPipe, createRawPipeWriter): a goroutine accepts the
  client and copies between the connection and an \<^verbatim>\<open>io.Pipe\<close> whose other end the caller has.
\<close>

section \<open>The copying goroutine\<close>

text \<open>
  The direction says which end of the copy is the connection. A source that is the connection
  may be closed by the client at any time, and its last read may break with data unread; the
  source of a writer is the \<^verbatim>\<open>io.Pipe\<close>, whose user closes it after its writes have returned.
\<close>

datatype direction = FromConn | ToConn

datatype br_phase = BrAccepting | BrCopying | BrRefused err | BrDone

record bridge =
  br_sent :: bytes
  br_in :: bytes
  br_source :: bool
  br_held :: bytes
  br_out :: bytes
  br_sink :: bool
  br_phase :: br_phase

definition bridge_init :: bridge where
  "bridge_init = \<lparr>br_sent = [], br_in = [], br_source = True, br_held = [], br_out = [], br_sink = True,
     br_phase = BrAccepting\<rparr>"

text \<open>
  \<^verbatim>\<open>io.Copy\<close> holds what one read returned until it is written, and ends at the first error of
  either side. A failed accept closes the \<^verbatim>\<open>io.Pipe\<close> with its error.
\<close>

inductive bridge_step :: "direction \<Rightarrow> bridge \<Rightarrow> bridge \<Rightarrow> bool" for dir where
  br_accept: "br_phase s = BrAccepting \<Longrightarrow> bridge_step dir s (s\<lparr>br_phase := BrCopying\<rparr>)"
| br_refuse: "br_phase s = BrAccepting \<Longrightarrow> bridge_step dir s (s\<lparr>br_phase := BrRefused e\<rparr>)"
| source_puts: "br_source s \<Longrightarrow> bridge_step dir s (s\<lparr>br_sent := br_sent s @ b, br_in := br_in s @ b\<rparr>)"
| source_closes: "br_source s \<Longrightarrow> dir = FromConn \<or> br_in s = [] \<Longrightarrow> bridge_step dir s (s\<lparr>br_source := False\<rparr>)"
| sink_closes: "br_sink s \<Longrightarrow> bridge_step dir s (s\<lparr>br_sink := False\<rparr>)"
| copy_read: "br_phase s = BrCopying \<Longrightarrow> br_held s = [] \<Longrightarrow> br_in s \<noteq> [] \<Longrightarrow> 0 < n \<Longrightarrow> n \<le> 32768 \<Longrightarrow>
     bridge_step dir s (s\<lparr>br_held := take n (br_in s), br_in := drop n (br_in s)\<rparr>)"
| copy_write: "br_phase s = BrCopying \<Longrightarrow> br_held s \<noteq> [] \<Longrightarrow> br_sink s \<Longrightarrow>
     bridge_step dir s (s\<lparr>br_out := br_out s @ br_held s, br_held := []\<rparr>)"
| copy_end: "br_phase s = BrCopying \<Longrightarrow> br_held s = [] \<Longrightarrow> \<not> br_source s \<Longrightarrow> bridge_step dir s (s\<lparr>br_phase := BrDone\<rparr>)"
| copy_fails: "br_phase s = BrCopying \<Longrightarrow> br_held s \<noteq> [] \<Longrightarrow> \<not> br_sink s \<Longrightarrow> bridge_step dir s (s\<lparr>br_phase := BrDone\<rparr>)"

text \<open>What the caller of openPipeReader reads: the data, then the end it sees once the goroutine is done.\<close>

definition reader_end :: "bridge \<Rightarrow> err option option" where
  "reader_end s = (case br_phase s of BrRefused e \<Rightarrow> Some (Some e) | BrDone \<Rightarrow> Some None | _ \<Rightarrow> None)"

definition pipeReader_write :: "bytes \<Rightarrow> nat \<times> err option" where
  "pipeReader_write b = (0, Some ''pipeReaderRWC: write not supported'')"

section \<open>Opening an end\<close>

text \<open>The registry is only read; the raw pipes make a listener of their own, which their cleanup closes.\<close>

definition openPipeReader_win :: "'s winlab \<Rightarrow> string \<Rightarrow> 's \<Rightarrow> (nat \<times> bridge) result" where
  "openPipeReader_win wl path s =
     (case openPipe_win wl path s of Inl e \<Rightarrow> Inl e | Inr l \<Rightarrow> Inr (l, bridge_init))"

definition openPipeWriter_win :: "'s winlab \<Rightarrow> string \<Rightarrow> 's \<Rightarrow> (nat \<times> bridge) result" where
  "openPipeWriter_win wl path s =
     (case openPipe_win wl path s of Inl e \<Rightarrow> Inl e | Inr l \<Rightarrow> Inr (l, bridge_init))"

text \<open>The cleanup closes the listener and then the caller's end: the sink of a reader, the source of a writer.\<close>

definition raw_cleanup :: "'s winlab \<Rightarrow> direction \<Rightarrow> nat \<Rightarrow> 's \<times> bridge \<Rightarrow> 's \<times> bridge" where
  "raw_cleanup wl dir l = (\<lambda>(s, b). (wl_closeListener wl l s,
     case dir of FromConn \<Rightarrow> b\<lparr>br_sink := False\<rparr> | ToConn \<Rightarrow> b\<lparr>br_source := False\<rparr>))"

definition raw_pipe_win ::
    "'s winlab \<Rightarrow> direction \<Rightarrow> string \<Rightarrow> 's \<Rightarrow> (string \<times> bridge \<times> ('s \<times> bridge \<Rightarrow> 's \<times> bridge)) result \<times> 's" where
  "raw_pipe_win wl dir name s =
     (case createRawPipe_win wl name s of
        (Inl e, t) \<Rightarrow> (Inl e, t)
      | (Inr (path, l), t) \<Rightarrow> (Inr (path, bridge_init, raw_cleanup wl dir l), t))"

definition createRawPipeReader_win ::
    "'s winlab \<Rightarrow> string \<Rightarrow> 's \<Rightarrow> (string \<times> bridge \<times> ('s \<times> bridge \<Rightarrow> 's \<times> bridge)) result \<times> 's" where
  "createRawPipeReader_win wl = raw_pipe_win wl FromConn"

definition createRawPipeWriter_win ::
    "'s winlab \<Rightarrow> string \<Rightarrow> 's \<Rightarrow> (string \<times> bridge \<times> ('s \<times> bridge \<Rightarrow> 's \<times> bridge)) result \<times> 's" where
  "createRawPipeWriter_win wl = raw_pipe_win wl ToConn"

text \<open>drainFifo: the goroutine is the one of Windows_Drain with the data discarded.\<close>

definition drainFifo_win :: "'s winlab \<Rightarrow> (nat \<Rightarrow> 's \<Rightarrow> 's) \<Rightarrow> string \<Rightarrow> ('s, unit) test" where
  "drainFifo_win wl spawn path = andThen (popListener wl path) (\<lambda>l. act (\<lambda>s. ((), spawn l s)))"

section \<open>What arrives\<close>

text \<open>Delivered, held and unread are together what was sent, and a done copy holds nothing for an open sink.\<close>

definition bridge_inv :: "direction \<Rightarrow> bridge \<Rightarrow> bool" where
  "bridge_inv dir s \<longleftrightarrow> br_sent s = br_out s @ br_held s @ br_in s
     \<and> (br_phase s = BrDone \<longrightarrow> br_sink s \<longrightarrow> br_held s = [] \<and> \<not> br_source s)
     \<and> (dir = ToConn \<longrightarrow> \<not> br_source s \<longrightarrow> br_in s = [])"

interpretation bridge: step_invariant "bridge_step dir" "bridge_inv dir" for dir
proof
  fix s t
  assume inv: "bridge_inv dir s" and "bridge_step dir s t"
  from this(2) show "bridge_inv dir t" by cases (use inv in \<open>auto simp: bridge_inv_def\<close>)
qed

lemma bridge_reached: "(bridge_step dir)\<^sup>*\<^sup>* bridge_init s \<Longrightarrow> bridge_inv dir s"
  by (erule bridge.run_preserves) (simp add: bridge_inv_def bridge_init_def)

text \<open>A writer's data arrives whole at a connection that stays open until the goroutine is done.\<close>

lemma writer_bridge_complete:
  assumes "(bridge_step ToConn)\<^sup>*\<^sup>* bridge_init s" and "br_phase s = BrDone" and "br_sink s"
  shows "br_out s = br_sent s"
  using bridge_reached [OF assms(1)] assms(2,3) by (simp add: bridge_inv_def)

text \<open>A reader sees the beginning of what the client wrote, in both directions and at any time.\<close>

lemma bridge_prefix: "(bridge_step dir)\<^sup>*\<^sup>* bridge_init s \<Longrightarrow> prefix (br_out s) (br_sent s)"
  using bridge_reached [of dir s] by (auto simp: bridge_inv_def)

text \<open>The reader's pipe is closed cleanly only after the client closed or the caller did.\<close>

lemma reader_end_clean:
  assumes "(bridge_step dir)\<^sup>*\<^sup>* bridge_init s" and "reader_end s = Some None"
  shows "\<not> br_source s \<or> \<not> br_sink s"
  using bridge_reached [OF assms(1)] assms(2) by (auto simp: reader_end_def bridge_inv_def split: br_phase.splits)

end
