(* ===== verification/Platforms.thy ===== *)
theory Platforms
  imports Windows_Bridge Fifo
begin

text \<open>
  The rest of what differs by platform: the raw pipes of \<^verbatim>\<open>io_unix.go\<close>, the processes of
  Windows (\<^verbatim>\<open>proc_windows.go\<close>), \<^verbatim>\<open>ps\<close> where there is no \<^verbatim>\<open>/proc\<close> (\<^verbatim>\<open>proc_other.go\<close>), and
  the suites that skip outside Linux.
\<close>

section \<open>Raw FIFOs\<close>

text \<open>
  \<open>mkfifo\<close> and \<open>openFifo\<close> are the calls of the system and of the \<^verbatim>\<open>fifo\<close> package; the cleanup
  closes the end that was opened, and does not unlink the FIFO.
\<close>

datatype fifo_end = OpenRead | OpenWrite

record 'f fifolab =
  fl_mkfifo :: "string \<Rightarrow> 'f \<Rightarrow> err option \<times> 'f"
  fl_open :: "string \<Rightarrow> fifo_end \<Rightarrow> 'f \<Rightarrow> nat result \<times> 'f"
  fl_close :: "nat \<Rightarrow> 'f \<Rightarrow> 'f"

definition openPipeWriter :: "'f fifolab \<Rightarrow> string \<Rightarrow> 'f \<Rightarrow> nat result \<times> 'f" where
  "openPipeWriter fl path = fl_open fl path OpenWrite"

definition openPipeReader :: "'f fifolab \<Rightarrow> string \<Rightarrow> 'f \<Rightarrow> nat result \<times> 'f" where
  "openPipeReader fl path = fl_open fl path OpenRead"

definition raw_fifo :: "'f fifolab \<Rightarrow> fifo_end \<Rightarrow> string \<Rightarrow> string \<Rightarrow> 'f \<Rightarrow> (string \<times> nat \<times> ('f \<Rightarrow> 'f)) result \<times> 'f" where
  "raw_fifo fl which dir name f =
     (let path = path_join [dir, name] in
      case fl_mkfifo fl path f of
        (Some e, f1) \<Rightarrow> (Inl (''mkfifo '' @ path @ '': '' @ e), f1)
      | (None, f1) \<Rightarrow>
         (case fl_open fl path which f1 of
            (Inl e, f2) \<Rightarrow> (Inl (''open fifo '' @ path @ '': '' @ e), f2)
          | (Inr h, f2) \<Rightarrow> (Inr (path, h, fl_close fl h), f2)))"

definition createRawPipeWriter :: "'f fifolab \<Rightarrow> string \<Rightarrow> string \<Rightarrow> 'f \<Rightarrow> (string \<times> nat \<times> ('f \<Rightarrow> 'f)) result \<times> 'f" where
  "createRawPipeWriter fl = raw_fifo fl OpenWrite"

definition createRawPipe :: "'f fifolab \<Rightarrow> string \<Rightarrow> string \<Rightarrow> 'f \<Rightarrow> (string \<times> nat \<times> ('f \<Rightarrow> 'f)) result \<times> 'f" where
  "createRawPipe fl = raw_fifo fl OpenRead"

text \<open>
  The readers and the listener a test opens: a failure is fatal, and the end is closed with the
  test. \<open>spawn\<close> starts the goroutine, the one of Fifo with or without its done channel.
\<close>

definition drainFifoInto :: "'s fifolab \<Rightarrow> (nat \<Rightarrow> 's \<Rightarrow> 's) \<Rightarrow> string \<Rightarrow> ('s, unit) test" where
  "drainFifoInto fl spawn path =
     andThen (must ''failed to open fifo: '' (fl_open fl path OpenRead)) (\<lambda>h.
     andThen (act (\<lambda>s. ((), spawn h s))) (\<lambda>u. on_cleanup (\<lambda>s. ([], fl_close fl h s))))"

definition listenEvents :: "(string \<Rightarrow> 's \<Rightarrow> nat result \<times> 's) \<Rightarrow> string \<Rightarrow> ('s, nat) test" where
  "listenEvents listen socketPath = must ''events listen: '' (listen socketPath)"

lemma drainFifoInto_closes:
  assumes "fl_open fl path OpenRead s = (Inr h, s1)"
  shows "finish (drainFifoInto fl spawn path) s = (Passed, fl_close fl h (spawn h s1))"
  using assms by (simp add: drainFifoInto_def finish_def andThen_def must_def act_def on_cleanup_def verdict_of_def)

text \<open>
  The pipe is opened only when it was made, and one whose open failed stays behind with no
  cleanup: the state is the one of the two calls.
\<close>

lemma raw_fifo_open_failed:
  assumes "fl_mkfifo fl (path_join [dir, name]) f = (None, f1)"
    and "fl_open fl (path_join [dir, name]) which f1 = (Inl e, f2)"
  shows "raw_fifo fl which dir name f = (Inl (''open fifo '' @ path_join [dir, name] @ '': '' @ e), f2)"
  using assms by (simp add: raw_fifo_def Let_def)

lemma raw_fifo_made:
  assumes "raw_fifo fl which dir name f = (Inr (path, h, cleanup), f2)"
  obtains f1 where "path = path_join [dir, name]" and "fl_mkfifo fl path f = (None, f1)"
    and "fl_open fl path which f1 = (Inr h, f2)" and "cleanup = fl_close fl h"
  using assms by (auto simp: raw_fifo_def Let_def split: prod.splits option.splits sum.splits)

section \<open>Processes of Windows\<close>

datatype win_access = QueryLimited | QueryAndRead

text \<open>
  \<open>w_entries\<close> is the snapshot's entries, as far as \<^verbatim>\<open>Process32First\<close> and \<^verbatim>\<open>Process32Next\<close> give
  them; \<open>w_lower\<close> is \<^verbatim>\<open>strings.ToLower\<close>. A pid is a 32-bit number.
\<close>

record winprocs =
  w_abs :: "string \<Rightarrow> string result"
  w_lower :: "string \<Rightarrow> string"
  w_entries :: "32 word list result"
  w_openProcess :: "win_access \<Rightarrow> 32 word \<Rightarrow> nat result"
  w_image :: "nat \<Rightarrow> string result"
  w_workingSet :: "nat \<Rightarrow> 64 word result"

definition readRSS_win :: "winprocs \<Rightarrow> int \<Rightarrow> int result" where
  "readRSS_win ps pid =
     (let h = (case w_openProcess ps QueryLimited (word_of_int pid) of
          Inr h \<Rightarrow> Inr h
        | Inl e \<Rightarrow> w_openProcess ps QueryAndRead (word_of_int pid)) in
      case h of
        Inl e \<Rightarrow> Inl (''OpenProcess('' @ itoa pid @ ''): '' @ e)
      | Inr h \<Rightarrow>
         (case w_workingSet ps h of
            Inl e \<Rightarrow> Inl (''GetProcessMemoryInfo('' @ itoa pid @ ''): '' @ e)
          | Inr w \<Rightarrow> Inr (sint w)))"

text \<open>A process that cannot be opened or asked for its image is passed over.\<close>

definition runs_image :: "winprocs \<Rightarrow> string \<Rightarrow> 32 word \<Rightarrow> bool" where
  "runs_image ps target pid =
     (case w_openProcess ps QueryLimited pid of
        Inl e \<Rightarrow> False
      | Inr h \<Rightarrow> (case w_image ps h of Inl e \<Rightarrow> False | Inr exe \<Rightarrow> w_lower ps exe = target))"

fun live_win :: "winprocs \<Rightarrow> string \<Rightarrow> 32 word list \<Rightarrow> int list" where
  "live_win ps target [] = []"
| "live_win ps target (pid # pids) =
     (if runs_image ps target pid then List.insert (uint pid) (live_win ps target pids)
      else live_win ps target pids)"

definition shimPIDs_win :: "winprocs \<Rightarrow> string \<Rightarrow> int list" where
  "shimPIDs_win ps binary =
     (case w_abs ps binary of
        Inl e \<Rightarrow> []
      | Inr path \<Rightarrow>
         (case w_entries ps of Inl e \<Rightarrow> [] | Inr pids \<Rightarrow> live_win ps (w_lower ps path) pids))"

definition shimCmdlineInfo_win :: "int \<Rightarrow> string" where
  "shimCmdlineInfo_win pid = []"

text \<open>The leak check of \<^verbatim>\<open>helpers.go\<close> over these.\<close>

definition leak_check_win :: "winprocs \<Rightarrow> winprocs \<Rightarrow> string \<Rightarrow> string list" where
  "leak_check_win first now shimBin =
     map (\<lambda>pid. let info = shimCmdlineInfo_win pid
           in if info \<noteq> [] then ''leaked shim process: PID '' @ itoa pid @ '' ('' @ info @ '')''
              else ''leaked shim process: PID '' @ itoa pid)
       (pidDiff (shimPIDs_win first shimBin) (shimPIDs_win now shimBin))"

lemma live_win_iff: "i \<in> set (live_win ps target pids) \<longleftrightarrow> (\<exists>pid \<in> set pids. i = uint pid \<and> runs_image ps target pid)"
  by (induction pids) auto

lemma live_win_distinct: "distinct (live_win ps target pids)"
  by (induction pids) auto

definition runs_win :: "winprocs \<Rightarrow> string \<Rightarrow> int \<Rightarrow> bool" where
  "runs_win ps path i \<longleftrightarrow>
     (\<exists>pids pid. w_entries ps = Inr pids \<and> pid \<in> set pids \<and> i = uint pid \<and> runs_image ps (w_lower ps path) pid)"

lemma shimPIDs_win_iff: "w_abs ps bin = Inr path \<Longrightarrow> i \<in> set (shimPIDs_win ps bin) \<longleftrightarrow> runs_win ps path i"
  by (cases "w_entries ps") (auto simp: shimPIDs_win_def runs_win_def live_win_iff)

text \<open>As on Linux, the processes that appeared between the snapshots are reported, and no others.\<close>

lemma leak_check_win_exact:
  assumes "w_abs b bin = Inr path" and "w_abs a bin = Inr path"
  shows "set (leak_check_win b a bin) = (\<lambda>i. ''leaked shim process: PID '' @ itoa i) ` {i. runs_win a path i \<and> \<not> runs_win b path i}"
  using shimPIDs_win_iff [OF assms(1)] shimPIDs_win_iff [OF assms(2)]
  by (auto simp: leak_check_win_def shimCmdlineInfo_win_def pidDiff_def)

text \<open>
  The comparison ignores case in the way \<^verbatim>\<open>ToLower\<close> does. A binary given by its bare name is
  made absolute against the working directory; when no process runs that path, as when the
  binary is found through the PATH, nothing is ever reported, and no message says so.
\<close>

lemma bare_name_disables:
  assumes "w_abs now bin = Inr path" and "\<forall>h exe. w_image now h = Inr exe \<longrightarrow> w_lower now exe \<noteq> w_lower now path"
  shows "leak_check_win first now bin = []"
proof -
  have "\<not> runs_image now (w_lower now path) pid" for pid
    using assms(2) by (auto simp: runs_image_def split: sum.split)
  then have "live_win now (w_lower now path) pids = []" for pids by (induction pids) auto
  with assms(1) show ?thesis by (simp add: leak_check_win_def shimPIDs_win_def pidDiff_def split: sum.split)
qed

text \<open>The fallback is used exactly when the first access is refused.\<close>

lemma readRSS_win_limited:
  "w_openProcess ps QueryLimited (word_of_int pid) = Inr h \<Longrightarrow> w_workingSet ps h = Inr w \<Longrightarrow>
     readRSS_win ps pid = Inr (sint w)"
  by (simp add: readRSS_win_def)

lemma readRSS_win_exact:
  assumes "readRSS_win ps pid = Inr rss" and "0 \<le> rss"
  shows "\<exists>h w. w_workingSet ps h = Inr w \<and> rss = uint w"
proof -
  from assms(1) obtain h w where "w_workingSet ps h = Inr w" and "rss = sint w"
    by (auto simp: readRSS_win_def Let_def split: sum.splits)
  moreover have "sint w < 2 ^ 63" using sint_lt [of w] by simp
  ultimately have "rss = uint w" using assms(2) by (simp add: uint_sint [of w] take_bit_eq_mod)
  with \<open>w_workingSet ps h = Inr w\<close> show ?thesis by blast
qed

section \<open>Processes elsewhere\<close>

text \<open>\<open>ps\<close> is the output of \<^verbatim>\<open>ps -o rss= -p\<close>.\<close>

definition readRSS_other :: "(string \<Rightarrow> string result) \<Rightarrow> int \<Rightarrow> int result" where
  "readRSS_other ps pid =
     (case ps (itoa pid) of
        Inl e \<Rightarrow> Inl (''ps rss for pid '' @ itoa pid @ '': '' @ e)
      | Inr out \<Rightarrow>
         (case atoi (trim_space out) of
            None \<Rightarrow> Inl (''parse rss for pid '' @ itoa pid @ '': '' @ num_error ''ParseInt'' (trim_space out))
          | Some kb \<Rightarrow> Inr (wrap64 (kb * 1024))))"

definition shimPIDs_other :: "string \<Rightarrow> int list" where
  "shimPIDs_other binary = []"

lemma readRSS_other_reads:
  assumes "ps (itoa pid) = Inr out" and "trim_space out = dec kb" and "int kb * 1024 < 2 ^ 63"
  shows "readRSS_other ps pid = Inr (int kb * 1024)"
proof -
  from assms(3) have "int kb < 2 ^ 63" by linarith
  then have "atoi (dec kb) = Some (int kb)" by (intro atoi_dec)
  with assms show ?thesis by (simp add: readRSS_other_def wrap64_id in_int64_def)
qed

section \<open>Suites that need Linux\<close>

definition attachContainerNetwork_other :: "('s, 'a) test" where
  "attachContainerNetwork_other = skip ''net tests requiring in-test container networking are Linux-only''"

definition createNetworkSandbox_other :: "('s, string) test" where
  "createNetworkSandbox_other = skip ''createNetworkSandbox is Linux-only''"

definition networkSandboxIsOpen_other :: "string \<Rightarrow> bool" where
  "networkSandboxIsOpen_other path = False"

definition SandboxSuite_Run_other :: "('s, unit) test" where
  "SandboxSuite_Run_other = skip ''SandboxSuite is Linux-only (virtiofs-backed shared filesystem)''"

definition SandboxSuite_Bench_other :: "('s, unit) test" where
  "SandboxSuite_Bench_other = skip ''SandboxSuite benchmarks are Linux-only''"

definition testSandbox_other :: "('s, unit) test" where
  "testSandbox_other = skip ''sandbox stress is Linux-only''"

text \<open>A test that reaches one of these, with no error before it, is reported as skipped.\<close>

lemma skip_reported:
  assumes "m s = (Returned a, [], cs, s1)" and "run_closings cs s1 = ([], t)"
  shows "finish (andThen m (\<lambda>a. skip e)) s = (WasSkipped, t)"
  using assms by (simp add: finish_def andThen_def skip_def verdict_of_def)

end
