(* ===== verification/Runner.thy ===== *)
theory Runner
  imports Stress_Suite Layers_Suite Network_Suite Exec_Suite Sandbox_Members Transfer_Suite Platforms
    "HOL-Library.AList" "HOL-Library.List_Lexorder" "HOL-Library.Char_ord"
begin

text \<open>
  The runner that composes the suites (\<^verbatim>\<open>main_test.go\<close>, \<^verbatim>\<open>runner_test.go\<close>): finding the
  configurations, deciding which of them this process can run and which have to run again as
  another user, and the suites of one configuration in their order.
\<close>

section \<open>Configurations\<close>

text \<open>The JSON schema and the configuration; a missing uid is the current user's.\<close>

record runConfig =
  rn_config :: config
  rn_skip :: "string list"
  rn_uid :: "int option"
  rn_gid :: "int option"

record runConfigJSON =
  j_shim_binary :: string
  j_env :: "(string \<times> string) list"
  j_format_mounts :: bool
  j_debug :: bool
  j_provide_network :: bool
  j_skip :: "string list"
  j_uid :: "int option"
  j_gid :: "int option"

definition of_json :: "runConfigJSON \<Rightarrow> runConfig" where
  "of_json j =
     \<lparr>rn_config = \<lparr>shimBinary = j_shim_binary j, formatMounts = j_format_mounts j, cfg_env = j_env j,
        cfg_debug = j_debug j, provideNetwork = j_provide_network j\<rparr>,
      rn_skip = j_skip j, rn_uid = j_uid j, rn_gid = j_gid j\<rparr>"

definition to_json :: "runConfig \<Rightarrow> runConfigJSON" where
  "to_json rc = (let c = rn_config rc in
     \<lparr>j_shim_binary = shimBinary c, j_env = cfg_env c, j_format_mounts = formatMounts c, j_debug = cfg_debug c,
      j_provide_network = provideNetwork c, j_skip = rn_skip rc, j_uid = rn_uid rc, j_gid = rn_gid rc\<rparr>)"

text \<open>
  What the process was started with; \<open>rv_decode\<close> is \<^verbatim>\<open>json.Unmarshal\<close> into the schema. A
  directory entry is its name and whether it is a directory.
\<close>

record runenv =
  rv_configDir :: string
  rv_configFlag :: string
  rv_getenv :: "string \<Rightarrow> string"
  rv_readdir :: "string \<Rightarrow> (string \<times> bool) list result"
  rv_readfile :: "string \<Rightarrow> bytes result"
  rv_decode :: "bytes \<Rightarrow> runConfigJSON result"

definition with_binary :: "string \<Rightarrow> runConfig \<Rightarrow> runConfig" where
  "with_binary bin rc = rc\<lparr>rn_config := (rn_config rc)\<lparr>shimBinary := bin\<rparr>\<rparr>"

definition loadConfigFile :: "runenv \<Rightarrow> string \<Rightarrow> runConfig result" where
  "loadConfigFile rv path =
     (case rv_readfile rv path of
        Inl e \<Rightarrow> Inl (''failed to read config '' @ path @ '': '' @ e)
      | Inr data \<Rightarrow>
         (case rv_decode rv data of
            Inl e \<Rightarrow> Inl (''failed to parse config '' @ path @ '': '' @ e)
          | Inr j \<Rightarrow>
              let v = rv_getenv rv ''SHIM_BINARY'';
                  rc = (if v \<noteq> [] then with_binary v (of_json j) else of_json j)
              in if shimBinary (rn_config rc) = [] then Inl (''shim_binary is required in '' @ path) else Inr rc))"

type_synonym configs = "(string \<times> runConfig) list"

fun load_dir :: "runenv \<Rightarrow> (string \<times> bool) list \<Rightarrow> configs \<Rightarrow> configs result" where
  "load_dir rv [] cs = Inr cs"
| "load_dir rv ((leaf, isDir) # es) cs =
     (if isDir \<or> \<not> has_suffix leaf ''.json'' then load_dir rv es cs
      else case loadConfigFile rv (path_join [rv_configDir rv, leaf]) of
        Inl e \<Rightarrow> Inl (''shimtest: '' @ e)
      | Inr rc \<Rightarrow> load_dir rv es (AList.update (trim_suffix leaf ''.json'') rc cs))"

text \<open>An error is printed and ends the process with exit status 1.\<close>

definition dir_configs :: "runenv \<Rightarrow> configs result" where
  "dir_configs rv =
     (if rv_configDir rv = [] then Inr []
      else case rv_readdir rv (rv_configDir rv) of
        Inl e \<Rightarrow> Inl (''shimtest: failed to read config dir '' @ rv_configDir rv @ '': '' @ e)
      | Inr es \<Rightarrow> load_dir rv es [])"

definition flag_config :: "runenv \<Rightarrow> configs \<Rightarrow> configs result" where
  "flag_config rv cs =
     (if rv_configFlag rv = [] then Inr cs
      else case loadConfigFile rv (rv_configFlag rv) of
        Inl e \<Rightarrow> Inl (''shimtest: '' @ e)
      | Inr rc \<Rightarrow> Inr (AList.update (trim_suffix (path_base (rv_configFlag rv)) ''.json'') rc cs))"

definition default_config :: "string \<Rightarrow> runConfig" where
  "default_config bin = of_json \<lparr>j_shim_binary = bin, j_env = [], j_format_mounts = False, j_debug = False,
     j_provide_network = False, j_skip = [], j_uid = None, j_gid = None\<rparr>"

definition discoverConfigs :: "runenv \<Rightarrow> configs result" where
  "discoverConfigs rv =
     (case dir_configs rv of
        Inl e \<Rightarrow> Inl e
      | Inr cs \<Rightarrow>
         (case flag_config rv cs of
            Inl e \<Rightarrow> Inl e
          | Inr cs \<Rightarrow>
              let v = rv_getenv rv ''SHIM_BINARY'' in
              if cs = [] \<and> v \<noteq> [] then Inr [(''default'', default_config v)] else Inr cs))"

section \<open>The process\<close>

definition target_uid :: "int \<Rightarrow> runConfig \<Rightarrow> int" where
  "target_uid uid rc = (case rn_uid rc of None \<Rightarrow> uid | Some u \<Rightarrow> u)"

definition checkRunnable :: "int \<Rightarrow> runConfig \<Rightarrow> string" where
  "checkRunnable uid rc =
     (if target_uid uid rc \<noteq> uid then ''requires uid '' @ itoa (target_uid uid rc) @ '', running as '' @ itoa uid else [])"

definition featureSkipped :: "runConfig \<Rightarrow> string \<Rightarrow> bool" where
  "featureSkipped rc feature \<longleftrightarrow> feature \<in> set (rn_skip rc)"

text \<open>The arguments handed on to the child: the two flags go, with the value that follows one.\<close>

definition config_flag :: "string \<Rightarrow> bool" where
  "config_flag a \<longleftrightarrow> has_prefix a ''-shimtest.config='' \<or> has_prefix a ''--shimtest.config=''
     \<or> has_prefix a ''-shimtest.configdir='' \<or> has_prefix a ''--shimtest.configdir=''"

definition config_word :: "string \<Rightarrow> bool" where
  "config_word a \<longleftrightarrow> a \<in> {''-shimtest.config'', ''--shimtest.config'', ''-shimtest.configdir'', ''--shimtest.configdir''}"

fun strip_args :: "string list \<Rightarrow> string list" where
  "strip_args [] = []"
| "strip_args (a # args) =
     (if config_flag a then strip_args args else if config_word a then strip_args (tl args) else a # strip_args args)"

definition sudo_args :: "string \<Rightarrow> string \<Rightarrow> string \<Rightarrow> string \<Rightarrow> string \<Rightarrow> (string \<times> string) list \<Rightarrow> string list \<Rightarrow> string list" where
  "sudo_args username shimDir path exe cfgFile env args =
     [''-Hu'', username, ''--'', ''env'', ''SHIMTEST_REEXEC=1'', ''PATH='' @ shimDir @ CHR '':'' # path]
     @ map (\<lambda>(k, v). k @ CHR ''='' # v) env @ [exe, ''-shimtest.config='' @ cfgFile] @ strip_args args"

text \<open>
  TestMain after the configurations: the exit status of the tests run here, if any, and of the
  children. \<open>users\<close> is \<^verbatim>\<open>user.LookupId\<close>, \<open>child\<close> the exit status of reexecAsUser.
\<close>

definition runs_here :: "int \<Rightarrow> configs \<Rightarrow> bool" where
  "runs_here uid cs \<longleftrightarrow> (\<exists>(name, rc) \<in> set cs. target_uid uid rc = uid)"

definition reexec_names :: "int \<Rightarrow> int \<Rightarrow> bool \<Rightarrow> configs \<Rightarrow> string list" where
  "reexec_names uid euid isReexec cs =
     (if euid = 0 \<and> \<not> isReexec then map fst (filter (\<lambda>(name, rc). target_uid uid rc \<noteq> uid) cs) else [])"

fun reexec_all ::
    "(int \<Rightarrow> string result) \<Rightarrow> (string \<Rightarrow> runConfig \<Rightarrow> int) \<Rightarrow> int \<Rightarrow> (string \<times> runConfig) list \<Rightarrow> int \<Rightarrow> int" where
  "reexec_all users child uid [] code = code"
| "reexec_all users child uid ((name, rc) # cs) code =
     (case users (target_uid uid rc) of
        Inl e \<Rightarrow> reexec_all users child uid cs 1
      | Inr u \<Rightarrow> (let c = child u rc in reexec_all users child uid cs (if c \<noteq> 0 then c else code)))"

definition testMain ::
    "(int \<Rightarrow> string result) \<Rightarrow> (string \<Rightarrow> runConfig \<Rightarrow> int) \<Rightarrow> int \<Rightarrow> int \<Rightarrow> int \<Rightarrow> bool \<Rightarrow> configs result \<Rightarrow> int" where
  "testMain users child mRun uid euid isReexec found =
     (case found of
        Inl e \<Rightarrow> 1
      | Inr cs \<Rightarrow>
          if cs = [] then 1
          else reexec_all users child uid (filter (\<lambda>(name, rc). name \<in> set (reexec_names uid euid isReexec cs)) cs)
            (if runs_here uid cs then mRun else 0))"

section \<open>A profile's suites\<close>

text \<open>
  The laboratories of the suites, over one state. \<open>rn_linux\<close> says for which platform the package
  was compiled; \<open>rn_setenv\<close> is \<^verbatim>\<open>os.Setenv\<close>.
\<close>

record 's runner =
  rn_lab :: "'s lab"
  rn_xfer :: "'s xferlab"
  rn_net :: "'s netlab"
  rn_pod :: "'s podlab"
  rn_stress :: "'s stresslab"
  rn_linux :: bool
  rn_setenv :: "string \<Rightarrow> string \<Rightarrow> 's \<Rightarrow> 's"

definition activateConfig :: "'s runner \<Rightarrow> runConfig \<Rightarrow> ('s, unit) test" where
  "activateConfig rn rc = act (\<lambda>s. ((), fold (\<lambda>(k, v). rn_setenv rn k v) (cfg_env (rn_config rc)) s))"

text \<open>The suite of sandboxes where it exists: every test has a tracking of its own.\<close>

definition on_pod :: "'s podlab \<Rightarrow> 's lab \<Rightarrow> 's podlab" where
  "on_pod pl lab = pl\<lparr>pd_sand := (pd_sand pl)\<lparr>sl_lab := lab\<rparr>, pd_net := (pd_net pl)\<lparr>nl_lab := lab\<rparr>\<rparr>"

definition sandbox_suite :: "'s podlab \<Rightarrow> config \<Rightarrow> ('s, unit) test" where
  "sandbox_suite pl cfg = suite_run (pd_lab pl) cfg
     (map (\<lambda>(name, test). (name, \<lambda>lab cfg. beside no_members (test (on_pod pl lab) cfg))) SandboxSuite)"

definition sandbox_run :: "'s runner \<Rightarrow> config \<Rightarrow> ('s, unit) test" where
  "sandbox_run rn cfg = (if rn_linux rn then sandbox_suite (on_pod (rn_pod rn) (rn_lab rn)) cfg else SandboxSuite_Run_other)"

definition stress_opts :: "runConfig \<Rightarrow> stressOptions" where
  "stress_opts rc = \<lparr>so_transfer = \<not> featureSkipped rc ''transfer'', so_sandbox = \<not> featureSkipped rc ''sandbox'',
     so_execRSS = 0, so_sandboxRSS = 0\<rparr>"

text \<open>Elsewhere the stress suite's test of sandboxes is a skip.\<close>

definition stress_run :: "'s runner \<Rightarrow> runConfig \<Rightarrow> ('s, unit) test" where
  "stress_run rn rc = (let sx = on_stress_lab (rn_stress rn) (in_subtest (rn_lab rn) ''Stress''); opts = stress_opts rc in
     if rn_linux rn then stress_suite sx opts (rn_config rc)
     else if ss_short sx then skip ''skipping stress test in short mode''
     else suite_run (ss_lab sx) (rn_config rc)
       (stress_tests sx (opts\<lparr>so_sandbox := False\<rparr>)
        @ (if so_sandbox opts then [(''Sandbox'', \<lambda>lab cfg. testSandbox_other)] else [])))"

definition unless_skipped :: "runConfig \<Rightarrow> string \<Rightarrow> ('s, unit) test \<Rightarrow> ('s, unit) test" where
  "unless_skipped rc feature m = (if featureSkipped rc feature then ret () else m)"

text \<open>The suites before the stress suite run on the profile's own test, the stress suite in a subtest.\<close>

definition before_stress :: "'s runner \<Rightarrow> runConfig \<Rightarrow> ('s, unit) test list" where
  "before_stress rn rc = (let lab = rn_lab rn; c = rn_config rc in
     [suite_run lab c RunSuite,
      unless_skipped rc ''exec'' (suite_run lab c ExecSuite),
      unless_skipped rc ''transfer'' (transfer_suite ((rn_xfer rn)\<lparr>xl_lab := lab\<rparr>) c),
      unless_skipped rc ''uds'' (suite_run lab c (UDSSuite (rn_net rn))),
      unless_skipped rc ''oom'' (suite_run lab c OOMSuite),
      unless_skipped rc ''layers'' (suite_run lab c LayersSuite),
      unless_skipped rc ''net'' (suite_run lab c (NetworkSuite (rn_net rn))),
      unless_skipped rc ''sandbox'' (sandbox_run rn c)])"

definition profile :: "'s runner \<Rightarrow> runConfig \<Rightarrow> ('s, unit) test" where
  "profile rn rc = andThen (activateConfig rn rc) (\<lambda>u.
     inOrder (before_stress rn rc @ [subtest ''Stress'' (stress_run rn rc)]))"

definition sortedConfigNames :: "configs \<Rightarrow> string list" where
  "sortedConfigNames cs = sort (remdups (map fst cs))"

definition profile_test :: "'s runner \<Rightarrow> int \<Rightarrow> configs \<Rightarrow> string \<Rightarrow> ('s, unit) test" where
  "profile_test rn uid cs name =
     (case map_of cs name of
        None \<Rightarrow> ret ()
      | Some rc \<Rightarrow>
          if checkRunnable uid rc \<noteq> [] then skip (''skipping: '' @ checkRunnable uid rc)
          else profile (rn\<lparr>rn_lab := in_subtest (rn_lab rn) name\<rparr>) rc)"

definition testShim :: "'s runner \<Rightarrow> int \<Rightarrow> configs \<Rightarrow> ('s, unit) test" where
  "testShim rn uid cs = inOrder (map (\<lambda>name. subtest name (profile_test rn uid cs name)) (sortedConfigNames cs))"

section \<open>What the runner guarantees\<close>

text \<open>A profile survives being written for the child and read by it.\<close>

lemma json_roundtrip: "of_json (to_json rc) = rc"
  by (simp add: of_json_def to_json_def Let_def)

text \<open>Every configuration found names a shim binary, and no two have one name.\<close>

definition configs_wf :: "configs \<Rightarrow> bool" where
  "configs_wf cs \<longleftrightarrow> distinct (map fst cs) \<and> (\<forall>(name, rc) \<in> set cs. shimBinary (rn_config rc) \<noteq> [])"

lemma in_update: "(n, r) \<in> set (AList.update k v cs) \<Longrightarrow> (n, r) \<in> set cs \<or> r = v"
  by (induction cs) (auto split: if_splits)

lemma configs_wf_update: "configs_wf cs \<Longrightarrow> shimBinary (rn_config rc) \<noteq> [] \<Longrightarrow> configs_wf (AList.update name rc cs)"
  using in_update by (fastforce simp: configs_wf_def distinct_update)

lemma loadConfigFile_binary: "loadConfigFile rv path = Inr rc \<Longrightarrow> shimBinary (rn_config rc) \<noteq> []"
  by (auto simp: loadConfigFile_def Let_def split: sum.splits if_splits)

lemma load_dir_wf: "load_dir rv es cs = Inr ds \<Longrightarrow> configs_wf cs \<Longrightarrow> configs_wf ds"
  by (induction rv es cs rule: load_dir.induct)
    (auto dest: loadConfigFile_binary simp: configs_wf_update split: if_splits sum.splits)

lemma discoverConfigs_wf:
  assumes "discoverConfigs rv = Inr cs"
  shows "configs_wf cs"
proof -
  obtain ds es where d: "dir_configs rv = Inr ds" and e: "flag_config rv ds = Inr es"
    and cs: "cs = es \<or> (\<exists>v. v \<noteq> [] \<and> cs = [(''default'', default_config v)])"
    using assms by (auto simp: discoverConfigs_def Let_def split: sum.splits if_splits)
  have "configs_wf ds"
    using d load_dir_wf [of rv _ "[]" ds] by (auto simp: dir_configs_def configs_wf_def split: if_splits sum.splits)
  then have "configs_wf es"
    using e by (auto simp: flag_config_def configs_wf_update split: if_splits sum.splits dest: loadConfigFile_binary)
  then show ?thesis using cs by (auto simp: configs_wf_def default_config_def of_json_def)
qed

text \<open>The child is told of one configuration only: none of the two flags is handed on.\<close>

lemma strip_args_clean: "a \<in> set (strip_args args) \<Longrightarrow> \<not> config_flag a \<and> \<not> config_word a"
  by (induction args rule: strip_args.induct) (auto split: if_splits)

text \<open>
  An exit status of 0 means that what was run here gave 0, and that every child's user exists
  and every child gave 0.
\<close>

lemma reexec_all_zero:
  "reexec_all users child uid cs code = 0 \<Longrightarrow>
     code = 0 \<and> (\<forall>(name, rc) \<in> set cs. \<exists>u. users (target_uid uid rc) = Inr u \<and> child u rc = 0)"
proof (induction cs arbitrary: code)
  case (Cons x cs)
  obtain name rc where x: "x = (name, rc)" by fastforce
  show ?case
  proof (cases "users (target_uid uid rc)")
    case (Inl e)
    with Cons.prems x have "reexec_all users child uid cs 1 = 0" by simp
    from Cons.IH [OF this] show ?thesis by simp
  next
    case (Inr u)
    with Cons.prems x have "reexec_all users child uid cs (if child u rc \<noteq> 0 then child u rc else code) = 0"
      by (simp add: Let_def)
    from Cons.IH [OF this] Inr x show ?thesis by (auto split: if_splits)
  qed
qed simp

lemma testMain_zero:
  assumes "testMain users child mRun uid euid isReexec found = 0"
  shows "\<exists>cs. found = Inr cs \<and> cs \<noteq> [] \<and> (runs_here uid cs \<longrightarrow> mRun = 0)
    \<and> (euid = 0 \<and> \<not> isReexec \<longrightarrow> (\<forall>(name, rc) \<in> set cs. target_uid uid rc \<noteq> uid \<longrightarrow>
         (\<exists>u. users (target_uid uid rc) = Inr u \<and> child u rc = 0)))"
proof -
  obtain cs where cs: "found = Inr cs" "cs \<noteq> []"
    and r: "reexec_all users child uid (filter (\<lambda>(name, rc). name \<in> set (reexec_names uid euid isReexec cs)) cs)
      (if runs_here uid cs then mRun else 0) = 0"
    using assms by (auto simp: testMain_def split: sum.splits if_splits)
  from reexec_all_zero [OF r] have m: "runs_here uid cs \<longrightarrow> mRun = 0"
    and c: "\<forall>(name, rc) \<in> set cs. name \<in> set (reexec_names uid euid isReexec cs) \<longrightarrow>
      (\<exists>u. users (target_uid uid rc) = Inr u \<and> child u rc = 0)"
    by (auto split: if_splits)
  have "\<forall>(name, rc) \<in> set cs. target_uid uid rc \<noteq> uid \<longrightarrow> (\<exists>u. users (target_uid uid rc) = Inr u \<and> child u rc = 0)"
    if "euid = 0 \<and> \<not> isReexec"
    using c that by (force simp: reexec_names_def)
  with cs m show ?thesis by blast
qed

text \<open>
  When no configuration can run here and the process is not root, nothing is run at all, not
  even the skips that would name the reason, and the exit status is 0.
\<close>

lemma testMain_runs_nothing:
  assumes "cs \<noteq> []" and "\<not> runs_here uid cs" and "euid \<noteq> 0"
  shows "testMain users child mRun uid euid isReexec (Inr cs) = 0"
  using assms by (simp add: testMain_def reexec_names_def)

text \<open>
  The leak check of a part of a test is made at the end of the whole test: nothing runs then
  that did not run when it was registered.
\<close>

lemma leak_check_first:
  assumes "finish (andThen (leak_check lab bin) f) s = (Passed, s')"
  shows "registerShimLeakCheck (lb_procfs lab s) (lb_procfs lab s') bin = []"
proof -
  obtain r es cs t where f: "f () s = (r, es, cs, t)" by (rule test_result)
  obtain es2 u where c: "run_closings cs t = (es2, u)" by (metis prod.collapse)
  have "andThen (leak_check lab bin) f s
      = (r, es, cs @ [\<lambda>s1. (registerShimLeakCheck (lb_procfs lab s) (lb_procfs lab s1) bin, s1)], t)"
    using f by (simp add: leak_check_def andThen_def act_def on_cleanup_def)
  then have "verdict_of r (es @ es2 @ registerShimLeakCheck (lb_procfs lab s) (lb_procfs lab u) bin) = Passed \<and> s' = u"
    using assms c by (auto simp: finish_def run_closings_append)
  then show ?thesis by (auto simp: verdict_of_def split: stop.splits if_splits)
qed

lemma profile_checks_first:
  "profile rn rc = andThen (activateConfig rn rc) (\<lambda>u. andThen (leak_check (rn_lab rn) (shimBinary (rn_config rc)))
     (\<lambda>u. andThen (inOrder (map (\<lambda>(name, test). subtest name (test (in_subtest (rn_lab rn) name) (rn_config rc))) RunSuite))
       (\<lambda>u. inOrder (tl (before_stress rn rc) @ [subtest ''Stress'' (stress_run rn rc)]))))"
  by (simp add: profile_def before_stress_def Let_def suite_run_def andThen_assoc)

lemma profile_no_leak:
  fixes rn :: "'s runner"
  assumes "finish (profile rn rc) s = (Passed, s')"
    and "s0 = fold (\<lambda>(k, v). rn_setenv rn k v) (cfg_env (rn_config rc)) s"
    and "p_evalSymlinks (lb_procfs (rn_lab rn) s0) (shimBinary (rn_config rc)) = Inr target"
    and "p_evalSymlinks (lb_procfs (rn_lab rn) s') (shimBinary (rn_config rc)) = Inr target"
    and "runs_shim (lb_procfs (rn_lab rn) s') target pid"
  shows "runs_shim (lb_procfs (rn_lab rn) s0) target pid"
proof -
  have act: "finish (andThen (activateConfig rn rc) (\<lambda>u. m)) s = finish m s0" for m :: "('s, unit) test"
    using assms(2) by (simp add: finish_def andThen_def activateConfig_def act_def split: prod.split stop.split)
  have "registerShimLeakCheck (lb_procfs (rn_lab rn) s0) (lb_procfs (rn_lab rn) s') (shimBinary (rn_config rc)) = []"
    using assms(1) unfolding profile_checks_first act by (rule leak_check_first)
  then show ?thesis using leak_check_clean [OF assms(3,4)] assms(5) by blast
qed

text \<open>A run reported as passed: every profile this process can run was, and did not fail.\<close>

lemma testShim_profiles:
  assumes "finish (testShim rn uid cs) s = (Passed, s')" and "configs_wf cs" and "(name, rc) \<in> set cs"
    and "target_uid uid rc = uid"
  shows "\<exists>t. fst (finish (profile (rn\<lparr>rn_lab := in_subtest (rn_lab rn) name\<rparr>) rc) t) \<noteq> Failed"
proof -
  obtain t where run: "passes (testShim rn uid cs) s () t"
    using finish_passed [OF assms(1)] by (metis unit.exhaust)
  have each: "\<exists>t. fst (finish (profile_test rn uid cs n) t) \<noteq> Failed"
    if "passes (inOrder (map (\<lambda>n. subtest n (profile_test rn uid cs n)) names)) s0 () t" and "n \<in> set names" for names n s0
    using that
  proof (induction names arbitrary: s0)
    case (Cons m names)
    then show ?case by (auto simp: passes_andThen passes_subtest)
  qed simp
  have m: "map_of cs name = Some rc" using assms(2,3) by (simp add: configs_wf_def)
  have "name \<in> set (sortedConfigNames cs)" using assms(3) by (force simp: sortedConfigNames_def)
  with each [of "sortedConfigNames cs"] run obtain t where "fst (finish (profile_test rn uid cs name) t) \<noteq> Failed"
    by (auto simp: testShim_def)
  then show ?thesis using m assms(4) by (auto simp: profile_test_def checkRunnable_def)
qed

text \<open>
  Outside Linux the skip of the sandbox suite is on the profile's own test, so it ends the
  profile: the stress suite does not run, whatever it is, and the profile is never reported as
  passed.
\<close>

text \<open>
  C38. Outside Linux, where the sandbox suite skips on the test it is given, a profile
  that does not list sandbox among its skips behaves the same whatever the stress suite
  is, because it never runs it, and is never reported as passed.
\<close>

theorem sandbox_skip_drops_stress:
  fixes rn :: "'s runner"
  assumes "\<not> rn_linux rn" and "\<not> featureSkipped rc ''sandbox''"
  shows "profile (rn\<lparr>rn_stress := sx\<rparr>) rc = profile rn rc \<and> fst (finish (profile rn rc) s) \<noteq> Passed"
proof -
  let ?msg = "''SandboxSuite is Linux-only (virtiofs-backed shared filesystem)''"
  have stop: "andThen (skip e) f = skip e" for e and f :: "'b \<Rightarrow> ('c, 'd) test"
    by (rule ext) (simp add: andThen_def skip_def)
  obtain ms where ms: "\<And>sx. before_stress (rn\<lparr>rn_stress := sx\<rparr>) rc = ms @ [skip ?msg]"
    using assms by (simp add: before_stress_def Let_def unless_skipped_def sandbox_run_def SandboxSuite_Run_other_def)
  have p: "profile (rn\<lparr>rn_stress := sx\<rparr>) rc = andThen (activateConfig rn rc) (\<lambda>u. andThen (inOrder ms) (\<lambda>u. skip ?msg))" for sx
    unfolding profile_def ms inOrder_append append_assoc by (simp add: activateConfig_def stop)
  have "fst (finish (andThen m (\<lambda>u. skip e)) s) \<noteq> Passed" for m :: "('s, unit) test" and e s
    by (auto simp: finish_def andThen_def skip_def verdict_of_def split: prod.splits stop.splits)
  then show ?thesis using p [of sx] p [of "rn_stress rn"] by (simp add: andThen_assoc [symmetric])
qed

lemma sandbox_skip_drops_stress_witness:
  "\<forall>(rn :: nat runner) sx. let rn0 = rn\<lparr>rn_linux := False\<rparr>; rc = default_config ''/usr/bin/shim'' in
     profile (rn0\<lparr>rn_stress := sx\<rparr>) rc = profile rn0 rc \<and> fst (finish (profile rn0 rc) 0) \<noteq> Passed"
  unfolding Let_def
  by (intro allI sandbox_skip_drops_stress) (simp_all add: featureSkipped_def default_config_def of_json_def)

end
