(* ===== verification/Reexec.thy ===== *)
theory Reexec
  imports Runner
begin

text \<open>
  Running a profile of another user (\<^verbatim>\<open>reexecAsUser\<close> of \<^verbatim>\<open>main_test.go\<close>): the resolved
  configuration is written to a temporary file, and the test binary is started again with sudo
  and env. The property follows the child through its own TestMain back to the exit status the
  parent sees.
\<close>

section \<open>The parent\<close>

text \<open>
  \<open>rx_encode\<close> is \<^verbatim>\<open>json.Marshal\<close> of the schema, \<open>rx_write\<close> the write and close of the file, whose
  errors are dropped; \<open>rx_abs\<close> is empty where \<^verbatim>\<open>filepath.Abs\<close> fails. A run of sudo ends well, with
  an exit status (minus one after a signal), or does not start.
\<close>

datatype sudo_end = SudoDone | SudoExit int | SudoError err

record 's rehost =
  rx_executable :: "string result"
  rx_lookPath :: "string \<Rightarrow> 's \<Rightarrow> string result"
  rx_abs :: "string \<Rightarrow> 's \<Rightarrow> string"
  rx_encode :: "runConfigJSON \<Rightarrow> bytes result"
  rx_createTemp :: "'s \<Rightarrow> string result \<times> 's"
  rx_write :: "string \<Rightarrow> bytes \<Rightarrow> 's \<Rightarrow> 's"
  rx_chmod :: "string \<Rightarrow> nat \<Rightarrow> 's \<Rightarrow> 's"
  rx_remove :: "string \<Rightarrow> 's \<Rightarrow> 's"
  rx_getenv :: "string \<Rightarrow> 's \<Rightarrow> string"
  rx_sudo :: "string list \<Rightarrow> 's \<Rightarrow> sudo_end \<times> 's"

definition absolute_binary :: "'s rehost \<Rightarrow> runConfig \<Rightarrow> 's \<Rightarrow> string" where
  "absolute_binary rx rc s = (let bin = shimBinary (rn_config rc) in
     rx_abs rx (case rx_lookPath rx bin s of Inl e \<Rightarrow> bin | Inr p \<Rightarrow> p) s)"

definition sudo_code :: "sudo_end \<Rightarrow> int" where
  "sudo_code r = (case r of SudoDone \<Rightarrow> 0 | SudoExit c \<Rightarrow> c | SudoError e \<Rightarrow> 1)"

text \<open>\<open>args\<close> is \<^verbatim>\<open>os.Args\<close>. The file is removed however the child ends.\<close>

definition reexecAsUser :: "'s rehost \<Rightarrow> string list \<Rightarrow> string \<Rightarrow> runConfig \<Rightarrow> 's \<Rightarrow> int \<times> 's" where
  "reexecAsUser rx args username rc s =
     (case rx_executable rx of
        Inl e \<Rightarrow> (1, s)
      | Inr exe \<Rightarrow> let bin = absolute_binary rx rc s in
         (case rx_encode rx (to_json (with_binary bin rc)) of
            Inl e \<Rightarrow> (1, s)
          | Inr data \<Rightarrow>
             (case rx_createTemp rx s of
                (Inl e, t) \<Rightarrow> (1, t)
              | (Inr cfgFile, t) \<Rightarrow>
                  let t1 = rx_chmod rx cfgFile 420 (rx_write rx cfgFile data t) in
                  (case rx_sudo rx (sudo_args username (path_dir bin) (rx_getenv rx ''PATH'' t1) exe cfgFile
                      (cfg_env (rn_config rc)) (tl args)) t1 of
                     (r, t2) \<Rightarrow> (sudo_code r, rx_remove rx cfgFile t2)))))"

section \<open>The child\<close>

text \<open>
  \<^verbatim>\<open>env\<close> takes the leading words with an equals sign as assignments, the last of a name wins, and
  runs the first other word with what follows it; sudo has cleared the environment before.
\<close>

definition assigns :: "string \<Rightarrow> bool" where
  "assigns a \<longleftrightarrow> CHR ''='' \<in> set a"

definition env_setting :: "string list \<Rightarrow> string \<Rightarrow> string" where
  "env_setting words v =
     (case filter (\<lambda>a. has_prefix a (v @ ''='')) (takeWhile assigns words) of
        [] \<Rightarrow> []
      | as \<Rightarrow> drop (length v + 1) (last as))"

definition env_command :: "string list \<Rightarrow> string list" where
  "env_command words = dropWhile assigns words"

text \<open>
  The test binary started so: \<open>flag_value\<close> is the value \<^verbatim>\<open>flag.Parse\<close> gives the flag for one
  configuration, \<open>reads\<close> the file system, \<open>json\<close> the JSON decoder and \<open>tests\<close> the exit status of
  \<^verbatim>\<open>m.Run\<close> with these configurations.
\<close>

definition child_env ::
    "(string list \<Rightarrow> string) \<Rightarrow> (string \<Rightarrow> bytes result) \<Rightarrow> (bytes \<Rightarrow> runConfigJSON result) \<Rightarrow> string list \<Rightarrow> runenv" where
  "child_env flag_value reads json words =
     \<lparr>rv_configDir = [], rv_configFlag = flag_value (tl (env_command words)), rv_getenv = env_setting words,
      rv_readdir = (\<lambda>d. Inl ''no directory given''), rv_readfile = reads, rv_decode = json\<rparr>"

definition child_status ::
    "(string list \<Rightarrow> string) \<Rightarrow> (string \<Rightarrow> bytes result) \<Rightarrow> (bytes \<Rightarrow> runConfigJSON result)
      \<Rightarrow> (int \<Rightarrow> string result) \<Rightarrow> (string \<Rightarrow> runConfig \<Rightarrow> int) \<Rightarrow> (configs \<Rightarrow> int) \<Rightarrow> int \<Rightarrow> string list \<Rightarrow> int" where
  "child_status flag_value reads json users child tests u words =
     (let found = discoverConfigs (child_env flag_value reads json words) in
      testMain users child (case found of Inl e \<Rightarrow> 0 | Inr cs \<Rightarrow> tests cs) u u (env_setting words ''SHIMTEST_REEXEC'' \<noteq> []) found)"

text \<open>What sudo does with such a command line, and the documented behaviour of the flag package.\<close>

definition sudo_runs ::
    "'s rehost \<Rightarrow> string \<Rightarrow> (string list \<Rightarrow> 's \<Rightarrow> int) \<Rightarrow> bool" where
  "sudo_runs rx username status \<longleftrightarrow>
     (\<forall>words t. fst (rx_sudo rx ([''-Hu'', username, ''--'', ''env''] @ words) t)
        = (if status words t = 0 then SudoDone else SudoExit (status words t)))"

definition reads_config_flag :: "(string list \<Rightarrow> string) \<Rightarrow> bool" where
  "reads_config_flag flag_value \<longleftrightarrow>
     (\<forall>f args. (\<forall>a \<in> set args. \<not> config_flag a \<and> \<not> config_word a) \<longrightarrow> flag_value ((''-shimtest.config='' @ f) # args) = f)"

section \<open>From the profile to the child and back\<close>

definition child_words :: "string \<Rightarrow> string \<Rightarrow> string \<Rightarrow> string \<Rightarrow> (string \<times> string) list \<Rightarrow> string list \<Rightarrow> string list" where
  "child_words shimDir path exe cfgFile env args =
     [''SHIMTEST_REEXEC=1'', ''PATH='' @ shimDir @ CHR '':'' # path]
     @ map (\<lambda>(k, v). k @ CHR ''='' # v) env @ [exe, ''-shimtest.config='' @ cfgFile] @ strip_args args"

lemma sudo_args_words:
  "sudo_args username shimDir path exe cfgFile env args
     = [''-Hu'', username, ''--'', ''env''] @ child_words shimDir path exe cfgFile env args"
  by (simp add: sudo_args_def child_words_def)

lemma child_words_env:
  assumes "\<not> assigns exe"
  shows "takeWhile assigns (child_words shimDir path exe cfgFile env args)
      = [''SHIMTEST_REEXEC=1'', ''PATH='' @ shimDir @ CHR '':'' # path] @ map (\<lambda>(k, v). k @ CHR ''='' # v) env"
    and "tl (env_command (child_words shimDir path exe cfgFile env args)) = (''-shimtest.config='' @ cfgFile) # strip_args args"
proof -
  let ?as = "[''SHIMTEST_REEXEC=1'', ''PATH='' @ shimDir @ CHR '':'' # path] @ map (\<lambda>(k, v). k @ CHR ''='' # v) env"
  have all: "\<forall>a \<in> set ?as. assigns a" by (auto simp: assigns_def)
  have w: "child_words shimDir path exe cfgFile env args = ?as @ exe # (''-shimtest.config='' @ cfgFile) # strip_args args"
    by (simp add: child_words_def)
  show "takeWhile assigns (child_words shimDir path exe cfgFile env args) = ?as"
    unfolding w using all assms by (subst takeWhile_append2) auto
  show "tl (env_command (child_words shimDir path exe cfgFile env args)) = (''-shimtest.config='' @ cfgFile) # strip_args args"
    unfolding w env_command_def using all assms by (subst dropWhile_append2) auto
qed

lemma child_words_binary:
  assumes "\<not> assigns exe" and "\<forall>(k, v) \<in> set env. \<not> has_prefix (k @ CHR ''='' # v) ''SHIM_BINARY=''"
  shows "env_setting (child_words shimDir path exe cfgFile env args) ''SHIM_BINARY'' = []"
proof -
  have "filter (\<lambda>a. has_prefix a ''SHIM_BINARY='') (map (\<lambda>(k, v). k @ CHR ''='' # v) env) = []"
    using assms(2) by (force simp: filter_empty_conv)
  then show ?thesis
    unfolding env_setting_def child_words_env [OF assms(1)] by (simp add: has_prefix_def)
qed

text \<open>What the child finds: the profile alone, under the name of the file.\<close>

lemma child_finds:
  assumes "rv_configDir rv = []" and "rv_configFlag rv = cfgFile" and "cfgFile \<noteq> []" and "rv_getenv rv ''SHIM_BINARY'' = []"
    and "rv_readfile rv cfgFile = Inr data" and "rv_decode rv data = Inr (to_json rc)" and "shimBinary (rn_config rc) \<noteq> []"
  shows "discoverConfigs rv = Inr [(trim_suffix (path_base cfgFile) ''.json'', rc)]"
  using assms by (simp add: discoverConfigs_def dir_configs_def flag_config_def loadConfigFile_def json_roundtrip)

lemma child_runs: "rn_uid rc = Some u \<Longrightarrow> testMain users child n u u b (Inr [(name, rc)]) = n"
  by (simp add: testMain_def runs_here_def reexec_names_def target_uid_def)

text \<open>
  What the code relies on: the JSON codec decodes what it encodes, and a file written and made
  readable reads as its content.
\<close>

definition rehost_laws :: "'s rehost \<Rightarrow> (string \<Rightarrow> 's \<Rightarrow> bytes result) \<Rightarrow> (bytes \<Rightarrow> runConfigJSON result) \<Rightarrow> bool" where
  "rehost_laws rx rd json \<longleftrightarrow>
     (\<forall>j d. rx_encode rx j = Inr d \<longrightarrow> json d = Inr j) \<and> (\<forall>f m d s. rd f (rx_chmod rx f m (rx_write rx f d s)) = Inr d)"


text \<open>The names a pattern of \<^verbatim>\<open>os.CreateTemp\<close> gives never name the profile itself.\<close>

lemma child_name: "trim_suffix (path_base ''/tmp/shimtest-config-42.json'') ''.json'' = ''shimtest-config-42''"
  by code_simp

end
