(* ===== verification/Examples_Runner.thy ===== *)
theory Examples_Runner
  imports Reexec
begin

text \<open>A host on which the runner starts itself again as another user.\<close>

section \<open>A child\<close>

text \<open>
  A host with one file: sudo runs the child, whose tests give status 3 for a profile of user 1000.
\<close>

definition demo_json :: "runConfigJSON \<Rightarrow> bytes" where
  "demo_json j = j_shim_binary j"

definition demo_profile :: runConfig where
  "demo_profile = (default_config ''shim'')\<lparr>rn_uid := Some 1000\<rparr>"

definition demo_read :: "bytes \<Rightarrow> runConfigJSON result" where
  "demo_read d = Inr (to_json (with_binary d demo_profile))"

definition demo_flag :: "string list \<Rightarrow> string" where
  "demo_flag args = drop (length ''-shimtest.config='') (hd args)"

definition demo_status :: "string list \<Rightarrow> bytes \<Rightarrow> int" where
  "demo_status words t = child_status demo_flag (\<lambda>p. Inr t) demo_read (\<lambda>u. Inl ''no user'') (\<lambda>u rc. 0) (\<lambda>cs. 3) 1000 words"

definition demo_rehost :: "bytes rehost" where
  "demo_rehost =
     \<lparr>rx_executable = Inr ''/tmp/shim.test'', rx_lookPath = (\<lambda>b s. Inr (''/bin/'' @ b)), rx_abs = (\<lambda>p s. p),
      rx_encode = (\<lambda>j. if j = to_json (with_binary (j_shim_binary j) demo_profile) then Inr (demo_json j) else Inl ''unsupported''),
      rx_createTemp = (\<lambda>s. (Inr ''/tmp/shimtest-config-42.json'', s)), rx_write = (\<lambda>f d s. d), rx_chmod = (\<lambda>f m s. s),
      rx_remove = (\<lambda>f s. []), rx_getenv = (\<lambda>v s. ''/bin''),
      rx_sudo = (\<lambda>args t. (let n = demo_status (drop 4 args) t in if n = 0 then SudoDone else SudoExit n, t))\<rparr>"


end
