(* ===== verification/Bench_Runner.thy ===== *)
theory Bench_Runner
  imports Runner Bench
begin

text \<open>
  The runner's two other entries: the benchmarks of every profile (\<^verbatim>\<open>BenchmarkShim\<close> of
  \<^verbatim>\<open>runner_test.go\<close>) and the fuzz target on the first of them (\<^verbatim>\<open>fuzz_test.go\<close>).
\<close>

section \<open>Benchmarks\<close>

text \<open>The benchmark of sandboxes has a tracking of its own beside the timer.\<close>

definition swap_states :: "(('s \<times> 'e) \<times> 'b, 'a) test \<Rightarrow> (('s \<times> 'b) \<times> 'e, 'a) test" where
  "swap_states m x =
     (case x of ((s, b), e) \<Rightarrow>
       (case m ((s, e), b) of (r, es, cs, ((s1, e1), b1)) \<Rightarrow>
         (r, es, map (\<lambda>c y. case y of ((s, b), e) \<Rightarrow>
            (case c ((s, e), b) of (out, ((s2, e2), b2)) \<Rightarrow> (out, ((s2, b2), e2)))) cs, ((s1, b1), e1))))"

definition sandbox_bench_run :: "'s benchlab \<Rightarrow> 's runner \<Rightarrow> config \<Rightarrow> ('s \<times> bench, unit) test" where
  "sandbox_bench_run bl rn cfg =
     (if rn_linux rn then beside no_members (swap_states (SandboxBench bl (pd_sand (rn_pod rn)) cfg))
      else SandboxSuite_Bench_other)"

definition unless_skipped_bench :: "runConfig \<Rightarrow> string \<Rightarrow> ('s \<times> bench, unit) test \<Rightarrow> ('s \<times> bench, unit) test" where
  "unless_skipped_bench rc feature m = (if featureSkipped rc feature then ret () else m)"

definition bench_suites :: "'s benchlab \<Rightarrow> 's runner \<Rightarrow> runConfig \<Rightarrow> ('s \<times> bench, unit) test list" where
  "bench_suites bl rn rc = (let c = rn_config rc in
     [bench_suite bl c RunBench,
      unless_skipped_bench rc ''exec'' (bench_suite bl c (ExecBench bl)),
      unless_skipped_bench rc ''uds'' (bench_suite bl c (UDSBench bl)),
      unless_skipped_bench rc ''layers'' (bench_suite bl c LayersBench),
      unless_skipped_bench rc ''sandbox'' (sandbox_bench_run bl rn c)])"

definition bench_profile :: "'s benchlab \<Rightarrow> 's runner \<Rightarrow> runConfig \<Rightarrow> ('s \<times> bench, unit) test" where
  "bench_profile bl rn rc = andThen (inner (activateConfig rn rc)) (\<lambda>u. inOrder (bench_suites bl rn rc))"

definition on_bench :: "'s benchlab \<Rightarrow> string \<Rightarrow> 's benchlab" where
  "on_bench bl name = bl\<lparr>bl_net := (bl_net bl)\<lparr>nl_lab := in_subtest (nl_lab (bl_net bl)) name\<rparr>\<rparr>"

definition bench_profile_test ::
    "'s benchlab \<Rightarrow> 's runner \<Rightarrow> int \<Rightarrow> configs \<Rightarrow> string \<Rightarrow> ('s \<times> bench, unit) test" where
  "bench_profile_test bl rn uid cs name =
     (case map_of cs name of
        None \<Rightarrow> ret ()
      | Some rc \<Rightarrow>
          if checkRunnable uid rc \<noteq> [] then skip (''skipping: '' @ checkRunnable uid rc)
          else bench_profile (on_bench bl name) rn rc)"

text \<open>A benchmark with sub-benchmarks runs once.\<close>

definition benchmarkShim :: "'s benchlab \<Rightarrow> 's runner \<Rightarrow> int \<Rightarrow> configs \<Rightarrow> ('s \<times> bench, unit) test" where
  "benchmarkShim bl rn uid cs =
     inOrder (map (\<lambda>name. sub_bench (bl_clock bl) [1] name (\<lambda>n. bench_profile_test bl rn uid cs name))
       (sortedConfigNames cs))"

text \<open>The skips a benchmark can make itself.\<close>

definition skipFeature :: "runConfig \<Rightarrow> string \<Rightarrow> ('s, unit) test" where
  "skipFeature rc feature =
     (if featureSkipped rc feature then skip (''feature '' @ quote feature @ '' disabled in config'') else ret ())"

definition skipFeatureBench :: "runConfig \<Rightarrow> string \<Rightarrow> ('s \<times> bench, unit) test" where
  "skipFeatureBench rc feature = skipFeature rc feature"

section \<open>The fuzz target\<close>

definition pickFuzzConfig :: "configs \<Rightarrow> (runConfig \<times> string) option" where
  "pickFuzzConfig cs =
     (case sortedConfigNames cs of
        [] \<Rightarrow> None
      | name # names \<Rightarrow> map_option (\<lambda>rc. (rc, name)) (map_of cs name))"

definition fuzzTransferMissing :: "'s runner \<Rightarrow> configs \<Rightarrow> string list \<Rightarrow> ('s, unit) test" where
  "fuzzTransferMissing rn cs inputs =
     (case pickFuzzConfig cs of
        None \<Rightarrow> skip ''no configuration available''
      | Some (rc, name) \<Rightarrow>
          andThen (activateConfig rn rc) (\<lambda>u.
          if featureSkipped rc ''transfer'' then skip ''feature \"transfer\" disabled in config''
          else transfer_fuzz ((rn_xfer rn)\<lparr>xl_lab := rn_lab rn\<rparr>) (rn_config rc) inputs))"

section \<open>What these entries guarantee\<close>

text \<open>A configuration is always picked when there is one, and it is the first by name.\<close>

lemma sortedConfigNames_set: "set (sortedConfigNames cs) = dom (map_of cs)"
  by (simp add: sortedConfigNames_def dom_map_of_conv_image_fst image_image)

lemma pickFuzzConfig_first:
  assumes "cs \<noteq> []"
  shows "\<exists>rc name. pickFuzzConfig cs = Some (rc, name) \<and> map_of cs name = Some rc \<and> (\<forall>n \<in> fst ` set cs. name \<le> n)"
proof -
  have "sortedConfigNames cs \<noteq> []" using assms sortedConfigNames_set [of cs] by (metis dom_eq_empty_conv list.set(1) map_of_eq_empty_iff)
  then obtain name names where s: "sortedConfigNames cs = name # names" by (cases "sortedConfigNames cs") auto
  have "name \<in> dom (map_of cs)" using s sortedConfigNames_set [of cs] by auto
  then obtain rc where m: "map_of cs name = Some rc" by auto
  have "sorted (sortedConfigNames cs)" by (simp add: sortedConfigNames_def)
  then have "\<forall>n \<in> set (sortedConfigNames cs). name \<le> n" unfolding s by auto
  then have "\<forall>n \<in> fst ` set cs. name \<le> n" by (simp add: sortedConfigNames_set dom_map_of_conv_image_fst)
  with s m show ?thesis by (simp add: pickFuzzConfig_def)
qed

text \<open>
  The fuzz target does not ask whether this process can run the profile: one of another user,
  which the tests skip, is run by it all the same.
\<close>

lemma fuzz_runs_foreign_profile:
  assumes "pickFuzzConfig cs = Some (rc, name)" and "target_uid uid rc \<noteq> uid" and "\<not> featureSkipped rc ''transfer''"
  shows "profile_test rn uid cs name = skip (''skipping: '' @ checkRunnable uid rc)
    \<and> fuzzTransferMissing rn cs inputs
      = andThen (activateConfig rn rc) (\<lambda>u. transfer_fuzz ((rn_xfer rn)\<lparr>xl_lab := rn_lab rn\<rparr>) (rn_config rc) inputs)"
proof -
  have m: "map_of cs name = Some rc"
    using assms(1) by (auto simp: pickFuzzConfig_def split: list.splits)
  from assms(2) have "checkRunnable uid rc \<noteq> []" by (simp add: checkRunnable_def)
  then show ?thesis using assms(1,3) m by (simp add: profile_test_def fuzzTransferMissing_def)
qed

text \<open>
  Outside Linux the skip of the sandbox benchmarks is the last of a profile, so that, unlike
  the skip of the sandbox tests, it takes nothing else with it.
\<close>

lemma bench_skip_is_last:
  assumes "\<not> rn_linux rn" and "\<not> featureSkipped rc ''sandbox''"
  shows "bench_profile bl rn rc = andThen (bench_profile bl rn (rc\<lparr>rn_skip := ''sandbox'' # rn_skip rc\<rparr>)) (\<lambda>u. SandboxSuite_Bench_other)"
proof -
  have [simp]: "featureSkipped (rc\<lparr>rn_skip := ''sandbox'' # rn_skip rc\<rparr>) f \<longleftrightarrow> f = ''sandbox'' \<or> featureSkipped rc f" for f
    by (simp add: featureSkipped_def)
  have [simp]: "activateConfig rn (rc\<lparr>rn_skip := ''sandbox'' # rn_skip rc\<rparr>) = activateConfig rn rc"
    by (simp add: activateConfig_def)
  show ?thesis
    using assms by (simp add: bench_profile_def bench_suites_def Let_def sandbox_bench_run_def unless_skipped_bench_def andThen_assoc)
qed

end
