(* ===== verification/Spec2Isabelle.thy ===== *)
theory Spec2Isabelle
  imports Examples_Bench Examples_Conformance Examples_Runner Bench_Runner
begin

text \<open>
  A model of shimtest, the conformance test suite for containerd shims, and of testbin, the
  multicall binary it runs inside the containers it asks a shim to create.

  \<^bold>\<open>The program.\<close> A test binary is given profiles, each naming a shim (\<^verbatim>\<open>main_test.go\<close>). For each
  profile the runner calls the suites in a fixed order (\<^verbatim>\<open>runner_test.go\<close>). A test of a suite
  builds a rootfs with testbin in it (\<^verbatim>\<open>rootfs.go\<close>) and an OCI spec (\<^verbatim>\<open>helpers.go\<close>), runs the
  shim's start command, decodes what it prints and connects to the socket it names
  (\<^verbatim>\<open>helpers.go\<close>, \<^verbatim>\<open>shimenv.go\<close>, \<^verbatim>\<open>connect_*.go\<close>), drives containers, processes, sandboxes and
  transfers over that connection (\<^verbatim>\<open>taskclient.go\<close>, the \<^verbatim>\<open>*_suite*.go\<close> files), reads what testbin
  wrote through FIFOs or named pipes (\<^verbatim>\<open>io_*.go\<close>), and at the end looks for processes of the
  shim that are still there (\<^verbatim>\<open>proc_*.go\<close>). What testbin prints and what the suites expect are
  two halves of one contract: payloads, checksums, markers and exit codes.

  \<^bold>\<open>How code is translated.\<close> A function is a definition under its own name, with the suffix
  \<open>_win\<close> or \<open>_other\<close> for the variant of another platform where the name is taken, and with a
  name of its own kind where two files use one (testLifecycle of the stress suite is
  \<open>testLifecycleStress\<close>). A struct is a record, a set of constants or of alternatives a datatype;
  an error result is \<open>err + 'a\<close>, with the error's text, or \<open>err option\<close>. Bytes and strings are
  lists of characters. A checksum is a 32-bit word; Go's 64-bit \<^verbatim>\<open>int\<close> is an integer with the
  wrap-around written out (\<open>wrap64\<close>, \<open>tiledPayload\<close>'s offset is a word), counters of
  Windows pipe names are 64-bit words.

  The world is a type parameter. A record of a component gives the operations on it that are not
  the program's: \<open>kernel\<close> for testbin's system calls, \<open>host\<close> for images and directories,
  \<open>starter\<close> for running a shim, \<open>procfs\<close>, \<open>netlab\<close>, \<open>sandlab\<close>, \<open>stresslab\<close>, \<open>benchlab\<close>, \<open>winlab\<close>
  and, over all of them, \<open>lab\<close>. A shim is a function from requests to responses over that world
  (\<open>service\<close>, \<open>sandbox_service\<close>, \<open>transfer\<close>). Nothing is assumed of these beyond what a theorem
  names as a hypothesis; such hypotheses (\<open>erofs_laws\<close>, \<open>overlay_laws\<close>, \<open>memory_laws\<close>,
  \<open>sysv_laws\<close>, \<open>wire_laws\<close>, \<open>lab_laws\<close>, \<open>rehost_laws\<close>, \<open>keeps_pipes\<close>) state documented behaviour, and each
  theorem that has one is applied to a concrete world in an Examples theory.

  \<^bold>\<open>Theories.\<close>

    \<^item> Prelude: types, list facts, and the locales \<open>step_invariant\<close> and \<open>step_measure\<close>
      that every step relation interprets. Gostr: the functions of strconv, strings and filepath
      that the program uses. Crc32c: the Castagnoli checksum, as a stream (locale \<open>stream_hash\<close>).
      Payload: the tiled payload and the big file (\<^verbatim>\<open>exec_suite.go\<close>, \<^verbatim>\<open>rootfs.go\<close>), with the locale
      \<open>endless_reader\<close> for readers through a limited copy.

    \<^item> testbin (\<^verbatim>\<open>testbin/testbin.go\<close>). Testbin_World: a process, its output and its system.
      Testbin_Basic: echo, cat, ls, date, the exits, burstexit, memhog, layercheck. Hashverify: its
      two goroutines and the channel between them as \<open>hv_step\<close>. Testbin_Shm: the shared memory
      commands and hostname. Testbin_Net: nc in its modes, the two copies as \<open>ncStream_step\<close>.
      Testbin_Probe: host, looptest, echosrv, pidscan. Testbin_Main: the dispatch.

    \<^item> Fixtures. Rootfs and Mounts: the calls that write images and the mount descriptors
      (\<^verbatim>\<open>rootfs.go\<close>); Layers: the tree those calls leave and the merged view of a stack. Ocispec:
      the spec and its options (\<^verbatim>\<open>helpers.go\<close>).

    \<^item> Harness. Bootstrap: decoding the start response field by field, startShim, deleteShim,
      the environment and arguments of the shim (\<^verbatim>\<open>helpers.go\<close>). Procs: memory readings, command
      lines and the leak check (\<^verbatim>\<open>proc_linux.go\<close>), socket paths (\<^verbatim>\<open>connect_unix.go\<close>). Events: the
      recorder of published events (\<^verbatim>\<open>events.go\<close>). Taskclient: the version 2 bridge (\<^verbatim>\<open>taskclient.go\<close>).
      Fifo: the draining goroutine (\<^verbatim>\<open>io_unix.go\<close>). Transfers: the stream endpoints and copies
      (\<^verbatim>\<open>internal/transfer\<close>, \<^verbatim>\<open>transfer_io.go\<close>). Testing: Go's \<^verbatim>\<open>testing.TB\<close>. Bringup: everything a
      test does up to a running container, inside a test.

    \<^item> Suites: Run_Suite, Exec_Suite, Hostnet and Network_Suite, Layers_Suite (with the socket
      suite), Transfer_Suite; Sandbox (the environment and its tracking, locale \<open>registry\<close>),
      Sandbox_Suite and Sandbox_Members (with the OOM suite); Workloads, Stress, Load_Race,
      Stress_Suite and Stress_Order (what their common deadline does to tests that run in
      sequence); Bench and Bench_Laws.

    \<^item> Other platforms: Windows, Windows_Laws, Windows_Drain, Windows_Bridge (\<^verbatim>\<open>io_windows.go\<close>,
      \<^verbatim>\<open>connect_windows.go\<close>) and Platforms (\<^verbatim>\<open>proc_windows.go\<close>, \<^verbatim>\<open>proc_other.go\<close>, the stubs and the
      raw FIFOs).

    \<^item> Runner: profiles and the order of the suites (\<^verbatim>\<open>main_test.go\<close>, \<^verbatim>\<open>runner_test.go\<close>); Reexec:
      a profile run again as another user; Bench_Runner: the benchmarks of every profile and the
      fuzz target (\<^verbatim>\<open>fuzz_test.go\<close>).

    \<^item> Conformance: the contract of a shim as two abstract machines, the life of a task and the
      life of a sandbox, and that the tests accept every shim that simulates them.

    \<^item> Examples_Testbin, Examples_Harness, Examples_Suites, Examples_Stress, Examples_Bench,
      Examples_Conformance, Examples_Runner: small worlds on which the theorems are applied.

  \<^bold>\<open>Tests.\<close> A test is a function of the world that gives how it ended (returned, a fatal
  failure, a skip), the errors recorded, the cleanups registered and the world (theory Testing);
  \<open>andThen\<close> sequences two of them, \<open>finish\<close> runs the cleanups, last registered first, and gives
  the verdict. \<open>passes m s a t\<close> is a clean run, and the collection \<open>passes_simps\<close> says for each
  operation what that means; a theorem about a test reads off from a clean run what the shim must
  have answered. Subtests finish, with their cleanups, before their parent goes on; a leak check
  belongs to the test it was registered on. A goroutine of a test that only computes a result the
  test then waits for is run where its result is waited for; where the order of goroutines
  matters they are a step relation or are driven by a schedule.

  \<^bold>\<open>What the groups of lemmas show.\<close>

    \<^item> Contracts of testbin: exit codes and output of each command on every branch; hashverify's
      verdict for every schedule, and that every reachable state can finish; nc's streams
      complete for every interleaving; that shared memory read after written gives the marker.

    \<^item> Agreement of the halves: layercheck accepts what writeLayersErofs writes, as does the
      listing check of the layers suite; the reports of hashverify and nc are what the suites scan
      for; the streamed checksum is the checksum of the whole.

    \<^item> The bootstrap: decoding an encoded response gives its fields, startShim always returns
      and only with an admitted version and an address; the version 2 bridge is a simulation
      (locale \<open>service_sim\<close>); starting inside a test refines startShim.

    \<^item> Tracking and cleaning up: the leak check reports exactly the new processes; a sandbox's
      members are tracked once and all drained by its shutdown; slirp4netns is never left; Windows
      listeners are removed whatever ends the test.

    \<^item> Passing tests: what a clean run of a test has seen, for the run, exec, network, transfer,
      sandbox and stress suites; what a benchmark's metrics add up to; which tests a profile
      cannot reach (after the skip of the sandbox suite outside Linux, and after the first stress
      test under a deadline).

    \<^item> Accepted shims: the converse, a relation between the states of a shim and the stages of a
      task or a sandbox that every call keeps is enough for a clean run of the test, when the
      task's output is what testbin prints for the arguments in the spec. A bring-up that succeeds
      is a hypothesis of these theorems, since it rests on the host as much as on the shim.

    \<^item> The runner: configurations found name a binary; an exit status of 0 means that all that was
      run gave 0; a profile of another user is run by one child, which finds that profile alone.

    \<^item> Streams: drained buffers are complete once done is closed, on FIFOs and on named pipes,
      and on the latter only because of the loop after the error.

  \<^bold>\<open>Loops.\<close> A loop over data is structural or has a measure. A loop that may not end is a
  \<open>partial_function (option)\<close>, whose \<open>None\<close> is not returning: the decoding of the start response,
  the retried connections, the wait for an event, the copies, the stress loop; for each there is
  a lemma that it returns, under the deadline or the progress the code relies on. There is no
  fuel. A polling loop reads a given finite list of observations, those made before its
  deadline. A schedule is a list of goroutine numbers or a function; the theorems hold for every
  one, and where an end is claimed, for each that gives every goroutine a stated number of
  steps. Step relations end by \<open>step_measure\<close>. Clocks are functions of the world, metrics are
  rational numbers (the code's are floating point).

  \<^bold>\<open>Not modelled.\<close> The libraries that are only called: erofs, tar and JSON codecs, protobuf
  messages beyond the start response, the RPC transport, the kernel, \<^verbatim>\<open>ip\<close> and slirp4netns are
  parameters. Log output and helper marks do nothing in the model. Data races on a shared buffer
  are excluded by its mutex. Of the runner, what sudo and env do with a command line is a
  hypothesis. Left out are stubs that only satisfy the compiler on other platforms, the version
  constant, and the \<^verbatim>\<open>main\<close> that calls the dispatch.
\<close>

end
